(* ===== verification/Mux_Prelude.thy ===== *)
theory Mux_Prelude
  imports Complex_Main "HOL-Library.AList" "HOL-Library.Sublist"
begin

text \<open>
  What every component of the development shares: the types that stand for the Python values of
  \<^verbatim>\<open>src/swe_mux\<close>, the search and slicing operations of Python's \<^verbatim>\<open>bytes\<close> and
  \<^verbatim>\<open>list\<close>, a dictionary as an association list in insertion order, the error-or-value
  bind, and the lemma collections the component proofs rewrite with.

  A \<^verbatim>\<open>bytes\<close> object is a \<open>char list\<close>: HOL's \<open>char\<close> has exactly 256 values. A time or a duration, a
  Python float of seconds, is a \<open>rat\<close>: comparisons and differences are exact, rounding is not
  modelled. A Python integer is an \<open>int\<close>.
\<close>

subsection \<open>Types\<close>

type_synonym bytes = "char list"
type_synonym seconds = rat

named_theorems list_view \<open>equations that reduce a component's state to the list it represents\<close>
named_theorems inv_rules \<open>preservation of the components' invariants\<close>

subsection \<open>Slices\<close>

definition take_last :: "nat \<Rightarrow> 'a list \<Rightarrow> 'a list" where
  "take_last n xs = drop (length xs - n) xs"

lemma length_take_last [simp]: "length (take_last n xs) = min n (length xs)"
  by (simp add: take_last_def)

lemma take_last_all: "length xs \<le> n \<Longrightarrow> take_last n xs = xs"
  by (simp add: take_last_def)

lemma take_last_0 [simp]: "take_last 0 xs = []"
  by (simp add: take_last_def)

lemma take_last_min [simp]: "take_last (min n (length xs)) xs = take_last n xs"
  by (simp add: take_last_def min_def)

lemma take_last_append_ge: "n \<le> length ys \<Longrightarrow> take_last n (xs @ ys) = take_last n ys"
  by (simp add: take_last_def)

lemma take_last_append_gt:
  "length ys \<le> n \<Longrightarrow> take_last n (xs @ ys) = take_last (n - length ys) xs @ ys"
  by (auto simp: take_last_def)

lemma take_last_take_last: "take_last m (take_last n xs) = take_last (min m n) xs"
proof (cases "n \<le> length xs")
  case True
  then show ?thesis by (cases "m \<le> n") (simp_all add: take_last_def min_def)
next
  case False
  then show ?thesis by (simp add: take_last_def min_def)
qed

lemma suffix_take_last: "\<exists>p. xs = p @ take_last n xs"
  by (metis append_take_drop_id take_last_def)

lemma take_last_suffix_append:
  "take_last n (take_last n xs @ ys) = take_last n (xs @ ys)"
proof (cases "n \<le> length ys")
  case True
  then show ?thesis by (simp add: take_last_append_ge)
next
  case False
  then show ?thesis
    by (simp add: take_last_append_gt take_last_take_last)
qed

lemma drop_take_last:
  "p \<le> length xs \<Longrightarrow> length xs - n \<le> p \<Longrightarrow> drop (p - (length xs - n)) (take_last n xs) = drop p xs"
  by (simp add: take_last_def)

subsection \<open>Searching\<close>

definition starts_with :: "'a list \<Rightarrow> 'a list \<Rightarrow> bool" where
  "starts_with xs p \<longleftrightarrow> take (length p) xs = p"

definition ends_with :: "'a list \<Rightarrow> 'a list \<Rightarrow> bool" where
  "ends_with xs p \<longleftrightarrow> length p \<le> length xs \<and> take_last (length p) xs = p"

text \<open>\<^verbatim>\<open>find\<close> and \<^verbatim>\<open>rfind\<close>; \<open>None\<close> is Python's \<open>-1\<close>.\<close>

fun find_sub :: "'a list \<Rightarrow> 'a list \<Rightarrow> nat option" where
  "find_sub p [] = (if p = [] then Some 0 else None)"
| "find_sub p (x # xs) =
     (if starts_with (x # xs) p then Some 0 else map_option Suc (find_sub p xs))"

fun rfind_sub :: "'a list \<Rightarrow> 'a list \<Rightarrow> nat option" where
  "rfind_sub p [] = (if p = [] then Some 0 else None)"
| "rfind_sub p (x # xs) =
     (case rfind_sub p xs of
        Some i \<Rightarrow> Some (Suc i)
      | None \<Rightarrow> if starts_with (x # xs) p then Some 0 else None)"

definition contains_sub :: "'a list \<Rightarrow> 'a list \<Rightarrow> bool" where
  "contains_sub p xs \<longleftrightarrow> find_sub p xs \<noteq> None"

lemma starts_with_append: "starts_with (p @ xs) p"
  by (simp add: starts_with_def)

lemma starts_withD: "starts_with xs p \<Longrightarrow> xs = p @ drop (length p) xs"
  by (metis append_take_drop_id starts_with_def)

lemma starts_with_iff: "starts_with xs p \<longleftrightarrow> (\<exists>r. xs = p @ r)"
  by (metis starts_withD starts_with_append)

lemma ends_with_iff: "ends_with xs p \<longleftrightarrow> (\<exists>r. xs = r @ p)"
proof
  assume "ends_with xs p"
  then show "\<exists>r. xs = r @ p" by (metis ends_with_def suffix_take_last)
next
  assume "\<exists>r. xs = r @ p"
  then show "ends_with xs p" by (auto simp: ends_with_def take_last_def)
qed

lemma find_sub_Some:
  "find_sub p xs = Some i \<Longrightarrow> i \<le> length xs \<and> starts_with (drop i xs) p"
  by (induction xs arbitrary: i) (auto simp: starts_with_def split: if_splits)

lemma rfind_sub_Some:
  "rfind_sub p xs = Some i \<Longrightarrow> i \<le> length xs \<and> starts_with (drop i xs) p"
  by (induction xs arbitrary: i) (auto simp: starts_with_def split: if_splits option.splits)

lemma rfind_sub_last:
  "starts_with (drop j xs) p \<Longrightarrow> j \<le> length xs \<Longrightarrow> \<exists>i. rfind_sub p xs = Some i \<and> j \<le> i"
proof (induction xs arbitrary: j)
  case Nil
  then show ?case by (simp add: starts_with_def)
next
  case (Cons x xs)
  show ?case
  proof (cases j)
    case 0
    then show ?thesis using Cons.prems by (cases "rfind_sub p xs") (auto simp: starts_with_def)
  next
    case (Suc k)
    with Cons.prems have "starts_with (drop k xs) p" "k \<le> length xs" by auto
    from Cons.IH [OF this] Suc show ?thesis by auto
  qed
qed

subsection \<open>Splitting and decimal numerals\<close>

text \<open>\<^verbatim>\<open>s.split(sep)\<close> for a one-character separator.\<close>

fun split_on :: "'a \<Rightarrow> 'a list \<Rightarrow> 'a list list" where
  "split_on c [] = [[]]"
| "split_on c (x # xs) =
     (if x = c then [] # split_on c xs
      else (case split_on c xs of [] \<Rightarrow> [[x]] | w # ws \<Rightarrow> (x # w) # ws))"

lemma split_on_ne [simp]: "split_on c xs \<noteq> []"
  by (induction xs) (auto split: list.splits)

lemma split_on_no_sep: "c \<notin> set xs \<Longrightarrow> split_on c xs = [xs]"
  by (induction xs) auto

lemma split_on_mem: "w \<in> set (split_on c xs) \<Longrightarrow> set w \<subseteq> set xs - {c}"
  by (induction xs arbitrary: w) (fastforce split: if_splits list.splits)+

definition is_digit :: "char \<Rightarrow> bool" where
  "is_digit c \<longleftrightarrow> 48 \<le> (of_char c :: nat) \<and> (of_char c :: nat) \<le> 57"

definition is_decimal :: "string \<Rightarrow> bool" where
  "is_decimal s \<longleftrightarrow> s \<noteq> [] \<and> list_all is_digit s"

definition digit_val :: "char \<Rightarrow> int" where
  "digit_val c = int (of_char c) - 48"

text \<open>\<^verbatim>\<open>int(s)\<close> on a string of decimal digits, and \<^verbatim>\<open>str(n)\<close> on a natural number.\<close>

definition dec_value :: "string \<Rightarrow> int" where
  "dec_value s = foldl (\<lambda>n c. 10 * n + digit_val c) 0 s"

definition digit_char :: "nat \<Rightarrow> char" where
  "digit_char n = char_of (48 + n)"

fun decimal :: "nat \<Rightarrow> string" where
  "decimal n = (if n < 10 then [digit_char n] else decimal (n div 10) @ [digit_char (n mod 10)])"

declare decimal.simps [simp del]

lemma of_char_digit_char: "n < 10 \<Longrightarrow> (of_char (digit_char n) :: nat) = 48 + n"
  by (simp add: digit_char_def)

lemma digit_val_digit_char: "n < 10 \<Longrightarrow> digit_val (digit_char n) = int n"
  by (simp add: digit_val_def of_char_digit_char)

lemma is_digit_digit_char: "n < 10 \<Longrightarrow> is_digit (digit_char n)"
  by (simp add: is_digit_def of_char_digit_char)

lemma decimal_digits: "list_all is_digit (decimal n)" and decimal_ne [simp]: "decimal n \<noteq> []"
proof -
  show "list_all is_digit (decimal n)"
  proof (induction n rule: decimal.induct)
    case (1 n)
    then show ?case by (subst decimal.simps) (simp add: is_digit_digit_char)
  qed
  show "decimal n \<noteq> []" by (subst decimal.simps) simp
qed

lemma dec_value_decimal: "dec_value (decimal n) = int n"
proof (induction n rule: decimal.induct)
  case (1 n)
  show ?case
  proof (cases "n < 10")
    case True
    then show ?thesis by (subst decimal.simps) (simp add: dec_value_def digit_val_digit_char)
  next
    case False
    with "1.IH" have "dec_value (decimal n) = 10 * int (n div 10) + digit_val (digit_char (n mod 10))"
      by (subst decimal.simps) (simp add: dec_value_def)
    then show ?thesis by (simp add: digit_val_digit_char) presburger
  qed
qed

subsection \<open>Dictionaries in insertion order\<close>

text \<open>
  A Python \<^verbatim>\<open>dict\<close> whose order or finiteness matters is an association list with distinct
  keys: \<open>AList.update\<close> keeps an existing key's position and appends a new one, \<open>AList.delete\<close> is
  \<^verbatim>\<open>pop(key, None)\<close>.
\<close>

definition dict_ok :: "('k \<times> 'v) list \<Rightarrow> bool" where
  "dict_ok d \<longleftrightarrow> distinct (map fst d)"

lemma dict_ok_Nil [simp]: "dict_ok []"
  by (simp add: dict_ok_def)

lemma dict_ok_update [simp]: "dict_ok d \<Longrightarrow> dict_ok (AList.update k v d)"
  by (simp add: dict_ok_def distinct_update)

lemma dict_ok_delete [simp]: "dict_ok d \<Longrightarrow> dict_ok (AList.delete k d)"
  by (simp add: dict_ok_def distinct_delete)

lemma map_of_update_same [simp]: "map_of (AList.update k v d) k = Some v"
  by (simp add: update_conv')

lemma map_of_update_other [simp]: "j \<noteq> k \<Longrightarrow> map_of (AList.update k v d) j = map_of d j"
  by (simp add: update_conv')

lemma map_of_delete_same [simp]: "map_of (AList.delete k d) k = None"
  by (simp add: delete_conv')

lemma map_of_delete_other [simp]: "j \<noteq> k \<Longrightarrow> map_of (AList.delete k d) j = map_of d j"
  by (simp add: delete_conv')

subsection \<open>Values that arrive as JSON\<close>

text \<open>
  A field of a frame or of a request body is any Python value \<^verbatim>\<open>json.loads\<close> can give. A float is a
  rational or not-a-number, which \<^verbatim>\<open>json.loads\<close> reads from the literal \<^verbatim>\<open>NaN\<close> and with which every
  comparison is false. The infinities are left out: they compare like a float beyond every bound.
\<close>

datatype pyval =
    PNone
  | PBool bool
  | PInt int
  | PFloat rat
  | PNaN
  | PStr string
  | PList "pyval list"
  | PDict "(string \<times> pyval) list"

type_synonym pydict = "(string \<times> pyval) list"

text \<open>\<^verbatim>\<open>d.get(key)\<close>, and Python's truth test.\<close>

definition py_get :: "pydict \<Rightarrow> string \<Rightarrow> pyval" where
  "py_get d k = (case map_of d k of None \<Rightarrow> PNone | Some v \<Rightarrow> v)"

fun truthy :: "pyval \<Rightarrow> bool" where
  "truthy PNone = False"
| "truthy (PBool b) = b"
| "truthy (PInt i) = (i \<noteq> 0)"
| "truthy (PFloat r) = (r \<noteq> 0)"
| "truthy PNaN = True"
| "truthy (PStr s) = (s \<noteq> [])"
| "truthy (PList xs) = (xs \<noteq> [])"
| "truthy (PDict d) = (d \<noteq> [])"

text \<open>
  \<^verbatim>\<open>isinstance(x, int | float) and not isinstance(x, bool)\<close>, as the number it is. Not-a-number is a float
  but no number: a reader that tells it from other values asks for it first.
\<close>

fun py_number :: "pyval \<Rightarrow> rat option" where
  "py_number (PInt i) = Some (of_int i)"
| "py_number (PFloat r) = Some r"
| "py_number _ = None"

fun py_str :: "pyval \<Rightarrow> string option" where
  "py_str (PStr s) = Some s"
| "py_str _ = None"

text \<open>The exceptions conversions and lookups raise.\<close>

datatype py_error = TypeError | ValueError | KeyError

text \<open>\<^verbatim>\<open>len(s.encode("utf-8"))\<close> for the characters below U+0100.\<close>

definition utf8_length :: "string \<Rightarrow> nat" where
  "utf8_length s = sum_list (map (\<lambda>c. if of_char c < (128 :: nat) then 1 else 2) s)"

definition signed_decimal :: "int \<Rightarrow> string" where
  "signed_decimal i = (if i < 0 then CHR ''-'' # decimal (nat (- i)) else decimal (nat i))"

text \<open>\<^verbatim>\<open>str(v)\<close>; \<open>repr\<close> renders floats, lists and dicts.\<close>

fun py_to_str :: "(pyval \<Rightarrow> string) \<Rightarrow> pyval \<Rightarrow> string" where
  "py_to_str repr PNone = ''None''"
| "py_to_str repr (PBool b) = (if b then ''True'' else ''False'')"
| "py_to_str repr (PInt i) = signed_decimal i"
| "py_to_str repr (PStr s) = s"
| "py_to_str repr v = repr v"

text \<open>\<^verbatim>\<open>int(v)\<close>: a float is cut towards zero, a string is a decimal numeral with sign and underscores.\<close>

definition int_of_string :: "string \<Rightarrow> py_error + int" where
  "int_of_string s0 =
     (let sp = (\<lambda>c. of_char c \<in> {9, 10, 11, 12, 13, 28, 29, 30, 31, 32, 133, 160 :: nat});
          s = rev (dropWhile sp (rev (dropWhile sp s0)));
          (sign, digits) = (case s of
             [] \<Rightarrow> (1, [])
           | c # cs \<Rightarrow> if c = CHR ''-'' then (-1, cs) else if c = CHR ''+'' then (1, cs) else (1, s));
          parts = split_on (CHR ''_'') digits
      in if \<forall>p \<in> set parts. is_decimal p then Inr (sign * dec_value (concat parts)) else Inl ValueError)"

fun int_of :: "pyval \<Rightarrow> py_error + int" where
  "int_of (PInt i) = Inr i"
| "int_of (PBool b) = Inr (if b then 1 else 0)"
| "int_of (PFloat r) = Inr (if r < 0 then - \<lfloor>- r\<rfloor> else \<lfloor>r\<rfloor>)"
| "int_of PNaN = Inl ValueError"
| "int_of (PStr s) = int_of_string s"
| "int_of _ = Inl TypeError"

text \<open>\<^verbatim>\<open>d[key]\<close>.\<close>

definition py_item :: "pydict \<Rightarrow> string \<Rightarrow> py_error + pyval" where
  "py_item d k = (case map_of d k of None \<Rightarrow> Inl KeyError | Some v \<Rightarrow> Inr v)"

subsection \<open>A state that tracks what it was fed\<close>

lemma foldl_tracks:
  assumes "\<And>h p c. T h p \<Longrightarrow> T (h @ c) (f p c)"
  shows "T h p \<Longrightarrow> T (h @ concat cs) (foldl f p cs)"
proof (induction cs arbitrary: h p)
  case Nil
  then show ?case by simp
next
  case (Cons c cs)
  then have "T (h @ c) (f p c)" by (intro assms)
  then have "T ((h @ c) @ concat cs) (foldl f (f p c) cs)" by (rule Cons.IH)
  then show ?case by simp
qed

subsection \<open>Errors as values\<close>

definition bind_err :: "'e + 'a \<Rightarrow> ('a \<Rightarrow> 'e + 'b) \<Rightarrow> 'e + 'b" where
  "bind_err m f = (case m of Inl e \<Rightarrow> Inl e | Inr a \<Rightarrow> f a)"

lemma bind_err_simps [simp]:
  "bind_err (Inl e) f = Inl e"
  "bind_err (Inr a) f = f a"
  by (simp_all add: bind_err_def)

lemma bind_err_Inr: "bind_err m f = Inr b \<longleftrightarrow> (\<exists>a. m = Inr a \<and> f a = Inr b)"
  by (simp add: bind_err_def split: sum.splits)

lemma bind_err_Inl: "bind_err m f = Inl e \<longleftrightarrow> m = Inl e \<or> (\<exists>a. m = Inr a \<and> f a = Inl e)"
  by (auto simp: bind_err_def split: sum.splits)

definition require :: "bool \<Rightarrow> 'e \<Rightarrow> 'e + unit" where
  "require b e = (if b then Inr () else Inl e)"

lemma require_simps [simp]:
  "require b e = Inr u \<longleftrightarrow> b"
  "require b e = Inl f \<longleftrightarrow> \<not> b \<and> f = e"
  by (auto simp: require_def)

end
