(* ===== verification/Scrollback.thy ===== *)
theory Scrollback
  imports Mux_Prelude
begin

text \<open>
  \<^verbatim>\<open>scrollback.py\<close>: the byte ring that retains a terminal's output, shared by the daemon,
  the gateway and the PTY supervisor. \<open>scrollback_buffer\<close> is \<^verbatim>\<open>ScrollbackBuffer\<close>: a deque of chunks
  (head is the oldest), the count of retained bytes, the count of bytes ever written.

  The abstract view of a buffer is the byte string it retains (\<open>sb_bytes\<close>) and the number of bytes
  ever written. \<open>sb_holds h\<close> says that the buffer is the tail of the history \<open>h\<close>; each operation is
  shown to refine the obvious operation on \<open>h\<close>. The locale \<open>byte_ring\<close> is what the stream layer
  relies on.
\<close>

subsection \<open>The buffer\<close>

definition TAIL_ALIGN_LOOKAHEAD :: nat where
  "TAIL_ALIGN_LOOKAHEAD = 4096"

record scrollback_buffer =
  max_bytes :: int
  chunks :: "bytes list"
  sb_size :: int
  written :: int

definition new_scrollback :: "int \<Rightarrow> scrollback_buffer" where
  "new_scrollback m = \<lparr>max_bytes = m, chunks = [], sb_size = 0, written = 0\<rparr>"

definition sb_bytes :: "scrollback_buffer \<Rightarrow> bytes" where
  "sb_bytes b = concat (chunks b)"

text \<open>The \<^verbatim>\<open>while excess > 0 and self._chunks\<close> loop of \<^verbatim>\<open>append\<close>.\<close>

fun trim_chunks :: "bytes list \<Rightarrow> int \<Rightarrow> int \<Rightarrow> bytes list \<times> int" where
  "trim_chunks [] sz excess = ([], sz)"
| "trim_chunks (first # rest) sz excess =
     (if excess \<le> 0 then (first # rest, sz)
      else if int (length first) \<le> excess
        then trim_chunks rest (sz - int (length first)) (excess - int (length first))
      else (drop (nat excess) first # rest, sz - excess))"

definition sb_append :: "scrollback_buffer \<Rightarrow> bytes \<Rightarrow> scrollback_buffer" where
  "sb_append b data =
     (let b = b\<lparr>written := written b + int (length data)\<rparr> in
      if max_bytes b \<le> 0 then b\<lparr>chunks := [], sb_size := 0\<rparr>
      else if int (length data) \<ge> max_bytes b
        then b\<lparr>chunks := [take_last (nat (max_bytes b)) data], sb_size := max_bytes b\<rparr>
      else
        let sz = sb_size b + int (length data);
            (cs, sz') = trim_chunks (chunks b @ [data]) sz (sz - max_bytes b)
        in b\<lparr>chunks := cs, sb_size := sz'\<rparr>)"

definition sb_seed :: "scrollback_buffer \<Rightarrow> bytes \<Rightarrow> int \<Rightarrow> scrollback_buffer" where
  "sb_seed b data position =
     (let b = sb_append (b\<lparr>chunks := [], sb_size := 0, written := 0\<rparr>) data
      in b\<lparr>written := max position (int (length data))\<rparr>)"

text \<open>The newest-first walk of \<^verbatim>\<open>tail_bytes\<close> over the reversed deque.\<close>

fun collect_tail :: "bytes list \<Rightarrow> int \<Rightarrow> bytes list" where
  "collect_tail [] remaining = []"
| "collect_tail (chunk # cs) remaining =
     (if int (length chunk) \<ge> remaining then [drop (nat (int (length chunk) - remaining)) chunk]
      else chunk # collect_tail cs (remaining - int (length chunk)))"

definition tail_bytes :: "scrollback_buffer \<Rightarrow> int \<Rightarrow> bytes" where
  "tail_bytes b count =
     (if count \<le> 0 then []
      else if count \<ge> sb_size b then sb_bytes b
      else concat (rev (collect_tail (rev (chunks b)) count)))"

definition newline :: char where
  "newline = CHR 0x0A"

definition sb_tail :: "scrollback_buffer \<Rightarrow> int option \<Rightarrow> bytes" where
  "sb_tail b limit =
     (case limit of
        None \<Rightarrow> sb_bytes b
      | Some l \<Rightarrow>
          if l \<le> 0 \<or> sb_size b \<le> l then sb_bytes b
          else
            let window = tail_bytes b l in
            case find_sub [newline] (take TAIL_ALIGN_LOOKAHEAD window) of
              Some boundary \<Rightarrow> drop (boundary + 1) window
            | None \<Rightarrow> window)"

definition sb_position :: "scrollback_buffer \<Rightarrow> int" where
  "sb_position b = written b"

definition bytes_since :: "scrollback_buffer \<Rightarrow> int \<Rightarrow> bytes" where
  "bytes_since b position =
     (if position \<ge> written b then []
      else if position \<le> written b - sb_size b then sb_bytes b
      else tail_bytes b (written b - position))"

subsection \<open>The buffer as the tail of a history\<close>

definition sb_inv :: "scrollback_buffer \<Rightarrow> bool" where
  "sb_inv b \<longleftrightarrow> sb_size b = int (length (sb_bytes b)) \<and> sb_size b \<le> max 0 (max_bytes b)
     \<and> sb_size b \<le> written b"

definition sb_holds :: "bytes \<Rightarrow> scrollback_buffer \<Rightarrow> bool" where
  "sb_holds h b \<longleftrightarrow> sb_inv b \<and> written b = int (length h)
     \<and> sb_bytes b = take_last (nat (sb_size b)) h"

lemma sb_invD:
  assumes "sb_inv b"
  shows "sb_size b = int (length (sb_bytes b))" and "sb_size b \<le> max 0 (max_bytes b)"
    and "sb_size b \<le> written b" and "0 \<le> sb_size b"
  using assms unfolding sb_inv_def by linarith+

lemma sb_holdsD:
  assumes "sb_holds h b"
  shows "sb_inv b" and "written b = int (length h)" and "sb_bytes b = take_last (nat (sb_size b)) h"
  using assms unfolding sb_holds_def by blast+

lemma trim_chunks_spec:
  "sz = int (length (concat cs)) \<Longrightarrow> excess \<le> sz \<Longrightarrow>
   trim_chunks cs sz excess = (cs', sz') \<Longrightarrow>
   concat cs' = drop (nat excess) (concat cs) \<and> sz' = int (length (concat cs'))"
proof (induction cs sz excess arbitrary: cs' sz' rule: trim_chunks.induct)
  case (1 sz excess)
  then show ?case by simp
next
  case (2 first rest sz excess)
  show ?case
  proof (cases "excess \<le> 0")
    case True
    with 2 show ?thesis by auto
  next
    case pos: False
    show ?thesis
    proof (cases "int (length first) \<le> excess")
      case True
      with pos "2.prems" have "concat cs' = drop (nat (excess - int (length first))) (concat rest)
          \<and> sz' = int (length (concat cs'))" by (intro "2.IH") auto
      with True show ?thesis by (simp add: nat_diff_distrib')
    next
      case False
      with pos "2.prems" show ?thesis by (auto simp: of_nat_diff nat_le_iff)
    qed
  qed
qed

lemma collect_tail_spec:
  "0 < remaining \<Longrightarrow> remaining \<le> int (length (concat cs)) \<Longrightarrow>
   concat (rev (collect_tail cs remaining)) = take_last (nat remaining) (concat (rev cs))"
proof (induction cs remaining rule: collect_tail.induct)
  case (1 remaining)
  then show ?case by simp
next
  case (2 chunk cs remaining)
  show ?case
  proof (cases "int (length chunk) \<ge> remaining")
    case True
    then have "take_last (nat remaining) (concat (rev cs) @ chunk) = take_last (nat remaining) chunk"
      by (intro take_last_append_ge) simp
    with True show ?thesis
      using "2.prems" by (simp add: take_last_def nat_diff_distrib')
  next
    case False
    with "2.prems" have "concat (rev (collect_tail cs (remaining - int (length chunk))))
        = take_last (nat (remaining - int (length chunk))) (concat (rev cs))"
      by (intro "2.IH") auto
    with False show ?thesis
      by (simp add: take_last_append_gt nat_diff_distrib')
  qed
qed

lemma tail_bytes_spec [list_view]:
  assumes "sb_inv b"
  shows "tail_bytes b count = take_last (nat count) (sb_bytes b)"
proof -
  have len: "sb_size b = int (length (sb_bytes b))" using assms by (simp add: sb_inv_def)
  consider "count \<le> 0" | "0 < count" "count \<ge> sb_size b" | "0 < count" "count < sb_size b" by linarith
  then show ?thesis
  proof cases
    case 1
    then show ?thesis by (simp add: tail_bytes_def)
  next
    case 2
    then show ?thesis using len by (simp add: tail_bytes_def take_last_all nat_le_iff)
  next
    case 3
    have "length (concat (rev (chunks b))) = length (sb_bytes b)"
      by (simp add: sb_bytes_def length_concat rev_map [symmetric])
    with 3 len collect_tail_spec [of count "rev (chunks b)"] show ?thesis
      by (simp add: tail_bytes_def sb_bytes_def)
  qed
qed

lemma sb_inv_new [inv_rules]: "sb_inv (new_scrollback m)"
  by (simp add: sb_inv_def new_scrollback_def sb_bytes_def)

lemma written_append [simp]: "written (sb_append b d) = written b + int (length d)"
  by (simp add: sb_append_def Let_def split: prod.splits)

lemma max_bytes_append [simp]: "max_bytes (sb_append b d) = max_bytes b"
  by (simp add: sb_append_def Let_def split: prod.splits)

text \<open>What \<^verbatim>\<open>append\<close> retains: the last \<open>max_bytes\<close> bytes of what it had and what it got.\<close>

lemma sb_bytes_append [list_view]:
  assumes "sb_inv b"
  shows "sb_bytes (sb_append b d) = take_last (nat (max_bytes b)) (sb_bytes b @ d)"
    and "sb_size (sb_append b d) = int (length (sb_bytes (sb_append b d)))"
proof -
  have len: "sb_size b = int (length (sb_bytes b))" and le: "sb_size b \<le> max 0 (max_bytes b)"
    using assms by (simp_all add: sb_inv_def)
  let ?goal = "sb_bytes (sb_append b d) = take_last (nat (max_bytes b)) (sb_bytes b @ d)
    \<and> sb_size (sb_append b d) = int (length (sb_bytes (sb_append b d)))"
  consider "max_bytes b \<le> 0" | "0 < max_bytes b" "int (length d) \<ge> max_bytes b"
    | "0 < max_bytes b" "int (length d) < max_bytes b" by linarith
  then have ?goal
  proof cases
    case 1
    then show ?thesis by (simp add: sb_append_def sb_bytes_def)
  next
    case 2
    then have "take_last (nat (max_bytes b)) (sb_bytes b @ d) = take_last (nat (max_bytes b)) d"
      by (intro take_last_append_ge) linarith
    with 2 show ?thesis by (simp add: sb_append_def sb_bytes_def)
  next
    case 3
    define sz where "sz = sb_size b + int (length d)"
    obtain cs s where tc: "trim_chunks (chunks b @ [d]) sz (sz - max_bytes b) = (cs, s)"
      by fastforce
    have eq: "sz = int (length (concat (chunks b @ [d])))"
      using len by (simp add: sz_def sb_bytes_def)
    from trim_chunks_spec [OF eq _ tc] 3
    have cs: "concat cs = drop (nat (sz - max_bytes b)) (sb_bytes b @ d)"
      and s: "s = int (length (concat cs))" by (simp_all add: sb_bytes_def)
    have "nat (sz - max_bytes b) = length (sb_bytes b @ d) - nat (max_bytes b)"
      using 3 len by (simp add: sz_def)
    then have "concat cs = take_last (nat (max_bytes b)) (sb_bytes b @ d)"
      using cs by (simp add: take_last_def)
    with 3 tc s show ?thesis by (simp add: sb_append_def sb_bytes_def sz_def)
  qed
  then show "sb_bytes (sb_append b d) = take_last (nat (max_bytes b)) (sb_bytes b @ d)"
    and "sb_size (sb_append b d) = int (length (sb_bytes (sb_append b d)))" by blast+
qed

lemma sb_inv_append [inv_rules]:
  assumes "sb_inv b"
  shows "sb_inv (sb_append b d)"
proof -
  from assms have le: "int (length (sb_bytes b)) \<le> written b" by (simp add: sb_inv_def)
  have "length (sb_bytes (sb_append b d)) = min (nat (max_bytes b)) (length (sb_bytes b) + length d)"
    by (simp add: sb_bytes_append(1) [OF assms])
  with le show ?thesis
    by (auto simp: sb_inv_def sb_bytes_append(2) [OF assms])
qed

lemma sb_inv_seed [inv_rules]: "sb_inv (sb_seed b data position)"
proof -
  let ?c = "b\<lparr>chunks := [], sb_size := 0, written := 0\<rparr>"
  have "sb_inv ?c" by (simp add: sb_inv_def sb_bytes_def)
  then have "sb_inv (sb_append ?c data)" by (rule sb_inv_append)
  then show ?thesis by (auto simp: sb_seed_def Let_def sb_inv_def sb_bytes_def)
qed

lemma sb_bytes_seed [list_view]:
  "sb_bytes (sb_seed b data position) = take_last (nat (max_bytes b)) data"
proof -
  let ?c = "b\<lparr>chunks := [], sb_size := 0, written := 0\<rparr>"
  have "sb_inv ?c" and "sb_bytes ?c = []" by (simp_all add: sb_inv_def sb_bytes_def)
  then have "sb_bytes (sb_append ?c data) = take_last (nat (max_bytes b)) data"
    by (simp add: sb_bytes_append(1))
  then show ?thesis by (simp add: sb_seed_def Let_def sb_bytes_def)
qed

lemma written_seed [simp]: "written (sb_seed b data position) = max position (int (length data))"
  by (simp add: sb_seed_def Let_def)

lemma max_bytes_seed [simp]: "max_bytes (sb_seed b data position) = max_bytes b"
  by (simp add: sb_seed_def Let_def)

lemma sb_holds_new: "sb_holds [] (new_scrollback m)"
  by (simp add: sb_holds_def sb_inv_new) (simp add: new_scrollback_def sb_bytes_def)

lemma sb_holds_append:
  assumes "sb_holds h b"
  shows "sb_holds (h @ d) (sb_append b d)"
proof -
  from assms have inv: "sb_inv b" and w: "written b = int (length h)"
    and tl: "sb_bytes b = take_last (nat (sb_size b)) h"
    by (rule sb_holdsD)+
  obtain p where h: "h = p @ sb_bytes b" using tl suffix_take_last by metis
  let ?n = "nat (max_bytes b)"
  have eq: "sb_bytes (sb_append b d) = take_last ?n (sb_bytes b @ d)"
    by (rule sb_bytes_append(1) [OF inv])
  define t where "t = sb_bytes (sb_append b d)"
  obtain q where q: "sb_bytes b @ d = q @ t"
    using suffix_take_last [of "sb_bytes b @ d" ?n] eq t_def by auto
  have "h @ d = (p @ q) @ t" by (simp add: h q)
  then have "take_last (length t) (h @ d) = t" by (simp add: take_last_def)
  then show ?thesis
    using w sb_inv_append [OF inv]
    by (simp add: sb_holds_def sb_bytes_append(2) [OF inv] t_def)
qed

lemma bytes_since_holds:
  assumes "sb_holds h b" and "0 \<le> p" and "written b - sb_size b \<le> p"
  shows "bytes_since b p = drop (nat p) h"
proof -
  from assms(1) have inv: "sb_inv b" and w: "written b = int (length h)"
    and tl: "sb_bytes b = take_last (nat (sb_size b)) h" by (rule sb_holdsD)+
  from inv have s0: "0 \<le> sb_size b" and sl: "sb_size b \<le> written b" by (rule sb_invD)+
  consider "p \<ge> written b" | "p = written b - sb_size b" "p < written b"
    | "written b - sb_size b < p" "p < written b" using assms(3) by linarith
  then show ?thesis
  proof cases
    case 1
    then show ?thesis using w by (simp add: bytes_since_def)
  next
    case 2
    then have "nat p = length h - nat (sb_size b)" using w s0 by auto
    with 2 tl show ?thesis by (simp add: bytes_since_def take_last_def)
  next
    case 3
    have n: "nat (written b - p) = length h - nat p" using w assms(2) by auto
    have "min (length h - nat p) (nat (sb_size b)) = length h - nat p" using 3 w s0 by auto
    with 3 n tl w assms(2) show ?thesis
      by (simp add: bytes_since_def tail_bytes_spec [OF inv] take_last_take_last)
        (simp add: take_last_def)
  qed
qed

subsection \<open>The interface the stream relies on\<close>

text \<open>
  A ring is written at its end and read from a position: what it still holds from a position \<open>p\<close> is
  exactly the bytes put since \<open>p\<close>, and putting more only extends that.
\<close>

locale byte_ring =
  fixes put :: "'r \<Rightarrow> bytes \<Rightarrow> 'r"
    and pos :: "'r \<Rightarrow> int"
    and held :: "'r \<Rightarrow> int"
    and since :: "'r \<Rightarrow> int \<Rightarrow> bytes"
    and ok :: "'r \<Rightarrow> bool"
  assumes ok_put: "ok r \<Longrightarrow> ok (put r d)"
    and pos_put: "pos (put r d) = pos r + int (length d)"
    and held_put: "ok r \<Longrightarrow> held (put r d) \<le> held r + int (length d)"
    and since_put: "ok r \<Longrightarrow> 0 \<le> p \<Longrightarrow> p \<le> pos r \<Longrightarrow> pos (put r d) - held (put r d) \<le> p \<Longrightarrow>
      since (put r d) p = since r p @ d"
    and since_now: "ok r \<Longrightarrow> since r (pos r) = []"
begin

definition puts :: "'r \<Rightarrow> bytes list \<Rightarrow> 'r" where
  "puts r ds = foldl put r ds"

lemma puts_simps [simp]: "puts r [] = r" "puts r (d # ds) = puts (put r d) ds"
  by (simp_all add: puts_def)

lemma ok_puts: "ok r \<Longrightarrow> ok (puts r ds)"
  by (induction ds arbitrary: r) (simp_all add: ok_put)

lemma pos_puts: "pos (puts r ds) = pos r + int (length (concat ds))"
  by (induction ds arbitrary: r) (simp_all add: pos_put)

lemma covered_back: "ok r \<Longrightarrow> pos (puts r ds) - held (puts r ds) \<le> p \<Longrightarrow> pos r - held r \<le> p"
proof (induction ds arbitrary: r)
  case Nil
  then show ?case by simp
next
  case (Cons d ds)
  then have "pos (put r d) - held (put r d) \<le> p" by (simp add: ok_put)
  then show ?case using held_put [OF Cons.prems(1), of d] by (simp add: pos_put)
qed

lemma since_puts:
  "ok r \<Longrightarrow> 0 \<le> p \<Longrightarrow> p \<le> pos r \<Longrightarrow> pos (puts r ds) - held (puts r ds) \<le> p \<Longrightarrow>
   since (puts r ds) p = since r p @ concat ds"
proof (induction ds arbitrary: r)
  case Nil
  then show ?case by simp
next
  case (Cons d ds)
  have "pos (put r d) - held (put r d) \<le> p"
    using covered_back [of "put r d" ds p] Cons.prems by (simp add: ok_put)
  then have "since (put r d) p = since r p @ d" using Cons.prems by (simp add: since_put)
  moreover have "since (puts (put r d) ds) p = since (put r d) p @ concat ds"
    using Cons.prems by (intro Cons.IH) (simp_all add: ok_put pos_put)
  ultimately show ?case by simp
qed

text \<open>A reader at the position where it stopped gets exactly what was put since.\<close>

lemma resume_exact:
  "ok r \<Longrightarrow> 0 \<le> pos r \<Longrightarrow> pos (puts r ds) - held (puts r ds) \<le> pos r \<Longrightarrow>
   since (puts r ds) (pos r) = concat ds"
  by (simp add: since_puts since_now)

end

lemma sb_holds_self:
  assumes "sb_inv b"
  shows "sb_holds (replicate (nat (written b - sb_size b)) (CHR 0x00) @ sb_bytes b) b"
proof -
  from assms have "0 \<le> sb_size b" "sb_size b \<le> written b" "sb_size b = int (length (sb_bytes b))"
    by (auto simp: sb_inv_def)
  with assms show ?thesis by (simp add: sb_holds_def take_last_def)
qed

lemma bytes_since_append:
  assumes inv: "sb_inv b" and p: "0 \<le> p" "p \<le> written b"
    and cov: "written (sb_append b d) - sb_size (sb_append b d) \<le> p"
  shows "bytes_since (sb_append b d) p = bytes_since b p @ d"
proof -
  define h where "h = replicate (nat (written b - sb_size b)) (CHR 0x00) @ sb_bytes b"
  have h: "sb_holds h b" by (simp add: h_def sb_holds_self [OF inv])
  then have hd: "sb_holds (h @ d) (sb_append b d)" by (rule sb_holds_append)
  have len: "written b = int (length h)" using h by (simp add: sb_holds_def)
  have "sb_size (sb_append b d) \<le> sb_size b + int (length d)"
    using inv by (simp add: sb_bytes_append [OF inv] sb_inv_def)
  with cov have "written b - sb_size b \<le> p" by simp
  then have "bytes_since b p = drop (nat p) h" by (rule bytes_since_holds [OF h p(1)])
  moreover have "bytes_since (sb_append b d) p = drop (nat p) (h @ d)"
    by (rule bytes_since_holds [OF hd p(1) cov])
  ultimately show ?thesis using p len by (simp add: nat_le_iff)
qed

interpretation ring: byte_ring sb_append sb_position sb_size bytes_since sb_inv
proof
  show "sb_inv r \<Longrightarrow> sb_inv (sb_append r d)" for r d by (rule sb_inv_append)
  show "sb_position (sb_append r d) = sb_position r + int (length d)" for r d
    by (simp add: sb_position_def)
  show "sb_inv r \<Longrightarrow> sb_size (sb_append r d) \<le> sb_size r + int (length d)" for r d
    by (simp add: sb_bytes_append sb_inv_def)
  show "sb_inv r \<Longrightarrow> 0 \<le> p \<Longrightarrow> p \<le> sb_position r \<Longrightarrow>
      sb_position (sb_append r d) - sb_size (sb_append r d) \<le> p \<Longrightarrow>
      bytes_since (sb_append r d) p = bytes_since r p @ d" for r p d
    by (simp add: sb_position_def bytes_since_append)
  show "sb_inv r \<Longrightarrow> bytes_since r (sb_position r) = []" for r
    by (simp add: sb_position_def bytes_since_def)
qed

subsection \<open>The ring as an implementation of an ideal one\<close>

text \<open>
  The ideal ring is the retained bytes and the number of bytes ever written, without chunks, sizes or
  loops. Appending keeps the last \<open>m\<close> bytes, seeding starts over at a given position, and reading
  takes from the end.
\<close>

type_synonym ideal_ring = "bytes \<times> int"

datatype ring_op = Ring_Append bytes | Ring_Seed bytes int

fun ideal_step :: "int \<Rightarrow> ideal_ring \<Rightarrow> ring_op \<Rightarrow> ideal_ring" where
  "ideal_step m (h, w) (Ring_Append d) = (take_last (nat m) (h @ d), w + int (length d))"
| "ideal_step m (h, w) (Ring_Seed d p) = (take_last (nat m) d, max p (int (length d)))"

definition ideal_tail :: "ideal_ring \<Rightarrow> int \<Rightarrow> bytes" where
  "ideal_tail r n = take_last (nat n) (fst r)"

definition ideal_since :: "ideal_ring \<Rightarrow> int \<Rightarrow> bytes" where
  "ideal_since r p = (if p \<ge> snd r then [] else take_last (nat (snd r - p)) (fst r))"

fun ring_step :: "scrollback_buffer \<Rightarrow> ring_op \<Rightarrow> scrollback_buffer" where
  "ring_step b (Ring_Append d) = sb_append b d"
| "ring_step b (Ring_Seed d p) = sb_seed b d p"

definition ring_view :: "scrollback_buffer \<Rightarrow> ideal_ring" where
  "ring_view b = (sb_bytes b, written b)"

lemma ring_step_view:
  "sb_inv b \<Longrightarrow> ring_view (ring_step b x) = ideal_step (max_bytes b) (ring_view b) x"
  by (cases x) (simp_all add: ring_view_def sb_bytes_append sb_bytes_seed)

lemma ring_step_inv: "sb_inv b \<Longrightarrow> sb_inv (ring_step b x) \<and> max_bytes (ring_step b x) = max_bytes b"
  by (cases x) (simp_all add: sb_inv_append sb_inv_seed)

lemma ring_run_view:
  "sb_inv b \<Longrightarrow>
     sb_inv (foldl ring_step b xs) \<and>
     ring_view (foldl ring_step b xs) = foldl (ideal_step (max_bytes b)) (ring_view b) xs"
proof (induction xs arbitrary: b)
  case (Cons x xs)
  from Cons.IH [of "ring_step b x"] ring_step_inv [OF Cons.prems] ring_step_view [OF Cons.prems]
  show ?case by simp
qed simp

lemma ring_reads:
  assumes "sb_inv b"
  shows "tail_bytes b n = ideal_tail (ring_view b) n \<and> bytes_since b p = ideal_since (ring_view b) p"
proof -
  have "bytes_since b p = ideal_since (ring_view b) p"
    using sb_invD [OF assms]
    by (auto simp: bytes_since_def ideal_since_def ring_view_def tail_bytes_spec [OF assms] take_last_all nat_le_iff)
  then show ?thesis by (simp add: ideal_tail_def ring_view_def tail_bytes_spec [OF assms])
qed

text \<open>
  C4. The chunked ring refines the ideal one. After any sequence of appends and seeds its bytes and
  position are the ideal ring's, so is every tail and every read since a position, and it never holds
  more than its limit.
\<close>

theorem ring_refines_ideal:
  fixes m xs
  defines "b \<equiv> foldl ring_step (new_scrollback m) xs"
    and "r \<equiv> foldl (ideal_step m) ([], 0) xs"
  shows "ring_view b = r \<and> tail_bytes b n = ideal_tail r n \<and> bytes_since b p = ideal_since r p \<and>
    sb_size b = int (length (fst r)) \<and> sb_size b \<le> max 0 m"
proof -
  have v: "ring_view (new_scrollback m) = ([], 0)" "max_bytes (new_scrollback m) = m"
    by (simp_all add: ring_view_def new_scrollback_def sb_bytes_def)
  from ring_run_view [OF sb_inv_new, of m xs] have run: "sb_inv b \<and> ring_view b = r" by (simp add: v b_def r_def)
  moreover have "max_bytes b = m"
    unfolding b_def using v(2) sb_inv_new [of m]
    by (induction xs rule: rev_induct) (simp_all add: ring_run_view ring_step_inv)
  ultimately show ?thesis
    using ring_reads [of b n p] sb_invD [of b] by (auto simp: ring_view_def)
qed

end
