(* ===== verification/Screen_Mode.thy ===== *)
theory Screen_Mode
  imports Mux_Prelude
begin

text \<open>
  \<^verbatim>\<open>screen_mode.py\<close>: which modes the child of a terminal has switched on, read from its byte
  stream. Each regular expression of the source is a matcher, a function that answers whether the
  expression matches at the head of a byte string, with the captured groups and the rest;
  \<open>finditer\<close> is \<^verbatim>\<open>re.finditer\<close> over a matcher.

  The source feeds its parsers chunk by chunk and keeps a bounded tail that may be the start of a
  split sequence. The locale \<open>marker_scanner\<close> states what a matcher must satisfy for that tail to be
  enough, and proves that cutting a stream anywhere finds the same sequences; the three expressions
  of the source are its interpretations. So the parsers report what one pass over the whole stream
  would.
\<close>

subsection \<open>Matchers\<close>

type_synonym 'm matcher = "bytes \<Rightarrow> ('m \<times> bytes) option"

definition ESC :: char where
  "ESC = CHR 0x1B"

definition marker :: bytes where
  "marker = [ESC, CHR ''['', CHR ''?'']"

function finditer :: "'m matcher \<Rightarrow> bytes \<Rightarrow> 'm list" where
  "finditer m [] = []"
| "finditer m (c # cs) =
     (case m (c # cs) of
        None \<Rightarrow> finditer m cs
      | Some (x, rest) \<Rightarrow> x # finditer m (if length rest \<le> length cs then rest else cs))"
  by pat_completeness auto
termination
  by (relation "measure (\<lambda>(m, d). length d)") (auto split: if_splits)

definition search :: "'m matcher \<Rightarrow> bytes \<Rightarrow> bool" where
  "search m d \<longleftrightarrow> finditer m d \<noteq> []"

fun match_params :: "bytes list \<Rightarrow> bytes \<Rightarrow> (bool \<times> bytes) option" where
  "match_params [] d = None"
| "match_params (p # ps) d =
     (if starts_with d p then
        (case drop (length p) d of
           [] \<Rightarrow> match_params ps d
         | c # rest \<Rightarrow>
             if c = CHR ''h'' then Some (True, rest)
             else if c = CHR ''l'' then Some (False, rest)
             else match_params ps d)
      else match_params ps d)"

definition mode_toggle :: "bytes list \<Rightarrow> bool matcher" where
  "mode_toggle params d = (if starts_with d marker then match_params params (drop 3 d) else None)"

definition SCREEN_TOGGLE :: "bool matcher" where
  "SCREEN_TOGGLE = mode_toggle [''1049'', ''1047'', ''47'']"

definition BRACKETED_PASTE_TOGGLE :: "bool matcher" where
  "BRACKETED_PASTE_TOGGLE = mode_toggle [''2004'']"

definition MAX_PARTIAL :: nat where
  "MAX_PARTIAL = length marker + 5"

definition is_param_char :: "char \<Rightarrow> bool" where
  "is_param_char c \<longleftrightarrow> is_digit c \<or> c = CHR '';''"

definition PRIVATE_MODE_SET :: "(bytes \<times> bool) matcher" where
  "PRIVATE_MODE_SET d =
     (if starts_with d marker then
        let params = takeWhile is_param_char (drop 3 d);
            rest = dropWhile is_param_char (drop 3 d)
        in if params = [] then None
           else (case rest of
                   [] \<Rightarrow> None
                 | c # r \<Rightarrow>
                     if c = CHR ''h'' then Some ((params, True), r)
                     else if c = CHR ''l'' then Some ((params, False), r)
                     else None)
      else None)"

definition STICKY_PRIVATE_MODES :: "int list" where
  "STICKY_PRIVATE_MODES = [1000, 1002, 1003, 1004, 1006, 2031]"

definition MAX_STICKY_PARTIAL :: nat where
  "MAX_STICKY_PARTIAL = length marker + 32"

lemma length_marker [simp]: "length marker = 3"
  by (simp add: marker_def)

lemma marker_tail: "starts_with d marker \<and> drop 3 d = y \<longleftrightarrow> d = marker @ y"
  by (metis append_eq_conv_conj length_marker starts_with_append starts_withD)

subsection \<open>The carried tail\<close>

text \<open>The \<^verbatim>\<open>next((data[-size:] for size in range(len(_MARKER) - 1, 0, -1) if ...), b"")\<close> both carry functions end with.\<close>

definition partial_marker :: "bytes \<Rightarrow> bytes" where
  "partial_marker data =
     (case filter (\<lambda>sz. ends_with data (take sz marker)) [2, 1] of
        [] \<Rightarrow> []
      | sz # _ \<Rightarrow> take_last sz data)"

definition carry_within :: "nat \<Rightarrow> 'm matcher \<Rightarrow> bytes \<Rightarrow> bytes" where
  "carry_within bound m data =
     (case rfind_sub marker data of
        Some start \<Rightarrow>
          if length data - start \<le> bound \<and> \<not> search m (drop start data) then drop start data
          else partial_marker data
      | None \<Rightarrow> partial_marker data)"

definition carry :: "bytes \<Rightarrow> bool matcher \<Rightarrow> bytes" where
  "carry data toggle = carry_within MAX_PARTIAL toggle data"

definition sticky_carry :: "bytes \<Rightarrow> bytes" where
  "sticky_carry data = carry_within MAX_STICKY_PARTIAL PRIVATE_MODE_SET data"

subsection \<open>The three parsers\<close>

datatype screen_mode = Normal | Alternate

record screen_mode_parser =
  sm_mode :: "screen_mode option"
  sm_tail :: bytes

definition new_screen :: screen_mode_parser where
  "new_screen = \<lparr>sm_mode = None, sm_tail = []\<rparr>"

definition screen_feed :: "screen_mode_parser \<Rightarrow> bytes \<Rightarrow> screen_mode_parser" where
  "screen_feed p chunk =
     (let data = sm_tail p @ chunk;
          found = finditer SCREEN_TOGGLE data;
          p = (if found = [] then p
               else p\<lparr>sm_mode := Some (if last found then Alternate else Normal)\<rparr>)
      in p\<lparr>sm_tail := carry data SCREEN_TOGGLE\<rparr>)"

record bracketed_paste_parser =
  bp_enabled :: "bool option"
  bp_tail :: bytes

definition new_paste :: bracketed_paste_parser where
  "new_paste = \<lparr>bp_enabled = None, bp_tail = []\<rparr>"

definition paste_feed :: "bracketed_paste_parser \<Rightarrow> bytes \<Rightarrow> bracketed_paste_parser" where
  "paste_feed p chunk =
     (let data = bp_tail p @ chunk;
          found = finditer BRACKETED_PASTE_TOGGLE data;
          p = (if found = [] then p else p\<lparr>bp_enabled := Some (last found)\<rparr>)
      in p\<lparr>bp_tail := carry data BRACKETED_PASTE_TOGGLE\<rparr>)"

definition param_modes :: "bytes \<times> bool \<Rightarrow> (int \<times> bool) list" where
  "param_modes hit =
     (case hit of (params, state) \<Rightarrow>
        map (\<lambda>p. (dec_value p, state))
          (filter (\<lambda>p. dec_value p \<in> set STICKY_PRIVATE_MODES)
            (filter is_decimal (split_on (CHR '';'') params))))"

definition sticky_toggles :: "bytes \<Rightarrow> (int \<times> bool) list" where
  "sticky_toggles data = concat (map param_modes (finditer PRIVATE_MODE_SET data))"

record sticky_mode_parser =
  st_enabled :: "int \<rightharpoonup> bool"
  st_tail :: bytes

definition new_sticky :: sticky_mode_parser where
  "new_sticky = \<lparr>st_enabled = Map.empty, st_tail = []\<rparr>"

definition set_modes :: "(int \<rightharpoonup> bool) \<Rightarrow> (int \<times> bool) list \<Rightarrow> int \<rightharpoonup> bool" where
  "set_modes enabled ts = foldl (\<lambda>e (mode, state). e(mode \<mapsto> state)) enabled ts"

definition sticky_feed :: "sticky_mode_parser \<Rightarrow> bytes \<Rightarrow> sticky_mode_parser" where
  "sticky_feed p chunk =
     (let data = st_tail p @ chunk
      in p\<lparr>st_enabled := set_modes (st_enabled p) (sticky_toggles data), st_tail := sticky_carry data\<rparr>)"

definition restate_mode :: "int \<Rightarrow> bytes" where
  "restate_mode mode = marker @ decimal (nat mode) @ ''h''"

definition sticky_preamble :: "sticky_mode_parser \<Rightarrow> bytes \<Rightarrow> bytes" where
  "sticky_preamble p replay =
     (let mentioned = set (map fst (sticky_toggles replay))
      in concat (map restate_mode
           (filter (\<lambda>mode. st_enabled p mode = Some True \<and> mode \<notin> mentioned)
             STICKY_PRIVATE_MODES)))"

subsection \<open>Cutting the stream anywhere\<close>

locale marker_scanner =
  fixes m :: "bytes \<Rightarrow> ('m \<times> bytes) option"
    and bound :: nat
  assumes shape: "m d = Some (x, r) \<Longrightarrow> \<exists>body. d = marker @ body @ r \<and> ESC \<notin> set body"
    and extend: "m d = Some (x, r) \<Longrightarrow> m (d @ b) = Some (x, r @ b)"
    and completes: "m d = None \<Longrightarrow> m (d @ b) = Some (x, r) \<Longrightarrow> length r < length b"
    and bound_marker: "length marker \<le> bound"
begin

fun scan :: "bytes \<Rightarrow> 'm list" where
  "scan [] = []"
| "scan (c # cs) = (case m (c # cs) of None \<Rightarrow> scan cs | Some (x, r) \<Rightarrow> x # scan cs)"

lemma m_Nil: "m [] = None"
  using shape [of "[]"] by (cases "m []") (auto simp: marker_def)

lemma m_not_ESC: "c \<noteq> ESC \<Longrightarrow> m (c # cs) = None"
  using shape [of "c # cs"] by (cases "m (c # cs)") (auto simp: marker_def)

lemma scan_no_ESC: "ESC \<notin> set body \<Longrightarrow> scan (body @ r) = scan r"
  by (induction body) (auto simp: m_not_ESC)

lemma scan_match: "m (c # cs) = Some (x, r) \<Longrightarrow> scan cs = scan r \<and> length r \<le> length cs"
proof -
  assume a: "m (c # cs) = Some (x, r)"
  from shape [OF a] obtain body where b: "c # cs = marker @ body @ r" "ESC \<notin> set body" by blast
  then have cs: "cs = ([CHR ''['', CHR ''?''] @ body) @ r" by (simp add: marker_def)
  have "scan cs = scan r" unfolding cs by (rule scan_no_ESC) (use b in \<open>simp add: ESC_def\<close>)
  then show ?thesis by (simp add: cs)
qed

lemma finditer_scan: "finditer m d = scan d"
proof (induction d rule: length_induct)
  case (1 d)
  show ?case
  proof (cases d)
    case Nil
    then show ?thesis by simp
  next
    case (Cons c cs)
    show ?thesis
    proof (cases "m (c # cs)")
      case None
      with Cons 1 show ?thesis by simp
    next
      case (Some y)
      obtain x r where y: "y = (x, r)" by (cases y)
      from scan_match [of c cs x r] Some y have r: "scan cs = scan r" "length r \<le> length cs" by auto
      then have "finditer m r = scan r" using 1 Cons by simp
      with Cons Some y r show ?thesis by simp
    qed
  qed
qed

text \<open>Every sequence in \<open>d\<close> is short enough for its start to be carried.\<close>

definition in_bound :: "bytes \<Rightarrow> bool" where
  "in_bound d \<longleftrightarrow> (\<forall>s x r. suffix s d \<longrightarrow> m s = Some (x, r) \<longrightarrow> length s \<le> length r + bound + 1)"

lemma in_bound_suffix: "in_bound d \<Longrightarrow> suffix t d \<Longrightarrow> in_bound t"
  unfolding in_bound_def by (meson suffix_order.trans)

lemma scan_split:
  assumes "\<And>s. suffix s a \<Longrightarrow> n < length s \<Longrightarrow> m s = None \<Longrightarrow> m (s @ b) = None"
    and "n \<le> length a" and "scan (take_last n a) = []"
  shows "scan (a @ b) = scan a @ scan (take_last n a @ b)"
  using assms
proof (induction a)
  case Nil
  then show ?case by simp
next
  case (Cons c cs)
  show ?case
  proof (cases "n = length (c # cs)")
    case True
    then show ?thesis using Cons.prems(3) by (simp add: take_last_all)
  next
    case False
    with Cons.prems(2) have n: "n \<le> length cs" by simp
    have tl: "take_last n (c # cs) = take_last n cs"
      using n take_last_append_ge [of n cs "[c]"] by simp
    have IH: "scan (cs @ b) = scan cs @ scan (take_last n cs @ b)"
      using Cons.prems n tl by (intro Cons.IH) (auto simp: suffix_ConsI)
    show ?thesis
    proof (cases "m (c # cs)")
      case None
      with n have "m ((c # cs) @ b) = None" by (intro Cons.prems(1)) auto
      with None IH tl show ?thesis by simp
    next
      case (Some y)
      obtain x r where "y = (x, r)" by (cases y)
      with Some extend [of "c # cs" x r b] IH tl show ?thesis by simp
    qed
  qed
qed

lemma carry_take_last: "carry_within bound m a = take_last (length (carry_within bound m a)) a"
proof -
  have part: "partial_marker a = take_last (length (partial_marker a)) a"
    by (auto simp: partial_marker_def)
  have "drop i a = take_last (length (drop i a)) a" for i
    by (cases "i \<le> length a") (simp_all add: take_last_def)
  with part show ?thesis
    unfolding carry_within_def by (auto split: option.splits if_splits)
qed

lemma scan_short: "length d < length marker \<Longrightarrow> scan d = []"
proof (induction d)
  case (Cons c cs)
  have "m (c # cs) = None"
  proof (cases "m (c # cs)")
    case (Some y)
    then obtain body r where "c # cs = marker @ body @ r" using shape [of "c # cs"] by (cases y) blast
    then have "length marker \<le> length (c # cs)" by (metis length_append le_add1)
    with Cons.prems show ?thesis by simp
  qed
  with Cons show ?case by simp
qed simp

lemma length_partial_marker: "length (partial_marker a) < length marker"
  by (auto simp: partial_marker_def marker_def)

lemma scan_carry: "scan (carry_within bound m a) = []"
  using scan_short [OF length_partial_marker]
  by (auto simp: carry_within_def search_def finditer_scan split: option.splits)

lemma carry_covers:
  assumes w: "in_bound (a @ b)" and s: "suffix s a" and none: "m s = None"
    and some: "m (s @ b) = Some (x, r)"
  shows "length s \<le> length (carry_within bound m a)"
proof -
  from shape [OF some] obtain body where eq: "s @ b = marker @ body @ r" and esc: "ESC \<notin> set body"
    by blast
  have lr: "length r < length b" by (rule completes [OF none some])
  have "suffix (s @ b) (a @ b)" using s by (auto simp: suffix_def)
  with w some have "length (s @ b) \<le> length r + bound + 1" unfolding in_bound_def by blast
  with lr have ls: "length s \<le> bound" by simp
  have pre: "prefix s (marker @ body)"
  proof -
    from eq have "s @ b = (marker @ body) @ r" by simp
    then obtain us where "s = (marker @ body) @ us \<and> us @ b = r \<or> s @ us = marker @ body \<and> b = us @ r"
      unfolding append_eq_append_conv2 by blast
    then show ?thesis using lr by (elim disjE conjE) (force, metis prefixI)
  qed
  show ?thesis
  proof (cases "length s \<ge> 3")
    case True
    then obtain t where st: "s = marker @ t" and tb: "ESC \<notin> set t"
      using pre esc by (auto simp: marker_def prefix_def append_eq_append_conv2 append_eq_Cons_conv
          Cons_eq_append_conv numeral_3_eq_3)
    obtain p where a: "a = p @ s" using s by (auto simp: suffix_def)
    have "starts_with (drop (length p) a) marker" using a st by (simp add: starts_with_append)
    from rfind_sub_last [OF this] a obtain i
      where i: "rfind_sub marker a = Some i" "length p \<le> i" by auto
    from rfind_sub_Some [OF i(1)] have isub: "starts_with (drop i a) marker" "i \<le> length a" by auto
    have "i = length p"
    proof (rule ccontr)
      assume "i \<noteq> length p"
      with i have "length p < i" by simp
      with a st have "set (drop i a) \<subseteq> set ([CHR ''['', CHR ''?''] @ t)"
        using set_drop_subset [of "i - length p - 1" "[CHR ''['', CHR ''?''] @ t"]
        by (simp add: marker_def drop_Cons' Suc_diff_Suc split: if_splits)
      then have "ESC \<notin> set (drop i a)" using tb by (auto simp: ESC_def)
      moreover have "ESC \<in> set (drop i a)"
        using starts_withD [OF isub(1)] by (metis Un_iff marker_def list.set_intros(1) set_append)
      ultimately show False by simp
    qed
    with a have d: "drop i a = s" by simp
    have "scan s = []"
      using none tb scan_no_ESC [of "[CHR ''['', CHR ''?''] @ t" "[]"] unfolding st
      by (simp add: marker_def ESC_def)
    then have "carry_within bound m a = s"
      using i(1) d a ls \<open>i = length p\<close>
      by (simp add: carry_within_def search_def finditer_scan)
    then show ?thesis by simp
  next
    case False
    then have short: "s = [] \<or> s = take 1 marker \<or> s = take 2 marker"
      using pre by (cases s rule: remdups_adj.cases)
        (auto simp: marker_def prefix_def Cons_eq_append_conv append_eq_Cons_conv)
    have en: "ends_with a s" using s by (auto simp: ends_with_iff suffix_def)
    have part: "length s \<le> length (partial_marker a)"
      using short en by (auto simp: partial_marker_def ends_with_def marker_def numeral_2_eq_2)
    show ?thesis
    proof (cases "carry_within bound m a = partial_marker a")
      case True
      then show ?thesis using part by simp
    next
      case False
      then obtain i where i: "rfind_sub marker a = Some i" "carry_within bound m a = drop i a"
        unfolding carry_within_def by (auto split: option.splits if_splits)
      then have "length marker \<le> length (drop i a)"
        using rfind_sub_Some [OF i(1)] starts_withD by (metis length_append le_add1)
      with i(2) \<open>\<not> length s \<ge> 3\<close> show ?thesis by (simp add: marker_def)
    qed
  qed
qed

text \<open>The stream may be cut anywhere: what the carried tail loses was already found.\<close>

lemma cut_anywhere:
  assumes "in_bound (a @ b)"
  shows "finditer m (a @ b) = finditer m a @ finditer m (carry_within bound m a @ b)"
proof -
  let ?n = "length (carry_within bound m a)"
  have "scan (a @ b) = scan a @ scan (take_last ?n a @ b)"
  proof (rule scan_split)
    show "m (s @ b) = None" if "suffix s a" "?n < length s" "m s = None" for s
      using carry_covers [OF assms that(1,3)] that(2) by (cases "m (s @ b)") fastforce+
    show "?n \<le> length a" by (metis carry_take_last length_take_last min.cobounded2)
    show "scan (take_last ?n a) = []" using scan_carry carry_take_last by metis
  qed
  then show ?thesis using carry_take_last by (metis finditer_scan)
qed

text \<open>What a parser's tail knows of the stream \<open>h\<close> it has been fed.\<close>

definition carried :: "bytes \<Rightarrow> bytes \<Rightarrow> bool" where
  "carried h t \<longleftrightarrow> suffix t h \<and>
     (\<forall>b. in_bound (h @ b) \<longrightarrow> finditer m (h @ b) = finditer m h @ finditer m (t @ b))"

lemma carried_start: "carried [] []"
  by (simp add: carried_def)

lemma in_bound_prefix: "in_bound (a @ b) \<Longrightarrow> in_bound a"
  unfolding in_bound_def
proof (intro allI impI)
  fix s x r
  assume w: "\<forall>s x r. suffix s (a @ b) \<longrightarrow> m s = Some (x, r) \<longrightarrow> length s \<le> length r + bound + 1"
    and s: "suffix s a" and m: "m s = Some (x, r)"
  have "suffix (s @ b) (a @ b)" using s by (auto simp: suffix_def)
  with w extend [OF m] have "length (s @ b) \<le> length (r @ b) + bound + 1" by blast
  then show "length s \<le> length r + bound + 1" by simp
qed

lemma carried_found:
  "carried h t \<Longrightarrow> in_bound (h @ c) \<Longrightarrow> finditer m (h @ c) = finditer m h @ finditer m (t @ c)"
  by (simp add: carried_def)

lemma carried_step:
  assumes "carried h t"
  shows "carried (h @ c) (carry_within bound m (t @ c))"
  unfolding carried_def
proof (intro conjI allI impI)
  have t: "suffix t h" using assms by (simp add: carried_def)
  then have tc: "suffix (t @ c) (h @ c)" by (auto simp: suffix_def)
  moreover have "suffix (carry_within bound m (t @ c)) (t @ c)"
    by (metis carry_take_last suffixI suffix_take_last)
  ultimately show "suffix (carry_within bound m (t @ c)) (h @ c)" by (metis suffix_order.trans)
  fix b
  assume w: "in_bound ((h @ c) @ b)"
  have "suffix ((t @ c) @ b) ((h @ c) @ b)" using tc by (auto simp: suffix_def)
  with w have "in_bound ((t @ c) @ b)" by (rule in_bound_suffix)
  then have "finditer m (t @ c @ b) = finditer m (t @ c) @ finditer m (carry_within bound m (t @ c) @ b)"
    using cut_anywhere by fastforce
  moreover have "finditer m (h @ c @ b) = finditer m h @ finditer m (t @ c @ b)"
    using assms w by (simp add: carried_def)
  moreover have "finditer m (h @ c) = finditer m h @ finditer m (t @ c)"
    using assms in_bound_prefix [OF w] by (rule carried_found)
  ultimately show "finditer m ((h @ c) @ b) =
      finditer m (h @ c) @ finditer m (carry_within bound m (t @ c) @ b)" by simp
qed

end

subsection \<open>The expressions of the source are scanners\<close>

text \<open>The shape all three share: the marker, a run of parameter characters, then \<open>h\<close> or \<open>l\<close>.\<close>

definition framed :: "(char \<Rightarrow> bool) \<Rightarrow> (bytes \<Rightarrow> bool \<Rightarrow> 'm option) \<Rightarrow> 'm matcher" where
  "framed P f d =
     (if starts_with d marker then
        (case dropWhile P (drop 3 d) of
           [] \<Rightarrow> None
         | c # r \<Rightarrow>
             if c = CHR ''h'' \<or> c = CHR ''l''
               then map_option (\<lambda>x. (x, r)) (f (takeWhile P (drop 3 d)) (c = CHR ''h''))
             else None)
      else None)"

lemma framed_Some:
  "framed P f d = Some (x, r) \<longleftrightarrow>
   (\<exists>ps c. d = marker @ ps @ c # r \<and> list_all P ps \<and> \<not> P c \<and> (c = CHR ''h'' \<or> c = CHR ''l'')
      \<and> f ps (c = CHR ''h'') = Some x)"
  (is "?L \<longleftrightarrow> ?R")
proof
  assume ?L
  then obtain c where sw: "starts_with d marker" and dw: "dropWhile P (drop 3 d) = c # r"
    and c: "c = CHR ''h'' \<or> c = CHR ''l''" and f: "f (takeWhile P (drop 3 d)) (c = CHR ''h'') = Some x"
    by (auto simp: framed_def split: if_splits list.splits)
  have "drop 3 d = takeWhile P (drop 3 d) @ c # r" using dw by (metis takeWhile_dropWhile_id)
  moreover have "d = marker @ drop 3 d" using sw marker_tail by blast
  moreover have "\<not> P c" using dw by (metis hd_dropWhile list.distinct(1) list.sel(1))
  moreover have "list_all P (takeWhile P (drop 3 d))" by (auto simp: list_all_iff dest: set_takeWhileD)
  ultimately show ?R using c f by metis
next
  assume ?R
  then obtain ps c where d: "d = marker @ ps @ c # r" and ps: "list_all P ps" "\<not> P c"
    and c: "c = CHR ''h'' \<or> c = CHR ''l''" and f: "f ps (c = CHR ''h'') = Some x" by blast
  have "drop 3 d = ps @ c # r" by (simp add: d marker_def)
  moreover have "dropWhile P (ps @ c # r) = c # r" "takeWhile P (ps @ c # r) = ps"
    using ps by (induction ps) auto
  moreover have "starts_with d marker" by (simp add: d starts_with_append)
  ultimately show ?L using c f by (simp add: framed_def)
qed

lemma framed_scanner:
  assumes "\<And>c. P c \<Longrightarrow> c \<noteq> ESC" and "length marker \<le> bound"
  shows "marker_scanner (framed P f) bound"
proof
  show "length marker \<le> bound" by fact
  show "\<exists>body. d = marker @ body @ r \<and> ESC \<notin> set body" if "framed P f d = Some (x, r)" for d x r
  proof -
    from that obtain ps c where d: "d = marker @ (ps @ [c]) @ r" "list_all P ps"
      and "c = CHR ''h'' \<or> c = CHR ''l''" unfolding framed_Some by auto
    then have "ESC \<notin> set (ps @ [c])" using assms(1) by (auto simp: list_all_iff ESC_def)
    with d show ?thesis by blast
  qed
  show "framed P f (d @ b) = Some (x, r @ b)" if "framed P f d = Some (x, r)" for d x r b
    using that unfolding framed_Some by fastforce
  show "length r < length b" if none: "framed P f d = None" and "framed P f (d @ b) = Some (x, r)" for d b x r
  proof (rule ccontr)
    assume "\<not> length r < length b"
    from that(2) obtain ps c where eq: "d @ b = (marker @ ps @ [c]) @ r" and ok: "list_all P ps" "\<not> P c"
      "c = CHR ''h'' \<or> c = CHR ''l''" "f ps (c = CHR ''h'') = Some x" unfolding framed_Some by auto
    then obtain us where "d = (marker @ ps @ [c]) @ us"
      using \<open>\<not> length r < length b\<close> unfolding append_eq_append_conv2 by auto
    with ok have "framed P f d = Some (x, us)" unfolding framed_Some by auto
    with none show False by simp
  qed
qed

definition known_param :: "bytes list \<Rightarrow> bytes \<Rightarrow> bool \<Rightarrow> bool option" where
  "known_param params ps state = (if ps \<in> set params then Some state else None)"

lemma is_digit_hl: "\<not> is_digit (CHR ''h'')" "\<not> is_digit (CHR ''l'')" "\<not> is_digit ESC"
    "\<not> is_digit (CHR 0x1B)"
  by (simp_all add: is_digit_def ESC_def)

lemma match_params_Some:
  "\<forall>p \<in> set params. list_all is_digit p \<Longrightarrow>
   match_params params d = Some (x, r) \<longleftrightarrow>
   (\<exists>p \<in> set params. d = p @ (if x then CHR ''h'' else CHR ''l'') # r)"
proof (induction params)
  case Nil
  then show ?case by simp
next
  case (Cons p ps)
  then have IH: "match_params ps d = Some (x, r) \<longleftrightarrow>
      (\<exists>p \<in> set ps. d = p @ (if x then CHR ''h'' else CHR ''l'') # r)" by simp
  have uniq: "q = p \<and> c = c' \<and> r' = r''"
    if "q @ c # r' = p @ c' # r''" "list_all is_digit q" "list_all is_digit p" "\<not> is_digit c" "\<not> is_digit c'"
    for p q :: bytes and c c' r' r''
    using that by (induction q p rule: list_induct2') auto
  show ?case
  proof (cases "\<exists>y s. d = p @ (if y then CHR ''h'' else CHR ''l'') # s")
    case True
    then obtain y s where d: "d = p @ (if y then CHR ''h'' else CHR ''l'') # s" by blast
    then have "match_params (p # ps) d = Some (y, s)" by (simp add: starts_with_append)
    moreover have "(\<exists>q \<in> set (p # ps). d = q @ (if x then CHR ''h'' else CHR ''l'') # r) \<longleftrightarrow> x = y \<and> r = s"
    proof
      assume "\<exists>q \<in> set (p # ps). d = q @ (if x then CHR ''h'' else CHR ''l'') # r"
      then obtain q where "q \<in> set (p # ps)" "d = q @ (if x then CHR ''h'' else CHR ''l'') # r" by blast
      with uniq [of q "if x then CHR ''h'' else CHR ''l''" r p "if y then CHR ''h'' else CHR ''l''" s]
        d Cons.prems show "x = y \<and> r = s" by (auto simp: is_digit_hl split: if_splits)
    qed (use d in auto)
    ultimately show ?thesis by auto
  next
    case False
    then have "match_params (p # ps) d = match_params ps d"
      using starts_withD [of d p]
      by (auto split: list.splits) (metis append_eq_conv_conj starts_with_def)+
    with IH False show ?thesis by auto
  qed
qed

lemma mode_toggle_framed:
  assumes "\<forall>p \<in> set params. list_all is_digit p"
  shows "mode_toggle params = framed is_digit (known_param params)"
proof
  fix d
  have "mode_toggle params d = Some (x, r) \<longleftrightarrow> framed is_digit (known_param params) d = Some (x, r)" for x r
  proof -
    have "mode_toggle params d = Some (x, r) \<longleftrightarrow>
        (\<exists>p \<in> set params. d = marker @ p @ (if x then CHR ''h'' else CHR ''l'') # r)"
      unfolding mode_toggle_def
      using match_params_Some [OF assms, of "drop 3 d" x r] marker_tail [of d] by (auto split: if_splits)
    then show ?thesis
      using assms unfolding framed_Some known_param_def by (auto simp: is_digit_hl split: if_splits)
  qed
  then show "mode_toggle params d = framed is_digit (known_param params) d"
    by (metis not_Some_eq surj_pair)
qed

lemma PRIVATE_MODE_SET_framed:
  "PRIVATE_MODE_SET = framed is_param_char (\<lambda>ps state. if ps = [] then None else Some (ps, state))"
proof
  fix d
  show "PRIVATE_MODE_SET d = framed is_param_char (\<lambda>ps state. if ps = [] then None else Some (ps, state)) d"
    by (cases "dropWhile is_param_char (drop 3 d)") (simp_all add: PRIVATE_MODE_SET_def framed_def Let_def del: dropWhile_eq_Nil_conv)
qed

lemma SCREEN_TOGGLE_framed:
  "SCREEN_TOGGLE = framed is_digit (known_param [''1049'', ''1047'', ''47''])"
  unfolding SCREEN_TOGGLE_def by (rule mode_toggle_framed) (simp add: is_digit_def)

lemma BRACKETED_PASTE_TOGGLE_framed:
  "BRACKETED_PASTE_TOGGLE = framed is_digit (known_param [''2004''])"
  unfolding BRACKETED_PASTE_TOGGLE_def by (rule mode_toggle_framed) (simp add: is_digit_def)

interpretation scr: marker_scanner SCREEN_TOGGLE MAX_PARTIAL
  unfolding SCREEN_TOGGLE_framed
  by (rule framed_scanner) (auto simp: is_digit_hl MAX_PARTIAL_def)

interpretation paste: marker_scanner BRACKETED_PASTE_TOGGLE MAX_PARTIAL
  unfolding BRACKETED_PASTE_TOGGLE_framed
  by (rule framed_scanner) (auto simp: is_digit_hl MAX_PARTIAL_def)

interpretation sticky: marker_scanner PRIVATE_MODE_SET MAX_STICKY_PARTIAL
  unfolding PRIVATE_MODE_SET_framed
  by (rule framed_scanner) (auto simp: is_param_char_def is_digit_hl MAX_STICKY_PARTIAL_def ESC_def)

lemma screen_in_bound [simp]: "scr.in_bound d"
proof (unfold scr.in_bound_def, intro allI impI)
  fix s x r
  assume "SCREEN_TOGGLE s = Some (x, r)"
  then show "length s \<le> length r + MAX_PARTIAL + 1"
    unfolding SCREEN_TOGGLE_framed framed_Some known_param_def
    by (auto simp: MAX_PARTIAL_def split: if_splits)
qed

lemma paste_in_bound [simp]: "paste.in_bound d"
proof (unfold paste.in_bound_def, intro allI impI)
  fix s x r
  assume "BRACKETED_PASTE_TOGGLE s = Some (x, r)"
  then show "length s \<le> length r + MAX_PARTIAL + 1"
    unfolding BRACKETED_PASTE_TOGGLE_framed framed_Some known_param_def
    by (auto simp: MAX_PARTIAL_def split: if_splits)
qed

subsection \<open>The parsers report what one pass over the whole stream would\<close>

definition mode_of_toggles :: "bool list \<Rightarrow> screen_mode option" where
  "mode_of_toggles found =
     (if found = [] then None else Some (if last found then Alternate else Normal))"

definition paste_of_toggles :: "bool list \<Rightarrow> bool option" where
  "paste_of_toggles found = (if found = [] then None else Some (last found))"

definition screen_tracks :: "bytes \<Rightarrow> screen_mode_parser \<Rightarrow> bool" where
  "screen_tracks h p \<longleftrightarrow> scr.carried h (sm_tail p) \<and> sm_mode p = mode_of_toggles (finditer SCREEN_TOGGLE h)"

definition paste_tracks :: "bytes \<Rightarrow> bracketed_paste_parser \<Rightarrow> bool" where
  "paste_tracks h p \<longleftrightarrow>
     paste.carried h (bp_tail p) \<and> bp_enabled p = paste_of_toggles (finditer BRACKETED_PASTE_TOGGLE h)"

definition sticky_tracks :: "bytes \<Rightarrow> sticky_mode_parser \<Rightarrow> bool" where
  "sticky_tracks h p \<longleftrightarrow>
     sticky.carried h (st_tail p) \<and>
     (sticky.in_bound h \<longrightarrow> st_enabled p = set_modes Map.empty (sticky_toggles h))"

lemma screen_tracks_new [inv_rules]: "screen_tracks [] new_screen"
  by (simp add: screen_tracks_def new_screen_def scr.carried_start mode_of_toggles_def)

lemma screen_tracks_feed [inv_rules]:
  assumes "screen_tracks h p"
  shows "screen_tracks (h @ c) (screen_feed p c)"
proof -
  from assms have car: "scr.carried h (sm_tail p)"
    and mode: "sm_mode p = mode_of_toggles (finditer SCREEN_TOGGLE h)" by (simp_all add: screen_tracks_def)
  have "sm_tail (screen_feed p c) = carry_within MAX_PARTIAL SCREEN_TOGGLE (sm_tail p @ c)"
    by (simp add: screen_feed_def Let_def carry_def)
  moreover have "sm_mode (screen_feed p c) = mode_of_toggles (finditer SCREEN_TOGGLE (h @ c))"
    using scr.carried_found [OF car screen_in_bound, of c] mode
    by (simp add: screen_feed_def Let_def mode_of_toggles_def)
  ultimately show ?thesis using scr.carried_step [OF car, of c] by (simp add: screen_tracks_def)
qed

lemma paste_tracks_new [inv_rules]: "paste_tracks [] new_paste"
  by (simp add: paste_tracks_def new_paste_def paste.carried_start paste_of_toggles_def)

lemma paste_tracks_feed [inv_rules]:
  assumes "paste_tracks h p"
  shows "paste_tracks (h @ c) (paste_feed p c)"
proof -
  from assms have car: "paste.carried h (bp_tail p)"
    and mode: "bp_enabled p = paste_of_toggles (finditer BRACKETED_PASTE_TOGGLE h)"
    by (simp_all add: paste_tracks_def)
  have "bp_tail (paste_feed p c) = carry_within MAX_PARTIAL BRACKETED_PASTE_TOGGLE (bp_tail p @ c)"
    by (simp add: paste_feed_def Let_def carry_def)
  moreover have "bp_enabled (paste_feed p c) = paste_of_toggles (finditer BRACKETED_PASTE_TOGGLE (h @ c))"
    using paste.carried_found [OF car paste_in_bound, of c] mode
    by (simp add: paste_feed_def Let_def paste_of_toggles_def)
  ultimately show ?thesis using paste.carried_step [OF car, of c] by (simp add: paste_tracks_def)
qed

lemma set_modes_append: "set_modes e (xs @ ys) = set_modes (set_modes e xs) ys"
  by (simp add: set_modes_def)

lemma sticky_tracks_new [inv_rules]: "sticky_tracks [] new_sticky"
  by (simp add: sticky_tracks_def new_sticky_def sticky.carried_start sticky_toggles_def set_modes_def)

lemma sticky_tracks_feed [inv_rules]:
  assumes "sticky_tracks h p"
  shows "sticky_tracks (h @ c) (sticky_feed p c)"
proof -
  from assms have car: "sticky.carried h (st_tail p)"
    and mode: "sticky.in_bound h \<Longrightarrow> st_enabled p = set_modes Map.empty (sticky_toggles h)"
    by (simp_all add: sticky_tracks_def)
  have "st_tail (sticky_feed p c) = carry_within MAX_STICKY_PARTIAL PRIVATE_MODE_SET (st_tail p @ c)"
    by (simp add: sticky_feed_def Let_def sticky_carry_def)
  moreover have "st_enabled (sticky_feed p c) = set_modes Map.empty (sticky_toggles (h @ c))"
    if w: "sticky.in_bound (h @ c)"
  proof -
    have "sticky_toggles (h @ c) = sticky_toggles h @ sticky_toggles (st_tail p @ c)"
      using sticky.carried_found [OF car w] by (simp add: sticky_toggles_def)
    with mode [OF sticky.in_bound_prefix [OF w]] show ?thesis
      by (simp add: sticky_feed_def Let_def set_modes_append)
  qed
  ultimately show ?thesis using sticky.carried_step [OF car, of c] by (simp add: sticky_tracks_def)
qed

lemma screen_tracks_feeds:
  "screen_tracks h p \<Longrightarrow> screen_tracks (h @ concat cs) (foldl screen_feed p cs)"
  by (rule foldl_tracks) (rule screen_tracks_feed)

lemma paste_tracks_feeds:
  "paste_tracks h p \<Longrightarrow> paste_tracks (h @ concat cs) (foldl paste_feed p cs)"
  by (rule foldl_tracks) (rule paste_tracks_feed)

lemma sticky_tracks_feeds:
  "sticky_tracks h p \<Longrightarrow> sticky_tracks (h @ concat cs) (foldl sticky_feed p cs)"
  by (rule foldl_tracks) (rule sticky_tracks_feed)

text \<open>
  C36. However the child's output is cut into chunks, the screen buffer and the bracketed-paste flag
  the daemon tracks are those of the last toggle in the whole stream: no toggle is lost to a chunk
  boundary and none is counted twice.
\<close>

theorem screen_and_paste_chunk_independent:
  "sm_mode (foldl screen_feed new_screen cs) = mode_of_toggles (finditer SCREEN_TOGGLE (concat cs))
   \<and> bp_enabled (foldl paste_feed new_paste cs)
       = paste_of_toggles (finditer BRACKETED_PASTE_TOGGLE (concat cs))"
  using screen_tracks_feeds [OF screen_tracks_new, of cs] paste_tracks_feeds [OF paste_tracks_new, of cs]
  by (simp add: screen_tracks_def paste_tracks_def)

text \<open>
  The sticky reporting modes are tracked the same way, as long as no mode-setting sequence of
  the stream is longer than 36 bytes (\<^verbatim>\<open>_MAX_STICKY_PARTIAL\<close> + 1).
\<close>

theorem sticky_chunk_independent:
  assumes "\<And>s x r. suffix s (concat cs) \<Longrightarrow> PRIVATE_MODE_SET s = Some (x, r) \<Longrightarrow>
    length s \<le> length r + MAX_STICKY_PARTIAL + 1"
  shows "st_enabled (foldl sticky_feed new_sticky cs) = set_modes Map.empty (sticky_toggles (concat cs))"
proof -
  have "sticky.in_bound (concat cs)" unfolding sticky.in_bound_def using assms by blast
  then show ?thesis using sticky_tracks_feeds [OF sticky_tracks_new, of cs] by (simp add: sticky_tracks_def)
qed

theorem sticky_chunk_independent_witness:
  "st_enabled (foldl sticky_feed new_sticky [ESC # ''[?10'', ''02;1006h'']) 1006 = Some True"
proof -
  have "st_enabled (foldl sticky_feed new_sticky [ESC # ''[?10'', ''02;1006h''])
      = set_modes Map.empty (sticky_toggles (concat [ESC # ''[?10'', ''02;1006h'']))"
  proof (rule sticky_chunk_independent)
    fix s x r
    assume "suffix s (concat [ESC # ''[?10'', ''02;1006h''])"
    from suffix_length_le [OF this] show "length s \<le> length (r :: bytes) + MAX_STICKY_PARTIAL + 1"
      by (simp add: MAX_STICKY_PARTIAL_def)
  qed
  moreover have "set_modes Map.empty (sticky_toggles (concat [ESC # ''[?10'', ''02;1006h''])) 1006 = Some True"
    by code_simp
  ultimately show ?thesis by (simp only:)
qed

end
