(* ===== verification/Terminal_Stream.thy ===== *)
theory Terminal_Stream
  imports Scrollback Screen_Mode
begin

text \<open>
  \<^verbatim>\<open>terminal_core/stream.py\<close>: one session's output stream, that is the retained ring, the
  three mode parsers, and the subscribers every byte fans out to.

  A \<^verbatim>\<open>PtySubscriber\<close> is compared by identity, so the set of them is an association list keyed by a
  number that is never reused. Each fan-out treats every subscriber on its own, so the order in which
  Python iterates the set does not matter. What the hosting process supplies at the instant of a call
  (\<^verbatim>\<open>remote_stream()\<close>, \<^verbatim>\<open>rebuilt()\<close>, \<^verbatim>\<open>snapshot()\<close>) is an argument. Frames are of any type \<open>'f\<close>, except the
  \<^verbatim>\<open>resync\<close> marker the stream itself queues.
\<close>

subsection \<open>Subscribers\<close>

datatype 'f queued = Output bytes | Frame 'f | Resync

record 'f pty_subscriber =
  sub_queue :: "'f queued list"
  sub_maxsize :: int
  resync_pending :: bool
  dropped_bytes :: int
  dropped_chunks :: int
  exit_pending :: "'f option"

definition new_subscriber :: "int \<Rightarrow> 'f pty_subscriber" where
  "new_subscriber maxsize =
     \<lparr>sub_queue = [], sub_maxsize = maxsize, resync_pending = False, dropped_bytes = 0,
      dropped_chunks = 0, exit_pending = None\<rparr>"

text \<open>\<^verbatim>\<open>asyncio.Queue.put_nowait\<close>; \<open>None\<close> is \<^verbatim>\<open>QueueFull\<close>, and a queue of size 0 or less is unbounded.\<close>

definition put_nowait :: "'f queued \<Rightarrow> 'f pty_subscriber \<Rightarrow> 'f pty_subscriber option" where
  "put_nowait x s =
     (if 0 < sub_maxsize s \<and> sub_maxsize s \<le> int (length (sub_queue s)) then None
      else Some (s\<lparr>sub_queue := sub_queue s @ [x]\<rparr>))"

fun drop_queued :: "'f queued list \<Rightarrow> int \<Rightarrow> int \<Rightarrow> int \<times> int" where
  "drop_queued [] bs cs = (bs, cs)"
| "drop_queued (Output d # q) bs cs = drop_queued q (bs + int (length d)) (cs + 1)"
| "drop_queued (Frame f # q) bs cs = drop_queued q bs cs"
| "drop_queued (Resync # q) bs cs = drop_queued q bs cs"

definition schedule_resync :: "bytes option \<Rightarrow> 'f pty_subscriber \<Rightarrow> 'f pty_subscriber" where
  "schedule_resync rejected s =
     (let s = (case rejected of
                 None \<Rightarrow> s
               | Some r \<Rightarrow> s\<lparr>dropped_bytes := dropped_bytes s + int (length r),
                             dropped_chunks := dropped_chunks s + 1\<rparr>);
          (bs, cs) = drop_queued (sub_queue s) (dropped_bytes s) (dropped_chunks s);
          s = s\<lparr>sub_queue := [], dropped_bytes := bs, dropped_chunks := cs\<rparr>
      in if resync_pending s then s
         else s\<lparr>resync_pending := True, sub_queue := [Resync]\<rparr>)"

definition sub_output :: "bytes \<Rightarrow> 'f pty_subscriber \<Rightarrow> 'f pty_subscriber" where
  "sub_output d s =
     (if resync_pending s
        then s\<lparr>dropped_bytes := dropped_bytes s + int (length d), dropped_chunks := dropped_chunks s + 1\<rparr>
      else (case put_nowait (Output d) s of Some s' \<Rightarrow> s' | None \<Rightarrow> schedule_resync (Some d) s))"

definition sub_frame :: "'f \<Rightarrow> 'f pty_subscriber \<Rightarrow> 'f pty_subscriber" where
  "sub_frame f s =
     (if resync_pending s then s
      else (case put_nowait (Frame f) s of Some s' \<Rightarrow> s' | None \<Rightarrow> schedule_resync None s))"

definition sub_exit :: "'f \<Rightarrow> 'f pty_subscriber \<Rightarrow> 'f pty_subscriber" where
  "sub_exit f s =
     (if resync_pending s then s\<lparr>exit_pending := Some f\<rparr>
      else (case put_nowait (Frame f) s of
              Some s' \<Rightarrow> s'
            | None \<Rightarrow> (schedule_resync None s)\<lparr>exit_pending := Some f\<rparr>))"

subsection \<open>The stream\<close>

record 'f terminal_stream =
  scrollback :: scrollback_buffer
  attach_replay_bytes :: "int option"
  local_stream_id :: string
  subscribers :: "(nat \<times> 'f pty_subscriber) list"
  next_subscriber :: nat
  screen :: screen_mode_parser
  bracketed_paste :: bracketed_paste_parser
  sticky_modes :: sticky_mode_parser

definition new_stream :: "int \<Rightarrow> int option \<Rightarrow> string \<Rightarrow> 'f terminal_stream" where
  "new_stream max_scrollback replay sid =
     \<lparr>scrollback = new_scrollback max_scrollback, attach_replay_bytes = replay, local_stream_id = sid,
      subscribers = [], next_subscriber = 0, screen = new_screen, bracketed_paste = new_paste,
      sticky_modes = new_sticky\<rparr>"

text \<open>\<open>None\<close> is an answer of \<^verbatim>\<open>remote_stream()\<close> that is not a string.\<close>

definition stream_id :: "string option \<Rightarrow> 'f terminal_stream \<Rightarrow> string" where
  "stream_id remote s =
     (case remote of
        Some r \<Rightarrow> if r \<noteq> [] then r else local_stream_id s
      | None \<Rightarrow> local_stream_id s)"

definition subscribe :: "int \<Rightarrow> 'f terminal_stream \<Rightarrow> nat \<times> 'f terminal_stream" where
  "subscribe maxsize s =
     (next_subscriber s,
      s\<lparr>subscribers := subscribers s @ [(next_subscriber s, new_subscriber maxsize)],
        next_subscriber := Suc (next_subscriber s)\<rparr>)"

definition unsubscribe :: "nat \<Rightarrow> 'f terminal_stream \<Rightarrow> 'f terminal_stream" where
  "unsubscribe i s = s\<lparr>subscribers := AList.delete i (subscribers s)\<rparr>"

definition each_subscriber ::
  "('f pty_subscriber \<Rightarrow> 'f pty_subscriber) \<Rightarrow> 'f terminal_stream \<Rightarrow> 'f terminal_stream" where
  "each_subscriber g s = s\<lparr>subscribers := map (\<lambda>(i, x). (i, g x)) (subscribers s)\<rparr>"

definition publish_control :: "'f \<Rightarrow> 'f terminal_stream \<Rightarrow> 'f terminal_stream" where
  "publish_control f s = each_subscriber (sub_frame f) s"

definition publish_output :: "bytes \<Rightarrow> 'f terminal_stream \<Rightarrow> 'f terminal_stream" where
  "publish_output d s = each_subscriber (sub_output d) s"

definition publish_update :: "'f \<Rightarrow> 'f terminal_stream \<Rightarrow> 'f terminal_stream" where
  "publish_update f s = each_subscriber (sub_frame f) s"

definition publish_exit :: "'f \<Rightarrow> 'f terminal_stream \<Rightarrow> 'f terminal_stream" where
  "publish_exit f s = each_subscriber (sub_exit f) s"

definition feed :: "'f terminal_stream \<Rightarrow> bytes \<Rightarrow> 'f terminal_stream" where
  "feed s d =
     publish_output d
       (s\<lparr>screen := screen_feed (screen s) d,
          bracketed_paste := paste_feed (bracketed_paste s) d,
          sticky_modes := sticky_feed (sticky_modes s) d,
          scrollback := sb_append (scrollback s) d\<rparr>)"

subsection \<open>What an attach replays\<close>

definition delta_covers :: "bool \<Rightarrow> int option \<Rightarrow> int \<Rightarrow> 'f terminal_stream \<Rightarrow> bool" where
  "delta_covers rebuilt since position s \<longleftrightarrow>
     (if rebuilt then False
      else
        case since of
          None \<Rightarrow> False
        | Some p \<Rightarrow>
            if \<not> (0 \<le> p \<and> p \<le> position) then False
            else if position - p > sb_size (scrollback s) then False
            else
              (case attach_replay_bytes s of
                 None \<Rightarrow> True
               | Some budget \<Rightarrow> budget \<le> 0 \<or> position - p \<le> budget))"

text \<open>\<^verbatim>\<open>bytes.rfind\<close> with its \<open>-1\<close>, for the two comparisons of \<^verbatim>\<open>replay_bytes\<close>.\<close>

definition rfind_int :: "bytes \<Rightarrow> bytes \<Rightarrow> int" where
  "rfind_int p d = (case rfind_sub p d of None \<Rightarrow> -1 | Some i \<Rightarrow> int i)"

definition replay_suffix :: "bytes \<Rightarrow> bytes" where
  "replay_suffix replay =
     (if rfind_int (marker @ ''2026h'') replay > rfind_int (marker @ ''2026l'') replay
        then marker @ ''2026l'' else []) @
     (if rfind_int (marker @ ''7l'') replay > rfind_int (marker @ ''7h'') replay
        then marker @ ''7h'' else [])"

definition replay_preamble :: "'f terminal_stream \<Rightarrow> bytes \<Rightarrow> bytes" where
  "replay_preamble s replay =
     (if bp_enabled (bracketed_paste s) = Some True \<and> \<not> search BRACKETED_PASTE_TOGGLE replay
        then marker @ ''2004h'' else []) @
     (if sm_mode (screen s) = Some Alternate \<and> \<not> search SCREEN_TOGGLE replay
        then marker @ ''1049h'' else []) @
     sticky_preamble (sticky_modes s) replay"

definition replay_bytes :: "'f terminal_stream \<Rightarrow> bytes" where
  "replay_bytes s =
     (let replay = sb_tail (scrollback s) (attach_replay_bytes s);
          suffix = replay_suffix replay
      in if int (length replay) = sb_size (scrollback s) then replay @ suffix
         else replay_preamble s replay @ replay @ suffix)"

definition replay_window_truncated :: "'f terminal_stream \<Rightarrow> bool" where
  "replay_window_truncated s \<longleftrightarrow>
     (case attach_replay_bytes s of
        None \<Rightarrow> False
      | Some limit \<Rightarrow> limit > 0 \<and> sb_size (scrollback s) > limit)"

datatype replay_kind = Delta | Attach

record 'd attach_result =
  ar_snapshot :: 'd
  ar_kind :: replay_kind
  ar_payload :: bytes
  ar_position :: int
  ar_subscriber :: nat

text \<open>\<open>snapshot\<close> is the pair of snapshot and revision the host answers in that instant.\<close>

definition attach ::
  "int option \<Rightarrow> string option \<Rightarrow> 'd \<Rightarrow> string option \<Rightarrow> bool \<Rightarrow> 'f terminal_stream \<Rightarrow>
   'd attach_result \<times> 'f terminal_stream" where
  "attach since stream snapshot remote rebuilt s =
     (let (i, s) = subscribe 1024 s;
          position = sb_position (scrollback s)
      in if since \<noteq> None \<and> stream \<noteq> None \<and> stream = Some (stream_id remote s)
            \<and> delta_covers rebuilt since position s
         then (\<lparr>ar_snapshot = snapshot, ar_kind = Delta,
                ar_payload = bytes_since (scrollback s) (the since),
                ar_position = position, ar_subscriber = i\<rparr>, s)
         else (\<lparr>ar_snapshot = snapshot, ar_kind = Attach, ar_payload = replay_bytes s,
                ar_position = position, ar_subscriber = i\<rparr>, s))"

record ('f, 'd) resync_result =
  rr_dropped_bytes :: int
  rr_dropped_chunks :: int
  rr_replay :: bytes
  rr_snapshot :: 'd
  rr_position :: int
  rr_exit :: "'f option"

definition take_resync_sub ::
  "'d \<Rightarrow> 'f terminal_stream \<Rightarrow> 'f pty_subscriber \<Rightarrow> ('f, 'd) resync_result \<times> 'f pty_subscriber" where
  "take_resync_sub snapshot s x =
     (\<lparr>rr_dropped_bytes = dropped_bytes x, rr_dropped_chunks = dropped_chunks x,
       rr_replay = replay_bytes s, rr_snapshot = snapshot,
       rr_position = sb_position (scrollback s), rr_exit = exit_pending x\<rparr>,
      x\<lparr>resync_pending := False, dropped_bytes := 0, dropped_chunks := 0, exit_pending := None\<rparr>)"

definition take_resync ::
  "nat \<Rightarrow> 'd \<Rightarrow> 'f terminal_stream \<Rightarrow> (('f, 'd) resync_result \<times> 'f terminal_stream) option" where
  "take_resync i snapshot s =
     (case map_of (subscribers s) i of
        None \<Rightarrow> None
      | Some x \<Rightarrow>
          (let (res, x') = take_resync_sub snapshot s x
           in Some (res, s\<lparr>subscribers := AList.update i x' (subscribers s)\<rparr>)))"

definition reseed :: "bytes \<Rightarrow> int \<Rightarrow> 'f terminal_stream \<Rightarrow> 'f terminal_stream" where
  "reseed data position s =
     each_subscriber (schedule_resync None)
       (s\<lparr>scrollback := sb_seed (scrollback s) data position,
          screen := screen_feed new_screen data,
          bracketed_paste := paste_feed new_paste data,
          sticky_modes := sticky_feed new_sticky data\<rparr>)"

subsection \<open>The ring under the stream\<close>

lemma each_subscriber_simps [simp]:
  "scrollback (each_subscriber g s) = scrollback s"
  "attach_replay_bytes (each_subscriber g s) = attach_replay_bytes s"
  "local_stream_id (each_subscriber g s) = local_stream_id s"
  "next_subscriber (each_subscriber g s) = next_subscriber s"
  "screen (each_subscriber g s) = screen s"
  "bracketed_paste (each_subscriber g s) = bracketed_paste s"
  "sticky_modes (each_subscriber g s) = sticky_modes s"
  "map fst (subscribers (each_subscriber g s)) = map fst (subscribers s)"
  "map_of (subscribers (each_subscriber g s)) i = map_option g (map_of (subscribers s) i)"
proof -
  have "map_of (map (\<lambda>(i, x). (i, g x)) xs) i = map_option g (map_of xs i)" for xs
    by (induction xs) auto
  then show "map_of (subscribers (each_subscriber g s)) i = map_option g (map_of (subscribers s) i)"
    by (simp add: each_subscriber_def)
qed (simp_all add: each_subscriber_def comp_def case_prod_beta)

lemma feed_simps [simp]:
  "scrollback (feed s d) = sb_append (scrollback s) d"
  "attach_replay_bytes (feed s d) = attach_replay_bytes s"
  "local_stream_id (feed s d) = local_stream_id s"
  "next_subscriber (feed s d) = next_subscriber s"
  "screen (feed s d) = screen_feed (screen s) d"
  "bracketed_paste (feed s d) = paste_feed (bracketed_paste s) d"
  "sticky_modes (feed s d) = sticky_feed (sticky_modes s) d"
  "map fst (subscribers (feed s d)) = map fst (subscribers s)"
  "map_of (subscribers (feed s d)) i = map_option (sub_output d) (map_of (subscribers s) i)"
  by (simp_all add: feed_def publish_output_def)

definition feeds :: "'f terminal_stream \<Rightarrow> bytes list \<Rightarrow> 'f terminal_stream" where
  "feeds s ds = foldl feed s ds"

lemma scrollback_feeds: "scrollback (feeds s ds) = ring.puts (scrollback s) ds"
  by (induction ds arbitrary: s) (simp_all add: feeds_def ring.puts_def)

lemma feeds_frame:
  "attach_replay_bytes (feeds s ds) = attach_replay_bytes s"
  "local_stream_id (feeds s ds) = local_stream_id s"
  by (induction ds arbitrary: s) (simp_all add: feeds_def)

lemma subscribe_simps [simp]:
  "fst (subscribe n s) = next_subscriber s"
  "scrollback (snd (subscribe n s)) = scrollback s"
  "attach_replay_bytes (snd (subscribe n s)) = attach_replay_bytes s"
  "local_stream_id (snd (subscribe n s)) = local_stream_id s"
  "screen (snd (subscribe n s)) = screen s"
  "bracketed_paste (snd (subscribe n s)) = bracketed_paste s"
  "sticky_modes (snd (subscribe n s)) = sticky_modes s"
  by (simp_all add: subscribe_def)

lemma replay_bytes_subscribe [simp]: "replay_bytes (snd (subscribe n s)) = replay_bytes s"
  by (simp add: replay_bytes_def replay_preamble_def Let_def)

lemma delta_covers_subscribe [simp]:
  "delta_covers b p q (snd (subscribe n s)) = delta_covers b p q s"
  by (cases p) (simp_all add: delta_covers_def)

lemma stream_id_subscribe [simp]: "stream_id r (snd (subscribe n s)) = stream_id r s"
  by (cases r) (simp_all add: stream_id_def)

lemma attach_unfold:
  "attach since stream snapshot remote rebuilt s =
     (let s' = snd (subscribe 1024 s); position = sb_position (scrollback s);
          delta = (since \<noteq> None \<and> stream = Some (stream_id remote s)
                   \<and> delta_covers rebuilt since position s)
      in (\<lparr>ar_snapshot = snapshot, ar_kind = (if delta then Delta else Attach),
           ar_payload = (if delta then bytes_since (scrollback s) (the since) else replay_bytes s),
           ar_position = position, ar_subscriber = next_subscriber s\<rparr>, s'))"
  by (auto simp: attach_def case_prod_beta Let_def)

lemma delta_covers_covered:
  assumes "delta_covers rebuilt (Some p) (sb_position (scrollback s)) s"
  shows "0 \<le> p" and "p \<le> sb_position (scrollback s)"
    and "sb_position (scrollback s) - sb_size (scrollback s) \<le> p"
  using assms by (auto simp: delta_covers_def split: if_splits)



end
