(* ===== verification/Replay_Modes.thy ===== *)
theory Replay_Modes
  imports Terminal_Stream
begin

text \<open>
  What a terminal that was reset and then parses a replay (\<^verbatim>\<open>TerminalStream.replay_bytes\<close>) ends
  up with. The abstract side is a terminal's own reading of a byte string: the buffer it shows, whether
  bracketed paste is on, and which sticky reporting modes are on. The replay has to leave a client in
  the modes the child has selected over its whole history, although only a window of it is replayed.
\<close>

subsection \<open>Scanning around a cut\<close>

context marker_scanner
begin

lemma scan_tail: "\<exists>X. scan (p @ w) = X @ scan w"
proof (induction p)
  case Nil
  show ?case by simp
next
  case (Cons c p)
  then obtain X where "scan (p @ w) = X @ scan w" by blast
  then have "scan ((c # p) @ w) = (case m (c # p @ w) of None \<Rightarrow> X | Some y \<Rightarrow> fst y # X) @ scan w"
    by (simp split: option.splits)
  then show ?case by blast
qed

lemma finditer_tail: "\<exists>X. finditer m (p @ w) = X @ finditer m w"
  using scan_tail by (simp add: finditer_scan)

lemma m_cut:
  assumes "m d = None" and "d \<noteq> []" and "b = [] \<or> hd b = ESC"
  shows "m (d @ b) = None"
proof (rule ccontr)
  assume "m (d @ b) \<noteq> None"
  then obtain x r where some: "m (d @ b) = Some (x, r)" by auto
  from shape [OF some] obtain body where eq: "d @ b = marker @ body @ r" and esc: "ESC \<notin> set body" by blast
  have lr: "length r < length b" by (rule completes [OF assms(1) some])
  have "d @ b = (marker @ body) @ r" using eq by simp
  then obtain us where "d = (marker @ body) @ us \<and> us @ b = r \<or> d @ us = marker @ body \<and> b = us @ r"
    unfolding append_eq_append_conv2 by blast
  with lr have us: "d @ us = marker @ body" "b = us @ r" "us \<noteq> []" by auto
  from us(2,3) assms(3) have "hd us = ESC" by auto
  then obtain vs where vs: "us = ESC # vs" using us(3) by (cases us) auto
  from assms(2) obtain c cs where "d = c # cs" by (cases d) auto
  with us(1) have "cs @ us = [CHR ''['', CHR ''?''] @ body" by (simp add: marker_def)
  moreover have "ESC \<in> set (cs @ us)" using vs by simp
  ultimately have "ESC \<in> set ([CHR ''['', CHR ''?''] @ body)" by metis
  with esc show False by (simp add: ESC_def)
qed

lemma scan_append_ESC:
  assumes "b = [] \<or> hd b = ESC"
  shows "scan (a @ b) = scan a @ scan b"
proof (induction a)
  case (Cons c cs)
  show ?case
  proof (cases "m (c # cs)")
    case None
    then have "m ((c # cs) @ b) = None" by (rule m_cut) (use assms in auto)
    with None Cons show ?thesis by simp
  next
    case (Some y)
    then obtain x r where "m (c # cs) = Some (x, r)" by (cases y) auto
    with extend [OF this, of b] Cons show ?thesis by simp
  qed
qed simp

lemma finditer_append_ESC:
  "b = [] \<or> hd b = ESC \<Longrightarrow> finditer m (a @ b) = finditer m a @ finditer m b"
  by (simp add: finditer_scan scan_append_ESC)

end

lemma framed_at_seq:
  assumes "list_all P ps" and "\<not> P c" and "c = CHR ''h'' \<or> c = CHR ''l''"
  shows "framed P f (marker @ ps @ c # r) = map_option (\<lambda>x. (x, r)) (f ps (c = CHR ''h''))"
proof -
  have "dropWhile P (ps @ c # r) = c # r" "takeWhile P (ps @ c # r) = ps"
    using assms(1,2) by (induction ps) auto
  then show ?thesis using assms(3) starts_with_append [of marker "ps @ c # r"]
    by (simp add: framed_def marker_def)
qed

lemma framed_finditer_seq:
  assumes P: "\<forall>c. P c \<longrightarrow> c \<noteq> ESC" and ps: "list_all P ps" and c: "\<not> P c" "c = CHR ''h'' \<or> c = CHR ''l''"
  shows "finditer (framed P f) (marker @ ps @ c # r) =
    (case f ps (c = CHR ''h'') of None \<Rightarrow> [] | Some x \<Rightarrow> [x]) @ finditer (framed P f) r"
proof (cases "f ps (c = CHR ''h'')")
  case (Some x)
  with framed_at_seq [OF ps c, of f r] show ?thesis by (simp add: marker_def)
next
  case None
  have sc: "marker_scanner (framed P f) (length marker)" using P by (intro framed_scanner) simp_all
  let ?tail = "[CHR ''['', CHR ''?''] @ ps @ [c]"
  have "ESC \<notin> set ?tail" using P ps c(2) by (auto simp: ESC_def list_all_iff)
  then have "finditer (framed P f) (?tail @ r) = finditer (framed P f) r"
    unfolding marker_scanner.finditer_scan [OF sc] by (rule marker_scanner.scan_no_ESC [OF sc])
  with None framed_at_seq [OF ps c, of f r] show ?thesis by (simp add: marker_def)
qed

subsection \<open>A terminal's own reading of a byte string\<close>

definition client_alternate :: "bytes \<Rightarrow> bool" where
  "client_alternate b \<longleftrightarrow> mode_of_toggles (finditer SCREEN_TOGGLE b) = Some Alternate"

definition client_paste :: "bytes \<Rightarrow> bool" where
  "client_paste b \<longleftrightarrow> paste_of_toggles (finditer BRACKETED_PASTE_TOGGLE b) = Some True"

definition client_reports :: "bytes \<Rightarrow> int \<Rightarrow> bool" where
  "client_reports b mode \<longleftrightarrow> set_modes Map.empty (sticky_toggles b) mode = Some True"

lemma set_modes_unmentioned: "mode \<notin> fst ` set ts \<Longrightarrow> set_modes e ts mode = e mode"
  by (induction ts arbitrary: e) (auto simp: set_modes_def)

lemma set_modes_mentioned:
  "mode \<in> fst ` set ts \<Longrightarrow> set_modes e ts mode = set_modes e' ts mode"
proof (induction ts arbitrary: e e')
  case Nil
  then show ?case by simp
next
  case (Cons t ts)
  obtain k b where t: "t = (k, b)" by (cases t)
  show ?case
  proof (cases "mode \<in> fst ` set ts")
    case True
    then show ?thesis using Cons.IH by (simp add: set_modes_def t)
  next
    case False
    with Cons.prems t have "k = mode" by auto
    with False show ?thesis
      using set_modes_unmentioned [OF False] by (simp add: set_modes_def t)
  qed
qed

lemma set_modes_all_on:
  "set_modes e (map (\<lambda>k. (k, True)) ks) mode = (if mode \<in> set ks then Some True else e mode)"
  by (induction ks arbitrary: e) (auto simp: set_modes_def)

subsection \<open>What the preamble and the suffix say\<close>

lemma digit_not_ESC: "\<forall>c. is_digit c \<longrightarrow> c \<noteq> ESC"
  and param_not_ESC: "\<forall>c. is_param_char c \<longrightarrow> c \<noteq> ESC"
  by (auto simp: is_param_char_def is_digit_hl ESC_def)

lemma toggle_finditer_seq:
  assumes "list_all is_digit ps" and "c = CHR ''h'' \<or> c = CHR ''l''"
  shows "finditer SCREEN_TOGGLE (marker @ ps @ c # r) =
      (if ps \<in> {''1049'', ''1047'', ''47''} then [c = CHR ''h''] else []) @ finditer SCREEN_TOGGLE r"
    and "finditer BRACKETED_PASTE_TOGGLE (marker @ ps @ c # r) =
      (if ps = ''2004'' then [c = CHR ''h''] else []) @ finditer BRACKETED_PASTE_TOGGLE r"
proof -
  have c: "\<not> is_digit c" using assms(2) by (auto simp: is_digit_hl)
  note step = framed_finditer_seq [where P = is_digit, OF digit_not_ESC assms(1) c assms(2)]
  show "finditer SCREEN_TOGGLE (marker @ ps @ c # r) =
      (if ps \<in> {''1049'', ''1047'', ''47''} then [c = CHR ''h''] else []) @ finditer SCREEN_TOGGLE r"
    unfolding SCREEN_TOGGLE_framed step by (simp add: known_param_def)
  show "finditer BRACKETED_PASTE_TOGGLE (marker @ ps @ c # r) =
      (if ps = ''2004'' then [c = CHR ''h''] else []) @ finditer BRACKETED_PASTE_TOGGLE r"
    unfolding BRACKETED_PASTE_TOGGLE_framed step by (simp add: known_param_def)
qed

lemma sticky_toggles_seq:
  assumes "list_all is_digit ps" and "ps \<noteq> []" and "c = CHR ''h'' \<or> c = CHR ''l''"
  shows "sticky_toggles (marker @ ps @ c # r) =
    (if dec_value ps \<in> set STICKY_PRIVATE_MODES then [(dec_value ps, c = CHR ''h'')] else []) @ sticky_toggles r"
proof -
  have P: "list_all is_param_char ps" using assms(1) by (auto simp: list_all_iff is_param_char_def)
  have "CHR '';'' \<notin> set ps" using assms(1) by (auto simp: list_all_iff is_digit_def)
  then have "split_on (CHR '';'') ps = [ps]" by (rule split_on_no_sep)
  then have "param_modes (ps, b) = (if dec_value ps \<in> set STICKY_PRIVATE_MODES then [(dec_value ps, b)] else [])" for b
    using assms by (simp add: param_modes_def is_decimal_def)
  moreover have "finditer PRIVATE_MODE_SET (marker @ ps @ c # r) = (ps, c = CHR ''h'') # finditer PRIVATE_MODE_SET r"
  proof -
    have "\<not> is_param_char c" using assms(3) by (auto simp: is_param_char_def is_digit_hl)
    note step = framed_finditer_seq [where P = is_param_char, OF param_not_ESC P this assms(3)]
    show ?thesis unfolding PRIVATE_MODE_SET_framed step by (simp add: assms(2))
  qed
  ultimately show ?thesis by (simp add: sticky_toggles_def)
qed

lemma sticky_decimal:
  assumes "k \<in> set STICKY_PRIVATE_MODES"
  shows "dec_value (decimal (nat k)) = k"
    and "decimal (nat k) \<notin> {''1049'', ''1047'', ''47''}" and "decimal (nat k) \<noteq> ''2004''"
proof -
  show v: "dec_value (decimal (nat k)) = k"
    using assms by (auto simp: dec_value_decimal STICKY_PRIVATE_MODES_def)
  have "dec_value x \<noteq> k" if "x \<in> {''1049'', ''1047'', ''47'', ''2004''}" for x
    using that assms by (auto simp: STICKY_PRIVATE_MODES_def dec_value_def digit_val_def)
  with v show "decimal (nat k) \<notin> {''1049'', ''1047'', ''47''}" and "decimal (nat k) \<noteq> ''2004''"
    by blast+
qed

lemma restate_found:
  "set ks \<subseteq> set STICKY_PRIVATE_MODES \<Longrightarrow>
   finditer SCREEN_TOGGLE (concat (map restate_mode ks) @ r) = finditer SCREEN_TOGGLE r
   \<and> finditer BRACKETED_PASTE_TOGGLE (concat (map restate_mode ks) @ r) = finditer BRACKETED_PASTE_TOGGLE r
   \<and> sticky_toggles (concat (map restate_mode ks) @ r) = map (\<lambda>k. (k, True)) ks @ sticky_toggles r"
proof (induction ks)
  case Nil
  then show ?case by simp
next
  case (Cons k ks)
  then have k: "k \<in> set STICKY_PRIVATE_MODES" and IH:
    "finditer SCREEN_TOGGLE (concat (map restate_mode ks) @ r) = finditer SCREEN_TOGGLE r"
    "finditer BRACKETED_PASTE_TOGGLE (concat (map restate_mode ks) @ r) = finditer BRACKETED_PASTE_TOGGLE r"
    "sticky_toggles (concat (map restate_mode ks) @ r) = map (\<lambda>k. (k, True)) ks @ sticky_toggles r"
    by auto
  have eq: "concat (map restate_mode (k # ks)) @ r
      = marker @ decimal (nat k) @ CHR ''h'' # concat (map restate_mode ks) @ r"
    by (simp add: restate_mode_def)
  show ?case
    unfolding eq
    using IH sticky_decimal [OF k] toggle_finditer_seq [OF decimal_digits, of "CHR ''h''"]
      sticky_toggles_seq [OF decimal_digits decimal_ne, of "CHR ''h''"] k by simp
qed

lemma suffix_found:
  "finditer SCREEN_TOGGLE (replay_suffix w) = []"
  "finditer BRACKETED_PASTE_TOGGLE (replay_suffix w) = []"
  "sticky_toggles (replay_suffix w) = []"
  "replay_suffix w = [] \<or> hd (replay_suffix w) = ESC"
  unfolding replay_suffix_def by (cases "rfind_int (marker @ ''2026h'') w > rfind_int (marker @ ''2026l'') w";
    cases "rfind_int (marker @ ''7l'') w > rfind_int (marker @ ''7h'') w"; simp; code_simp)+

subsection \<open>The replay leaves a client in the child's modes\<close>

definition stream_tracks :: "bytes \<Rightarrow> 'f terminal_stream \<Rightarrow> bool" where
  "stream_tracks h s \<longleftrightarrow> sb_inv (scrollback s) \<and> suffix (sb_bytes (scrollback s)) h
     \<and> screen_tracks h (screen s) \<and> paste_tracks h (bracketed_paste s) \<and> sticky_tracks h (sticky_modes s)"

lemma sb_tail_suffix:
  assumes "sb_inv b"
  shows "suffix (sb_tail b limit) (sb_bytes b)"
proof -
  have "suffix (tail_bytes b l) (sb_bytes b)" for l
    unfolding tail_bytes_spec [OF assms] by (metis suffixI suffix_take_last)
  then show ?thesis
    by (auto simp: sb_tail_def Let_def split: option.splits intro: suffix_order.trans suffix_drop)
qed

lemma stream_tracks_new: "stream_tracks [] (new_stream n limit sid)"
  by (simp add: stream_tracks_def new_stream_def inv_rules) (simp add: new_scrollback_def sb_bytes_def)

lemma stream_tracks_feed:
  assumes "stream_tracks h s"
  shows "stream_tracks (h @ d) (feed s d)"
proof -
  have "suffix (sb_bytes (sb_append (scrollback s) d)) (sb_bytes (scrollback s) @ d)"
    using assms by (auto simp: stream_tracks_def sb_bytes_append intro: suffixI [OF _] simp: suffix_def)
      (metis suffix_take_last)
  moreover have "suffix (sb_bytes (scrollback s) @ d) (h @ d)"
    using assms by (auto simp: stream_tracks_def suffix_def)
  ultimately show ?thesis using assms
    by (auto simp: stream_tracks_def intro: inv_rules suffix_order.trans)
qed

lemma stream_tracks_feeds: "stream_tracks h s \<Longrightarrow> stream_tracks (h @ concat ds) (feeds s ds)"
  unfolding feeds_def by (rule foldl_tracks) (rule stream_tracks_feed)

text \<open>A replay is a preamble, a window of the history, and a suffix that selects no tracked mode.\<close>

lemma replay_shape:
  assumes "stream_tracks h s"
  defines "w \<equiv> sb_tail (scrollback s) (attach_replay_bytes s)"
  shows "suffix w h"
    and "replay_bytes s = (if int (length w) = sb_size (scrollback s) then [] else replay_preamble s w)
           @ w @ replay_suffix w"
proof -
  show "suffix w h"
    using assms(1) sb_tail_suffix unfolding w_def stream_tracks_def
    by (metis suffix_order.trans)
  show "replay_bytes s = (if int (length w) = sb_size (scrollback s) then [] else replay_preamble s w)
           @ w @ replay_suffix w"
    by (simp add: replay_bytes_def w_def Let_def)
qed

lemma preamble_found:
  fixes s :: "'f terminal_stream"
  defines "ks w \<equiv> filter (\<lambda>mode. st_enabled (sticky_modes s) mode = Some True
      \<and> mode \<notin> set (map fst (sticky_toggles w))) STICKY_PRIVATE_MODES"
  shows "finditer SCREEN_TOGGLE (replay_preamble s w @ r) =
      (if sm_mode (screen s) = Some Alternate \<and> \<not> search SCREEN_TOGGLE w then [True] else [])
        @ finditer SCREEN_TOGGLE r"
    and "finditer BRACKETED_PASTE_TOGGLE (replay_preamble s w @ r) =
      (if bp_enabled (bracketed_paste s) = Some True \<and> \<not> search BRACKETED_PASTE_TOGGLE w then [True] else [])
        @ finditer BRACKETED_PASTE_TOGGLE r"
    and "sticky_toggles (replay_preamble s w @ r) = map (\<lambda>k. (k, True)) (ks w) @ sticky_toggles r"
proof -
  have ks: "set (ks w) \<subseteq> set STICKY_PRIVATE_MODES" by (auto simp: ks_def)
  have pre: "sticky_preamble (sticky_modes s) w = concat (map restate_mode (ks w))"
    by (simp add: sticky_preamble_def ks_def)
  have d: "list_all is_digit ''1049''" "list_all is_digit ''2004''" by (simp_all add: is_digit_def)
  have v: "dec_value ''1049'' \<notin> set STICKY_PRIVATE_MODES" "dec_value ''2004'' \<notin> set STICKY_PRIVATE_MODES"
    by (simp_all add: dec_value_def digit_val_def STICKY_PRIVATE_MODES_def)
  let ?t = "concat (map restate_mode (ks w)) @ r"
  have t1: "finditer SCREEN_TOGGLE (marker @ ''1049h'' @ z) = True # finditer SCREEN_TOGGLE z"
    "finditer BRACKETED_PASTE_TOGGLE (marker @ ''1049h'' @ z) = finditer BRACKETED_PASTE_TOGGLE z"
    "sticky_toggles (marker @ ''1049h'' @ z) = sticky_toggles z" for z
    using toggle_finditer_seq [OF d(1), of "CHR ''h''" z] sticky_toggles_seq [OF d(1), of "CHR ''h''" z] v
    by simp_all
  have t2: "finditer SCREEN_TOGGLE (marker @ ''2004h'' @ z) = finditer SCREEN_TOGGLE z"
    "finditer BRACKETED_PASTE_TOGGLE (marker @ ''2004h'' @ z) = True # finditer BRACKETED_PASTE_TOGGLE z"
    "sticky_toggles (marker @ ''2004h'' @ z) = sticky_toggles z" for z
    using toggle_finditer_seq [OF d(2), of "CHR ''h''" z] sticky_toggles_seq [OF d(2), of "CHR ''h''" z] v
    by simp_all
  note unf = replay_preamble_def pre append_assoc
  show "finditer SCREEN_TOGGLE (replay_preamble s w @ r) =
      (if sm_mode (screen s) = Some Alternate \<and> \<not> search SCREEN_TOGGLE w then [True] else [])
        @ finditer SCREEN_TOGGLE r"
    unfolding unf using restate_found [OF ks, of r] t1 t2 by simp
  show "finditer BRACKETED_PASTE_TOGGLE (replay_preamble s w @ r) =
      (if bp_enabled (bracketed_paste s) = Some True \<and> \<not> search BRACKETED_PASTE_TOGGLE w then [True] else [])
        @ finditer BRACKETED_PASTE_TOGGLE r"
    unfolding unf using restate_found [OF ks, of r] t1 t2 by simp
  show "sticky_toggles (replay_preamble s w @ r) = map (\<lambda>k. (k, True)) (ks w) @ sticky_toggles r"
    unfolding unf using restate_found [OF ks, of r] t1 t2 by simp
qed

lemma window_found:
  "finditer SCREEN_TOGGLE (w @ replay_suffix w) = finditer SCREEN_TOGGLE w"
  "finditer BRACKETED_PASTE_TOGGLE (w @ replay_suffix w) = finditer BRACKETED_PASTE_TOGGLE w"
  "sticky_toggles (w @ replay_suffix w) = sticky_toggles w"
  using scr.finditer_append_ESC [OF suffix_found(4), of w w] paste.finditer_append_ESC [OF suffix_found(4), of w w]
    sticky.finditer_append_ESC [OF suffix_found(4), of w w] suffix_found [of w]
  by (simp_all add: sticky_toggles_def)

lemma sticky_mentioned: "sticky_toggles (p @ w) = X @ sticky_toggles w \<Longrightarrow>
    mode \<in> fst ` set (sticky_toggles w) \<Longrightarrow>
    set_modes e (sticky_toggles w) mode = set_modes Map.empty (sticky_toggles (p @ w)) mode"
  using set_modes_mentioned by (simp add: set_modes_append)

lemma last_found:
  assumes "suffix w h" and "search SCREEN_TOGGLE w"
  shows "mode_of_toggles (finditer SCREEN_TOGGLE w) = mode_of_toggles (finditer SCREEN_TOGGLE h)"
proof -
  obtain p where "h = p @ w" using assms(1) by (auto simp: suffix_def)
  then obtain X where "finditer SCREEN_TOGGLE h = X @ finditer SCREEN_TOGGLE w"
    using scr.finditer_tail by blast
  with assms(2) show ?thesis by (simp add: mode_of_toggles_def search_def)
qed

lemma last_found_paste:
  assumes "suffix w h" and "search BRACKETED_PASTE_TOGGLE w"
  shows "paste_of_toggles (finditer BRACKETED_PASTE_TOGGLE w) = paste_of_toggles (finditer BRACKETED_PASTE_TOGGLE h)"
proof -
  obtain p where "h = p @ w" using assms(1) by (auto simp: suffix_def)
  then obtain X where "finditer BRACKETED_PASTE_TOGGLE h = X @ finditer BRACKETED_PASTE_TOGGLE w"
    using paste.finditer_tail by blast
  with assms(2) show ?thesis by (simp add: paste_of_toggles_def search_def)
qed

text \<open>A windowed replay, and a replay of everything the child ever wrote.\<close>

lemma windowed_replay:
  fixes s :: "'f terminal_stream"
  assumes tr: "stream_tracks h s"
    and win: "int (length (sb_tail (scrollback s) (attach_replay_bytes s))) \<noteq> sb_size (scrollback s)"
  shows "client_alternate (replay_bytes s) = client_alternate h"
    and "client_paste (replay_bytes s) = client_paste h"
    and "sticky.in_bound h \<Longrightarrow> mode \<in> set STICKY_PRIVATE_MODES \<Longrightarrow>
      client_reports (replay_bytes s) mode = client_reports h mode"
proof -
  let ?w = "sb_tail (scrollback s) (attach_replay_bytes s)"
  have w: "suffix ?w h" by (rule replay_shape(1) [OF tr])
  have rb: "replay_bytes s = replay_preamble s ?w @ ?w @ replay_suffix ?w"
    using replay_shape(2) [OF tr] win by simp
  have scrmode: "sm_mode (screen s) = mode_of_toggles (finditer SCREEN_TOGGLE h)"
    and bpmode: "bp_enabled (bracketed_paste s) = paste_of_toggles (finditer BRACKETED_PASTE_TOGGLE h)"
    and stmode: "sticky.in_bound h \<Longrightarrow> st_enabled (sticky_modes s) = set_modes Map.empty (sticky_toggles h)"
    using tr by (simp_all add: stream_tracks_def screen_tracks_def paste_tracks_def sticky_tracks_def)
  note f = preamble_found [of s ?w "?w @ replay_suffix ?w"] window_found [of ?w]
  show "client_alternate (replay_bytes s) = client_alternate h"
    using f(1,4) last_found [OF w] scrmode
    by (cases "search SCREEN_TOGGLE ?w")
      (auto simp: client_alternate_def rb search_def mode_of_toggles_def split: if_splits)
  show "client_paste (replay_bytes s) = client_paste h"
    using f(2,5) last_found_paste [OF w] bpmode
    by (cases "search BRACKETED_PASTE_TOGGLE ?w")
      (auto simp: client_paste_def rb search_def paste_of_toggles_def split: if_splits)
  assume b: "sticky.in_bound h" and m: "mode \<in> set STICKY_PRIVATE_MODES"
  obtain p where hp: "h = p @ ?w" using w by (auto simp: suffix_def)
  obtain X where X: "sticky_toggles (p @ ?w) = X @ sticky_toggles ?w"
    using sticky.finditer_tail [of p ?w] by (auto simp: sticky_toggles_def)
  show "client_reports (replay_bytes s) mode = client_reports h mode"
  proof (cases "mode \<in> fst ` set (sticky_toggles ?w)")
    case True
    with sticky_mentioned [OF X True] hp f(3,6) show ?thesis
      by (simp add: client_reports_def rb set_modes_append)
  next
    case False
    with f(3,6) m stmode [OF b] show ?thesis
      by (auto simp: client_reports_def rb set_modes_append set_modes_unmentioned set_modes_all_on)
  qed
qed

lemma whole_replay:
  assumes "stream_tracks h s" and "sb_bytes (scrollback s) = h"
    and "int (length (sb_tail (scrollback s) (attach_replay_bytes s))) = sb_size (scrollback s)"
  shows "client_alternate (replay_bytes s) = client_alternate h"
    and "client_paste (replay_bytes s) = client_paste h"
    and "client_reports (replay_bytes s) mode = client_reports h mode"
proof -
  let ?w = "sb_tail (scrollback s) (attach_replay_bytes s)"
  have inv: "sb_inv (scrollback s)" using assms(1) by (simp add: stream_tracks_def)
  have "length ?w = length h" using assms(2,3) sb_invD(1) [OF inv] by simp
  then have "?w = h" using sb_tail_suffix [OF inv] assms(2) by (metis suffix_def append_Nil length_append add_cancel_left_left length_0_conv)
  then have rb: "replay_bytes s = h @ replay_suffix h"
    using replay_shape(2) [OF assms(1)] assms(3) by simp
  show "client_alternate (replay_bytes s) = client_alternate h"
    and "client_paste (replay_bytes s) = client_paste h"
    and "client_reports (replay_bytes s) mode = client_reports h mode"
    unfolding rb by (simp_all add: client_alternate_def client_paste_def client_reports_def window_found)
qed

lemma truncated_is_window:
  assumes "sb_inv (scrollback s)" and "replay_window_truncated s"
  shows "int (length (sb_tail (scrollback s) (attach_replay_bytes s))) \<noteq> sb_size (scrollback s)"
proof -
  from assms(2) obtain l where l: "attach_replay_bytes s = Some l" "0 < l" "l < sb_size (scrollback s)"
    by (auto simp: replay_window_truncated_def split: option.splits)
  have "length (tail_bytes (scrollback s) l) \<le> nat l" by (simp add: tail_bytes_spec [OF assms(1)])
  then have "length (sb_tail (scrollback s) (Some l)) \<le> nat l"
    using l by (auto simp: sb_tail_def Let_def split: option.splits)
  with l show ?thesis by simp
qed

lemma nothing_evicted:
  "int (length (concat ds)) \<le> n \<Longrightarrow>
   sb_bytes (scrollback (feeds (new_stream n limit sid :: 'f terminal_stream) ds)) = concat ds"
proof (induction ds rule: rev_induct)
  case Nil
  then show ?case by (simp add: feeds_def new_stream_def new_scrollback_def sb_bytes_def)
next
  case (snoc d ds)
  let ?s = "feeds (new_stream n limit sid :: 'f terminal_stream) ds"
  have "stream_tracks ([] @ concat ds) ?s" by (rule stream_tracks_feeds [OF stream_tracks_new])
  then have "sb_inv (scrollback ?s)" by (simp add: stream_tracks_def)
  moreover have "max_bytes (scrollback ?s) = n"
    unfolding scrollback_feeds ring.puts_def
    by (induction ds rule: rev_induct) (simp_all add: new_stream_def new_scrollback_def)
  ultimately show ?case using snoc
    by (simp add: feeds_def sb_bytes_append take_last_all nat_le_iff)
qed

text \<open>
  C3. A client that resets its terminal and parses an attach replay ends with the alternate screen,
  bracketed paste and every sticky reporting mode exactly as the child's whole output selects them,
  although the mode switches were long before the replayed window: when the replay is a window of the
  ring, or when the ring has not evicted anything yet.
\<close>

theorem replay_restores_modes:
  assumes s: "s = feeds (new_stream n limit sid) ds"
    and cover: "replay_window_truncated s \<or> int (length (concat ds)) \<le> n"
    and short: "\<And>t x r. suffix t (concat ds) \<Longrightarrow> PRIVATE_MODE_SET t = Some (x, r) \<Longrightarrow>
      length t \<le> length r + MAX_STICKY_PARTIAL + 1"
    and mode: "mode \<in> set STICKY_PRIVATE_MODES"
  shows "client_alternate (replay_bytes s) = client_alternate (concat ds)
    \<and> client_paste (replay_bytes s) = client_paste (concat ds)
    \<and> client_reports (replay_bytes s) mode = client_reports (concat ds) mode"
proof -
  have tr: "stream_tracks (concat ds) s"
    using stream_tracks_feeds [OF stream_tracks_new [of n limit sid], of ds] by (simp add: s)
  have b: "sticky.in_bound (concat ds)" unfolding sticky.in_bound_def using short by blast
  have inv: "sb_inv (scrollback s)" using tr by (simp add: stream_tracks_def)
  show ?thesis
  proof (cases "int (length (sb_tail (scrollback s) (attach_replay_bytes s))) = sb_size (scrollback s)")
    case True
    then have "int (length (concat ds)) \<le> n" using cover truncated_is_window [OF inv] by blast
    then have "sb_bytes (scrollback s) = concat ds" unfolding s by (rule nothing_evicted)
    with whole_replay [OF tr _ True] show ?thesis by blast
  next
    case False
    with windowed_replay [OF tr False] b mode show ?thesis by blast
  qed
qed

definition demo_output :: "bytes list" where
  "demo_output = [marker @ ''1049'', ''h'' @ marker @ ''1002h'', ''hello world'']"

theorem replay_restores_modes_witness:
  "client_alternate (replay_bytes (feeds (new_stream 24 (Some 8) ''s'' :: unit terminal_stream) demo_output))
   \<and> client_reports (replay_bytes (feeds (new_stream 24 (Some 8) ''s'' :: unit terminal_stream) demo_output)) 1002"
proof -
  let ?s = "feeds (new_stream 24 (Some 8) ''s'' :: unit terminal_stream) demo_output"
  have c: "concat demo_output = marker @ ''1049h'' @ marker @ ''1002hhello world''"
    by (simp add: demo_output_def)
  have "sb_size (scrollback ?s) = 24" unfolding scrollback_feeds ring.puts_def by code_simp
  then have t: "replay_window_truncated ?s \<or> int (length (concat demo_output)) \<le> 24"
    by (simp add: replay_window_truncated_def feeds_frame new_stream_def)
  have short: "length t \<le> length r + MAX_STICKY_PARTIAL + 1"
    if "suffix t (concat demo_output)" for t and r :: bytes
    using suffix_length_le [OF that] unfolding c by (simp add: MAX_STICKY_PARTIAL_def)
  have m: "1002 \<in> set STICKY_PRIVATE_MODES" by (simp add: STICKY_PRIVATE_MODES_def)
  have "client_alternate (replay_bytes ?s) = client_alternate (concat demo_output)
    \<and> client_paste (replay_bytes ?s) = client_paste (concat demo_output)
    \<and> client_reports (replay_bytes ?s) 1002 = client_reports (concat demo_output) 1002"
    by (rule replay_restores_modes [OF refl t _ m]) (rule short)
  moreover have "client_alternate (concat demo_output)" "client_reports (concat demo_output) 1002"
    by code_simp+
  ultimately show ?thesis by blast
qed

text \<open>
  The condition on the window is needed. A ring that has evicted the switch and is no larger than
  the replay budget is replayed whole, without a preamble: after \<open>ESC [ ? 1049 h\<close> and enough plain text
  to fill the ring, the daemon still knows the child is on the alternate screen, but a client that
  parses the replay is left on the normal one.
\<close>

theorem evicted_mode_is_not_restored:
  assumes "0 < n" and "n \<le> int (length d)" and "ESC \<notin> set d"
    and "limit = None \<or> (\<exists>l. limit = Some l \<and> n \<le> l)"
    and s_def: "s = feeds (new_stream n limit sid) [marker @ ''1049h'', d]"
  shows "sm_mode (screen s) = Some Alternate \<and> \<not> client_alternate (replay_bytes s)"
proof -
  have tr: "stream_tracks (marker @ ''1049h'' @ d) s"
    using stream_tracks_feeds [OF stream_tracks_new [of n limit sid], of "[marker @ ''1049h'', d]"]
    by (simp add: s_def)
  have no: "finditer SCREEN_TOGGLE x = []" if "ESC \<notin> set x" for x
    using scr.scan_no_ESC [OF that, of "[]"] by (simp add: scr.finditer_scan)
  have d1: "list_all is_digit ''1049''" by (simp add: is_digit_def)
  have "finditer SCREEN_TOGGLE (marker @ ''1049h'' @ d) = [True]"
    using toggle_finditer_seq(1) [OF d1, of "CHR ''h''" d] no [OF assms(3)] by simp
  then have "sm_mode (screen s) = Some Alternate"
    using tr by (simp add: stream_tracks_def screen_tracks_def mode_of_toggles_def)
  moreover have "\<not> client_alternate (replay_bytes s)"
  proof -
    have inv: "sb_inv (scrollback s)" using tr by (simp add: stream_tracks_def)
    have sb: "sb_bytes (scrollback s) = take_last (nat n) d"
    proof -
      have "sb_bytes (scrollback s) = take_last (nat n) (sb_bytes (sb_append (new_scrollback n) (marker @ ''1049h'')) @ d)"
        by (simp add: s_def feeds_def sb_bytes_append sb_inv_append sb_inv_new new_stream_def)
          (simp add: new_scrollback_def)
      with assms(2) show ?thesis by (simp add: take_last_append_ge nat_le_iff)
    qed
    then have size: "sb_size (scrollback s) = n"
      using assms(1,2) sb_invD(1) [OF inv] by simp
    have "attach_replay_bytes s = limit" by (simp add: s_def feeds_frame new_stream_def)
    then have w: "sb_tail (scrollback s) (attach_replay_bytes s) = take_last (nat n) d"
      using assms(4) size sb by (auto simp: sb_tail_def)
    then have "int (length (sb_tail (scrollback s) (attach_replay_bytes s))) = sb_size (scrollback s)"
      using size assms(1,2) by simp
    then have "replay_bytes s = take_last (nat n) d @ replay_suffix (take_last (nat n) d)"
      using replay_shape(2) [OF tr] w by simp
    moreover have "ESC \<notin> set (take_last (nat n) d)"
      using assms(3) by (auto simp: take_last_def dest: in_set_dropD)
    ultimately show ?thesis
      by (simp add: client_alternate_def window_found no mode_of_toggles_def)
  qed
  ultimately show ?thesis by blast
qed

theorem evicted_mode_is_not_restored_witness:
  "\<not> client_alternate (replay_bytes
      (feeds (new_stream 4 None ''s'' :: unit terminal_stream) [marker @ ''1049h'', ''text'']))"
proof -
  define s where "s = feeds (new_stream 4 None ''s'' :: unit terminal_stream) [marker @ ''1049h'', ''text'']"
  have "sm_mode (screen s) = Some Alternate \<and> \<not> client_alternate (replay_bytes s)"
    by (rule evicted_mode_is_not_restored [OF _ _ _ _ s_def]) (simp_all add: ESC_def)
  then show ?thesis by (simp add: s_def)
qed

end
