(* ===== verification/Stream_Readers.thy ===== *)
theory Stream_Readers
  imports Terminal_Stream
begin

text \<open>
  One attached reader of a stream under every interleaving of what the process does: output and
  frames published, other readers coming and going, and the sender loop of
  \<^verbatim>\<open>terminal_core/connection.py\<close> (\<^verbatim>\<open>pty_sender\<close>) taking messages off the reader's queue, sending
  them, and answering a resync marker with \<^verbatim>\<open>take_resync\<close>. Between two awaits of the event loop one
  step happens; the message a sender has taken but not sent yet is \<open>rd_hand\<close>.

  \<open>rd_hist\<close> is everything ever written to the ring, \<open>rd_base\<close> the ring position the client's byte
  count started from, \<open>rd_got\<close> the live bytes sent to it since. The invariant relates all of them to
  the subscriber's queue and drop counters: the client's bytes are a contiguous piece of the stream,
  every byte is sent, in flight or counted as dropped, and a reader that lost bytes always has the
  resync marker still coming. \<open>reseed\<close> breaks the last part; the final section proves it.
\<close>

subsection \<open>Queue operations on one subscriber\<close>

fun queued_output :: "'f queued \<Rightarrow> bytes" where
  "queued_output (Output d) = d"
| "queued_output (Frame f) = []"
| "queued_output Resync = []"

definition queue_output :: "'f queued list \<Rightarrow> bytes" where
  "queue_output q = concat (map queued_output q)"

lemma queue_output_simps [simp]:
  "queue_output [] = []"
  "queue_output (x # q) = queued_output x @ queue_output q"
  "queue_output (p @ q) = queue_output p @ queue_output q"
  by (simp_all add: queue_output_def)

lemma drop_queued_bytes [simp]:
  "fst (drop_queued q bs cs) = bs + int (length (queue_output q))"
  by (induction q bs cs rule: drop_queued.induct) simp_all

definition rejected_length :: "bytes option \<Rightarrow> int" where
  "rejected_length r = (case r of None \<Rightarrow> 0 | Some d \<Rightarrow> int (length d))"

lemma schedule_resync_simps:
  "resync_pending (schedule_resync r s) = True"
  "sub_queue (schedule_resync r s) = (if resync_pending s then [] else [Resync])"
  "dropped_bytes (schedule_resync r s) =
     dropped_bytes s + rejected_length r + int (length (queue_output (sub_queue s)))"
  "exit_pending (schedule_resync r s) = exit_pending s"
proof -
  define t where "t = (case r of None \<Rightarrow> s
    | Some r \<Rightarrow> s\<lparr>dropped_bytes := dropped_bytes s + int (length r), dropped_chunks := dropped_chunks s + 1\<rparr>)"
  have t: "resync_pending t = resync_pending s" "sub_queue t = sub_queue s"
    "dropped_bytes t = dropped_bytes s + rejected_length r" "exit_pending t = exit_pending s"
    by (simp_all add: t_def rejected_length_def split: option.splits)
  have fst: "fst (drop_queued (sub_queue t) (dropped_bytes t) (dropped_chunks t))
      = dropped_bytes s + rejected_length r + int (length (queue_output (sub_queue s)))"
    by (simp add: t)
  show "resync_pending (schedule_resync r s) = True"
    "sub_queue (schedule_resync r s) = (if resync_pending s then [] else [Resync])"
    "dropped_bytes (schedule_resync r s) =
     dropped_bytes s + rejected_length r + int (length (queue_output (sub_queue s)))"
    "exit_pending (schedule_resync r s) = exit_pending s"
    using fst t unfolding schedule_resync_def t_def [symmetric] Let_def case_prod_beta by auto
qed

text \<open>
  What a reader needs of its subscriber: \<open>h\<close> is what the stream has written since \<open>base\<close>, \<open>got\<close>
  what was sent, \<open>hand\<close> what the sender holds.
\<close>

definition sub_inv :: "bytes \<Rightarrow> bytes \<Rightarrow> 'f queued option \<Rightarrow> 'f pty_subscriber \<Rightarrow> bool" where
  "sub_inv h got hand s \<longleftrightarrow>
     (let held = (case hand of None \<Rightarrow> [] | Some x \<Rightarrow> queued_output x) in
      if resync_pending s then
        prefix (got @ held) h
        \<and> int (length (got @ held)) + dropped_bytes s = int (length h)
        \<and> (sub_queue s = [Resync] \<and> hand \<noteq> Some Resync \<or> sub_queue s = [] \<and> hand = Some Resync)
      else
        h = got @ held @ queue_output (sub_queue s) \<and> dropped_bytes s = 0
        \<and> Resync \<notin> set (sub_queue s) \<and> hand \<noteq> Some Resync)"

lemma sub_inv_new: "sub_inv [] [] None (new_subscriber n)"
  by (simp add: sub_inv_def new_subscriber_def)

lemma sub_inv_schedule:
  assumes "sub_inv h got hand s" and "\<not> resync_pending s"
  shows "sub_inv (h @ (case r of None \<Rightarrow> [] | Some d \<Rightarrow> d)) got hand (schedule_resync r s)"
  using assms
  by (auto simp: sub_inv_def Let_def schedule_resync_simps rejected_length_def prefix_def
      split: option.splits)

lemma sub_inv_output:
  assumes "sub_inv h got hand s"
  shows "sub_inv (h @ d) got hand (sub_output d s)"
proof (cases "resync_pending s")
  case True
  with assms show ?thesis by (auto simp: sub_inv_def Let_def sub_output_def prefix_def)
next
  case False
  then show ?thesis
    using assms sub_inv_schedule [OF assms False, of "Some d"]
    by (auto simp: sub_output_def put_nowait_def sub_inv_def Let_def)
qed

lemma sub_inv_frame:
  assumes "sub_inv h got hand s"
  shows "sub_inv h got hand (sub_frame f s)"
proof (cases "resync_pending s")
  case False
  then show ?thesis
    using assms sub_inv_schedule [OF assms False, of None]
    by (auto simp: sub_frame_def put_nowait_def sub_inv_def Let_def)
qed (use assms in \<open>simp add: sub_frame_def\<close>)

lemma sub_inv_exit:
  assumes "sub_inv h got hand s"
  shows "sub_inv h got hand (sub_exit f s)"
proof (cases "resync_pending s")
  case True
  with assms show ?thesis by (simp add: sub_exit_def sub_inv_def Let_def)
next
  case False
  then show ?thesis
    using assms sub_inv_schedule [OF assms False, of None]
    by (auto simp: sub_exit_def put_nowait_def sub_inv_def Let_def)
qed

lemma sub_inv_take:
  assumes "sub_inv h got None s" and "sub_queue s = x # q"
  shows "sub_inv h got (Some x) (s\<lparr>sub_queue := q\<rparr>)"
  using assms by (auto simp: sub_inv_def Let_def split: if_splits)

lemma sub_inv_send:
  assumes "sub_inv h got (Some x) s" and "x \<noteq> Resync"
  shows "sub_inv h (got @ queued_output x) None s"
  using assms by (auto simp: sub_inv_def Let_def split: if_splits)

lemma sub_inv_resync:
  assumes "sub_inv h got (Some Resync) s"
  shows "sub_inv [] [] None (snd (take_resync_sub snap st s))"
  using assms by (auto simp: sub_inv_def Let_def take_resync_sub_def split: if_splits)

subsection \<open>Runs of one reader\<close>

record 'f reader =
  rd_stream :: "'f terminal_stream"
  rd_id :: nat
  rd_hand :: "'f queued option"
  rd_base :: int
  rd_got :: bytes
  rd_hist :: bytes

definition set_sub :: "'f pty_subscriber \<Rightarrow> 'f reader \<Rightarrow> 'f terminal_stream" where
  "set_sub x r = (rd_stream r)\<lparr>subscribers := AList.update (rd_id r) x (subscribers (rd_stream r))\<rparr>"

inductive reader_step :: "'f reader \<Rightarrow> 'f reader \<Rightarrow> bool" where
  rs_output: "reader_step r (r\<lparr>rd_stream := feed (rd_stream r) d, rd_hist := rd_hist r @ d\<rparr>)"
| rs_control: "reader_step r (r\<lparr>rd_stream := publish_control f (rd_stream r)\<rparr>)"
| rs_update: "reader_step r (r\<lparr>rd_stream := publish_update f (rd_stream r)\<rparr>)"
| rs_exiting: "reader_step r (r\<lparr>rd_stream := publish_exit f (rd_stream r)\<rparr>)"
| rs_join: "reader_step r (r\<lparr>rd_stream := snd (subscribe n (rd_stream r))\<rparr>)"
| rs_leave: "j \<noteq> rd_id r \<Longrightarrow> reader_step r (r\<lparr>rd_stream := unsubscribe j (rd_stream r)\<rparr>)"
| rs_take_message: "rd_hand r = None \<Longrightarrow> map_of (subscribers (rd_stream r)) (rd_id r) = Some x \<Longrightarrow>
    sub_queue x = m # q \<Longrightarrow>
    reader_step r (r\<lparr>rd_stream := set_sub (x\<lparr>sub_queue := q\<rparr>) r, rd_hand := Some m\<rparr>)"
| rs_send: "rd_hand r = Some m \<Longrightarrow> m \<noteq> Resync \<Longrightarrow>
    reader_step r (r\<lparr>rd_hand := None, rd_got := rd_got r @ queued_output m\<rparr>)"
| rs_resync: "rd_hand r = Some Resync \<Longrightarrow> take_resync (rd_id r) (snap :: 'f) (rd_stream r) = Some (res, s) \<Longrightarrow>
    reader_step r (r\<lparr>rd_stream := s, rd_hand := None, rd_base := rr_position res, rd_got := []\<rparr>)"

text \<open>A run starts where \<^verbatim>\<open>attach\<close> leaves a client that was replayed up to the ring position.\<close>

inductive reader_run :: "'f reader \<Rightarrow> bool" where
  attached: "sb_holds h (scrollback s) \<Longrightarrow> dict_ok (subscribers s) \<Longrightarrow>
    \<forall>i \<in> fst ` set (subscribers s). i < next_subscriber s \<Longrightarrow>
    attach since st (snap :: 'f) remote rebuilt s = (res, s') \<Longrightarrow>
    reader_run \<lparr>rd_stream = s', rd_id = ar_subscriber res, rd_hand = None,
                rd_base = ar_position res, rd_got = [], rd_hist = h\<rparr>"
| step: "reader_run r \<Longrightarrow> reader_step r r' \<Longrightarrow> reader_run r'"

definition reader_inv :: "'f reader \<Rightarrow> bool" where
  "reader_inv r \<longleftrightarrow>
     sb_holds (rd_hist r) (scrollback (rd_stream r))
     \<and> dict_ok (subscribers (rd_stream r))
     \<and> (\<forall>i \<in> fst ` set (subscribers (rd_stream r)). i < next_subscriber (rd_stream r))
     \<and> 0 \<le> rd_base r \<and> rd_base r \<le> int (length (rd_hist r))
     \<and> (\<exists>x. map_of (subscribers (rd_stream r)) (rd_id r) = Some x
          \<and> sub_inv (drop (nat (rd_base r)) (rd_hist r)) (rd_got r) (rd_hand r) x)"

lemma fst_set_each [simp]:
  "fst ` set (subscribers (each_subscriber g s)) = fst ` set (subscribers s)"
  by (metis each_subscriber_simps(8) list.set_map)

lemma dict_ok_each [simp]: "dict_ok (subscribers (each_subscriber g s)) = dict_ok (subscribers s)"
  by (simp add: dict_ok_def)

lemma reader_inv_each:
  assumes "reader_inv r"
    and "\<And>h x. sub_inv h (rd_got r) (rd_hand r) x \<Longrightarrow> sub_inv h (rd_got r) (rd_hand r) (g x)"
  shows "reader_inv (r\<lparr>rd_stream := each_subscriber g (rd_stream r)\<rparr>)"
  using assms by (auto simp: reader_inv_def)

lemma reader_inv_id: "reader_inv r \<Longrightarrow> rd_id r < next_subscriber (rd_stream r)"
  by (auto simp: reader_inv_def dest!: map_of_SomeD)

text \<open>Rewriting the reader's own subscriber.\<close>

lemma reader_inv_set_sub:
  assumes "reader_inv r" and "0 \<le> b" and "b \<le> int (length (rd_hist r))"
    and "sub_inv (drop (nat b) (rd_hist r)) got hand x"
  shows "reader_inv (r\<lparr>rd_stream := set_sub x r, rd_hand := hand, rd_base := b, rd_got := got\<rparr>)"
  using assms reader_inv_id [OF assms(1)]
  by (auto simp: reader_inv_def set_sub_def dom_update)

lemma reader_inv_step:
  assumes "reader_step r r'" and inv: "reader_inv r"
  shows "reader_inv r'"
  using assms(1)
proof (cases rule: reader_step.cases)
  case (rs_output d)
  let ?s = "(rd_stream r)\<lparr>screen := screen_feed (screen (rd_stream r)) d,
      bracketed_paste := paste_feed (bracketed_paste (rd_stream r)) d,
      sticky_modes := sticky_feed (sticky_modes (rd_stream r)) d,
      scrollback := sb_append (scrollback (rd_stream r)) d\<rparr>"
  have "feed (rd_stream r) d = each_subscriber (sub_output d) ?s" by (simp add: feed_def publish_output_def)
  with inv rs_output show ?thesis
    by (auto simp: reader_inv_def intro: sb_holds_append sub_inv_output)
next
  case (rs_control f)
  then show ?thesis using inv by (auto simp: publish_control_def intro: reader_inv_each sub_inv_frame)
next
  case (rs_update f)
  then show ?thesis using inv by (auto simp: publish_update_def intro: reader_inv_each sub_inv_frame)
next
  case (rs_exiting f)
  then show ?thesis using inv by (auto simp: publish_exit_def intro: reader_inv_each sub_inv_exit)
next
  case (rs_join n)
  have "rd_id r < next_subscriber (rd_stream r)" by (rule reader_inv_id [OF inv])
  then show ?thesis using inv rs_join
    by (auto simp: reader_inv_def subscribe_def dict_ok_def map_add_Some_iff image_iff
        split: option.splits)
next
  case (rs_leave j)
  have "set (AList.delete j (subscribers (rd_stream r))) \<subseteq> set (subscribers (rd_stream r))"
    by (auto simp: AList.delete_eq)
  then show ?thesis using inv rs_leave by (force simp: reader_inv_def unsubscribe_def)
next
  case (rs_take_message x m q)
  then have "sub_inv (drop (nat (rd_base r)) (rd_hist r)) (rd_got r) (Some m) (x\<lparr>sub_queue := q\<rparr>)"
    using inv by (auto simp: reader_inv_def intro: sub_inv_take)
  from reader_inv_set_sub [OF inv _ _ this] inv rs_take_message show ?thesis
    by (simp add: reader_inv_def)
next
  case (rs_send m)
  then show ?thesis using inv by (auto simp: reader_inv_def intro: sub_inv_send)
next
  case (rs_resync snap res s)
  then obtain x where x: "map_of (subscribers (rd_stream r)) (rd_id r) = Some x"
    and s: "s = set_sub (snd (take_resync_sub snap (rd_stream r) x)) r"
    and res: "rr_position res = sb_position (scrollback (rd_stream r))"
    by (auto simp: take_resync_def take_resync_sub_def set_sub_def split: option.splits)
  have pos: "rr_position res = int (length (rd_hist r))"
    using inv sb_holdsD(2) res by (auto simp: reader_inv_def sb_position_def)
  have "sub_inv (drop (nat (rd_base r)) (rd_hist r)) (rd_got r) (Some Resync) x"
    using inv x rs_resync by (auto simp: reader_inv_def)
  then have "sub_inv [] [] None (snd (take_resync_sub snap (rd_stream r) x))" by (rule sub_inv_resync)
  then have "sub_inv (drop (nat (rr_position res)) (rd_hist r)) [] None
      (snd (take_resync_sub snap (rd_stream r) x))" by (simp add: pos)
  from reader_inv_set_sub [OF inv _ _ this] rs_resync(1) show ?thesis by (simp add: pos s)
qed

lemma reader_inv_run: "reader_run r \<Longrightarrow> reader_inv r"
proof (induction rule: reader_run.induct)
  case (attached h s since st snap remote rebuilt res s')
  have s': "s' = snd (subscribe 1024 s)" and res: "ar_subscriber res = next_subscriber s"
    "ar_position res = sb_position (scrollback s)"
    using attached(4) by (auto simp: attach_unfold Let_def)
  have "next_subscriber s \<notin> fst ` set (subscribers s)" using attached(3) by blast
  then have "map_of (subscribers s) (next_subscriber s) = None" by (simp add: map_of_eq_None_iff)
  moreover have "sb_position (scrollback s) = int (length h)"
    using sb_holdsD(2) [OF attached(1)] by (simp add: sb_position_def)
  ultimately show ?case
    using attached(1,2,3) s' res
    by (auto simp: reader_inv_def subscribe_def dict_ok_def sub_inv_new map_add_Some_iff image_iff)
next
  case (step r r')
  then show ?case by (blast intro: reader_inv_step)
qed

subsection \<open>What a reader is promised\<close>

definition reader_sub :: "'f reader \<Rightarrow> 'f pty_subscriber option" where
  "reader_sub r = map_of (subscribers (rd_stream r)) (rd_id r)"

definition in_flight :: "'f reader \<Rightarrow> bytes" where
  "in_flight r = (case rd_hand r of None \<Rightarrow> [] | Some m \<Rightarrow> queued_output m)
     @ (case reader_sub r of None \<Rightarrow> [] | Some x \<Rightarrow> queue_output (sub_queue x))"


definition demo_stream :: "unit terminal_stream" where
  "demo_stream = feed (new_stream 8 None ''s'') ''ab''"

definition demo_reader :: "unit reader" where
  "demo_reader = \<lparr>rd_stream = snd (subscribe 1024 demo_stream), rd_id = 0, rd_hand = None,
     rd_base = 2, rd_got = [], rd_hist = ''ab''\<rparr>"

lemma demo_reader_run: "reader_run demo_reader"
proof -
  let ?res = "fst (attach None None () None False demo_stream)"
  have h: "sb_holds ''ab'' (scrollback demo_stream)"
    using sb_holds_append [OF sb_holds_new, of "''ab''" 8] by (simp add: demo_stream_def new_stream_def)
  have subs: "subscribers demo_stream = []" "next_subscriber demo_stream = 0"
    by (simp_all add: demo_stream_def feed_def publish_output_def each_subscriber_def new_stream_def)
  have pos: "sb_position (scrollback demo_stream) = 2"
    using sb_holdsD(2) [OF h] by (simp add: sb_position_def)
  have a: "attach None None () None False demo_stream = (?res, snd (subscribe 1024 demo_stream))"
    and r: "ar_subscriber ?res = 0" "ar_position ?res = 2"
    by (simp_all add: attach_unfold Let_def subs pos)
  from reader_run.attached [OF h _ _ a] show ?thesis by (simp add: r subs demo_reader_def)
qed



lemma reader_run_feeds:
  "reader_run r \<Longrightarrow>
   reader_run (r\<lparr>rd_stream := feeds (rd_stream r) ds, rd_hist := rd_hist r @ concat ds\<rparr>)"
proof (induction ds arbitrary: r)
  case Nil
  then show ?case by (simp add: feeds_def)
next
  case (Cons d ds)
  from reader_run.step [OF Cons.prems rs_output, of d] Cons.IH
  show ?case by (force simp: feeds_def)
qed

lemma subscriber_feeds:
  "map_of (subscribers (feeds s ds)) i
    = map_option (\<lambda>x. foldl (\<lambda>x d. sub_output d x) x ds) (map_of (subscribers s) i)"
  by (induction ds arbitrary: s) (simp_all add: feeds_def option.map_comp comp_def option.map_ident)

lemma replicate_snoc: "replicate (Suc n) x = replicate n x @ [x]"
  by (simp add: replicate_append_same)

lemma filled_queue:
  "n \<le> 1024 \<Longrightarrow> foldl (\<lambda>x d. sub_output d x) (new_subscriber 1024) (replicate n d)
    = (new_subscriber 1024)\<lparr>sub_queue := replicate n (Output d)\<rparr>"
proof (induction n)
  case 0
  then show ?case by (simp add: new_subscriber_def)
next
  case (Suc n)
  then show ?case
    by (simp add: replicate_snoc del: replicate_Suc)
      (simp add: sub_output_def put_nowait_def new_subscriber_def)
qed


definition tight_stream :: "unit terminal_stream" where
  "tight_stream = snd (subscribe 1 (new_stream 8 None ''s''))"

subsection \<open>A reseed while a resync is pending\<close>

datatype 'f stream_op = Op_Feed bytes | Op_Control 'f | Op_Update 'f | Op_Exit 'f | Op_Reseed bytes int

fun stream_do :: "'f terminal_stream \<Rightarrow> 'f stream_op \<Rightarrow> 'f terminal_stream" where
  "stream_do s (Op_Feed d) = feed s d"
| "stream_do s (Op_Control f) = publish_control f s"
| "stream_do s (Op_Update f) = publish_update f s"
| "stream_do s (Op_Exit f) = publish_exit f s"
| "stream_do s (Op_Reseed d p) = reseed d p s"

definition wedged :: "'f pty_subscriber \<Rightarrow> bool" where
  "wedged x \<longleftrightarrow> resync_pending x \<and> sub_queue x = []"

lemma wedged_do:
  assumes "map_of (subscribers s) i = Some x" and "wedged x"
  shows "\<exists>y. map_of (subscribers (stream_do s op)) i = Some y \<and> wedged y"
  using assms
  by (cases op)
    (auto simp: wedged_def publish_control_def publish_update_def publish_exit_def reseed_def
      sub_output_def sub_frame_def sub_exit_def schedule_resync_simps)

lemma wedged_run:
  assumes "map_of (subscribers s) i = Some x" and "wedged x"
  shows "\<exists>y. map_of (subscribers (foldl stream_do s ops)) i = Some y \<and> wedged y"
  using assms
proof (induction ops arbitrary: s x)
  case Nil
  then show ?case by auto
next
  case (Cons op ops)
  then obtain y where "map_of (subscribers (stream_do s op)) i = Some y" "wedged y"
    using wedged_do by blast
  then show ?case using Cons.IH by simp
qed

text \<open>
  C35. The one operation the promise above excludes. \<open>reseed\<close> calls \<^verbatim>\<open>schedule_resync\<close> on every
  subscriber, and that drains the queue before it looks at \<^verbatim>\<open>resync_pending\<close>: on a reader whose resync
  marker is still queued it throws the marker away and queues no new one. Whatever the stream does
  afterwards, output, frames, an exit or another reseed, nothing ever reaches that reader's queue again.
\<close>

theorem reseed_wedges_pending_reader:
  assumes "map_of (subscribers s) i = Some x" and "resync_pending x"
  shows "\<exists>y. map_of (subscribers (foldl stream_do (reseed d p s) ops)) i = Some y
    \<and> resync_pending y \<and> sub_queue y = []"
proof -
  have "map_of (subscribers (reseed d p s)) i = Some (schedule_resync None x)"
    using assms(1) by (simp add: reseed_def)
  moreover have "wedged (schedule_resync None x)"
    using assms(2) by (simp add: wedged_def schedule_resync_simps)
  ultimately show ?thesis using wedged_run unfolding wedged_def by blast
qed

lemma tight_pending:
  "map_of (subscribers (feed (feed tight_stream ''a'') ''b'')) 0
    = Some \<lparr>sub_queue = [Resync], sub_maxsize = 1, resync_pending = True, dropped_bytes = 2,
            dropped_chunks = 2, exit_pending = None\<rparr>"
proof -
  have "map_of (subscribers tight_stream) 0 = Some (new_subscriber 1)"
    by (simp add: tight_stream_def subscribe_def new_stream_def)
  then show ?thesis
    by (simp add: sub_output_def put_nowait_def schedule_resync_def new_subscriber_def)
qed

theorem reseed_wedges_pending_reader_witness:
  "\<exists>y. map_of (subscribers (foldl stream_do (reseed ''cd'' 4 (feed (feed tight_stream ''a'') ''b''))
        [Op_Feed ''e'', Op_Exit ()])) 0 = Some y
    \<and> resync_pending y \<and> sub_queue y = []"
  by (rule reseed_wedges_pending_reader [OF tight_pending]) simp

end
