(* ===== verification/Device_Presence.thy ===== *)
theory Device_Presence
  imports Mux_Prelude
begin

text \<open>
  \<^verbatim>\<open>device_presence.py\<close>: which device class the human is at, from what every connected client
  reports about itself. The clock the store was built with is read once per operation, so its value
  is an argument \<open>now\<close>. The dictionary of devices is an association list in insertion order, the
  order in which \<^verbatim>\<open>leading_profile\<close> walks it.
\<close>

definition ACTIVITY_WINDOW_SECONDS :: seconds where
  "ACTIVITY_WINDOW_SECONDS = 120"

definition HEARTBEAT_TTL_SECONDS :: seconds where
  "HEARTBEAT_TTL_SECONDS = 90"

definition MAX_INTERACTION_AGE :: seconds where
  "MAX_INTERACTION_AGE = 3600"

record device_report =
  dr_profile :: string
  dr_visible :: bool
  dr_focused :: bool
  interaction_age :: "seconds option"

record device_presence =
  dp_profile :: string
  visible :: bool
  focused :: bool
  last_interaction_at :: "seconds option"
  updated_at :: seconds

text \<open>
  \<^verbatim>\<open>str(frame.get("profile") or "")\<close> of a value that is not a string never is one of the two profile
  names, so such a value is refused like an unknown name.
\<close>

definition parse_device_report :: "pydict \<Rightarrow> device_report option" where
  "parse_device_report frame =
     (case py_str (py_get frame ''profile'') of
        None \<Rightarrow> None
      | Some profile \<Rightarrow>
          if profile \<notin> {''desktop'', ''mobile''} then None
          else Some \<lparr>dr_profile = profile,
                     dr_visible = truthy (py_get frame ''visible''),
                     dr_focused = truthy (py_get frame ''focused''),
                     interaction_age =
                       map_option (\<lambda>age. min (max age 0) MAX_INTERACTION_AGE)
                         (py_number (py_get frame ''interaction_age''))\<rparr>)"

record presence_store =
  activity_window :: seconds
  ttl :: seconds
  devices :: "(string \<times> device_presence) list"

definition report :: "presence_store \<Rightarrow> string \<Rightarrow> device_report \<Rightarrow> seconds \<Rightarrow> presence_store" where
  "report p conn r now =
     p\<lparr>devices := AList.update conn
        \<lparr>dp_profile = dr_profile r, visible = dr_visible r, focused = dr_focused r,
         last_interaction_at = map_option (\<lambda>age. now - age) (interaction_age r), updated_at = now\<rparr>
        (devices p)\<rparr>"

definition drop_device :: "presence_store \<Rightarrow> string \<Rightarrow> presence_store" where
  "drop_device p conn = p\<lparr>devices := AList.delete conn (devices p)\<rparr>"

definition live_devices :: "presence_store \<Rightarrow> seconds \<Rightarrow> device_presence list" where
  "live_devices p now = filter (\<lambda>d. now - updated_at d \<le> ttl p) (map snd (devices p))"

definition is_active :: "presence_store \<Rightarrow> device_presence \<Rightarrow> seconds \<Rightarrow> bool" where
  "is_active p d now =
     (if \<not> (visible d \<and> focused d) then False
      else case last_interaction_at d of None \<Rightarrow> False | Some t \<Rightarrow> now - t \<le> activity_window p)"

definition active_profiles :: "presence_store \<Rightarrow> seconds \<Rightarrow> string set" where
  "active_profiles p now = set (map dp_profile (filter (\<lambda>d. is_active p d now) (live_devices p now)))"

definition other_profile_active :: "presence_store \<Rightarrow> string \<Rightarrow> seconds \<Rightarrow> bool" where
  "other_profile_active p profile now \<longleftrightarrow> active_profiles p now - {profile} \<noteq> {}"

text \<open>\<^verbatim>\<open>leader.last_interaction_at or 0.0\<close>.\<close>

definition touched :: "device_presence \<Rightarrow> seconds" where
  "touched d = (case last_interaction_at d of None \<Rightarrow> 0 | Some t \<Rightarrow> t)"

fun lead :: "presence_store \<Rightarrow> seconds \<Rightarrow> device_presence option \<Rightarrow> device_presence list \<Rightarrow> device_presence option" where
  "lead p now leader [] = leader"
| "lead p now leader (d # ds) =
     (if \<not> is_active p d now then lead p now leader ds
      else
        case last_interaction_at d of
          None \<Rightarrow> lead p now leader ds
        | Some t \<Rightarrow>
            (case leader of
               None \<Rightarrow> lead p now (Some d) ds
             | Some l \<Rightarrow> if t > touched l then lead p now (Some d) ds else lead p now leader ds))"

definition leading_profile :: "presence_store \<Rightarrow> seconds \<Rightarrow> string option" where
  "leading_profile p now = map_option dp_profile (lead p now None (live_devices p now))"

definition interaction_since :: "presence_store \<Rightarrow> seconds \<Rightarrow> string option \<Rightarrow> seconds \<Rightarrow> bool" where
  "interaction_since p moment exclude now \<longleftrightarrow>
     (\<exists>d \<in> set (live_devices p now).
        \<not> (exclude \<noteq> None \<and> Some (dp_profile d) = exclude)
        \<and> (case last_interaction_at d of None \<Rightarrow> False | Some t \<Rightarrow> t > moment))"

subsection \<open>Who leads\<close>

lemma lead_spec:
  "(\<forall>l. leader = Some l \<longrightarrow> last_interaction_at l \<noteq> None \<and> is_active p l now) \<Longrightarrow>
   (case lead p now leader ds of
      None \<Rightarrow> leader = None \<and> (\<forall>d \<in> set ds. \<not> is_active p d now)
    | Some l \<Rightarrow> (leader = Some l \<or> l \<in> set ds) \<and> is_active p l now
        \<and> (\<forall>d \<in> set ds. is_active p d now \<longrightarrow> touched d \<le> touched l)
        \<and> (\<forall>k. leader = Some k \<longrightarrow> touched k \<le> touched l))"
proof (induction p now leader ds rule: lead.induct)
  case (1 p now leader)
  then show ?case by (cases leader) auto
next
  case (2 p now leader d ds)
  show ?case
  proof (cases "is_active p d now")
    case False
    with 2 show ?thesis by (auto split: option.splits)
  next
    case True
    then obtain t where t: "last_interaction_at d = Some t"
      by (auto simp: is_active_def split: if_splits option.splits)
    then have td: "touched d = t" by (simp add: touched_def)
    show ?thesis
    proof (cases leader)
      case None
      with True t 2 td show ?thesis by (fastforce split: option.splits)
    next
      case (Some l)
      show ?thesis
      proof (cases "t > touched l")
        case True
        with Some \<open>is_active p d now\<close> t 2 td show ?thesis by (fastforce split: option.splits)
      next
        case False
        with Some \<open>is_active p d now\<close> t 2 td show ?thesis by (fastforce split: option.splits)
      qed
    qed
  qed
qed

text \<open>
  The leading device class is the one the hands were on last: it belongs to a client whose
  heartbeat is fresh, that is visible, focused and was touched within the activity window, and no
  other such client was touched later. When no client qualifies there is no leader, so every stale or
  half-reported device counts as absent.
\<close>

theorem leading_profile_spec:
  "(leading_profile p now = None \<longleftrightarrow> (\<forall>d \<in> set (live_devices p now). \<not> is_active p d now))
   \<and> (\<forall>profile. leading_profile p now = Some profile \<longrightarrow>
        (\<exists>l \<in> set (live_devices p now). dp_profile l = profile \<and> is_active p l now
          \<and> now - updated_at l \<le> ttl p
          \<and> (\<forall>d \<in> set (live_devices p now). is_active p d now \<longrightarrow> touched d \<le> touched l)))"
proof -
  have "live_devices p now = filter (\<lambda>d. now - updated_at d \<le> ttl p) (live_devices p now)"
    by (simp add: live_devices_def)
  then have fresh: "\<forall>d \<in> set (live_devices p now). now - updated_at d \<le> ttl p"
    by (simp add: live_devices_def)
  from lead_spec [of None p now "live_devices p now"] fresh show ?thesis
    by (auto simp: leading_profile_def split: option.splits)
qed

definition demo_store :: presence_store where
  "demo_store = report (report \<lparr>activity_window = ACTIVITY_WINDOW_SECONDS, ttl = HEARTBEAT_TTL_SECONDS,
      devices = []\<rparr>
     ''d'' \<lparr>dr_profile = ''desktop'', dr_visible = True, dr_focused = True, interaction_age = Some 30\<rparr> 1000)
     ''m'' \<lparr>dr_profile = ''mobile'', dr_visible = True, dr_focused = True, interaction_age = Some 2\<rparr> 1000"

theorem leading_profile_spec_witness:
  "leading_profile demo_store 1010 = Some ''mobile''
   \<and> (\<exists>l \<in> set (live_devices demo_store 1010). dp_profile l = ''mobile'' \<and> is_active demo_store l 1010)"
proof -
  have "leading_profile demo_store 1010 = Some ''mobile''" by code_simp
  then show ?thesis using leading_profile_spec [of demo_store 1010] by blast
qed

text \<open>
  A report of another client never makes a dropped or expired one count: the profiles in use at a
  moment are those of the fresh, visible, focused, recently touched connections, one entry each.
\<close>

lemma is_active_iff:
  "is_active p d now \<longleftrightarrow> visible d \<and> focused d
     \<and> (\<exists>t. last_interaction_at d = Some t \<and> now - t \<le> activity_window p)"
  by (auto simp: is_active_def split: option.splits)

lemma active_profiles_iff:
  "profile \<in> active_profiles p now \<longleftrightarrow>
   (\<exists>c d. (c, d) \<in> set (devices p) \<and> dp_profile d = profile \<and> now - updated_at d \<le> ttl p
      \<and> visible d \<and> focused d \<and> (\<exists>t. last_interaction_at d = Some t \<and> now - t \<le> activity_window p))"
  unfolding active_profiles_def live_devices_def is_active_iff by force

lemma dropped_is_absent:
  "dict_ok (devices p) \<Longrightarrow> map_of (devices (drop_device p conn)) conn = None"
  by (simp add: drop_device_def)

end
