(* ===== verification/Terminal_Arbitration.thy ===== *)
theory Terminal_Arbitration
  imports Mux_Prelude
begin

text \<open>
  \<^verbatim>\<open>terminal_arbitration.py\<close>: who may type into a session that several clients have attached, and
  which size its terminal has. \<open>evaluate_claim\<close> keeps the order of the source's early returns.
\<close>

subsection \<open>Claims\<close>

datatype claim_reason = Gesture | Passive

datatype claim_verdict =
    GRANT_UNOWNED
  | GRANT_GESTURE
  | GRANT_IDLE_OWNER
  | GRANT_DEVICE_IN_USE
  | GRANT_RENEWED
  | DENY_ACTIVE_OWNER
  | DENY_UNFOCUSED
  | DENY_DEVICE_IN_USE

definition PASSIVE_CLAIM_HOLD_SECONDS :: seconds where
  "PASSIVE_CLAIM_HOLD_SECONDS = 10"

record owner_state =
  connection_id :: "string option"
  epoch :: int
  device :: "string option"
  last_gesture_at :: "seconds option"

definition no_owner :: owner_state where
  "no_owner = \<lparr>connection_id = None, epoch = 0, device = None, last_gesture_at = None\<rparr>"

record claim_request =
  cr_connection_id :: string
  cr_now :: seconds
  cr_reason :: claim_reason
  cr_device :: string
  cr_focused :: bool
  other_device_in_use :: bool
  this_device_in_use :: bool

record claim_decision =
  granted :: bool
  cd_state :: owner_state
  cd_reason :: claim_verdict
  changed :: bool

definition decision :: "bool \<Rightarrow> owner_state \<Rightarrow> claim_verdict \<Rightarrow> bool \<Rightarrow> claim_decision" where
  "decision g st v ch = \<lparr>granted = g, cd_state = st, cd_reason = v, changed = ch\<rparr>"

definition granted_state :: "owner_state \<Rightarrow> claim_request \<Rightarrow> owner_state" where
  "granted_state st rq =
     \<lparr>connection_id = Some (cr_connection_id rq), epoch = epoch st + 1, device = Some (cr_device rq),
      last_gesture_at = (if cr_reason rq = Gesture then Some (cr_now rq) else None)\<rparr>"

definition owner_is_active :: "owner_state \<Rightarrow> seconds \<Rightarrow> seconds \<Rightarrow> bool" where
  "owner_is_active st now hold_seconds =
     (case last_gesture_at st of None \<Rightarrow> False | Some t \<Rightarrow> now - t < hold_seconds)"

definition evaluate_claim :: "owner_state \<Rightarrow> claim_request \<Rightarrow> seconds \<Rightarrow> claim_decision" where
  "evaluate_claim st rq hold_seconds =
     (let gesture = (cr_reason rq = Gesture) in
      if connection_id st = Some (cr_connection_id rq) then
        decision True
          (st\<lparr>device := Some (cr_device rq),
              last_gesture_at := (if gesture then Some (cr_now rq) else last_gesture_at st)\<rparr>)
          GRANT_RENEWED False
      else if connection_id st = None then
        (if \<not> gesture \<and> \<not> cr_focused rq then decision False st DENY_UNFOCUSED False
         else decision True (granted_state st rq) GRANT_UNOWNED True)
      else if gesture then decision True (granted_state st rq) GRANT_GESTURE True
      else if \<not> cr_focused rq then decision False st DENY_UNFOCUSED False
      else if other_device_in_use rq then decision False st DENY_DEVICE_IN_USE False
      else if this_device_in_use rq \<and> device st \<noteq> Some (cr_device rq) then
        decision True (granted_state st rq) GRANT_DEVICE_IN_USE True
      else if owner_is_active st (cr_now rq) hold_seconds then decision False st DENY_ACTIVE_OWNER False
      else decision True (granted_state st rq) GRANT_IDLE_OWNER True)"

definition release_owner :: "owner_state \<Rightarrow> string \<Rightarrow> owner_state" where
  "release_owner st conn =
     (if connection_id st \<noteq> Some conn then st
      else \<lparr>connection_id = None, epoch = epoch st, device = None, last_gesture_at = None\<rparr>)"

subsection \<open>Geometry\<close>

fun py_min :: "'a::linorder list \<Rightarrow> 'a" where
  "py_min [] = undefined"
| "py_min (x # xs) = foldl min x xs"

definition effective_geometry :: "(string \<times> (int \<times> int)) list \<Rightarrow> string option \<Rightarrow> (int \<times> int) option" where
  "effective_geometry viewports owner =
     (case (case owner of None \<Rightarrow> None | Some o' \<Rightarrow> map_of viewports o') of
        Some owned \<Rightarrow> Some owned
      | None \<Rightarrow>
          if viewports = [] then None
          else Some (py_min (map (fst \<circ> snd) viewports), py_min (map (snd \<circ> snd) viewports)))"

subsection \<open>What a decision does\<close>

lemma decision_simps [simp]:
  "granted (decision g st v ch) = g" "cd_state (decision g st v ch) = st"
  "cd_reason (decision g st v ch) = v" "changed (decision g st v ch) = ch"
  by (simp_all add: decision_def)

lemma granted_state_simps [simp]:
  "connection_id (granted_state st rq) = Some (cr_connection_id rq)"
  "epoch (granted_state st rq) = epoch st + 1"
  "device (granted_state st rq) = Some (cr_device rq)"
  by (simp_all add: granted_state_def)

text \<open>
  When a claim may displace another connection: exactly when a human gesture backs it, or when
  its pane is focused, no other device class is the one in use, and either this device class is the
  one in use and the owner is on another, or the owner has been quiet for the hold time.
\<close>

theorem displacement_exactly:
  assumes "connection_id st = Some other" and "other \<noteq> cr_connection_id rq"
  shows "granted (evaluate_claim st rq hold) \<longleftrightarrow>
    cr_reason rq = Gesture
    \<or> (cr_focused rq \<and> \<not> other_device_in_use rq
       \<and> (this_device_in_use rq \<and> device st \<noteq> Some (cr_device rq)
          \<or> \<not> owner_is_active st (cr_now rq) hold))"
  using assms by (auto simp: evaluate_claim_def Let_def)

definition demo_owner :: owner_state where
  "demo_owner = \<lparr>connection_id = Some ''desk'', epoch = 3, device = Some ''desktop'',
     last_gesture_at = Some 100\<rparr>"

definition demo_claim :: claim_request where
  "demo_claim = \<lparr>cr_connection_id = ''phone'', cr_now = 105, cr_reason = Passive, cr_device = ''mobile'',
     cr_focused = True, other_device_in_use = False, this_device_in_use = False\<rparr>"

theorem displacement_exactly_witness:
  "\<not> granted (evaluate_claim demo_owner demo_claim PASSIVE_CLAIM_HOLD_SECONDS)"
  using displacement_exactly [of demo_owner "''desk''" demo_claim PASSIVE_CLAIM_HOLD_SECONDS]
  by (simp add: demo_owner_def demo_claim_def owner_is_active_def PASSIVE_CLAIM_HOLD_SECONDS_def)

lemma evaluate_claim_cases:
  "(\<not> granted (evaluate_claim st rq hold) \<and> cd_state (evaluate_claim st rq hold) = st
      \<and> \<not> changed (evaluate_claim st rq hold))
   \<or> (granted (evaluate_claim st rq hold) \<and> \<not> changed (evaluate_claim st rq hold)
      \<and> connection_id st = Some (cr_connection_id rq)
      \<and> connection_id (cd_state (evaluate_claim st rq hold)) = connection_id st
      \<and> epoch (cd_state (evaluate_claim st rq hold)) = epoch st)
   \<or> (granted (evaluate_claim st rq hold) \<and> changed (evaluate_claim st rq hold)
      \<and> connection_id st \<noteq> Some (cr_connection_id rq)
      \<and> cd_state (evaluate_claim st rq hold) = granted_state st rq)"
  by (simp add: evaluate_claim_def Let_def)

subsection \<open>Histories of ownership\<close>

datatype owner_event = Claim claim_request seconds | Release string

fun owner_step :: "owner_state \<Rightarrow> owner_event \<Rightarrow> owner_state" where
  "owner_step st (Claim rq hold) = cd_state (evaluate_claim st rq hold)"
| "owner_step st (Release conn) = release_owner st conn"

definition owner_run :: "owner_state \<Rightarrow> owner_event list \<Rightarrow> owner_state" where
  "owner_run st evs = foldl owner_step st evs"

lemma owner_step_epoch:
  "epoch st \<le> epoch (owner_step st ev)
   \<and> (epoch (owner_step st ev) = epoch st \<longrightarrow>
        connection_id (owner_step st ev) = connection_id st \<or> connection_id (owner_step st ev) = None)"
proof (cases ev)
  case (Claim rq hold)
  then show ?thesis using evaluate_claim_cases [of st rq hold] by auto
next
  case (Release conn)
  then show ?thesis by (simp add: release_owner_def)
qed

lemma owner_run_epoch:
  "epoch st \<le> epoch (owner_run st evs)
   \<and> (epoch (owner_run st evs) = epoch st \<longrightarrow>
        connection_id (owner_run st evs) = connection_id st \<or> connection_id (owner_run st evs) = None)"
proof (induction evs arbitrary: st)
  case Nil
  then show ?case by (simp add: owner_run_def)
next
  case (Cons ev evs)
  from Cons.IH [of "owner_step st ev"] owner_step_epoch [of st ev]
  show ?case by (auto simp: owner_run_def)
qed

text \<open>
  The epoch a client sees names one owner: along any history of claims and releases it never
  decreases, and while it stays the same the owner is the same connection or nobody. So a client that
  drops an ownership frame older than the newest epoch it saw never believes a stale owner.
\<close>

theorem epoch_names_owner:
  "epoch st \<le> epoch (owner_run st evs)
   \<and> (epoch (owner_run st evs) = epoch st \<and> connection_id (owner_run st evs) \<noteq> None
       \<longrightarrow> connection_id (owner_run st evs) = connection_id st)"
  using owner_run_epoch [of st evs] by auto

theorem epoch_names_owner_witness:
  "connection_id (owner_run demo_owner [Claim demo_claim 10, Release ''phone'']) = connection_id demo_owner"
proof -
  have "epoch (owner_run demo_owner [Claim demo_claim 10, Release ''phone'']) = epoch demo_owner
      \<and> connection_id (owner_run demo_owner [Claim demo_claim 10, Release ''phone'']) \<noteq> None"
    by (simp add: owner_run_def demo_owner_def demo_claim_def evaluate_claim_def Let_def
        owner_is_active_def release_owner_def)
  then show ?thesis using epoch_names_owner [of demo_owner "[Claim demo_claim 10, Release ''phone'']"] by blast
qed

subsection \<open>The arbitrated size\<close>

lemma foldl_min_le: "foldl min x xs \<le> x" for x :: "'a::linorder"
proof (induction xs arbitrary: x)
  case (Cons y ys)
  then have "foldl min (min x y) ys \<le> min x y" .
  then show ?case by simp
qed simp

lemma py_min_spec: "xs \<noteq> [] \<Longrightarrow> py_min xs \<in> set xs \<and> (\<forall>x \<in> set xs. py_min xs \<le> x)"
proof -
  have "foldl min x xs \<in> insert x (set xs) \<and> (\<forall>y \<in> insert x (set xs). foldl min x xs \<le> y)"
    for x :: 'a and xs
  proof (induction xs arbitrary: x)
    case (Cons z zs)
    from Cons.IH [of "min x z"] show ?case by (auto simp: min_def split: if_splits)
  qed simp
  then show "xs \<noteq> [] \<Longrightarrow> ?thesis" by (cases xs) auto
qed

text \<open>
  The size of the terminal: the owner's own viewport when it reported one; otherwise, when anyone
  reported one, a size that fits every viewport and is attained in each dimension, so nobody is asked
  to draw columns it does not have; and no size only when nobody reported one.
\<close>

theorem effective_geometry_spec:
  "(\<forall>c v. owner = Some c \<longrightarrow> map_of viewports c = Some v \<longrightarrow>
      effective_geometry viewports owner = Some v)
   \<and> ((\<forall>c. owner = Some c \<longrightarrow> map_of viewports c = None) \<longrightarrow> viewports \<noteq> [] \<longrightarrow>
      (\<exists>cols rows. effective_geometry viewports owner = Some (cols, rows)
        \<and> (\<forall>v \<in> snd ` set viewports. cols \<le> fst v \<and> rows \<le> snd v)
        \<and> (\<exists>v \<in> snd ` set viewports. cols = fst v) \<and> (\<exists>v \<in> snd ` set viewports. rows = snd v)))
   \<and> (effective_geometry viewports owner = None \<longleftrightarrow> viewports = [])"
proof -
  let ?c = "map (fst \<circ> snd) viewports" and ?r = "map (snd \<circ> snd) viewports"
  have "viewports \<noteq> [] \<Longrightarrow> py_min ?c \<in> set ?c \<and> (\<forall>x \<in> set ?c. py_min ?c \<le> x)"
    "viewports \<noteq> [] \<Longrightarrow> py_min ?r \<in> set ?r \<and> (\<forall>x \<in> set ?r. py_min ?r \<le> x)"
    by (simp_all add: py_min_spec del: set_map)
  then show ?thesis
    by (cases owner) (auto simp: effective_geometry_def split: option.splits)
qed

theorem effective_geometry_spec_witness:
  "effective_geometry [(''a'', (120, 40)), (''b'', (50, 90))] None = Some (50, 40)
   \<and> effective_geometry [(''a'', (120, 40)), (''b'', (50, 90))] (Some ''b'') = Some (50, 90)"
  using effective_geometry_spec [of "Some ''b''" "[(''a'', (120, 40)), (''b'', (50, 90))]"]
  by (simp add: effective_geometry_def)

end
