(* ===== verification/Py_Regex.thy ===== *)
theory Py_Regex
  imports Mux_Prelude
begin

text \<open>
  The part of Python's \<^verbatim>\<open>re\<close> the modelled modules use: character classes, concatenation, ordered
  alternation, greedy options and repetitions, and numbered groups. \<^verbatim>\<open>rmatch\<close> lists every way a
  pattern matches at the start of a string, most preferred first, as the backtracking matcher tries
  them, so the head of the list is what \<^verbatim>\<open>match\<close> finds and \<^verbatim>\<open>fullmatch\<close> asks whether some way
  consumes everything.
\<close>

type_synonym captures = "(nat \<times> string) list"

datatype rx =
    Eps
  | One "char \<Rightarrow> bool"
  | Cat rx rx
  | Alt rx rx
  | Opt rx
  | Many rx
  | Upto nat rx
  | Grp nat rx

definition one_of :: "string \<Rightarrow> rx" where
  "one_of cs = One (\<lambda>c. c \<in> set cs)"

definition none_of :: "string \<Rightarrow> rx" where
  "none_of cs = One (\<lambda>c. c \<notin> set cs)"

fun cats :: "rx list \<Rightarrow> rx" where
  "cats [] = Eps"
| "cats [r] = r"
| "cats (r # rs) = Cat r (cats rs)"

fun alts :: "rx list \<Rightarrow> rx" where
  "alts [] = One (\<lambda>_. False)"
| "alts [r] = r"
| "alts (r # rs) = Alt r (alts rs)"

definition lit :: "string \<Rightarrow> rx" where
  "lit cs = cats (map (\<lambda>a. One (\<lambda>c. c = a)) cs)"

text \<open>\<^verbatim>\<open>r{m,n}\<close> and \<^verbatim>\<open>r+\<close>.\<close>

definition times :: "nat \<Rightarrow> nat \<Rightarrow> rx \<Rightarrow> rx" where
  "times m n r = Cat (cats (replicate m r)) (Upto (n - m) r)"

definition plus :: "rx \<Rightarrow> rx" where
  "plus r = Cat r (Many r)"

definition digit :: rx where
  "digit = One is_digit"

definition in_range :: "nat \<Rightarrow> nat \<Rightarrow> rx" where
  "in_range a b = One (\<lambda>c. a \<le> of_char c \<and> of_char c \<le> b)"

definition then_match ::
  "(captures \<times> string) list \<Rightarrow> (string \<Rightarrow> (captures \<times> string) list) \<Rightarrow> (captures \<times> string) list" where
  "then_match ms f = concat (map (\<lambda>(g, t). map (\<lambda>(h, u). (g @ h, u)) (f t)) ms)"

text \<open>
  A greedy repetition tries one more round before it tries to stop. An iteration that consumed
  nothing is not repeated, so the length of the string bounds the rounds.
\<close>

fun rounds :: "nat \<Rightarrow> (string \<Rightarrow> (captures \<times> string) list) \<Rightarrow> string \<Rightarrow> (captures \<times> string) list" where
  "rounds 0 f s = [([], s)]"
| "rounds (Suc n) f s =
     then_match (filter (\<lambda>(g, t). length t < length s) (f s)) (rounds n f) @ [([], s)]"

fun rmatch :: "rx \<Rightarrow> string \<Rightarrow> (captures \<times> string) list" where
  "rmatch Eps s = [([], s)]"
| "rmatch (One p) s = (case s of [] \<Rightarrow> [] | c # t \<Rightarrow> if p c then [([], t)] else [])"
| "rmatch (Cat a b) s = then_match (rmatch a s) (rmatch b)"
| "rmatch (Alt a b) s = rmatch a s @ rmatch b s"
| "rmatch (Opt a) s = rmatch a s @ [([], s)]"
| "rmatch (Many a) s = rounds (length s) (rmatch a) s"
| "rmatch (Upto n a) s = rounds n (rmatch a) s"
| "rmatch (Grp k a) s = map (\<lambda>(g, t). ((k, take (length s - length t) s) # g, t)) (rmatch a s)"

definition fullmatch :: "rx \<Rightarrow> string \<Rightarrow> bool" where
  "fullmatch r s \<longleftrightarrow> (\<exists>(g, t) \<in> set (rmatch r s). t = [])"

definition full_captures :: "rx \<Rightarrow> string \<Rightarrow> captures option" where
  "full_captures r s =
     (case filter (\<lambda>(g, t). t = []) (rmatch r s) of [] \<Rightarrow> None | (g, t) # _ \<Rightarrow> Some g)"

definition match_at :: "rx \<Rightarrow> string \<Rightarrow> (captures \<times> string) option" where
  "match_at r s = (case rmatch r s of [] \<Rightarrow> None | m # _ \<Rightarrow> Some m)"

definition group :: "nat \<Rightarrow> captures \<Rightarrow> string option" where
  "group k g = map_of (rev g) k"

text \<open>
  Scanning from left to right: the first match, every match, and the text with every match removed
  or replaced. A match that consumed nothing moves the scan on by one character, which is all the
  modelled patterns need.
\<close>

fun found_at :: "rx \<Rightarrow> string \<Rightarrow> (nat \<times> captures \<times> string) option" where
  "found_at r [] = (case match_at r [] of None \<Rightarrow> None | Some m \<Rightarrow> Some (0, m))"
| "found_at r (c # cs) =
     (case match_at r (c # cs) of
        Some m \<Rightarrow> Some (0, m)
      | None \<Rightarrow> (case found_at r cs of None \<Rightarrow> None | Some (i, m) \<Rightarrow> Some (Suc i, m)))"

function find_all :: "rx \<Rightarrow> string \<Rightarrow> captures list" where
  "find_all r s =
     (case s of
        [] \<Rightarrow> []
      | c # cs \<Rightarrow>
          (case match_at r s of
             None \<Rightarrow> find_all r cs
           | Some (g, t) \<Rightarrow> g # (if length t < length s then find_all r t else find_all r cs)))"
  by pat_completeness auto
termination by (relation "measure (\<lambda>(r, s). length s)") auto

function sub_all :: "rx \<Rightarrow> (captures \<Rightarrow> string) \<Rightarrow> string \<Rightarrow> string" where
  "sub_all r rep s =
     (case s of
        [] \<Rightarrow> []
      | c # cs \<Rightarrow>
          (case match_at r s of
             None \<Rightarrow> c # sub_all r rep cs
           | Some (g, t) \<Rightarrow>
               if length t < length s then rep g @ sub_all r rep t else c # sub_all r rep cs))"
  by pat_completeness auto
termination by (relation "measure (\<lambda>(r, rep, s). length s)") auto

declare find_all.simps [simp del] sub_all.simps [simp del]

lemma find_all_Nil [simp]: "find_all r [] = []"
  by (simp add: find_all.simps)

lemma sub_all_Nil [simp]: "sub_all r rep [] = []"
  by (simp add: sub_all.simps)

subsection \<open>Matches are suffixes\<close>

lemma then_match_in:
  "(h, u) \<in> set (then_match ms f) \<longleftrightarrow> (\<exists>g t k. (g, t) \<in> set ms \<and> (k, u) \<in> set (f t) \<and> h = g @ k)"
  by (force simp: then_match_def)

lemma then_match_Nil [simp]: "then_match [] f = []"
  and then_match_Cons [simp]:
    "then_match ((g, t) # ms) f = map (\<lambda>(h, u). (g @ h, u)) (f t) @ then_match ms f"
  by (simp_all add: then_match_def)

lemma rounds_suffix:
  "(\<And>s g t. (g, t) \<in> set (f s) \<Longrightarrow> suffix t s) \<Longrightarrow> (g, t) \<in> set (rounds n f s) \<Longrightarrow> suffix t s"
proof (induction n arbitrary: s g t)
  case (Suc n)
  from Suc.prems(2) consider "t = s"
    | h u k where "(h, u) \<in> set (f s)" "(k, t) \<in> set (rounds n f u)"
    by (auto simp: then_match_in)
  then show ?case
  proof cases
    case 2
    have "suffix t u" by (rule Suc.IH [OF Suc.prems(1) 2(2)])
    moreover have "suffix u s" by (rule Suc.prems(1) [OF 2(1)])
    ultimately show ?thesis by (rule suffix_order.trans)
  qed simp
qed simp

lemma rmatch_suffix: "(g, t) \<in> set (rmatch r s) \<Longrightarrow> suffix t s"
proof (induction r arbitrary: s g t)
  case (One p)
  then show ?case by (auto simp: suffix_ConsI split: list.splits if_splits)
next
  case (Cat a b)
  then obtain g' t' k where "(g', t') \<in> set (rmatch a s)" "(k, t) \<in> set (rmatch b t')"
    by (auto simp: then_match_in)
  with Cat.IH show ?case by (blast intro: suffix_order.trans)
next
  case (Alt a b)
  then show ?case by (auto dest: Alt.IH)
next
  case (Opt a)
  then show ?case by auto
next
  case (Many a)
  show ?case by (rule rounds_suffix [OF Many.IH]) (use Many.prems in auto)
next
  case (Upto n a)
  show ?case by (rule rounds_suffix [OF Upto.IH]) (use Upto.prems in auto)
next
  case (Grp k a)
  then show ?case by auto
qed simp

lemma match_at_suffix: "match_at r s = Some (g, t) \<Longrightarrow> suffix t s"
  by (cases "rmatch r s") (simp_all add: match_at_def rmatch_suffix [of g t r s])

lemma match_at_length: "match_at r s = Some (g, t) \<Longrightarrow> length t \<le> length s"
  by (drule match_at_suffix) (auto simp: suffix_def)

subsection \<open>Characters no match starts with\<close>

text \<open>The characters a non-empty match may start with, and whether a match may be empty.\<close>

fun nullable :: "rx \<Rightarrow> bool" where
  "nullable Eps = True"
| "nullable (One p) = False"
| "nullable (Cat a b) = (nullable a \<and> nullable b)"
| "nullable (Alt a b) = (nullable a \<or> nullable b)"
| "nullable (Opt a) = True"
| "nullable (Many a) = True"
| "nullable (Upto n a) = True"
| "nullable (Grp k a) = nullable a"

fun starts :: "rx \<Rightarrow> char \<Rightarrow> bool" where
  "starts Eps c = False"
| "starts (One p) c = p c"
| "starts (Cat a b) c = (starts a c \<or> nullable a \<and> starts b c)"
| "starts (Alt a b) c = (starts a c \<or> starts b c)"
| "starts (Opt a) c = starts a c"
| "starts (Many a) c = starts a c"
| "starts (Upto n a) c = starts a c"
| "starts (Grp k a) c = starts a c"

lemma rounds_start:
  "(\<And>g t. (g, t) \<in> set (f s) \<Longrightarrow> length t = length s) \<Longrightarrow> (g, t) \<in> set (rounds n f s) \<Longrightarrow> t = s"
proof (cases n)
  case (Suc m)
  assume a: "\<And>g t. (g, t) \<in> set (f s) \<Longrightarrow> length t = length s"
  have "filter (\<lambda>(g, t). length t < length s) (f s) = []"
    using a by (fastforce simp: filter_empty_conv)
  moreover assume "(g, t) \<in> set (rounds n f s)"
  ultimately show "t = s" by (simp add: Suc)
qed simp

lemma rmatch_same: "(g, t) \<in> set (rmatch r s) \<Longrightarrow> length t = length s \<Longrightarrow> nullable r"
proof (induction r arbitrary: s g t)
  case (One p)
  then show ?case by (auto split: list.splits if_splits)
next
  case (Cat a b)
  then obtain g' t' k where m: "(g', t') \<in> set (rmatch a s)" "(k, t) \<in> set (rmatch b t')"
    by (auto simp: then_match_in)
  have "length t \<le> length t'" "length t' \<le> length s"
    using rmatch_suffix [OF m(1)] rmatch_suffix [OF m(2)] by (auto simp: suffix_def)
  with Cat.IH(1) [OF m(1)] Cat.IH(2) [OF m(2)] Cat.prems show ?case by simp
next
  case (Alt a b)
  then show ?case by (auto dest: Alt.IH)
qed auto

lemma rmatch_start: "\<not> starts r c \<Longrightarrow> (g, t) \<in> set (rmatch r (c # s)) \<Longrightarrow> t = c # s"
proof (induction r arbitrary: g t)
  case (Cat a b)
  then obtain g' t' k where m: "(g', t') \<in> set (rmatch a (c # s))" "(k, t) \<in> set (rmatch b t')"
    by (auto simp: then_match_in)
  have t': "t' = c # s" using Cat.IH(1) [OF _ m(1)] Cat.prems(1) by simp
  then have "nullable a" using rmatch_same [OF m(1)] by simp
  then show ?case using Cat.IH(2) [of k t] Cat.prems(1) m(2) t' by simp
next
  case (Many a)
  have "length t' = length (c # s)" if "(g', t') \<in> set (rmatch a (c # s))" for g' t'
    using Many.IH [OF _ that] Many.prems(1) by simp
  then show ?case by (rule rounds_start [OF _ Many.prems(2) [unfolded rmatch.simps]])
next
  case (Upto n a)
  have "length t' = length (c # s)" if "(g', t') \<in> set (rmatch a (c # s))" for g' t'
    using Upto.IH [OF _ that] Upto.prems(1) by simp
  then show ?case by (rule rounds_start [OF _ Upto.prems(2) [unfolded rmatch.simps]])
qed (auto split: if_splits)

lemma fullmatch_start: "fullmatch r (c # s) \<Longrightarrow> starts r c"
  using rmatch_start [of r c _ "[]" s] by (fastforce simp: fullmatch_def)

lemma match_at_start: "\<not> nullable r \<Longrightarrow> \<not> starts r c \<Longrightarrow> match_at r (c # s) = None"
proof (cases "rmatch r (c # s)")
  case (Cons m ms)
  assume a: "\<not> nullable r" "\<not> starts r c"
  obtain g t where m: "(g, t) \<in> set (rmatch r (c # s))" using Cons by (cases m) auto
  from rmatch_start [OF a(2) m] rmatch_same [OF m] a(1) show ?thesis by simp
qed (simp add: match_at_def)

lemma sub_all_start:
  "\<not> nullable r \<Longrightarrow> \<not> starts r c \<Longrightarrow> sub_all r rep (c # s) = c # sub_all r rep s"
  by (subst sub_all.simps) (simp add: match_at_start)

lemma sub_all_none:
  "\<not> nullable r \<Longrightarrow> \<forall>c \<in> set s. \<not> starts r c \<Longrightarrow> sub_all r rep (s @ t) = s @ sub_all r rep t"
  by (induction s) (simp_all add: sub_all_start)

subsection \<open>Repetition as iteration\<close>

inductive iterates :: "(string \<Rightarrow> (captures \<times> string) list) \<Rightarrow> string \<Rightarrow> string \<Rightarrow> bool"
  for f where
  iter_stop: "iterates f s s"
| iter_more: "(g, u) \<in> set (f s) \<Longrightarrow> length u < length s \<Longrightarrow> iterates f u t \<Longrightarrow> iterates f s t"

lemma rounds_iterates: "(g, t) \<in> set (rounds n f s) \<Longrightarrow> iterates f s t"
proof (induction n arbitrary: s g)
  case (Suc n)
  then show ?case by (auto simp: then_match_in intro: iter_stop dest!: Suc.IH iter_more)
qed (simp add: iter_stop)

lemma iterates_rounds: "iterates f s t \<Longrightarrow> length s \<le> n \<Longrightarrow> \<exists>g. (g, t) \<in> set (rounds n f s)"
proof (induction arbitrary: n rule: iterates.induct)
  case (iter_stop s)
  then show ?case by (cases n) auto
next
  case (iter_more g u s t)
  from iter_more.hyps(2) iter_more.prems obtain m where n: "n = Suc m" "length u \<le> m"
    by (cases n) auto
  from iter_more.IH [OF n(2)] obtain h where "(h, t) \<in> set (rounds m f u)" by blast
  with iter_more.hyps(1,2) have "(g @ h, t) \<in> set (rounds n f s)"
    unfolding n(1) by (auto simp: then_match_in)
  then show ?case by blast
qed

lemma iterates_trans: "iterates f s t \<Longrightarrow> iterates f t u \<Longrightarrow> iterates f s u"
  by (induction rule: iterates.induct) (auto intro: iter_more)

lemma fullmatch_Many: "fullmatch (Many r) s \<longleftrightarrow> iterates (rmatch r) s []"
  using rounds_iterates [of _ "[]" "length s" "rmatch r" s] iterates_rounds [of "rmatch r" s "[]" "length s"]
  by (auto simp: fullmatch_def)

lemma fullmatch_plus:
  "\<not> nullable r \<Longrightarrow> fullmatch (plus r) s \<longleftrightarrow> s \<noteq> [] \<and> iterates (rmatch r) s []"
proof
  assume n: "\<not> nullable r" and "fullmatch (plus r) s"
  then obtain g t k where m: "(g, t) \<in> set (rmatch r s)" "(k, []) \<in> set (rounds (length t) (rmatch r) t)"
    by (auto simp: fullmatch_def plus_def then_match_in)
  have "length t \<noteq> length s" using rmatch_same [OF m(1)] n by blast
  then have "length t < length s" using rmatch_suffix [OF m(1)] by (auto simp: suffix_def)
  with m show "s \<noteq> [] \<and> iterates (rmatch r) s []"
    by (auto intro: iter_more rounds_iterates)
next
  assume "s \<noteq> [] \<and> iterates (rmatch r) s []"
  then obtain g u where m: "(g, u) \<in> set (rmatch r s)" and i: "iterates (rmatch r) u []"
    by (auto elim: iterates.cases)
  from iterates_rounds [OF i, of "length u"] obtain h where "(h, []) \<in> set (rounds (length u) (rmatch r) u)"
    by auto
  with m show "fullmatch (plus r) s" by (force simp: fullmatch_def plus_def then_match_in)
qed

lemma iterates_Cons:
  "iterates f (c # s) [] \<longleftrightarrow>
     (\<exists>u. (\<exists>g. (g, u) \<in> set (f (c # s))) \<and> length u < length (c # s) \<and> iterates f u [])"
  by (subst iterates.simps) auto

subsection \<open>Characters no match consumes\<close>

fun alphabet :: "rx \<Rightarrow> char \<Rightarrow> bool" where
  "alphabet Eps c = False"
| "alphabet (One p) c = p c"
| "alphabet (Cat a b) c = (alphabet a c \<or> alphabet b c)"
| "alphabet (Alt a b) c = (alphabet a c \<or> alphabet b c)"
| "alphabet (Opt a) c = alphabet a c"
| "alphabet (Many a) c = alphabet a c"
| "alphabet (Upto n a) c = alphabet a c"
| "alphabet (Grp k a) c = alphabet a c"

definition consumes :: "(char \<Rightarrow> bool) \<Rightarrow> string \<Rightarrow> string \<Rightarrow> bool" where
  "consumes P s t \<longleftrightarrow> (\<exists>p. s = p @ t \<and> (\<forall>c \<in> set p. P c))"

lemma consumes_refl [simp]: "consumes P s s"
  by (simp add: consumes_def)

lemma consumes_trans: "consumes P s t \<Longrightarrow> consumes P t u \<Longrightarrow> consumes P s u"
  unfolding consumes_def by (metis Un_iff append.assoc set_append)

lemma consumes_mono: "consumes P s t \<Longrightarrow> (\<And>c. P c \<Longrightarrow> Q c) \<Longrightarrow> consumes Q s t"
  by (auto simp: consumes_def)

lemma iterates_consumes:
  "iterates f s t \<Longrightarrow> (\<And>s g t. (g, t) \<in> set (f s) \<Longrightarrow> consumes P s t) \<Longrightarrow> consumes P s t"
  by (induction rule: iterates.induct) (auto intro: consumes_trans)

lemma rmatch_consumes: "(g, t) \<in> set (rmatch r s) \<Longrightarrow> consumes (alphabet r) s t"
proof (induction r arbitrary: s g t)
  case (One p)
  then show ?case by (auto simp: consumes_def split: list.splits if_splits)
next
  case (Cat a b)
  then obtain g' t' k where "(g', t') \<in> set (rmatch a s)" "(k, t) \<in> set (rmatch b t')"
    by (auto simp: then_match_in)
  with Cat.IH have m: "consumes (alphabet a) s t'" "consumes (alphabet b) t' t" by blast+
  have "consumes (alphabet (Cat a b)) s t'" by (rule consumes_mono [OF m(1)]) simp
  moreover have "consumes (alphabet (Cat a b)) t' t" by (rule consumes_mono [OF m(2)]) simp
  ultimately show ?case by (rule consumes_trans)
next
  case (Alt a b)
  then have "consumes (alphabet a) s t \<or> consumes (alphabet b) s t" using Alt.IH by auto
  then show ?case by (rule disjE) (erule consumes_mono; simp)+
next
  case (Opt a)
  then show ?case by (auto dest: Opt.IH)
next
  case (Many a)
  then have "iterates (rmatch a) s t" by (auto intro: rounds_iterates)
  then show ?case by (rule iterates_consumes) (simp add: Many.IH)
next
  case (Upto n a)
  then have "iterates (rmatch a) s t" by (auto intro: rounds_iterates)
  then show ?case by (rule iterates_consumes) (simp add: Upto.IH)
next
  case (Grp k a)
  then show ?case by auto
qed auto

lemma fullmatch_alphabet: "fullmatch r s \<Longrightarrow> c \<in> set s \<Longrightarrow> alphabet r c"
  by (auto simp: fullmatch_def dest!: rmatch_consumes simp: consumes_def)

end
