(* ===== verification/Py_Text.thy ===== *)
theory Py_Text
  imports Mux_Prelude
begin

text \<open>
  The string methods of Python the modelled modules use. A \<^verbatim>\<open>str\<close> is a list of characters below
  U+0100; the modules treat every character above that as ordinary text.
\<close>

abbreviation code :: "char \<Rightarrow> nat" where
  "code c \<equiv> of_char c"

text \<open>\<^verbatim>\<open>s.replace(old, new)\<close> and \<^verbatim>\<open>s.count(old)\<close> for a non-empty \<^verbatim>\<open>old\<close>.\<close>

function replace_all :: "'a list \<Rightarrow> 'a list \<Rightarrow> 'a list \<Rightarrow> 'a list" where
  "replace_all old new s =
     (case s of
        [] \<Rightarrow> []
      | x # xs \<Rightarrow>
          if old \<noteq> [] \<and> starts_with s old then new @ replace_all old new (drop (length old) s)
          else x # replace_all old new xs)"
  by pat_completeness auto
termination by (relation "measure (\<lambda>(old, new, s). length s)") auto

function count_sub :: "'a list \<Rightarrow> 'a list \<Rightarrow> nat" where
  "count_sub old s =
     (case s of
        [] \<Rightarrow> 0
      | x # xs \<Rightarrow>
          if old \<noteq> [] \<and> starts_with s old then Suc (count_sub old (drop (length old) s))
          else count_sub old xs)"
  by pat_completeness auto
termination by (relation "measure (\<lambda>(old, s). length s)") auto

declare replace_all.simps [simp del] count_sub.simps [simp del]

lemma replace_all_Nil [simp]: "replace_all old new [] = []"
  by (simp add: replace_all.simps)

lemma count_sub_Nil [simp]: "count_sub old [] = 0"
  by (simp add: count_sub.simps)

lemma starts_with_Cons: "starts_with (x # xs) (y # ys) \<longleftrightarrow> x = y \<and> starts_with xs ys"
  by (auto simp: starts_with_def)

lemma starts_with_Nil [simp]: "starts_with xs []"
  by (simp add: starts_with_def)

lemma Nil_starts_with [simp]: "starts_with [] p \<longleftrightarrow> p = []"
  by (auto simp: starts_with_def)

lemma replace_all_hit: "old \<noteq> [] \<Longrightarrow> replace_all old new (old @ s) = new @ replace_all old new s"
  by (cases old)
    (simp_all add: replace_all.simps [of "x # xs" new "y # ys" for x xs y ys] starts_with_Cons starts_with_append)

lemma count_sub_hit: "old \<noteq> [] \<Longrightarrow> count_sub old (old @ s) = Suc (count_sub old s)"
  by (cases old)
    (simp_all add: count_sub.simps [of "x # xs" "y # ys" for x xs y ys] starts_with_Cons starts_with_append)

lemma replace_all_skip: "x \<noteq> y \<Longrightarrow> replace_all (y # ys) new (x # s) = x # replace_all (y # ys) new s"
  by (simp add: replace_all.simps [of _ _ "x # s"] starts_with_Cons)

lemma count_sub_skip: "x \<noteq> y \<Longrightarrow> count_sub (y # ys) (x # s) = count_sub (y # ys) s"
  by (simp add: count_sub.simps [of _ "x # s"] starts_with_Cons)

lemma replace_all_none: "y \<notin> set s \<Longrightarrow> replace_all (y # ys) new s = s"
  by (induction s) (auto simp: replace_all_skip)

lemma count_sub_none: "y \<notin> set s \<Longrightarrow> count_sub (y # ys) s = 0"
  by (induction s) (auto simp: count_sub_skip)

lemma replace_all_same: "replace_all [y] new (y # s) = new @ replace_all [y] new s"
  using replace_all_hit [of "[y]" new s] by simp

lemma count_sub_same: "count_sub [y] (y # s) = Suc (count_sub [y] s)"
  using count_sub_hit [of "[y]" s] by simp

lemma count_sub_single: "count_sub [y] s = length (filter (\<lambda>c. c = y) s)"
proof (induction s)
  case (Cons x s)
  then show ?case by (cases "x = y") (simp_all add: count_sub_same count_sub_skip)
qed simp

lemma replace_all_single: "replace_all [y] [z] s = map (\<lambda>c. if c = y then z else c) s"
proof (induction s)
  case (Cons x s)
  then show ?case by (cases "x = y") (simp_all add: replace_all_same replace_all_skip)
qed simp

lemma replace_all_cases [case_names nil hit skip]:
  obtains "s = []" | "old \<noteq> []" "\<exists>t. s = old @ t \<and> replace_all old new s = new @ replace_all old new t"
  | "\<exists>x xs. s = x # xs \<and> replace_all old new s = x # replace_all old new xs"
proof (cases s)
  case (Cons x xs)
  show ?thesis
  proof (cases "old \<noteq> [] \<and> starts_with s old")
    case True
    then obtain t where "s = old @ t" by (auto dest: starts_withD)
    then show ?thesis using True that(2) replace_all_hit by blast
  next
    case False
    then have "replace_all old new s = x # replace_all old new xs"
      unfolding Cons by (subst replace_all.simps) auto
    then show ?thesis using that(3) Cons by blast
  qed
qed (rule that(1))

lemma filter_replace_all:
  assumes "filter P old = filter P new"
  shows "filter P (replace_all old new s) = filter P s"
proof (induction s rule: measure_induct_rule [of length])
  case (less s)
  show ?case
  proof (cases rule: replace_all_cases [where s = s and old = old and new = new])
    case hit
    then obtain t where t: "s = old @ t" "replace_all old new s = new @ replace_all old new t" by blast
    with hit(1) less [of t] assms show ?thesis by simp
  next
    case skip
    then obtain x xs where t: "s = x # xs" "replace_all old new s = x # replace_all old new xs" by blast
    with less [of xs] show ?thesis by simp
  qed simp
qed

lemma set_replace_all: "set (replace_all old new s) \<subseteq> set new \<union> set s"
proof (induction s rule: measure_induct_rule [of length])
  case (less s)
  show ?case
  proof (cases rule: replace_all_cases [where s = s and old = old and new = new])
    case hit
    then obtain t where t: "s = old @ t" "replace_all old new s = new @ replace_all old new t" by blast
    with hit(1) less [of t] show ?thesis by auto
  next
    case skip
    then obtain x xs where t: "s = x # xs" "replace_all old new s = x # replace_all old new xs" by blast
    with less [of xs] show ?thesis by auto
  qed simp
qed

text \<open>Stripping, letter case and joining.\<close>

definition is_space :: "char \<Rightarrow> bool" where
  "is_space c \<longleftrightarrow> code c \<in> {9, 10, 11, 12, 13, 28, 29, 30, 31, 32, 133, 160}"

definition lstrip :: "string \<Rightarrow> string" where
  "lstrip s = dropWhile is_space s"

definition rstrip :: "string \<Rightarrow> string" where
  "rstrip s = rev (dropWhile is_space (rev s))"

definition strip :: "string \<Rightarrow> string" where
  "strip s = rstrip (lstrip s)"

definition lower_char :: "char \<Rightarrow> char" where
  "lower_char c =
     (if 65 \<le> code c \<and> code c \<le> 90 \<or> 192 \<le> code c \<and> code c \<le> 222 \<and> code c \<noteq> 215
      then char_of (code c + 32) else c)"

definition lower :: "string \<Rightarrow> string" where
  "lower s = map lower_char s"

fun join_with :: "'a list \<Rightarrow> 'a list list \<Rightarrow> 'a list" where
  "join_with sep [] = []"
| "join_with sep [w] = w"
| "join_with sep (w # ws) = w @ sep @ join_with sep ws"

text \<open>\<^verbatim>\<open>s.split()\<close>: the maximal runs of characters that are not white space.\<close>

fun words :: "string \<Rightarrow> string list" where
  "words [] = []"
| "words (c # cs) =
     (if is_space c then words cs
      else if cs = [] \<or> is_space (hd cs) then [c] # words cs
      else (case words cs of [] \<Rightarrow> [[c]] | w # ws \<Rightarrow> (c # w) # ws))"

lemma find_sub_skip: "x \<noteq> y \<Longrightarrow> find_sub (y # ys) (x # s) = map_option Suc (find_sub (y # ys) s)"
  by (simp add: starts_with_Cons)

lemma find_sub_front: "find_sub p (p @ t) = Some 0"
  using starts_with_append [of p t] by (cases "p @ t") auto

lemma find_sub_none: "y \<notin> set s \<Longrightarrow> find_sub (y # ys) s = None"
  by (induction s) (auto simp: find_sub_skip simp del: find_sub.simps(2))

lemma find_sub_after: "y \<notin> set s \<Longrightarrow> find_sub (y # ys) (s @ (y # ys) @ t) = Some (length s)"
proof (induction s)
  case Nil
  then show ?case using find_sub_front [of "y # ys" t] by simp
next
  case (Cons x s)
  then show ?case by (auto simp: find_sub_skip simp del: find_sub.simps(2))
qed

lemma contains_single: "contains_sub [y] s \<longleftrightarrow> y \<in> set s"
  by (induction s) (auto simp: contains_sub_def starts_with_Cons)

subsection \<open>Words\<close>

definition is_word :: "string \<Rightarrow> bool" where
  "is_word w \<longleftrightarrow> w \<noteq> [] \<and> (\<forall>c \<in> set w. \<not> is_space c)"

lemma words_run: "is_word w \<Longrightarrow> s = [] \<or> is_space (hd s) \<Longrightarrow> words (w @ s) = w # words s"
proof (induction w)
  case (Cons c w)
  show ?case
  proof (cases w)
    case Nil
    then show ?thesis using Cons.prems by (auto simp: is_word_def)
  next
    case (Cons d w')
    then have "is_word w" using Cons.prems(1) by (simp add: is_word_def)
    then have "words (w @ s) = w # words s" using Cons.IH Cons.prems(2) by blast
    then show ?thesis using Cons.prems(1) Cons by (simp add: is_word_def)
  qed
qed (simp add: is_word_def)

lemma words_are_words: "w \<in> set (words s) \<Longrightarrow> is_word w"
proof (induction s arbitrary: w)
  case (Cons c cs)
  have "words (c # cs) = words cs \<or> \<not> is_space c \<and> words (c # cs) = [c] # words cs \<or>
      (\<exists>v vs. \<not> is_space c \<and> words cs = v # vs \<and> words (c # cs) = (c # v) # vs)"
    by (cases "words cs") auto
  then consider "words (c # cs) = words cs" | "\<not> is_space c" "words (c # cs) = [c] # words cs"
    | v vs where "\<not> is_space c" "words cs = v # vs" "words (c # cs) = (c # v) # vs"
    by blast
  then show ?case
  proof cases
    case 3
    then have "is_word v" using Cons.IH [of v] by simp
    with 3 Cons show ?thesis by (auto simp: is_word_def)
  qed (use Cons in \<open>auto simp: is_word_def simp del: words.simps\<close>)
qed simp

lemma words_space [simp]: "is_space c \<Longrightarrow> words (c # s) = words s"
  by simp

lemma words_lstrip: "words (lstrip s) = words s"
  unfolding lstrip_def by (induction s) auto

lemma words_trailing: "\<forall>c \<in> set t. is_space c \<Longrightarrow> words (s @ t) = words s"
proof (induction s)
  case Nil
  then show ?case by (induction t) auto
next
  case (Cons c s)
  then have "hd (s @ t) = hd s \<and> s \<noteq> [] \<or> s = [] \<and> (t = [] \<or> is_space (hd t))"
    by (cases s; cases t) auto
  then show ?case using Cons by auto
qed

lemma rstrip_decomp: "\<exists>t. s = rstrip s @ t \<and> (\<forall>c \<in> set t. is_space c)"
proof (intro exI conjI ballI)
  show "s = rstrip s @ rev (takeWhile is_space (rev s))"
    unfolding rstrip_def by (metis rev_append rev_rev_ident takeWhile_dropWhile_id)
  show "is_space c" if "c \<in> set (rev (takeWhile is_space (rev s)))" for c
    using that by (auto dest: set_takeWhileD)
qed

lemma words_rstrip: "words (rstrip s) = words s"
  using rstrip_decomp [of s] words_trailing by metis

lemma words_strip: "words (strip s) = words s"
  by (simp add: strip_def words_rstrip words_lstrip)

lemma words_join:
  "\<forall>w \<in> set ws. is_word w \<Longrightarrow> words (join_with '' '' ws) = ws"
proof (induction ws rule: induct_list012)
  case (2 w)
  then show ?case using words_run [of w "[]"] by simp
next
  case (3 w v ws)
  then show ?case using words_run [of w "'' '' @ join_with '' '' (v # ws)"] by (simp add: is_space_def)
qed simp

end
