(* ===== verification/Composer_Input.thy ===== *)
theory Composer_Input
  imports Py_Regex Py_Text
begin

text \<open>
  \<^verbatim>\<open>composer_input.py\<close>: what mux knows about text a human typed and has not submitted. An estimate is
  kept from the bytes written to the pseudo terminal, and a browser's reading of the screen corrects
  it. Definitions first; then that a write that may put text in the composer is never mistaken for
  one that cannot, that an inserted text is counted as a draft and never as a submit, that two
  browsers' readings merge to the more blocking one whatever their order, and that the crossings
  reported between empty and non-empty are exactly the changes of the estimate.
\<close>

subsection \<open>Keys\<close>

definition BRACKETED_PASTE_START :: string where
  "BRACKETED_PASTE_START = CHR 0x1B # ''[200~''"

definition BRACKETED_PASTE_END :: string where
  "BRACKETED_PASTE_END = CHR 0x1B # ''[201~''"

abbreviation letter_or_digit :: "char \<Rightarrow> bool" where
  "letter_or_digit c \<equiv> 65 \<le> code c \<and> code c \<le> 90 \<or> 97 \<le> code c \<and> code c \<le> 122 \<or> is_digit c"

definition OSC :: rx where
  "OSC = cats [lit [CHR 0x1B, CHR '']''], Many (none_of [CHR 0x07, CHR 0x1B]),
               Opt (Alt (lit [CHR 0x07]) (lit [CHR 0x1B, CHR 0x5C]))]"

definition ESCAPE :: rx where
  "ESCAPE = alts
     [cats [lit [CHR 0x1B, CHR ''[''], Many (one_of ''0123456789;:?<=>''),
            One (\<lambda>c. 65 \<le> code c \<and> code c \<le> 90 \<or> 97 \<le> code c \<and> code c \<le> 122 \<or> c \<in> set ''@`~'')],
      cats [lit [CHR 0x1B], one_of ''NO'', One letter_or_digit],
      cats [lit [CHR 0x1B], one_of ''=>()#'', Opt (One letter_or_digit)]]"

definition ERASE_KEYS :: "char list" where
  "ERASE_KEYS = [CHR 0x7F, CHR 0x08]"

definition CLEAR_KEYS :: "char list" where
  "CLEAR_KEYS = [CHR 0x03]"

definition DEFAULT_CLEAR_KEYS :: string where
  "DEFAULT_CLEAR_KEYS = [CHR 0x15]"

definition DEFAULT_NEWLINE_KEYS :: string where
  "DEFAULT_NEWLINE_KEYS = [CHR 0x1B, CHR 0x0D]"

definition SUBMIT_KEYS :: "char list" where
  "SUBMIT_KEYS = [CHR 0x0D, CHR 0x0A]"

abbreviation csi :: "rx list \<Rightarrow> rx" where
  "csi rs \<equiv> cats (lit [CHR 0x1B, CHR ''[''] # rs)"

definition NON_ADDITIVE_KEY :: rx where
  "NON_ADDITIVE_KEY = alts
     [cats [lit [CHR 0x1B], one_of [CHR 0x7F, CHR 0x08]],
      one_of [CHR 0x7F, CHR 0x08],
      one_of [CHR 0x01, CHR 0x05, CHR 0x0B, CHR 0x15, CHR 0x17],
      csi [lit ''3'', Opt (cats [lit '';'', times 1 3 digit]), lit ''~''],
      csi [Opt (cats [lit ''1;'', times 1 3 digit]), one_of ''CDHF''],
      cats [lit [CHR 0x1B, CHR ''O''], one_of ''CDHF''],
      csi [one_of ''1478'', lit ''~''],
      cats [lit [CHR 0x1B], one_of ''bf''],
      csi [one_of ''IO''],
      csi [lit ''<'', times 1 4 digit, lit '';'', times 1 5 digit, lit '';'', times 1 5 digit, one_of ''Mm''],
      csi [times 1 4 digit, lit '';'', times 1 5 digit, lit '';'', times 1 5 digit, lit ''M''],
      csi [lit ''M'', times 3 3 (in_range 32 255)]]"

definition NON_ADDITIVE_WRITE :: rx where
  "NON_ADDITIVE_WRITE = plus NON_ADDITIVE_KEY"

definition ESCAPES_ONLY :: rx where
  "ESCAPES_ONLY = plus (lit [CHR 0x1B])"

definition write_may_add_text :: "string \<Rightarrow> bool" where
  "write_may_add_text data \<longleftrightarrow>
     data \<noteq> [] \<and> \<not> fullmatch ESCAPES_ONLY data \<and> \<not> fullmatch NON_ADDITIVE_WRITE data"

subsection \<open>Screen readings\<close>

datatype screen_state = Empty | Placeholder | Draft | Unreadable

definition screen_state_of :: "string \<Rightarrow> screen_state option" where
  "screen_state_of s = map_of
     [(''empty'', Empty), (''placeholder'', Placeholder), (''draft'', Draft), (''unreadable'', Unreadable)] s"

definition MAX_SCREEN_COMPOSER_CHARS :: int where
  "MAX_SCREEN_COMPOSER_CHARS = 1000000"

record composer_reading =
  rg_state :: screen_state
  rg_chars :: int
  rg_position :: int
  rg_stream :: string

text \<open>
  A frame's \<^verbatim>\<open>state\<close> is looked up in a set, which raises \<^verbatim>\<open>TypeError\<close> for a list or a dict.
\<close>

fun hashable :: "pyval \<Rightarrow> bool" where
  "hashable (PList _) = False"
| "hashable (PDict _) = False"
| "hashable _ = True"

definition parse_screen_reading :: "pydict \<Rightarrow> py_error + composer_reading option" where
  "parse_screen_reading frame =
     (let state = py_get frame ''state''; position = py_get frame ''position'';
          stream = py_get frame ''stream'';
          chars = (case map_of frame ''chars'' of None \<Rightarrow> PInt 0 | Some v \<Rightarrow> v)
      in if \<not> hashable state then Inl TypeError
         else Inr
           (case (Option.bind (py_str state) screen_state_of, position, stream, chars) of
              (Some st, PInt pos, PStr str, PInt n) \<Rightarrow>
                if pos < 0 then None
                else if str = [] \<or> 256 < length str then None
                else if \<not> (0 \<le> n \<and> n \<le> MAX_SCREEN_COMPOSER_CHARS) then None
                else Some \<lparr>rg_state = st, rg_chars = (if st = Draft then n else 0),
                           rg_position = pos, rg_stream = str\<rparr>
            | _ \<Rightarrow> None))"

fun SCREEN_STATE_WEIGHT :: "screen_state \<Rightarrow> nat" where
  "SCREEN_STATE_WEIGHT Unreadable = 0"
| "SCREEN_STATE_WEIGHT Empty = 1"
| "SCREEN_STATE_WEIGHT Placeholder = 2"
| "SCREEN_STATE_WEIGHT Draft = 3"

definition merge_screen_readings ::
  "composer_reading option \<Rightarrow> composer_reading \<Rightarrow> composer_reading" where
  "merge_screen_readings standing incoming =
     (case standing of
        None \<Rightarrow> incoming
      | Some s \<Rightarrow>
          if rg_position s \<noteq> rg_position incoming \<or> rg_stream s \<noteq> rg_stream incoming then incoming
          else if SCREEN_STATE_WEIGHT (rg_state incoming) > SCREEN_STATE_WEIGHT (rg_state s) then incoming
          else if rg_state incoming = Draft \<and> rg_state s = Draft \<and> rg_chars incoming > rg_chars s then incoming
          else s)"

definition screen_reading_wire :: "composer_reading option \<Rightarrow> pydict option" where
  "screen_reading_wire r =
     map_option (\<lambda>r.
       [(''state'', PStr (case rg_state r of Empty \<Rightarrow> ''empty'' | Placeholder \<Rightarrow> ''placeholder''
                          | Draft \<Rightarrow> ''draft'' | Unreadable \<Rightarrow> ''unreadable'')),
        (''chars'', PInt (rg_chars r)), (''position'', PInt (rg_position r)),
        (''stream'', PStr (rg_stream r))]) r"

subsection \<open>The estimate\<close>

record composer_state =
  cs_chars :: int
  cs_since :: seconds
  cs_in_paste :: bool
  cs_submits :: int
  cs_last_submit_at :: seconds

definition new_composer :: composer_state where
  "new_composer = \<lparr>cs_chars = 0, cs_since = 0, cs_in_paste = False, cs_submits = 0, cs_last_submit_at = 0\<rparr>"

definition pending :: "composer_state \<Rightarrow> bool" where
  "pending c \<longleftrightarrow> cs_chars c > 0"

datatype crossing = Pending | Cleared

definition screen_composer_empty :: "composer_reading option \<Rightarrow> composer_state option \<Rightarrow> bool option" where
  "screen_composer_empty reading estimate =
     (case reading of
        None \<Rightarrow> None
      | Some r \<Rightarrow>
          (case rg_state r of
             Empty \<Rightarrow> Some True
           | Draft \<Rightarrow> Some False
           | Placeholder \<Rightarrow>
               (case estimate of None \<Rightarrow> Some True | Some e \<Rightarrow> if pending e then None else Some True)
           | Unreadable \<Rightarrow> None))"

text \<open>The shared end of both updates: what crossing, if any, the new count reports.\<close>

definition report_crossing :: "composer_state \<Rightarrow> composer_state \<Rightarrow> seconds \<Rightarrow> crossing option \<times> composer_state" where
  "report_crossing before state now =
     (if pending state = pending before then (None, state)
      else (Some (if pending state then Pending else Cleared),
            state\<lparr>cs_since := (if pending state then now else 0)\<rparr>))"

definition reanchor_composer ::
  "composer_state \<Rightarrow> composer_reading \<Rightarrow> seconds \<Rightarrow> crossing option \<times> composer_state" where
  "reanchor_composer state reading now =
     (if rg_state reading = Empty \<or> rg_state reading = Placeholder \<and> \<not> pending state
      then report_crossing state (state\<lparr>cs_chars := 0\<rparr>) now
      else if rg_state reading = Draft
      then report_crossing state (state\<lparr>cs_chars := max 1 (rg_chars reading)\<rparr>) now
      else (None, state))"

datatype write_kind = Submit | Clear | Edit | NoWrite

record composer_write =
  wr_kind :: write_kind
  wr_typed :: nat
  wr_erased :: nat
  wr_in_paste :: bool

record pending_submit =
  ps_message_id :: string
  ps_at :: seconds
  ps_byte_count :: int

text \<open>
  The mark lives in an attribute a host may not have: \<open>None\<close> stands for a session object without
  \<^verbatim>\<open>pending_submit\<close>.
\<close>

definition note_unsubmitted_delivery ::
  "pending_submit option option \<Rightarrow> string \<Rightarrow> int \<Rightarrow> seconds \<Rightarrow> pending_submit option option" where
  "note_unsubmitted_delivery mark message_id byte_count now =
     (case mark of
        None \<Rightarrow> None
      | Some _ \<Rightarrow> Some (Some \<lparr>ps_message_id = message_id, ps_at = now, ps_byte_count = byte_count\<rparr>))"

definition clear_pending_submit ::
  "pending_submit option option \<Rightarrow> pending_submit option \<times> pending_submit option option" where
  "clear_pending_submit mark =
     (case mark of
        Some (Some standing) \<Rightarrow> (Some standing, Some None)
      | _ \<Rightarrow> (None, mark))"

definition composable :: "char \<Rightarrow> bool" where
  "composable c \<longleftrightarrow> c = CHR 0x0A \<or> 32 \<le> code c \<and> c \<noteq> CHR 0x7F"

definition composable_length :: "string \<Rightarrow> nat" where
  "composable_length text = length (filter composable text)"

text \<open>\<open>data\<close> is what is left from the loop's cursor on.\<close>

function split_pastes :: "string \<Rightarrow> bool \<Rightarrow> string \<times> nat \<times> bool" where
  "split_pastes data in_paste =
     (if data = [] then ([], 0, in_paste)
      else if in_paste then
        (case find_sub BRACKETED_PASTE_END data of
           None \<Rightarrow> ([], composable_length data, True)
         | Some end_at \<Rightarrow>
             (let (plain, pasted, open_end) =
                split_pastes (drop (end_at + length BRACKETED_PASTE_END) data) False
              in (plain, composable_length (take end_at data) + pasted, open_end)))
      else
        (case find_sub BRACKETED_PASTE_START data of
           None \<Rightarrow> (data, 0, False)
         | Some start \<Rightarrow>
             (let (plain, pasted, open_end) =
                split_pastes (drop (start + length BRACKETED_PASTE_START) data) True
              in (take start data @ plain, pasted, open_end))))"
  by pat_completeness auto
termination
  by (relation "measure (\<lambda>(data, _). length data)")
    (auto simp: BRACKETED_PASTE_START_def BRACKETED_PASTE_END_def)

declare split_pastes.simps [simp del]

definition classify_composer_write :: "string \<Rightarrow> bool \<Rightarrow> string \<Rightarrow> string \<Rightarrow> composer_write" where
  "classify_composer_write data in_paste clear_keys newline_keys =
     (if data = [] then \<lparr>wr_kind = NoWrite, wr_typed = 0, wr_erased = 0, wr_in_paste = in_paste\<rparr>
      else
        (let (remainder, pasted, in_paste) = split_pastes data in_paste;
             composed_newlines = (if newline_keys = [] then 0 else count_sub newline_keys remainder);
             remainder = (if composed_newlines = 0 then remainder else replace_all newline_keys [] remainder);
             remainder = sub_all ESCAPE (\<lambda>_. []) (sub_all OSC (\<lambda>_. []) remainder);
             typed = pasted + composed_newlines + composable_length remainder;
             erased = sum_list (map (\<lambda>key. count_sub [key] remainder) ERASE_KEYS)
         in if \<exists>key \<in> set SUBMIT_KEYS. contains_sub [key] remainder
            then \<lparr>wr_kind = Submit, wr_typed = 0, wr_erased = 0, wr_in_paste = in_paste\<rparr>
            else if \<exists>key \<in> set CLEAR_KEYS. contains_sub [key] remainder
            then \<lparr>wr_kind = Clear, wr_typed = 0, wr_erased = 0, wr_in_paste = in_paste\<rparr>
            else if clear_keys \<noteq> [] \<and> contains_sub clear_keys data
            then \<lparr>wr_kind = Clear, wr_typed = 0, wr_erased = 0, wr_in_paste = in_paste\<rparr>
            else if typed = 0 \<and> erased = 0
            then \<lparr>wr_kind = NoWrite, wr_typed = 0, wr_erased = 0, wr_in_paste = in_paste\<rparr>
            else \<lparr>wr_kind = Edit, wr_typed = typed, wr_erased = erased, wr_in_paste = in_paste\<rparr>))"

definition apply_composer_write ::
  "composer_state \<Rightarrow> composer_write \<Rightarrow> seconds \<Rightarrow> crossing option \<times> composer_state" where
  "apply_composer_write state0 w now =
     (let state = state0\<lparr>cs_in_paste := wr_in_paste w\<rparr>
      in if wr_kind w = NoWrite then (None, state)
         else
           (let state = (if wr_kind w = Submit
                         then state\<lparr>cs_submits := cs_submits state + 1, cs_last_submit_at := now\<rparr>
                         else state);
                after = (if wr_kind w \<in> {Submit, Clear} then state\<lparr>cs_chars := 0\<rparr>
                         else state\<lparr>cs_chars := max 0 (cs_chars state + int (wr_typed w) - int (wr_erased w))\<rparr>)
            in report_crossing state after now))"

definition note_composer_write ::
  "composer_state \<Rightarrow> string \<Rightarrow> seconds \<Rightarrow> string \<Rightarrow> string \<Rightarrow> crossing option \<times> composer_state" where
  "note_composer_write state data now clear_keys newline_keys =
     apply_composer_write state
       (classify_composer_write data (cs_in_paste state) clear_keys newline_keys) now"

definition composer_insertion :: "string \<Rightarrow> string \<Rightarrow> bool \<Rightarrow> string" where
  "composer_insertion text newline_keys lift_leading_newline =
     (let normalized = replace_all [CHR 0x0D] [CHR 0x0A] (replace_all [CHR 0x0D, CHR 0x0A] [CHR 0x0A] text);
          (lifted, body) =
            (if lift_leading_newline \<and> newline_keys \<noteq> []
             then (let body = dropWhile (\<lambda>c. c = CHR 0x0A) normalized
                   in (concat (replicate (length normalized - length body) newline_keys), body))
             else ([], normalized))
      in if body = [] then lifted
         else lifted @ BRACKETED_PASTE_START @ replace_all [CHR 0x0A] [CHR 0x0D] body @ BRACKETED_PASTE_END)"

definition clear_composer :: "composer_state \<Rightarrow> bool \<times> composer_state" where
  "clear_composer state0 =
     (let state = state0\<lparr>cs_in_paste := False\<rparr>
      in if \<not> pending state then (False, state)
         else (True, state\<lparr>cs_chars := 0, cs_since := 0\<rparr>))"

subsection \<open>Which writes may add text\<close>

definition plain_kill :: "char \<Rightarrow> bool" where
  "plain_kill c \<longleftrightarrow> c \<in> set [CHR 0x7F, CHR 0x08, CHR 0x01, CHR 0x05, CHR 0x0B, CHR 0x15, CHR 0x17]"

lemma non_additive_plain:
  "c \<noteq> CHR 0x1B \<Longrightarrow> (\<exists>g. (g, t) \<in> set (rmatch NON_ADDITIVE_KEY (c # s))) \<longleftrightarrow> plain_kill c \<and> t = s"
  by (auto simp: NON_ADDITIVE_KEY_def plain_kill_def lit_def one_of_def then_match_in)

lemma non_additive_key_nonempty: "\<not> nullable NON_ADDITIVE_KEY"
  by (simp add: NON_ADDITIVE_KEY_def lit_def one_of_def times_def)

lemma iterates_plain:
  "CHR 0x1B \<notin> set s \<Longrightarrow> iterates (rmatch NON_ADDITIVE_KEY) s [] \<longleftrightarrow> (\<forall>c \<in> set s. plain_kill c)"
proof (induction s)
  case Nil
  then show ?case by (simp add: iter_stop)
next
  case (Cons c s)
  then have "iterates (rmatch NON_ADDITIVE_KEY) (c # s) [] \<longleftrightarrow>
      plain_kill c \<and> iterates (rmatch NON_ADDITIVE_KEY) s []"
    unfolding iterates_Cons by (subst non_additive_plain) auto
  then show ?case using Cons by simp
qed

lemma escapes_only_plain: "CHR 0x1B \<notin> set s \<Longrightarrow> \<not> fullmatch ESCAPES_ONLY s"
proof (cases s)
  case Nil
  then show ?thesis by (simp add: fullmatch_def ESCAPES_ONLY_def plus_def lit_def)
next
  case (Cons c t)
  assume "CHR 0x1B \<notin> set s"
  then show ?thesis using fullmatch_start [of ESCAPES_ONLY c t] Cons
    by (auto simp: ESCAPES_ONLY_def plus_def lit_def)
qed

lemma starts_non_additive: "starts NON_ADDITIVE_KEY c \<longleftrightarrow> c = CHR 0x1B \<or> plain_kill c"
  by (auto simp: NON_ADDITIVE_KEY_def plain_kill_def lit_def one_of_def)

lemma alphabet_keys: "c \<in> set [CHR 0x0D, CHR 0x0A, CHR 0x09] \<Longrightarrow> \<not> alphabet NON_ADDITIVE_KEY c \<and> \<not> alphabet ESCAPES_ONLY c"
  by (auto simp: NON_ADDITIVE_KEY_def ESCAPES_ONLY_def plus_def lit_def one_of_def times_def digit_def
      in_range_def is_digit_def numeral_eq_Suc)

text \<open>
  A write that can put text in a composer is never taken for one that cannot. Text without
  escape sequences may add text unless every character of it is an erase or kill key; a write that
  begins with an ordinary character, or holds a carriage return, a newline or a tab anywhere, always
  may, whatever escape sequences surround it.
\<close>

theorem text_is_never_overlooked:
  "(CHR 0x1B \<notin> set data \<longrightarrow> write_may_add_text data = (\<exists>c \<in> set data. \<not> plain_kill c))
   \<and> (c \<noteq> CHR 0x1B \<longrightarrow> \<not> plain_kill c \<longrightarrow> write_may_add_text (c # rest))
   \<and> ({CHR 0x0D, CHR 0x0A, CHR 0x09} \<inter> set data \<noteq> {} \<longrightarrow> write_may_add_text data)"
proof (intro conjI impI)
  assume "CHR 0x1B \<notin> set data"
  then show "write_may_add_text data = (\<exists>c \<in> set data. \<not> plain_kill c)"
    using escapes_only_plain [of data] iterates_plain [of data]
    by (auto simp: write_may_add_text_def NON_ADDITIVE_WRITE_def fullmatch_plus non_additive_key_nonempty)
next
  assume c: "c \<noteq> CHR 0x1B" "\<not> plain_kill c"
  then have "\<not> starts ESCAPES_ONLY c" "\<not> starts NON_ADDITIVE_WRITE c"
    using starts_non_additive [of c] non_additive_key_nonempty
    by (auto simp: ESCAPES_ONLY_def NON_ADDITIVE_WRITE_def plus_def lit_def)
  then show "write_may_add_text (c # rest)"
    using fullmatch_start by (auto simp: write_may_add_text_def)
next
  assume "{CHR 0x0D, CHR 0x0A, CHR 0x09} \<inter> set data \<noteq> {}"
  then obtain k where k: "k \<in> set data" "k \<in> set [CHR 0x0D, CHR 0x0A, CHR 0x09]" by auto
  with alphabet_keys [of k] have "\<not> alphabet ESCAPES_ONLY k" "\<not> alphabet NON_ADDITIVE_WRITE k"
    by (auto simp: NON_ADDITIVE_WRITE_def plus_def)
  with k fullmatch_alphabet show "write_may_add_text data" by (auto simp: write_may_add_text_def)
qed

theorem text_is_never_overlooked_witness:
  "write_may_add_text ''ls'' \<and> write_may_add_text (''x'' @ [CHR 0x1B] @ ''[C'')
   \<and> write_may_add_text ([CHR 0x1B] @ ''[C'' @ [CHR 0x0D])
   \<and> \<not> write_may_add_text ([CHR 0x1B] @ ''[C'')"
proof -
  have "CHR 0x1B \<notin> set ''ls''" "CHR ''x'' \<noteq> CHR 0x1B" "\<not> plain_kill (CHR ''x'')"
    "\<exists>c \<in> set ''ls''. \<not> plain_kill c" "{CHR 0x0D, CHR 0x0A, CHR 0x09} \<inter> set ([CHR 0x1B] @ ''[C'' @ [CHR 0x0D]) \<noteq> {}"
    by (simp_all add: plain_kill_def)
  moreover have "\<not> write_may_add_text ([CHR 0x1B] @ ''[C'')" by code_simp
  ultimately show ?thesis
    using text_is_never_overlooked [of "''ls''" "CHR ''x''" "[CHR 0x1B] @ ''[C''"]
      text_is_never_overlooked [of "[CHR 0x1B] @ ''[C'' @ [CHR 0x0D]"]
    by (metis append_Cons append_Nil)
qed

subsection \<open>Two browsers, one screen\<close>

definition merged :: "composer_reading list \<Rightarrow> composer_reading option" where
  "merged rs = foldl (\<lambda>s r. Some (merge_screen_readings s r)) None rs"

definition blocking :: "composer_reading \<Rightarrow> nat \<times> int" where
  "blocking r = (SCREEN_STATE_WEIGHT (rg_state r), rg_chars r)"

definition at_most :: "composer_reading \<Rightarrow> composer_reading \<Rightarrow> bool" where
  "at_most r m \<longleftrightarrow> fst (blocking r) < fst (blocking m)
     \<or> fst (blocking r) = fst (blocking m) \<and> snd (blocking r) \<le> snd (blocking m)"

definition one_screen :: "string \<Rightarrow> int \<Rightarrow> composer_reading \<Rightarrow> bool" where
  "one_screen stream position r \<longleftrightarrow> rg_stream r = stream \<and> rg_position r = position
     \<and> (rg_state r = Draft \<or> rg_chars r = 0)"

lemma parse_reading_chars:
  "parse_screen_reading frame = Inr (Some r) \<Longrightarrow> rg_state r = Draft \<or> rg_chars r = 0"
  by (auto simp: parse_screen_reading_def Let_def split: if_splits option.splits pyval.splits)

lemma weight_inj: "SCREEN_STATE_WEIGHT a = SCREEN_STATE_WEIGHT b \<longleftrightarrow> a = b"
  by (cases a; cases b) auto

lemma at_most_antisym:
  "one_screen st p a \<Longrightarrow> one_screen st p b \<Longrightarrow> at_most a b \<Longrightarrow> at_most b a \<Longrightarrow> a = b"
  by (auto simp: at_most_def blocking_def one_screen_def weight_inj)

lemma at_most_trans: "at_most a b \<Longrightarrow> at_most b c \<Longrightarrow> at_most a c"
  by (auto simp: at_most_def)

lemma at_most_refl: "at_most a a"
  by (simp add: at_most_def)

lemma merge_max:
  assumes "one_screen st p s" "one_screen st p r"
  shows "merge_screen_readings (Some s) r \<in> {s, r}"
    and "at_most s (merge_screen_readings (Some s) r)"
    and "at_most r (merge_screen_readings (Some s) r)"
  using assms
  by (cases "rg_state s"; cases "rg_state r";
      auto simp: merge_screen_readings_def one_screen_def at_most_def blocking_def)+

lemma merged_snoc: "merged (rs @ [r]) = Some (merge_screen_readings (merged rs) r)"
  by (simp add: merged_def)

lemma merged_max:
  "\<forall>r \<in> set rs. one_screen st p r \<Longrightarrow> rs \<noteq> [] \<Longrightarrow>
   \<exists>m. merged rs = Some m \<and> m \<in> set rs \<and> (\<forall>r \<in> set rs. at_most r m)"
proof (induction rs rule: rev_induct)
  case (snoc r rs)
  show ?case
  proof (cases "rs = []")
    case True
    then show ?thesis by (simp add: merged_def merge_screen_readings_def at_most_refl)
  next
    case False
    then obtain m where m: "merged rs = Some m" "m \<in> set rs" "\<forall>r \<in> set rs. at_most r m"
      using snoc by auto
    then have o: "one_screen st p m" "one_screen st p r" using snoc.prems by auto
    note mm = merge_max [OF o]
    show ?thesis unfolding merged_snoc m(1)
      using mm m(2,3) at_most_trans by (intro exI conjI refl) auto
  qed
qed simp

text \<open>
  Browsers that read one screen are merged the same way whatever order they report in, and the
  result is the reading that holds a delivery back most: any draft wins, the longest of several, then
  a placeholder, then an empty composer, and an unreadable screen only when nobody could read it.
\<close>

theorem merge_order_irrelevant:
  assumes "\<forall>r \<in> set rs. (\<exists>frame. parse_screen_reading frame = Inr (Some r))
             \<and> rg_stream r = stream \<and> rg_position r = position"
    and "set rs' = set rs"
  shows "merged rs' = merged rs
    \<and> (\<forall>m. merged rs = Some m \<longrightarrow> m \<in> set rs \<and> (\<forall>r \<in> set rs. at_most r m))"
proof (cases "rs = []")
  case True
  then show ?thesis using assms(2) by (simp add: merged_def)
next
  case False
  have o: "\<forall>r \<in> set rs. one_screen stream position r" "\<forall>r \<in> set rs'. one_screen stream position r"
    using assms by (auto simp: one_screen_def dest: parse_reading_chars)
  have "rs' \<noteq> []" using False assms(2) by auto
  from merged_max [OF o(1) False] merged_max [OF o(2) this] obtain m m' where
    m: "merged rs = Some m" "m \<in> set rs" "\<forall>r \<in> set rs. at_most r m" and
    m': "merged rs' = Some m'" "m' \<in> set rs'" "\<forall>r \<in> set rs'. at_most r m'" by blast
  have "m = m'" using at_most_antisym [of stream position m m'] m m' o assms(2) by auto
  then show ?thesis using m m' by auto
qed

definition demo_frame :: "string \<Rightarrow> int \<Rightarrow> pydict" where
  "demo_frame state n = [(''type'', PStr ''composer_reading''), (''state'', PStr state), (''chars'', PInt n),
     (''position'', PInt 9), (''stream'', PStr ''s'')]"

definition demo_reading :: "screen_state \<Rightarrow> int \<Rightarrow> composer_reading" where
  "demo_reading st n = \<lparr>rg_state = st, rg_chars = n, rg_position = 9, rg_stream = ''s''\<rparr>"

theorem merge_order_irrelevant_witness:
  "merged [demo_reading Draft 3, demo_reading Empty 0, demo_reading Draft 7]
     = merged [demo_reading Draft 7, demo_reading Draft 3, demo_reading Empty 0]
   \<and> merged [demo_reading Draft 7, demo_reading Draft 3, demo_reading Empty 0] = Some (demo_reading Draft 7)"
proof -
  have "parse_screen_reading (demo_frame ''draft'' 7) = Inr (Some (demo_reading Draft 7))"
    "parse_screen_reading (demo_frame ''draft'' 3) = Inr (Some (demo_reading Draft 3))"
    "parse_screen_reading (demo_frame ''empty'' 0) = Inr (Some (demo_reading Empty 0))"
    by code_simp+
  then have "\<forall>r \<in> set [demo_reading Draft 7, demo_reading Draft 3, demo_reading Empty 0].
      (\<exists>frame. parse_screen_reading frame = Inr (Some r)) \<and> rg_stream r = ''s'' \<and> rg_position r = 9"
    by (auto simp: demo_reading_def)
  from merge_order_irrelevant [OF this, of "[demo_reading Draft 3, demo_reading Empty 0, demo_reading Draft 7]"]
  have "merged [demo_reading Draft 3, demo_reading Empty 0, demo_reading Draft 7]
     = merged [demo_reading Draft 7, demo_reading Draft 3, demo_reading Empty 0]" by auto
  moreover have "merged [demo_reading Draft 7, demo_reading Draft 3, demo_reading Empty 0] = Some (demo_reading Draft 7)"
    by code_simp
  ultimately show ?thesis by simp
qed

subsection \<open>Crossings\<close>

datatype composer_event =
    Written string seconds string string
  | Read composer_reading seconds
  | Emptied

fun composer_step :: "composer_state \<Rightarrow> composer_event \<Rightarrow> crossing option \<times> composer_state" where
  "composer_step c (Written data now clear_keys newline_keys) =
     note_composer_write c data now clear_keys newline_keys"
| "composer_step c (Read r now) = reanchor_composer c r now"
| "composer_step c Emptied = (let (stood, c) = clear_composer c in (if stood then Some Cleared else None, c))"

fun crossings :: "composer_state \<Rightarrow> composer_event list \<Rightarrow> crossing list" where
  "crossings c [] = []"
| "crossings c (e # es) =
     (let (x, c') = composer_step c e in (case x of None \<Rightarrow> [] | Some k \<Rightarrow> [k]) @ crossings c' es)"

definition composer_run :: "composer_state \<Rightarrow> composer_event list \<Rightarrow> composer_state" where
  "composer_run c es = foldl (\<lambda>c e. snd (composer_step c e)) c es"

definition composer_inv :: "composer_state \<Rightarrow> bool" where
  "composer_inv c \<longleftrightarrow> 0 \<le> cs_chars c \<and> (\<not> pending c \<longrightarrow> cs_since c = 0)"

fun stamp :: "composer_event \<Rightarrow> seconds" where
  "stamp (Written _ now _ _) = now"
| "stamp (Read _ now) = now"
| "stamp Emptied = 0"

lemma report_crossing_spec:
  assumes "report_crossing before state now = (x, c)"
  shows "x = (if pending c = pending before then None else Some (if pending c then Pending else Cleared))"
    and "pending c = pending state" and "cs_chars c = cs_chars state"
    and "cs_since c = (if pending c = pending before then cs_since state else if pending c then now else 0)"
  using assms by (auto simp: report_crossing_def pending_def split: if_splits)

lemma composer_step_spec:
  assumes "composer_step c e = (x, c')" and "composer_inv c"
  shows "x = (if pending c' = pending c then None else Some (if pending c' then Pending else Cleared))
     \<and> composer_inv c'
     \<and> (pending c \<and> pending c' \<longrightarrow> cs_since c' = cs_since c)
     \<and> (\<not> pending c \<and> pending c' \<longrightarrow> cs_since c' = stamp e)"
proof (cases e)
  case (Written data now ck nk)
  with assms show ?thesis
    by (auto simp: note_composer_write_def apply_composer_write_def Let_def report_crossing_def
        composer_inv_def pending_def split: if_splits)
next
  case (Read r now)
  with assms show ?thesis
    by (auto simp: reanchor_composer_def report_crossing_def composer_inv_def pending_def split: if_splits)
next
  case Emptied
  with assms show ?thesis
    by (auto simp: clear_composer_def Let_def composer_inv_def pending_def split: if_splits)
qed

fun alternating :: "bool \<Rightarrow> crossing list \<Rightarrow> bool" where
  "alternating p [] = True"
| "alternating p (k # ks) = (k = (if p then Cleared else Pending) \<and> alternating (\<not> p) ks)"

definition believed :: "bool \<Rightarrow> crossing list \<Rightarrow> bool" where
  "believed p ks = (if ks = [] then p else last ks = Pending)"

lemma crossings_alternate:
  "composer_inv c \<Longrightarrow> alternating (pending c) (crossings c es)
     \<and> pending (composer_run c es) = believed (pending c) (crossings c es)
     \<and> composer_inv (composer_run c es)"
proof (induction es arbitrary: c)
  case Nil
  then show ?case by (simp add: composer_run_def believed_def)
next
  case (Cons e es)
  obtain x c' where s: "composer_step c e = (x, c')" by force
  note spec = composer_step_spec [OF s Cons.prems]
  have run: "composer_run c (e # es) = composer_run c' es" by (simp add: composer_run_def s)
  from spec have "composer_inv c'" by simp
  from Cons.IH [OF this] spec show ?case
    unfolding run by (auto simp: s believed_def)
qed

text \<open>
  A host that only follows the reported crossings always knows whether a draft is standing: from
  an empty composer, whatever writes, screen readings and turn starts follow, the reports alternate
  between \<open>Pending\<close> and \<open>Cleared\<close>, the last one says what the estimate says, the estimate is never
  negative and carries no date when it is empty.
\<close>

theorem crossings_tell_the_truth:
  "alternating False (crossings new_composer es)
   \<and> pending (composer_run new_composer es) = believed False (crossings new_composer es)
   \<and> 0 \<le> cs_chars (composer_run new_composer es)
   \<and> (pending (composer_run new_composer es) \<or> cs_since (composer_run new_composer es) = 0)"
proof -
  have n: "composer_inv new_composer" "\<not> pending new_composer"
    by (simp_all add: composer_inv_def new_composer_def pending_def)
  from crossings_alternate [OF n(1), of es] n(2) show ?thesis
    by (auto simp: composer_inv_def)
qed

subsection \<open>Inserting text\<close>

abbreviation presses :: "nat \<Rightarrow> string" where
  "presses k \<equiv> concat (replicate k DEFAULT_NEWLINE_KEYS)"

lemma find_start_after_presses:
  "find_sub BRACKETED_PASTE_START (presses k @ t)
     = map_option (\<lambda>i. 2 * k + i) (find_sub BRACKETED_PASTE_START t)"
proof (induction k)
  case (Suc k)
  have "find_sub BRACKETED_PASTE_START (DEFAULT_NEWLINE_KEYS @ u)
      = map_option (\<lambda>i. 2 + i) (find_sub BRACKETED_PASTE_START u)" for u
    by (simp add: DEFAULT_NEWLINE_KEYS_def BRACKETED_PASTE_START_def starts_with_Cons option.map_comp comp_def)
  with Suc show ?case by (simp add: option.map_comp comp_def)
qed (simp add: option.map_ident)

lemma presses_counted:
  "count_sub DEFAULT_NEWLINE_KEYS (presses k) = k" "replace_all DEFAULT_NEWLINE_KEYS [] (presses k) = []"
  by (induction k) (simp_all add: count_sub_hit replace_all_hit DEFAULT_NEWLINE_KEYS_def
      count_sub_hit [of "[CHR 0x1B, CHR 0x0D]", simplified] replace_all_hit [of "[CHR 0x1B, CHR 0x0D]", simplified])

lemma length_presses: "length (presses k) = 2 * k"
  by (induction k) (auto simp: DEFAULT_NEWLINE_KEYS_def)

lemma split_presses: "split_pastes (presses k) False = (presses k, 0, False)"
  using find_start_after_presses [of k "[]"]
  by (simp add: split_pastes.simps BRACKETED_PASTE_START_def)

lemma split_insertion:
  assumes "CHR 0x1B \<notin> set body"
  shows "split_pastes (presses k @ BRACKETED_PASTE_START @ body @ BRACKETED_PASTE_END) False
    = (presses k, composable_length body, False)"
proof -
  have "find_sub BRACKETED_PASTE_END (body @ BRACKETED_PASTE_END @ []) = Some (length body)"
    unfolding BRACKETED_PASTE_END_def by (rule find_sub_after [OF assms])
  then have "split_pastes (body @ BRACKETED_PASTE_END) True = ([], composable_length body, False)"
    by (subst split_pastes.simps) (simp add: split_pastes.simps BRACKETED_PASTE_END_def)
  moreover have "find_sub BRACKETED_PASTE_START (presses k @ BRACKETED_PASTE_START @ body @ BRACKETED_PASTE_END)
      = Some (length (presses k))"
    by (simp add: find_start_after_presses find_sub_front length_presses)
  ultimately show ?thesis
    by (subst split_pastes.simps) (simp add: BRACKETED_PASTE_START_def)
qed

definition visible :: "char \<Rightarrow> bool" where
  "visible c \<longleftrightarrow> 32 \<le> code c \<and> c \<noteq> CHR 0x7F"

definition unix_newlines :: "string \<Rightarrow> string" where
  "unix_newlines text = replace_all [CHR 0x0D] [CHR 0x0A] (replace_all [CHR 0x0D, CHR 0x0A] [CHR 0x0A] text)"

lemma visible_unix: "filter visible (unix_newlines text) = filter visible text"
  by (simp add: unix_newlines_def filter_replace_all visible_def)

lemma unix_no_CR: "CHR 0x0D \<notin> set (unix_newlines text)"
  by (auto simp: unix_newlines_def replace_all_single)

lemma unix_no_ESC: "CHR 0x1B \<notin> set text \<Longrightarrow> CHR 0x1B \<notin> set (unix_newlines text)"
  using set_replace_all [of "[CHR 0x0D, CHR 0x0A]" "[CHR 0x0A]" "text"]
  by (auto simp: unix_newlines_def replace_all_single)

text \<open>What the inserted body counts for: its newlines have become carriage returns, which do not count.\<close>

lemma composable_body:
  "CHR 0x0D \<notin> set body \<Longrightarrow>
   composable_length (replace_all [CHR 0x0A] [CHR 0x0D] body) = length (filter visible body)"
  by (induction body) (auto simp: composable_length_def replace_all_single composable_def visible_def)

definition leading_newlines :: "string \<Rightarrow> nat" where
  "leading_newlines text = length (takeWhile (\<lambda>c. c = CHR 0x0A) (unix_newlines text))"

lemma visible_dropWhile: "filter visible (dropWhile (\<lambda>c. c = CHR 0x0A) s) = filter visible s"
  by (induction s) (auto simp: visible_def)

lemma insertion_shape:
  assumes "CHR 0x1B \<notin> set text"
  obtains k body where
    "composer_insertion text DEFAULT_NEWLINE_KEYS lift =
       (if body = [] then presses k
        else presses k @ BRACKETED_PASTE_START @ replace_all [CHR 0x0A] [CHR 0x0D] body @ BRACKETED_PASTE_END)"
    "k = (if lift then leading_newlines text else 0)"
    "CHR 0x0D \<notin> set body" "CHR 0x1B \<notin> set body" "filter visible body = filter visible text"
proof -
  let ?n = "unix_newlines text"
  let ?body = "if lift then dropWhile (\<lambda>c. c = CHR 0x0A) ?n else ?n"
  have len: "length ?n - length (dropWhile (\<lambda>c. c = CHR 0x0A) ?n) = leading_newlines text"
    unfolding leading_newlines_def
    by (metis add_diff_cancel_right' length_append takeWhile_dropWhile_id)
  have "set ?body \<subseteq> set ?n" by (auto dest: set_dropWhileD)
  then have nots: "CHR 0x0D \<notin> set ?body" "CHR 0x1B \<notin> set ?body"
    using unix_no_CR [of "text"] unix_no_ESC [OF assms] by blast+
  show ?thesis
    by (rule that [of ?body "if lift then leading_newlines text else 0", OF _ refl nots])
      (use len in \<open>simp_all add: composer_insertion_def Let_def unix_newlines_def [symmetric]
         visible_dropWhile visible_unix DEFAULT_NEWLINE_KEYS_def\<close>)
qed

text \<open>
  Inserting a text into a composer is always read as a draft and never as a submit, whatever
  newlines the text holds: outside a paste, and unless the harness's own clear key occurs in what is
  written, the write erases nothing, leaves no paste open, and counts every visible character of the
  text and every leading newline lifted out of the paste. It does not count the newlines inside the
  paste, so a text of newlines alone counts as nothing.
\<close>

theorem insertion_is_a_draft:
  assumes "CHR 0x1B \<notin> set text"
    and "clear_keys = [] \<or> \<not> contains_sub clear_keys (composer_insertion text DEFAULT_NEWLINE_KEYS lift)"
  shows "classify_composer_write (composer_insertion text DEFAULT_NEWLINE_KEYS lift) False clear_keys DEFAULT_NEWLINE_KEYS
    = (let n = length (filter visible text) + (if lift then leading_newlines text else 0)
       in \<lparr>wr_kind = (if n = 0 then NoWrite else Edit), wr_typed = n, wr_erased = 0, wr_in_paste = False\<rparr>)"
proof -
  from insertion_shape [OF assms(1), of lift] obtain k body where
    shape: "composer_insertion text DEFAULT_NEWLINE_KEYS lift =
       (if body = [] then presses k
        else presses k @ BRACKETED_PASTE_START @ replace_all [CHR 0x0A] [CHR 0x0D] body @ BRACKETED_PASTE_END)" (is "?data = _")
    and k: "k = (if lift then leading_newlines text else 0)"
    and body: "CHR 0x0D \<notin> set body" "CHR 0x1B \<notin> set body" "filter visible body = filter visible text" .
  have "CHR 0x1B \<notin> set (replace_all [CHR 0x0A] [CHR 0x0D] body)"
    using body(2) by (auto simp: replace_all_single)
  then have split: "split_pastes ?data False = (presses k, length (filter visible text), False)"
    using split_insertion [of "replace_all [CHR 0x0A] [CHR 0x0D] body" k] split_presses [of k] body
    by (auto simp: shape composable_body)
  have "?data = [] \<Longrightarrow> k = 0 \<and> filter visible text = []"
    using body(3) unfolding shape by (auto simp: BRACKETED_PASTE_START_def DEFAULT_NEWLINE_KEYS_def split: if_splits)
  with assms(2) show ?thesis
    by (auto simp: classify_composer_write_def split presses_counted k [symmetric] Let_def
        DEFAULT_NEWLINE_KEYS_def [THEN arg_cong [where f = "\<lambda>x. x = []"]]
        contains_sub_def composable_length_def ERASE_KEYS_def SUBMIT_KEYS_def CLEAR_KEYS_def)
qed

theorem insertion_is_a_draft_witness:
  "classify_composer_write (composer_insertion (CHR 0x0A # ''a'' @ CHR 0x0A # ''bc'') DEFAULT_NEWLINE_KEYS True)
     False DEFAULT_CLEAR_KEYS DEFAULT_NEWLINE_KEYS
   = \<lparr>wr_kind = Edit, wr_typed = 4, wr_erased = 0, wr_in_paste = False\<rparr>
   \<and> wr_kind (classify_composer_write (composer_insertion [CHR 0x0A] DEFAULT_NEWLINE_KEYS False)
     False DEFAULT_CLEAR_KEYS DEFAULT_NEWLINE_KEYS) = NoWrite"
proof -
  let ?t = "CHR 0x0A # ''a'' @ CHR 0x0A # ''bc''"
  have "\<not> contains_sub DEFAULT_CLEAR_KEYS (composer_insertion ?t DEFAULT_NEWLINE_KEYS True)"
    "\<not> contains_sub DEFAULT_CLEAR_KEYS (composer_insertion [CHR 0x0A] DEFAULT_NEWLINE_KEYS False)"
    "length (filter visible ?t) + leading_newlines ?t = 4" "length (filter visible [CHR 0x0A]) = 0"
    by code_simp+
  then show ?thesis
    using insertion_is_a_draft [of ?t DEFAULT_CLEAR_KEYS True]
      insertion_is_a_draft [of "[CHR 0x0A]" DEFAULT_CLEAR_KEYS False]
    by (simp add: Let_def)
qed

end
