(* ===== verification/Terminal_Core.thy ===== *)
theory Terminal_Core
  imports Terminal_Stream Terminal_Arbitration Composer_Input
begin

text \<open>
  \<^verbatim>\<open>terminal_core/core.py\<close>: everything about one session's terminal that its browser connections
  touch. \<open>terminal_core\<close> is the object's state; the four ownership attributes are one \<open>owner_state\<close>,
  as \<^verbatim>\<open>owner_state()\<close> and \<^verbatim>\<open>apply_owner_state\<close> read and write them. What the core does to the world
  is recorded: writes and resizes of the pseudo terminal in \<open>pty_log\<close>, events in \<open>host_log\<close>, calls of
  \<^verbatim>\<open>on_change\<close> in \<open>changes\<close>. The clock, the live session descriptor and the name of the remote stream
  are read through \<open>core_env\<close>. A coroutine that suspends is two operations, before and after the
  \<^verbatim>\<open>await\<close>; the repaint pulses that are suspended are in \<open>pulses\<close>, and \<open>repaint_tasks\<close> counts the
  attach repaints that were created and have not started.
\<close>

definition CLAIM_LOG_LIMIT :: nat where
  "CLAIM_LOG_LIMIT = 24"

definition CLIENT_REPAINT_MIN_INTERVAL_SECONDS :: seconds where
  "CLIENT_REPAINT_MIN_INTERVAL_SECONDS = 2"

definition RESIZE_REPAINT_SETTLE_SECONDS :: seconds where
  "RESIZE_REPAINT_SETTLE_SECONDS = 1 / 4"

record write_condition =
  wc_input_revision :: "int option"
  operator_quiet_seconds :: "seconds option"
  no_pending_submit :: bool
  screen_position :: "int option"

record descriptor =
  session_id :: string
  backend :: string
  session_state :: string
  created_at :: seconds
  stopping :: bool
  ended :: bool
  needs_resize_repaint :: bool
  repaints_scrollback :: bool
  replay_needs_repaint :: bool
  suppresses_late_color_response :: bool

record core_env =
  e_now :: seconds
  e_remote :: "string option"
  e_desc :: descriptor

datatype pty_op = Pty_Write string | Pty_Resize int int

datatype host_event = Emit string string pydict

datatype pulse_reason = Resize_Settled | Truncated_Replay | Missing_Scrollback

datatype resize_task = Idle | Sleeping | Pulsing

record terminal_core =
  stream :: "pydict terminal_stream"
  owner :: owner_state
  input_owner_socket :: "string option"
  attachments_seen :: nat
  input_rejections :: int
  last_input_reject_report_ts :: seconds
  last_client_repaint_ts :: seconds
  client_diagnostic_timestamps :: "(string \<times> seconds) list"
  resize_repaint_deadline :: seconds
  resize_repaint_task :: resize_task
  input_claim_denials :: int
  claim_refusals :: "(string \<times> seconds) list"
  claim_log :: "pydict list"
  viewports :: "(string \<times> (int \<times> int)) list"
  geometry :: "(int \<times> int) option"
  last_input_event_ts :: seconds
  last_input_report_ts :: seconds
  input_revision :: int
  unsubmitted :: "pending_submit option"
  reading :: "composer_reading option"
  additive_input_position :: int
  terminal_mode :: "string option"
  terminal_mode_updated_at :: seconds
  sockets :: "string list"
  retired :: "(int \<times> string) option"
  repaint_tasks :: nat
  pulses :: "((int \<times> int) \<times> pulse_reason) list"
  pty_log :: "pty_op list"
  host_log :: "host_event list"
  changes :: nat

definition new_core :: "pydict terminal_stream \<Rightarrow> terminal_core" where
  "new_core s =
     \<lparr>stream = s, owner = no_owner, input_owner_socket = None, attachments_seen = 0, input_rejections = 0,
      last_input_reject_report_ts = 0, last_client_repaint_ts = 0, client_diagnostic_timestamps = [],
      resize_repaint_deadline = 0, resize_repaint_task = Idle, input_claim_denials = 0, claim_refusals = [],
      claim_log = [], viewports = [], geometry = None, last_input_event_ts = 0, last_input_report_ts = 0,
      input_revision = 0, unsubmitted = None, reading = None, additive_input_position = -1,
      terminal_mode = None, terminal_mode_updated_at = 0, sockets = [], retired = None, repaint_tasks = 0, pulses = [],
      pty_log = [], host_log = [], changes = 0\<rparr>"

abbreviation ring_position :: "terminal_core \<Rightarrow> int" where
  "ring_position c \<equiv> sb_position (scrollback (stream c))"

abbreviation input_owner :: "terminal_core \<Rightarrow> string option" where
  "input_owner c \<equiv> connection_id (owner c)"

definition attached_connections :: "terminal_core \<Rightarrow> nat" where
  "attached_connections c = length (subscribers (stream c))"

definition note_change :: "terminal_core \<Rightarrow> terminal_core" where
  "note_change c = c\<lparr>changes := Suc (changes c)\<rparr>"

definition pty :: "pty_op \<Rightarrow> terminal_core \<Rightarrow> terminal_core" where
  "pty op c = c\<lparr>pty_log := pty_log c @ [op]\<rparr>"

definition emit :: "string \<Rightarrow> string \<Rightarrow> pydict \<Rightarrow> terminal_core \<Rightarrow> terminal_core" where
  "emit kind source payload c = c\<lparr>host_log := host_log c @ [Emit kind source payload]\<rparr>"

fun opt_str :: "string option \<Rightarrow> pyval" where
  "opt_str None = PNone"
| "opt_str (Some s) = PStr s"

subsection \<open>Writes\<close>

definition last_input_age :: "core_env \<Rightarrow> terminal_core \<Rightarrow> seconds option" where
  "last_input_age e c =
     (if last_input_event_ts c \<le> 0 then None else Some (max 0 (e_now e - last_input_event_ts c)))"

definition composer_screen :: "core_env \<Rightarrow> terminal_core \<Rightarrow> composer_reading option" where
  "composer_screen e c =
     (case reading c of
        None \<Rightarrow> None
      | Some r \<Rightarrow>
          if rg_stream r \<noteq> stream_id (e_remote e) (stream c) then None
          else if rg_position r \<noteq> ring_position c then None
          else if rg_position r \<le> additive_input_position c then None
          else Some r)"

datatype refusal_reason =
    Input_Revision_Moved
  | Operator_Recently_Typed
  | Unsubmitted_Delivery_In_Composer
  | Composer_Screen_Moved
  | Moved

definition refusal :: "core_env \<Rightarrow> write_condition \<Rightarrow> terminal_core \<Rightarrow> refusal_reason option" where
  "refusal e cond c =
     (if (case wc_input_revision cond of None \<Rightarrow> False | Some rv \<Rightarrow> input_revision c \<noteq> rv)
      then Some Input_Revision_Moved
      else if (case (operator_quiet_seconds cond, last_input_age e c) of
                 (Some quiet, Some age) \<Rightarrow> age < quiet | _ \<Rightarrow> False)
      then Some Operator_Recently_Typed
      else if no_pending_submit cond \<and> unsubmitted c \<noteq> None then Some Unsubmitted_Delivery_In_Composer
      else if (case screen_position cond of
                 None \<Rightarrow> False
               | Some p \<Rightarrow> (case composer_screen e c of None \<Rightarrow> True | Some r \<Rightarrow> rg_position r \<noteq> p))
      then Some Composer_Screen_Moved
      else None)"

definition core_write ::
  "core_env \<Rightarrow> string \<Rightarrow> write_condition option \<Rightarrow> terminal_core \<Rightarrow> refusal_reason + terminal_core" where
  "core_write e data condition c =
     (if retired c \<noteq> None then Inl Moved
      else
        (case Option.bind condition (\<lambda>cond. refusal e cond c) of
           Some reason \<Rightarrow> Inl reason
         | None \<Rightarrow>
             (let c = pty (Pty_Write data) c
              in Inr (if write_may_add_text data
                      then
                        (let c = c\<lparr>additive_input_position := ring_position c\<rparr>
                         in if reading c \<noteq> None then note_change (c\<lparr>reading := None\<rparr>) else c)
                      else c))))"

subsection \<open>The composer, as a browser read it\<close>

fun is_number :: "pyval \<Rightarrow> int \<Rightarrow> bool" where
  "is_number (PInt i) n = (i = n)"
| "is_number (PBool b) n = ((if b then 1 else 0) = n)"
| "is_number (PFloat r) n = (r = of_int n)"
| "is_number _ n = False"

text \<open>The frame's rectangle is compared with the size of the pseudo terminal, once there is one.\<close>

definition read_at_another_size :: "pydict \<Rightarrow> terminal_core \<Rightarrow> bool" where
  "read_at_another_size frame c =
     (case geometry c of
        None \<Rightarrow> False
      | Some (cols, rows) \<Rightarrow>
          \<not> (is_number (py_get frame ''cols'') cols \<and> is_number (py_get frame ''rows'') rows))"

definition keep_reading ::
  "core_env \<Rightarrow> pydict \<Rightarrow> composer_reading \<Rightarrow> terminal_core \<Rightarrow> composer_reading option \<times> terminal_core" where
  "keep_reading e frame r c =
     (if retired c \<noteq> None then (None, c)
      else if rg_stream r \<noteq> stream_id (e_remote e) (stream c) then (None, c)
      else if rg_position r \<noteq> ring_position c then (None, c)
      else if rg_position r \<le> additive_input_position c then (None, c)
      else if read_at_another_size frame c then (None, c)
      else
        (let kept = merge_screen_readings (composer_screen e c) r
         in (Some kept,
             if Some kept \<noteq> reading c then note_change (c\<lparr>reading := Some kept\<rparr>) else c)))"

definition note_composer_reading ::
  "core_env \<Rightarrow> pydict \<Rightarrow> terminal_core \<Rightarrow> py_error + composer_reading option \<times> terminal_core" where
  "note_composer_reading e frame c =
     bind_err (parse_screen_reading frame)
       (\<lambda>r. Inr (case r of None \<Rightarrow> (None, c) | Some r \<Rightarrow> keep_reading e frame r c))"

definition note_stream_reseeded :: "terminal_core \<Rightarrow> terminal_core" where
  "note_stream_reseeded c =
     note_change (c\<lparr>reading := None, additive_input_position := ring_position c\<rparr>)"

definition note_output :: "terminal_core \<Rightarrow> bool \<times> terminal_core" where
  "note_output c =
     (case reading c of
        None \<Rightarrow> (False, c)
      | Some r \<Rightarrow> if rg_position r = ring_position c then (False, c)
                  else (True, note_change (c\<lparr>reading := None\<rparr>)))"

definition write_operator_input ::
  "core_env \<Rightarrow> string \<Rightarrow> write_condition option \<Rightarrow> terminal_core \<Rightarrow> refusal_reason + terminal_core" where
  "write_operator_input e data condition c =
     bind_err (core_write e data condition c)
       (\<lambda>c. Inr (note_change (c\<lparr>input_revision := input_revision c + 1, last_input_event_ts := e_now e,
                                last_input_report_ts := e_now e\<rparr>)))"

text \<open>\<^verbatim>\<open>write_when\<close>; its data is text here, so the type check on accounted input cannot fail.\<close>

definition write_when ::
  "core_env \<Rightarrow> string \<Rightarrow> write_condition option \<Rightarrow> bool \<Rightarrow> terminal_core \<Rightarrow> refusal_reason + terminal_core" where
  "write_when e data condition accounted c =
     (if accounted then write_operator_input e data condition c else core_write e data condition c)"

subsection \<open>Input accounting\<close>

definition note_typed_input :: "seconds \<Rightarrow> terminal_core \<Rightarrow> terminal_core" where
  "note_typed_input now c =
     note_change (c\<lparr>input_revision := input_revision c + 1, last_input_event_ts := now,
                    owner := (owner c)\<lparr>last_gesture_at := Some now\<rparr>\<rparr>)"

definition note_pointer_input :: "seconds \<Rightarrow> terminal_core \<Rightarrow> terminal_core" where
  "note_pointer_input now c =
     note_change (c\<lparr>last_input_event_ts := now, owner := (owner c)\<lparr>last_gesture_at := Some now\<rparr>\<rparr>)"

definition set_terminal_mode :: "seconds \<Rightarrow> string \<Rightarrow> terminal_core \<Rightarrow> bool \<times> terminal_core" where
  "set_terminal_mode now mode c =
     (terminal_mode c \<noteq> Some mode,
      note_change (c\<lparr>terminal_mode := Some mode, terminal_mode_updated_at := now\<rparr>))"

definition record_claim :: "pydict \<Rightarrow> terminal_core \<Rightarrow> terminal_core" where
  "record_claim entry c = note_change (c\<lparr>claim_log := take_last CLAIM_LOG_LIMIT (claim_log c @ [entry])\<rparr>)"

definition apply_owner_state :: "owner_state \<Rightarrow> terminal_core \<Rightarrow> terminal_core" where
  "apply_owner_state st c = note_change (c\<lparr>owner := st\<rparr>)"

definition note_owner_input :: "seconds \<Rightarrow> terminal_core \<Rightarrow> terminal_core" where
  "note_owner_input now c = c\<lparr>owner := (owner c)\<lparr>last_gesture_at := Some now\<rparr>\<rparr>"

definition release_input_owner :: "string \<Rightarrow> terminal_core \<Rightarrow> bool \<times> terminal_core" where
  "release_input_owner conn c =
     (if input_owner c \<noteq> Some conn then (False, c)
      else (True, (apply_owner_state (release_owner (owner c) conn) c)\<lparr>input_owner_socket := None\<rparr>))"

definition note_input_rejected :: "core_env \<Rightarrow> int \<Rightarrow> terminal_core \<Rightarrow> terminal_core" where
  "note_input_rejected e byte_count c0 =
     (let c = note_change (c0\<lparr>input_rejections := input_rejections c0 + 1\<rparr>)
      in if e_now e - last_input_reject_report_ts c < 2 then c
         else emit ''terminal_input_rejected'' ''daemon''
                [(''owner_device'', opt_str (device (owner c))), (''bytes'', PInt byte_count),
                 (''rejections'', PInt (input_rejections c))]
                (c\<lparr>last_input_reject_report_ts := e_now e\<rparr>))"

subsection \<open>Shared geometry\<close>

definition set_viewport :: "string \<Rightarrow> int \<Rightarrow> int \<Rightarrow> bool \<Rightarrow> terminal_core \<Rightarrow> terminal_core" where
  "set_viewport conn cols rows hidden c =
     note_change
       (c\<lparr>viewports := (if hidden then AList.delete conn (viewports c)
                        else AList.update conn (max 2 cols, max 1 rows) (viewports c))\<rparr>)"

definition drop_viewport :: "string \<Rightarrow> terminal_core \<Rightarrow> terminal_core" where
  "drop_viewport conn c =
     (if map_of (viewports c) conn = None then c
      else note_change (c\<lparr>viewports := AList.delete conn (viewports c)\<rparr>))"

text \<open>\<open>fallback\<close> is the size the pseudo terminal itself reports, used before any client reported one.\<close>

definition geometry_frame :: "int \<times> int \<Rightarrow> terminal_core \<Rightarrow> pydict" where
  "geometry_frame fallback c =
     (let (cols, rows) = (case geometry c of Some g \<Rightarrow> g | None \<Rightarrow> fallback)
      in [(''type'', PStr ''geometry''), (''cols'', PInt cols), (''rows'', PInt rows),
          (''owner_device'', opt_str (device (owner c)))])"

definition apply_geometry :: "terminal_core \<Rightarrow> bool \<times> terminal_core" where
  "apply_geometry c =
     (if retired c \<noteq> None then (False, c)
      else
        (case effective_geometry (viewports c) (input_owner c) of
           None \<Rightarrow> (False, c)
         | Some sz \<Rightarrow>
             if geometry c = Some sz then (False, c)
             else
               (let c = pty (Pty_Resize (fst sz) (snd sz)) (c\<lparr>geometry := Some sz\<rparr>);
                    c = c\<lparr>stream := publish_control (geometry_frame sz c) (stream c)\<rparr>
                in (True, note_change c))))"

subsection \<open>Repaint\<close>

definition repaint_event :: "core_env \<Rightarrow> pulse_reason \<Rightarrow> (int \<times> int) option \<Rightarrow> bool \<Rightarrow> terminal_core \<Rightarrow> terminal_core" where
  "repaint_event e why sz repainted c =
     (case why of
        Resize_Settled \<Rightarrow>
          emit ''terminal_repaint_requested'' ''daemon''
            [(''reason'', PStr ''resize_settled''), (''backend'', PStr (backend (e_desc e))),
             (''cols'', case sz of Some (cols, _) \<Rightarrow> PInt cols | None \<Rightarrow> PNone),
             (''rows'', case sz of Some (_, rows) \<Rightarrow> PInt rows | None \<Rightarrow> PNone),
             (''applied'', PBool repainted)] (c\<lparr>resize_repaint_task := Idle\<rparr>)
      | Truncated_Replay \<Rightarrow>
          emit ''terminal_repaint_requested'' ''daemon''
            [(''reason'', PStr ''truncated_replay''), (''backend'', PStr (backend (e_desc e))),
             (''applied'', PBool repainted)] c
      | Missing_Scrollback \<Rightarrow>
          if repainted then emit ''terminal_repaint_requested'' ''browser'' [(''reason'', PStr ''missing_scrollback'')] c
          else c)"

text \<open>
  \<^verbatim>\<open>repaint_current_geometry\<close> up to its \<^verbatim>\<open>sleep\<close>, and from there to the end of the coroutine that
  called it. A pulse that cannot start returns \<open>False\<close> to its caller at once.
\<close>

definition pulse_cols :: "int \<Rightarrow> int" where
  "pulse_cols cols = (if cols > 2 then cols - 1 else cols + 1)"

definition start_repaint :: "core_env \<Rightarrow> pulse_reason \<Rightarrow> terminal_core \<Rightarrow> terminal_core" where
  "start_repaint e why c =
     (case geometry c of
        None \<Rightarrow> repaint_event e why None False c
      | Some sz \<Rightarrow>
          if ended (e_desc e) \<or> retired c \<noteq> None then repaint_event e why (Some sz) False c
          else pty (Pty_Resize (pulse_cols (fst sz)) (snd sz)) (c\<lparr>pulses := pulses c @ [(sz, why)]\<rparr>))"

definition finish_repaint :: "core_env \<Rightarrow> (int \<times> int) \<times> pulse_reason \<Rightarrow> terminal_core \<Rightarrow> terminal_core" where
  "finish_repaint e p c0 =
     (let (sz, why) = p;
          c = c0\<lparr>pulses := remove1 p (pulses c0)\<rparr>
      in if geometry c \<noteq> Some sz \<or> retired c \<noteq> None then repaint_event e why (Some sz) False c
         else repaint_event e why (Some sz) True (pty (Pty_Resize (fst sz) (snd sz)) c))"

definition retire :: "int \<Rightarrow> string \<Rightarrow> terminal_core \<Rightarrow> terminal_core" where
  "retire close_code message c = (if retired c \<noteq> None then c else c\<lparr>retired := Some (close_code, message)\<rparr>)"

definition schedule_resize_repaint :: "core_env \<Rightarrow> terminal_core \<Rightarrow> terminal_core" where
  "schedule_resize_repaint e c0 =
     (if \<not> needs_resize_repaint (e_desc e) then c0
      else
        (let c = c0\<lparr>resize_repaint_deadline := e_now e + RESIZE_REPAINT_SETTLE_SECONDS\<rparr>
         in if resize_repaint_task c \<noteq> Idle then c else c\<lparr>resize_repaint_task := Sleeping\<rparr>))"

text \<open>One wake of \<^verbatim>\<open>_repaint_when_resize_settles\<close>: it sleeps on, or pulses.\<close>

definition resize_task_wakes :: "core_env \<Rightarrow> terminal_core \<Rightarrow> terminal_core" where
  "resize_task_wakes e c =
     (if resize_repaint_task c \<noteq> Sleeping then c
      else if resize_repaint_deadline c - e_now e > 0 then c
      else if stopping (e_desc e) then c\<lparr>resize_repaint_task := Idle\<rparr>
      else start_repaint e Resize_Settled (c\<lparr>resize_repaint_task := Pulsing\<rparr>))"

definition schedule_attach_repaint :: "core_env \<Rightarrow> terminal_core \<Rightarrow> terminal_core" where
  "schedule_attach_repaint e c =
     (if \<not> replay_needs_repaint (e_desc e) then c
      else if \<not> replay_window_truncated (stream c) then c
      else if e_now e - last_client_repaint_ts c < CLIENT_REPAINT_MIN_INTERVAL_SECONDS then c
      else c\<lparr>last_client_repaint_ts := e_now e, repaint_tasks := Suc (repaint_tasks c)\<rparr>)"

text \<open>The task it created runs at a later turn of the event loop.\<close>

definition attach_repaint_runs :: "core_env \<Rightarrow> terminal_core \<Rightarrow> terminal_core" where
  "attach_repaint_runs e c =
     (case repaint_tasks c of
        0 \<Rightarrow> c
      | Suc n \<Rightarrow> start_repaint e Truncated_Replay (c\<lparr>repaint_tasks := n\<rparr>))"

definition handle_client_repaint :: "core_env \<Rightarrow> terminal_core \<Rightarrow> terminal_core" where
  "handle_client_repaint e c =
     (if \<not> repaints_scrollback (e_desc e) then c
      else if e_now e - last_client_repaint_ts c < CLIENT_REPAINT_MIN_INTERVAL_SECONDS then c
      else start_repaint e Missing_Scrollback (c\<lparr>last_client_repaint_ts := e_now e\<rparr>))"

subsection \<open>Client diagnostics (\<^verbatim>\<open>diagnostics.py\<close>)\<close>

definition CLIENT_REPAIR_PHASES :: "string list" where
  "CLIENT_REPAIR_PHASES =
     [''write_pipeline_dead'', ''write_pipeline_backlog'', ''surface_drift_repair'', ''viewport_fit_drift_repair'',
      ''viewport_fit_resumed'', ''surface_repair_resumed'', ''scrollback_repaint_requested'', ''webgl_render_error'']"

definition CLIENT_INPUT_DIAGNOSTIC_PHASES :: "string list" where
  "CLIENT_INPUT_DIAGNOSTIC_PHASES =
     [''input_ack_latency'', ''input_echo_latency'', ''input_event_delay'', ''input_main_thread_stall'',
      ''input_socket_backlog'', ''mobile_drag_inert'', ''mobile_gesture_keyboard_changed'', ''terminal_paste_unclaimed'']"

definition CLIENT_DIAGNOSTIC_MIN_INTERVAL_SECONDS :: seconds where
  "CLIENT_DIAGNOSTIC_MIN_INTERVAL_SECONDS = 1"

definition CLIENT_DIAGNOSTIC_DETAIL_LIMIT :: nat where
  "CLIENT_DIAGNOSTIC_DETAIL_LIMIT = 512"

definition CLIENT_PASTE_TRACE_PHASE :: string where
  "CLIENT_PASTE_TRACE_PHASE = ''terminal_paste_trace''"

definition CLIENT_PASTE_TRACE_DETAIL_LIMIT :: nat where
  "CLIENT_PASTE_TRACE_DETAIL_LIMIT = 4096"

text \<open>\<open>dumps\<close> is the encoder of \<^verbatim>\<open>json.dumps\<close>, whose text is only cut to the limit here.\<close>

definition note_client_diagnostic ::
  "(pydict \<Rightarrow> string) \<Rightarrow> core_env \<Rightarrow> string \<Rightarrow> pydict \<Rightarrow> terminal_core \<Rightarrow> terminal_core" where
  "note_client_diagnostic dumps e conn frame c =
     (case py_get frame ''phase'' of
        PStr phase \<Rightarrow>
          if phase \<notin> set (CLIENT_REPAIR_PHASES @ CLIENT_INPUT_DIAGNOSTIC_PHASES @ [CLIENT_PASTE_TRACE_PHASE]) then c
          else if e_now e - (case map_of (client_diagnostic_timestamps c) phase of Some t \<Rightarrow> t | None \<Rightarrow> 0)
                  < CLIENT_DIAGNOSTIC_MIN_INTERVAL_SECONDS then c
          else
            (let payload = (case py_get frame ''detail'' of PDict d \<Rightarrow> dumps d | _ \<Rightarrow> []);
                 (event_type, detail_limit) =
                   (if phase = CLIENT_PASTE_TRACE_PHASE then (CLIENT_PASTE_TRACE_PHASE, CLIENT_PASTE_TRACE_DETAIL_LIMIT)
                    else if phase \<in> set CLIENT_REPAIR_PHASES then (''terminal_client_repair'', CLIENT_DIAGNOSTIC_DETAIL_LIMIT)
                    else (''terminal_input_diagnostic'', CLIENT_DIAGNOSTIC_DETAIL_LIMIT))
             in emit event_type ''browser''
                  [(''phase'', PStr phase), (''detail'', PStr (take detail_limit payload)),
                   (''input_owner'', PBool (input_owner c = Some conn)),
                   (''owner_device'', opt_str (device (owner c)))]
                  (c\<lparr>client_diagnostic_timestamps := AList.update phase (e_now e) (client_diagnostic_timestamps c)\<rparr>))
      | _ \<Rightarrow> c)"

end
