(* ===== verification/Core_Safety.thy ===== *)
theory Core_Safety
  imports Terminal_Core
begin

text \<open>
  Runs of a terminal core: every operation of \<open>Terminal_Core\<close> as a step, in any order the event loop
  may choose. Over all of them: a conditional write that succeeds was not overtaken, the pseudo
  terminal has the arbitrated size whenever no pulse is under way, and browsers cannot make the child
  repaint more often than the interval allows.
\<close>

datatype core_op =
    Op_Output bytes
  | Op_Reseed bytes int
  | Op_Write string "write_condition option"
  | Op_Operator string "write_condition option"
  | Op_Typed string
  | Op_Pointer string
  | Op_Reading pydict
  | Op_Unsubmitted "pending_submit option"
  | Op_Viewport string int int bool
  | Op_Drop string
  | Op_Geometry
  | Op_Mode string
  | Op_Record pydict
  | Op_Owner owner_state
  | Op_Release string
  | Op_Rejected int
  | Op_Retire int string
  | Op_Schedule_Resize
  | Op_Resize_Wakes
  | Op_Schedule_Attach
  | Op_Attach_Runs
  | Op_Client_Repaint
  | Op_Finish "(int \<times> int) \<times> pulse_reason"
  | Op_Diagnostic string pydict

text \<open>A write that raises leaves the core as it was, and whatever follows it in its handler is skipped.\<close>

definition or_unchanged :: "terminal_core \<Rightarrow> 'e + terminal_core \<Rightarrow> terminal_core" where
  "or_unchanged c r = (case r of Inl _ \<Rightarrow> c | Inr c' \<Rightarrow> c')"

definition typed :: "core_env \<Rightarrow> string \<Rightarrow> terminal_core \<Rightarrow> refusal_reason + terminal_core" where
  "typed e data c = bind_err (core_write e data None c) (\<lambda>c. Inr (note_typed_input (e_now e) c))"

definition pointed :: "core_env \<Rightarrow> string \<Rightarrow> terminal_core \<Rightarrow> refusal_reason + terminal_core" where
  "pointed e data c = bind_err (core_write e data None c) (\<lambda>c. Inr (note_pointer_input (e_now e) c))"

definition receive_output :: "bytes \<Rightarrow> terminal_core \<Rightarrow> terminal_core" where
  "receive_output d c = snd (note_output (c\<lparr>stream := feed (stream c) d\<rparr>))"

fun core_step :: "(pydict \<Rightarrow> string) \<Rightarrow> core_env \<Rightarrow> core_op \<Rightarrow> terminal_core \<Rightarrow> terminal_core" where
  "core_step dumps e (Op_Output d) c = receive_output d c"
| "core_step dumps e (Op_Reseed d p) c = note_stream_reseeded (c\<lparr>stream := reseed d p (stream c)\<rparr>)"
| "core_step dumps e (Op_Write d cond) c = or_unchanged c (core_write e d cond c)"
| "core_step dumps e (Op_Operator d cond) c = or_unchanged c (write_operator_input e d cond c)"
| "core_step dumps e (Op_Typed d) c = or_unchanged c (typed e d c)"
| "core_step dumps e (Op_Pointer d) c = or_unchanged c (pointed e d c)"
| "core_step dumps e (Op_Reading f) c = or_unchanged c (map_sum id snd (note_composer_reading e f c))"
| "core_step dumps e (Op_Unsubmitted m) c = c\<lparr>unsubmitted := m\<rparr>"
| "core_step dumps e (Op_Viewport conn w h hidden) c = set_viewport conn w h hidden c"
| "core_step dumps e (Op_Drop conn) c = drop_viewport conn c"
| "core_step dumps e Op_Geometry c = snd (apply_geometry c)"
| "core_step dumps e (Op_Mode m) c = snd (set_terminal_mode (e_now e) m c)"
| "core_step dumps e (Op_Record f) c = record_claim f c"
| "core_step dumps e (Op_Owner st) c = apply_owner_state st c"
| "core_step dumps e (Op_Release conn) c = snd (release_input_owner conn c)"
| "core_step dumps e (Op_Rejected n) c = note_input_rejected e n c"
| "core_step dumps e (Op_Retire k m) c = retire k m c"
| "core_step dumps e Op_Schedule_Resize c = schedule_resize_repaint e c"
| "core_step dumps e Op_Resize_Wakes c = resize_task_wakes e c"
| "core_step dumps e Op_Schedule_Attach c = schedule_attach_repaint e c"
| "core_step dumps e Op_Attach_Runs c = attach_repaint_runs e c"
| "core_step dumps e Op_Client_Repaint c = handle_client_repaint e c"
| "core_step dumps e (Op_Finish p) c = (if p \<in> set (pulses c) then finish_repaint e p c else c)"
| "core_step dumps e (Op_Diagnostic conn f) c = note_client_diagnostic dumps e conn f c"

fun core_run :: "(pydict \<Rightarrow> string) \<Rightarrow> (core_env \<times> core_op) list \<Rightarrow> terminal_core \<Rightarrow> terminal_core" where
  "core_run dumps [] c = c"
| "core_run dumps ((e, op) # ops) c = core_run dumps ops (core_step dumps e op c)"

lemma core_run_append: "core_run dumps (a @ b) c = core_run dumps b (core_run dumps a c)"
  by (induction a arbitrary: c) (auto split: prod.splits)

lemmas small_ops = note_change_def pty_def emit_def apply_owner_state_def record_claim_def set_viewport_def
  drop_viewport_def set_terminal_mode_def release_input_owner_def note_input_rejected_def retire_def
  note_typed_input_def note_pointer_input_def schedule_resize_repaint_def schedule_attach_repaint_def
  Let_def

subsection \<open>Which parts of the core an operation leaves alone\<close>

definition same_screen :: "terminal_core \<Rightarrow> terminal_core \<Rightarrow> bool" where
  "same_screen c c' \<longleftrightarrow> ring_position c' = ring_position c
     \<and> additive_input_position c' = additive_input_position c \<and> input_revision c' = input_revision c"

lemma ring_each_subscriber [simp]: "scrollback (each_subscriber g s) = scrollback s"
  by (simp add: each_subscriber_def)

lemma repaint_event_screen: "same_screen c (repaint_event e why sz b c)"
  by (cases why) (auto simp: same_screen_def repaint_event_def emit_def)

lemma start_repaint_screen: "same_screen c (start_repaint e why c)"
  using repaint_event_screen
  by (auto simp: start_repaint_def pty_def same_screen_def split: option.splits)

lemma same_screen_refl [simp]: "same_screen c c"
  by (simp add: same_screen_def)

lemma core_write_screen:
  assumes "core_write e d cond c = Inr c'"
  shows "ring_position c' = ring_position c" "input_revision c' = input_revision c"
    "additive_input_position c' = (if write_may_add_text d then ring_position c else additive_input_position c)"
  using assms by (auto simp: core_write_def Let_def pty_def note_change_def split: if_splits option.splits)

lemma ring_feed: "sb_position (scrollback (feed s d)) = sb_position (scrollback s) + int (length d)"
  by (simp add: feed_def publish_output_def sb_position_def written_append)

lemma ring_reseed: "sb_position (scrollback (reseed d p s)) = max p (int (length d))"
  by (simp add: reseed_def sb_position_def sb_seed_def Let_def)

lemma receive_output_screen:
  "ring_position (receive_output d c) = ring_position c + int (length d)"
  "additive_input_position (receive_output d c) = additive_input_position c"
  "input_revision (receive_output d c) = input_revision c"
  by (auto simp: receive_output_def note_output_def ring_feed [unfolded sb_position_def] note_change_def sb_position_def
      split: option.splits)

text \<open>What makes a judgement about the composer stale.\<close>

fun disturbs :: "core_env \<Rightarrow> core_op \<Rightarrow> terminal_core \<Rightarrow> bool" where
  "disturbs e (Op_Output d) c = (d \<noteq> [])"
| "disturbs e (Op_Reseed d p) c = True"
| "disturbs e (Op_Write d cond) c = (write_may_add_text d \<and> \<not> isl (core_write e d cond c))"
| "disturbs e (Op_Operator d cond) c = (\<not> isl (write_operator_input e d cond c))"
| "disturbs e (Op_Typed d) c = (\<not> isl (typed e d c))"
| "disturbs e _ c = False"

fun disturbed :: "(pydict \<Rightarrow> string) \<Rightarrow> (core_env \<times> core_op) list \<Rightarrow> terminal_core \<Rightarrow> bool" where
  "disturbed dumps [] c = False"
| "disturbed dumps ((e, op) # ops) c = (disturbs e op c \<or> disturbed dumps ops (core_step dumps e op c))"

text \<open>A ring is replaced only by one whose position is not behind it.\<close>

fun forward :: "(pydict \<Rightarrow> string) \<Rightarrow> (core_env \<times> core_op) list \<Rightarrow> terminal_core \<Rightarrow> bool" where
  "forward dumps [] c = True"
| "forward dumps ((e, op) # ops) c =
     ((case op of Op_Reseed d p \<Rightarrow> ring_position c \<le> max p (int (length d)) | _ \<Rightarrow> True)
      \<and> forward dumps ops (core_step dumps e op c))"

definition stale :: "int \<Rightarrow> int \<Rightarrow> terminal_core \<Rightarrow> bool" where
  "stale rv p c \<longleftrightarrow> input_revision c > rv \<or> ring_position c > p \<or> additive_input_position c \<ge> p"

lemma repaint_screens:
  "same_screen c (handle_client_repaint e c)" "same_screen c (attach_repaint_runs e c)"
  "same_screen c (resize_task_wakes e c)" "same_screen c (finish_repaint e q c)"
  using start_repaint_screen repaint_event_screen
  by (auto simp: handle_client_repaint_def attach_repaint_runs_def resize_task_wakes_def finish_repaint_def
      same_screen_def pty_def Let_def split: nat.splits prod.splits)

lemma other_screens:
  "same_screen c (snd (apply_geometry c))" (is ?G)
  "same_screen c (note_client_diagnostic dumps e conn f c)" (is ?D)
  "note_composer_reading e f c = Inr (x, c') \<Longrightarrow> same_screen c c'"
proof -
  show ?G
    by (simp add: apply_geometry_def same_screen_def pty_def note_change_def publish_control_def Let_def
        split: option.split)
  show ?D
    by (cases "py_get f ''phase''")
      (simp_all add: note_client_diagnostic_def same_screen_def emit_def split_beta Let_def)
next
  have k: "same_screen c (snd (keep_reading e f r c))" for r
    by (simp add: keep_reading_def same_screen_def note_change_def Let_def)
  assume "note_composer_reading e f c = Inr (x, c')"
  then obtain r where "(x, c') = (case r of None \<Rightarrow> (None, c) | Some r \<Rightarrow> keep_reading e f r c)"
    unfolding note_composer_reading_def bind_err_Inr by (metis Inr_inject)
  then show "same_screen c c'" using k by (auto split: option.splits dest: arg_cong [where f = snd])
qed

fun moves :: "core_op \<Rightarrow> bool" where
  "moves (Op_Output d) = True"
| "moves (Op_Reseed d p) = True"
| "moves (Op_Write d cond) = True"
| "moves (Op_Operator d cond) = True"
| "moves (Op_Typed d) = True"
| "moves (Op_Pointer d) = True"
| "moves _ = False"

lemma still_step: "\<not> moves op \<Longrightarrow> same_screen c (core_step dumps e op c)"
proof (cases op)
  case (Op_Reading f)
  then show ?thesis using other_screens(3)
    by (cases "note_composer_reading e f c") (auto simp: or_unchanged_def)
next
  case (Op_Finish q)
  then show ?thesis using repaint_screens by auto
qed (use repaint_screens other_screens in \<open>simp_all add: small_ops same_screen_def\<close>)

lemma core_step_stale:
  assumes "p \<le> ring_position c" and "rv \<le> input_revision c" and "forward dumps [(e, op)] c"
  defines "c' \<equiv> core_step dumps e op c"
  shows "p \<le> ring_position c' \<and> rv \<le> input_revision c'
    \<and> (stale rv p c \<or> disturbs e op c \<longrightarrow> stale rv p c')"
proof (cases "moves op")
  case False
  then have "same_screen c c'" "\<not> disturbs e op c" using still_step unfolding c'_def by (blast, cases op) auto
  then show ?thesis using assms(1,2) by (simp add: same_screen_def stale_def)
next
  case True
  then show ?thesis
  proof (cases op)
    case (Op_Output d)
    have "d \<noteq> [] \<longrightarrow> 0 < int (length d)" by simp
    then have "d \<noteq> [] \<longrightarrow> p < ring_position c + int (length d)" using assms(1) by linarith
    with Op_Output show ?thesis using assms by (auto simp: receive_output_screen stale_def)
  next
    case (Op_Reseed d q)
    then show ?thesis using assms by (auto simp: note_stream_reseeded_def note_change_def ring_reseed stale_def)
  next
    case (Op_Write d cond)
    then show ?thesis using assms core_write_screen [of e d cond c]
      by (cases "core_write e d cond c") (auto simp: or_unchanged_def stale_def)
  next
    case (Op_Operator d cond)
    then show ?thesis using assms core_write_screen [of e d cond c]
      by (cases "core_write e d cond c")
        (auto simp: or_unchanged_def stale_def write_operator_input_def note_change_def)
  next
    case (Op_Typed d)
    then show ?thesis using assms core_write_screen [of e d None c]
      by (cases "core_write e d None c") (auto simp: or_unchanged_def stale_def typed_def note_typed_input_def note_change_def)
  next
    case (Op_Pointer d)
    then show ?thesis using assms core_write_screen [of e d None c]
      by (cases "core_write e d None c")
        (auto simp: or_unchanged_def stale_def pointed_def note_pointer_input_def note_change_def)
  qed auto
qed

lemma disturbed_is_stale:
  "p \<le> ring_position c \<Longrightarrow> rv \<le> input_revision c \<Longrightarrow> forward dumps ops c \<Longrightarrow>
   stale rv p c \<or> disturbed dumps ops c \<Longrightarrow> stale rv p (core_run dumps ops c)"
proof (induction ops arbitrary: c)
  case (Cons x ops)
  obtain e op where x: "x = (e, op)" by force
  from Cons.prems(3) have "forward dumps [(e, op)] c" by (simp add: x)
  note s = core_step_stale [OF Cons.prems(1,2) this]
  show ?case using Cons.IH [of "core_step dumps e op c"] Cons.prems(3,4) s by (auto simp: x)
qed simp

text \<open>
  A delivery that was judged safe is written only if nothing has happened since. Take the judgement
  at any moment, with the input revision it saw and the position of the screen reading it relied on,
  and let any sequence of the core's operations follow: if the conditional write then succeeds, no
  keystroke and no other input was accepted in between, no byte was drawn, the ring was not replaced,
  and nothing was written that could have put text in the composer; and no unsubmitted delivery is
  standing in it. The ring must not be reseeded at a position behind its own.
\<close>

theorem delivery_is_not_overtaken:
  assumes "composer_screen e0 c0 = Some r" and "forward dumps ops c0"
    and "core_write e1 data
      (Some \<lparr>wc_input_revision = Some (input_revision c0), operator_quiet_seconds = quiet,
             no_pending_submit = True, screen_position = Some (rg_position r)\<rparr>) (core_run dumps ops c0) = Inr c2"
  shows "\<not> disturbed dumps ops c0 \<and> unsubmitted (core_run dumps ops c0) = None
    \<and> pty_log c2 = pty_log (core_run dumps ops c0) @ [Pty_Write data]"
proof -
  let ?c = "core_run dumps ops c0"
  let ?p = "rg_position r"
  from assms(1) have p: "?p = ring_position c0"
    by (auto simp: composer_screen_def split: option.splits if_splits)
  from assms(3) have w: "input_revision ?c = input_revision c0" "unsubmitted ?c = None"
    "\<exists>r'. composer_screen e1 ?c = Some r' \<and> rg_position r' = ?p"
    "pty_log c2 = pty_log ?c @ [Pty_Write data]"
    by (auto simp: core_write_def refusal_def Let_def pty_def note_change_def split: if_splits option.splits)
  from w(3) have "ring_position ?c = ?p" "additive_input_position ?c < ?p"
    by (auto simp: composer_screen_def split: option.splits if_splits)
  with w(1) have "\<not> stale (input_revision c0) ?p ?c" by (simp add: stale_def)
  with disturbed_is_stale [of ?p c0 "input_revision c0" dumps ops] p assms(2) w show ?thesis by auto
qed

definition demo_desc :: descriptor where
  "demo_desc = \<lparr>session_id = ''s1'', backend = ''claude'', session_state = ''idle'', created_at = 0,
     stopping = False, ended = False, needs_resize_repaint = True, repaints_scrollback = True,
     replay_needs_repaint = True, suppresses_late_color_response = False\<rparr>"

definition demo_env :: "seconds \<Rightarrow> core_env" where
  "demo_env t = \<lparr>e_now = t, e_remote = None, e_desc = demo_desc\<rparr>"

definition demo_core :: terminal_core where
  "demo_core = receive_output ''ready> '' (new_core (new_stream 64 None ''s''))"

definition reading_frame :: pydict where
  "reading_frame = [(''type'', PStr ''composer_reading''), (''state'', PStr ''empty''),
     (''position'', PInt 7), (''stream'', PStr ''s'')]"

definition judged_core :: terminal_core where
  "judged_core = core_step (\<lambda>_. []) (demo_env 5) (Op_Reading reading_frame) demo_core"

definition quiet_ops :: "(core_env \<times> core_op) list" where
  "quiet_ops = [(demo_env 6, Op_Viewport ''c1'' 80 24 False), (demo_env 6, Op_Geometry), (demo_env 7, Op_Mode ''normal'')]"

theorem delivery_is_not_overtaken_witness:
  "\<not> disturbed (\<lambda>_. []) quiet_ops judged_core
   \<and> (\<exists>c2. core_write (demo_env 8) ''go'' (Some \<lparr>wc_input_revision = Some (input_revision judged_core),
        operator_quiet_seconds = Some 2, no_pending_submit = True, screen_position = Some 7\<rparr>)
        (core_run (\<lambda>_. []) quiet_ops judged_core) = Inr c2)"
proof -
  have s: "composer_screen (demo_env 5) judged_core = Some \<lparr>rg_state = Empty, rg_chars = 0, rg_position = 7, rg_stream = ''s''\<rparr>"
    and f: "forward (\<lambda>_. []) quiet_ops judged_core"
    and w: "\<not> isl (core_write (demo_env 8) ''go'' (Some \<lparr>wc_input_revision = Some (input_revision judged_core),
        operator_quiet_seconds = Some 2, no_pending_submit = True, screen_position = Some 7\<rparr>)
        (core_run (\<lambda>_. []) quiet_ops judged_core))"
    by code_simp+
  from w obtain c2 where "core_write (demo_env 8) ''go'' (Some \<lparr>wc_input_revision = Some (input_revision judged_core),
        operator_quiet_seconds = Some 2, no_pending_submit = True, screen_position = Some 7\<rparr>)
        (core_run (\<lambda>_. []) quiet_ops judged_core) = Inr c2" by (metis isl_def sum.exhaust_sel)
  with delivery_is_not_overtaken [OF s f, of "demo_env 8" "''go''" "Some 2" c2] show ?thesis by auto
qed

subsection \<open>The size of the pseudo terminal\<close>

fun last_resize :: "pty_op list \<Rightarrow> (int \<times> int) option" where
  "last_resize [] = None"
| "last_resize (Pty_Write d # ops) = last_resize ops"
| "last_resize (Pty_Resize w h # ops) = (case last_resize ops of None \<Rightarrow> Some (w, h) | Some s \<Rightarrow> Some s)"

lemma last_resize_append:
  "last_resize (a @ b) = (case last_resize b of None \<Rightarrow> last_resize a | Some s \<Rightarrow> Some s)"
  by (induction a rule: last_resize.induct) (auto split: option.splits)

definition sized :: "terminal_core \<Rightarrow> bool" where
  "sized c \<longleftrightarrow> (\<forall>g. geometry c = Some g \<and> retired c = None \<longrightarrow>
      last_resize (pty_log c) = Some g \<or> (\<exists>why. (g, why) \<in> set (pulses c)))"

definition same_size :: "terminal_core \<Rightarrow> terminal_core \<Rightarrow> bool" where
  "same_size c c' \<longleftrightarrow> geometry c' = geometry c \<and> retired c' = retired c \<and> pulses c' = pulses c
     \<and> last_resize (pty_log c') = last_resize (pty_log c)"

lemma same_size_refl [simp]: "same_size c c"
  by (simp add: same_size_def)

lemma same_size_sized: "same_size c c' \<Longrightarrow> sized c \<Longrightarrow> sized c'"
  by (simp add: same_size_def sized_def)

lemma core_write_size: "core_write e d cond c = Inr c' \<Longrightarrow> same_size c c'"
  by (auto simp: core_write_def Let_def pty_def note_change_def same_size_def last_resize_append
      split: if_splits option.splits)

lemma repaint_event_size: "same_size c (repaint_event e why sz b c)"
  by (cases why) (simp_all add: same_size_def repaint_event_def emit_def)

lemma sized_repaint_event [simp]: "sized (repaint_event e why sz b c) = sized c"
  using repaint_event_size [of c e why sz b] by (simp add: same_size_def sized_def)

lemma start_repaint_sized: "sized c \<Longrightarrow> sized (start_repaint e why c)"
proof -
  have "geometry c = Some g \<Longrightarrow> sized (pty (Pty_Resize a b) (c\<lparr>pulses := pulses c @ [(g, why)]\<rparr>))" for g a b
    by (auto simp: sized_def pty_def)
  then show "sized c \<Longrightarrow> sized (start_repaint e why c)"
    by (cases "geometry c") (simp_all add: start_repaint_def)
qed

lemma finish_repaint_sized: "sized c \<Longrightarrow> sized (finish_repaint e p c)"
proof -
  obtain g why where p: "p = (g, why)" by (rule prod.exhaust)
  assume s: "sized c"
  have "sized (c\<lparr>pulses := remove1 p (pulses c)\<rparr>)" if "geometry c \<noteq> Some g \<or> retired c \<noteq> None"
    using s that by (auto simp: sized_def p)
  moreover have "sized (pty (Pty_Resize (fst g) (snd g)) (c\<lparr>pulses := remove1 p (pulses c)\<rparr>))" if "geometry c = Some g"
    using that by (simp add: sized_def pty_def last_resize_append)
  ultimately show ?thesis by (simp add: finish_repaint_def p Let_def)
qed

lemma apply_geometry_sized: "sized c \<Longrightarrow> sized (snd (apply_geometry c))"
  by (simp add: apply_geometry_def sized_def pty_def note_change_def Let_def last_resize_append split: option.split)

lemma reading_size: "same_size c (or_unchanged c (map_sum id snd (note_composer_reading e f c)))"
proof -
  have k: "same_size c (snd (keep_reading e f r c))" for r
    by (simp add: keep_reading_def same_size_def note_change_def Let_def)
  then have "same_size c (snd (case r of None \<Rightarrow> (None, c) | Some r \<Rightarrow> keep_reading e f r c))" for r
    by (cases r) auto
  then show ?thesis
    by (simp add: note_composer_reading_def bind_err_def or_unchanged_def split: sum.split)
qed

lemma core_step_sized: "sized c \<Longrightarrow> sized (core_step dumps e op c)"
proof (cases op)
  case (Op_Write d cond)
  then show "sized c \<Longrightarrow> ?thesis" using core_write_size [of e d cond c]
    by (cases "core_write e d cond c") (auto simp: or_unchanged_def intro: same_size_sized)
next
  case (Op_Operator d cond)
  then show "sized c \<Longrightarrow> ?thesis" using core_write_size [of e d cond c]
    by (cases "core_write e d cond c")
      (auto simp: or_unchanged_def write_operator_input_def note_change_def same_size_def sized_def)
next
  case (Op_Typed d)
  then show "sized c \<Longrightarrow> ?thesis" using core_write_size [of e d None c]
    by (cases "core_write e d None c")
      (auto simp: or_unchanged_def typed_def note_typed_input_def note_change_def same_size_def sized_def)
next
  case (Op_Pointer d)
  then show "sized c \<Longrightarrow> ?thesis" using core_write_size [of e d None c]
    by (cases "core_write e d None c")
      (auto simp: or_unchanged_def pointed_def note_pointer_input_def note_change_def same_size_def sized_def)
next
  case (Op_Reading f)
  then show "sized c \<Longrightarrow> ?thesis" using reading_size by (auto intro: same_size_sized)
next
  case (Op_Output d)
  then show "sized c \<Longrightarrow> ?thesis"
    by (simp add: receive_output_def note_output_def note_change_def sized_def split: option.split)
next
  case (Op_Diagnostic conn f)
  have "same_size c (note_client_diagnostic dumps e conn f c)"
    by (cases "py_get f ''phase''")
      (simp_all add: note_client_diagnostic_def same_size_def emit_def split_beta Let_def)
  then show "sized c \<Longrightarrow> ?thesis" using Op_Diagnostic by (auto intro: same_size_sized)
next
  case Op_Resize_Wakes
  have "sized c \<Longrightarrow> sized (c\<lparr>resize_repaint_task := x\<rparr>)" for x by (simp add: sized_def)
  then show "sized c \<Longrightarrow> ?thesis" using Op_Resize_Wakes start_repaint_sized
    by (simp add: resize_task_wakes_def)
next
  case Op_Attach_Runs
  have "sized c \<Longrightarrow> sized (c\<lparr>repaint_tasks := x\<rparr>)" for x by (simp add: sized_def)
  then show "sized c \<Longrightarrow> ?thesis" using Op_Attach_Runs start_repaint_sized
    by (simp add: attach_repaint_runs_def split: nat.split)
next
  case Op_Client_Repaint
  have "sized c \<Longrightarrow> sized (c\<lparr>last_client_repaint_ts := x\<rparr>)" for x by (simp add: sized_def)
  then show "sized c \<Longrightarrow> ?thesis" using Op_Client_Repaint start_repaint_sized
    by (simp add: handle_client_repaint_def)
next
  case Op_Geometry
  then show "sized c \<Longrightarrow> ?thesis" by (simp add: apply_geometry_sized)
next
  case (Op_Finish p)
  then show "sized c \<Longrightarrow> ?thesis" by (simp add: finish_repaint_sized)
qed (simp_all add: small_ops note_stream_reseeded_def sized_def)

lemma core_run_sized: "sized c \<Longrightarrow> sized (core_run dumps ops c)"
  by (induction ops arbitrary: c) (auto simp: core_step_sized)

text \<open>
  C31. The pulse that makes a child repaint never leaves the pseudo terminal at the wrong size. In
  every run of a core, however viewport changes, ownership transfers, detaches and pulses overlap,
  the last resize sent is the arbitrated geometry whenever no pulse at that geometry is under way;
  a retired core is the only exception, since it may no longer touch the terminal.
\<close>

theorem pulses_restore_geometry:
  assumes "geometry (core_run dumps ops (new_core s)) = Some g"
    and "retired (core_run dumps ops (new_core s)) = None"
    and "g \<notin> fst ` set (pulses (core_run dumps ops (new_core s)))"
  shows "last_resize (pty_log (core_run dumps ops (new_core s))) = Some g"
proof -
  have "sized (new_core s)" by (simp add: sized_def new_core_def)
  from core_run_sized [OF this, of dumps ops] assms show ?thesis
    unfolding sized_def by force
qed

definition drag_ops :: "(core_env \<times> core_op) list" where
  "drag_ops =
     [(demo_env 1, Op_Viewport ''c1'' 80 24 False), (demo_env 1, Op_Geometry), (demo_env 3, Op_Client_Repaint),
      (demo_env 3, Op_Viewport ''c1'' 60 24 False), (demo_env 3, Op_Geometry),
      (demo_env 4, Op_Finish ((80, 24), Missing_Scrollback))]"

theorem pulses_restore_geometry_witness:
  "last_resize (pty_log (core_run (\<lambda>_. []) drag_ops (new_core (new_stream 64 None ''s'')))) = Some (60, 24)
   \<and> pty_log (core_run (\<lambda>_. []) drag_ops (new_core (new_stream 64 None ''s'')))
       = [Pty_Resize 80 24, Pty_Resize 79 24, Pty_Resize 60 24]"
proof -
  let ?c = "core_run (\<lambda>_. []) drag_ops (new_core (new_stream 64 None ''s''))"
  have "geometry ?c = Some (60, 24)" "retired ?c = None" "(60, 24) \<notin> fst ` set (pulses ?c)"
    and l: "pty_log ?c = [Pty_Resize 80 24, Pty_Resize 79 24, Pty_Resize 60 24]"
    by code_simp+
  from pulses_restore_geometry [OF this(1-3)] l show ?thesis by simp
qed

subsection \<open>How often browsers can make the child repaint\<close>

fun browser_repaint :: "core_env \<Rightarrow> core_op \<Rightarrow> terminal_core \<Rightarrow> bool" where
  "browser_repaint e Op_Client_Repaint c =
     (repaints_scrollback (e_desc e)
      \<and> CLIENT_REPAINT_MIN_INTERVAL_SECONDS \<le> e_now e - last_client_repaint_ts c)"
| "browser_repaint e Op_Schedule_Attach c =
     (replay_needs_repaint (e_desc e) \<and> replay_window_truncated (stream c)
      \<and> CLIENT_REPAINT_MIN_INTERVAL_SECONDS \<le> e_now e - last_client_repaint_ts c)"
| "browser_repaint e _ c = False"

fun repaint_times :: "(pydict \<Rightarrow> string) \<Rightarrow> (core_env \<times> core_op) list \<Rightarrow> terminal_core \<Rightarrow> seconds list" where
  "repaint_times dumps [] c = []"
| "repaint_times dumps ((e, op) # ops) c =
     (if browser_repaint e op c then [e_now e] else []) @ repaint_times dumps ops (core_step dumps e op c)"

lemma stamp_pulses:
  "last_client_repaint_ts (repaint_event e why sz b c) = last_client_repaint_ts c"
  "last_client_repaint_ts (start_repaint e why c) = last_client_repaint_ts c"
  "last_client_repaint_ts (finish_repaint e p c) = last_client_repaint_ts c"
proof -
  show ev: "last_client_repaint_ts (repaint_event e why sz b c) = last_client_repaint_ts c" for why sz b c
    by (cases why) (simp_all add: repaint_event_def emit_def)
  show "last_client_repaint_ts (start_repaint e why c) = last_client_repaint_ts c"
    by (simp add: start_repaint_def ev pty_def split: option.split)
  show "last_client_repaint_ts (finish_repaint e p c) = last_client_repaint_ts c"
    by (simp add: finish_repaint_def ev pty_def split_beta Let_def)
qed

lemma stamp_write: "core_write e d cond c = Inr c' \<Longrightarrow> last_client_repaint_ts c' = last_client_repaint_ts c"
  by (auto simp: core_write_def Let_def pty_def note_change_def split: if_splits option.splits)

lemma stamp_reading:
  "last_client_repaint_ts (or_unchanged c (map_sum id snd (note_composer_reading e f c))) = last_client_repaint_ts c"
proof -
  have k: "last_client_repaint_ts (snd (keep_reading e f r c)) = last_client_repaint_ts c" for r
    by (simp add: keep_reading_def note_change_def Let_def)
  have "last_client_repaint_ts (snd (case r of None \<Rightarrow> (None, c) | Some r \<Rightarrow> keep_reading e f r c))
      = last_client_repaint_ts c" for r
    by (cases r) (simp_all add: k)
  then show ?thesis by (simp add: note_composer_reading_def bind_err_def or_unchanged_def split: sum.split)
qed

lemma stamp_step:
  "last_client_repaint_ts (core_step dumps e op c)
     = (if browser_repaint e op c then e_now e else last_client_repaint_ts c)"
proof (cases op)
  case (Op_Write d cond)
  then show ?thesis using stamp_write [of e d cond c]
    by (cases "core_write e d cond c") (auto simp: or_unchanged_def)
next
  case (Op_Operator d cond)
  then show ?thesis using stamp_write [of e d cond c]
    by (cases "core_write e d cond c") (auto simp: or_unchanged_def write_operator_input_def note_change_def)
next
  case (Op_Typed d)
  then show ?thesis using stamp_write [of e d None c]
    by (cases "core_write e d None c") (auto simp: or_unchanged_def typed_def note_typed_input_def note_change_def)
next
  case (Op_Pointer d)
  then show ?thesis using stamp_write [of e d None c]
    by (cases "core_write e d None c") (auto simp: or_unchanged_def pointed_def note_pointer_input_def note_change_def)
next
  case (Op_Diagnostic conn f)
  then show ?thesis
    by (cases "py_get f ''phase''") (simp_all add: note_client_diagnostic_def emit_def split_beta Let_def)
qed (simp_all add: stamp_reading small_ops note_stream_reseeded_def receive_output_def note_output_def
    apply_geometry_def resize_task_wakes_def attach_repaint_runs_def handle_client_repaint_def stamp_pulses
    split: option.split nat.split)

lemma repaint_times_spaced:
  "sorted_wrt (\<lambda>a b. a + CLIENT_REPAINT_MIN_INTERVAL_SECONDS \<le> b) (repaint_times dumps ops c)
   \<and> (\<forall>t \<in> set (repaint_times dumps ops c). last_client_repaint_ts c + CLIENT_REPAINT_MIN_INTERVAL_SECONDS \<le> t)"
proof (induction ops arbitrary: c)
  case (Cons x ops)
  obtain e op where x: "x = (e, op)" by (rule prod.exhaust)
  let ?c = "core_step dumps e op c"
  note IH = Cons.IH [of ?c]
  show ?case
  proof (cases "browser_repaint e op c")
    case True
    then have t: "last_client_repaint_ts ?c = e_now e" by (simp add: stamp_step)
    have ge: "last_client_repaint_ts c + CLIENT_REPAINT_MIN_INTERVAL_SECONDS \<le> e_now e"
      using True by (cases op) auto
    have pos: "0 < CLIENT_REPAINT_MIN_INTERVAL_SECONDS" by (simp add: CLIENT_REPAINT_MIN_INTERVAL_SECONDS_def)
    show ?thesis using IH t ge pos True unfolding x by force
  next
    case False
    then show ?thesis using IH by (simp add: x stamp_step)
  qed
qed simp

text \<open>
  Browsers cannot make a child restate its screen or its transcript more often than once in the
  minimum interval, whatever they send: over every run of a core, the moments at which an attach or a
  \<^verbatim>\<open>repaint\<close> frame was granted a pulse are pairwise that far apart, in either mixture of the two.
\<close>

theorem browser_repaints_are_spaced:
  "sorted_wrt (\<lambda>a b. a + CLIENT_REPAINT_MIN_INTERVAL_SECONDS \<le> b) (repaint_times dumps ops (new_core s))"
  using repaint_times_spaced by blast

text \<open>
  One repaint is lost. The task that waits out a resize gesture counts as running until its pulse
  is finished, so a geometry change that falls into the pulse only moves a deadline nobody reads any
  more: when the pulse ends, the task is gone, nothing was repainted at the new size, and no repaint
  is under way or scheduled.
\<close>

theorem resize_during_pulse_is_not_repainted:
  fixes dumps e1 e2
  assumes "resize_repaint_task c = Pulsing" and "pulses c = [(old, Resize_Settled)]"
    and "repaint_tasks c = 0" and "geometry c = Some old" and "retired c = None"
    and "effective_geometry (viewports c) (input_owner c) = Some new" and "new \<noteq> old"
  defines "c' \<equiv> core_run dumps [(e1, Op_Geometry), (e1, Op_Schedule_Resize), (e2, Op_Finish (old, Resize_Settled))] c"
  shows "geometry c' = Some new \<and> pty_log c' = pty_log c @ [Pty_Resize (fst new) (snd new)]
    \<and> resize_repaint_task c' = Idle \<and> pulses c' = [] \<and> repaint_tasks c' = 0
    \<and> (\<exists>payload. last (host_log c') = Emit ''terminal_repaint_requested'' ''daemon'' payload
         \<and> py_get payload ''applied'' = PBool False)"
  using assms
  by (simp add: c'_def apply_geometry_def schedule_resize_repaint_def finish_repaint_def repaint_event_def
      pty_def note_change_def emit_def Let_def py_get_def)

definition gesture_ops :: "(core_env \<times> core_op) list" where
  "gesture_ops =
     [(demo_env 1, Op_Viewport ''c1'' 80 24 False), (demo_env 1, Op_Geometry), (demo_env 1, Op_Schedule_Resize),
      (demo_env 2, Op_Resize_Wakes), (demo_env 2, Op_Viewport ''c1'' 60 24 False)]"

theorem resize_during_pulse_is_not_repainted_witness:
  "pty_log (core_run (\<lambda>_. []) (gesture_ops @
      [(demo_env 2, Op_Geometry), (demo_env 2, Op_Schedule_Resize), (demo_env 3, Op_Finish ((80, 24), Resize_Settled))])
      (new_core (new_stream 64 None ''s''))) = [Pty_Resize 80 24, Pty_Resize 79 24, Pty_Resize 60 24]"
proof -
  let ?c = "core_run (\<lambda>_. []) gesture_ops (new_core (new_stream 64 None ''s''))"
  have h: "resize_repaint_task ?c = Pulsing" "pulses ?c = [((80, 24), Resize_Settled)]" "repaint_tasks ?c = 0"
    "geometry ?c = Some (80, 24)" "retired ?c = None"
    "effective_geometry (viewports ?c) (input_owner ?c) = Some (60, 24)"
    and l: "pty_log ?c = [Pty_Resize 80 24, Pty_Resize 79 24]"
    by code_simp+
  have "(60 :: int, 24 :: int) \<noteq> (80, 24)" by simp
  from resize_during_pulse_is_not_repainted [OF h this, of "\<lambda>_. []" "demo_env 2" "demo_env 3"] l
  show ?thesis by (simp add: core_run_append)
qed

end
