(* ===== verification/Output_Flow.thy ===== *)
theory Output_Flow
  imports Mux_Prelude
begin

text \<open>
  \<^verbatim>\<open>terminal_core/flow.py\<close>: the credit between the task that sends a connection's output and the
  browser that parses it, with the task's waiting on the \<^verbatim>\<open>asyncio.Event\<close> as a step relation. The
  lemmas show that the sender is never left waiting when there is credit, and how far it can run
  ahead of the browser.
\<close>

definition PTY_OUTPUT_HIGH_WATER_BYTES :: int where
  "PTY_OUTPUT_HIGH_WATER_BYTES = 128 * 1024"

definition PTY_OUTPUT_BATCH_BYTES :: int where
  "PTY_OUTPUT_BATCH_BYTES = 32 * 1024"

record output_flow =
  high_water_bytes :: int
  flow_enabled :: bool
  unacknowledged_bytes :: int
  credit_available :: bool

definition new_flow :: "int \<Rightarrow> output_flow" where
  "new_flow high = \<lparr>high_water_bytes = max 1 high, flow_enabled = False, unacknowledged_bytes = 0,
     credit_available = True\<rparr>"

definition flow_enable :: "output_flow \<Rightarrow> output_flow" where
  "flow_enable f = f\<lparr>flow_enabled := True\<rparr>"

text \<open>
  One turn of the loop in \<^verbatim>\<open>wait_for_credit\<close>: either the loop is left, or the event is cleared and the
  task suspends on it. An event that is set wakes its waiters, which then run the loop again.
\<close>

definition must_wait :: "output_flow \<Rightarrow> bool" where
  "must_wait f \<longleftrightarrow> flow_enabled f \<and> high_water_bytes f \<le> unacknowledged_bytes f"

definition flow_sent :: "output_flow \<Rightarrow> int \<Rightarrow> output_flow" where
  "flow_sent f n =
     (if \<not> flow_enabled f \<or> n \<le> 0 then f
      else
        (let f = f\<lparr>unacknowledged_bytes := unacknowledged_bytes f + n\<rparr>
         in if high_water_bytes f \<le> unacknowledged_bytes f then f\<lparr>credit_available := False\<rparr> else f))"

definition flow_acknowledge :: "output_flow \<Rightarrow> int \<Rightarrow> output_flow" where
  "flow_acknowledge f n =
     (if \<not> flow_enabled f \<or> n \<le> 0 then f
      else
        (let f = f\<lparr>unacknowledged_bytes := max 0 (unacknowledged_bytes f - n)\<rparr>
         in if unacknowledged_bytes f < high_water_bytes f then f\<lparr>credit_available := True\<rparr> else f))"

datatype sender_phase = Asking | Parked | Woken | Granted

record flow_task =
  ft_flow :: output_flow
  ft_phase :: sender_phase

definition wait_for_credit :: "flow_task \<Rightarrow> flow_task" where
  "wait_for_credit t =
     (if must_wait (ft_flow t) then t\<lparr>ft_flow := (ft_flow t)\<lparr>credit_available := False\<rparr>, ft_phase := Parked\<rparr>
      else t\<lparr>ft_phase := Granted\<rparr>)"

text \<open>\<^verbatim>\<open>Event.set\<close> wakes the waiters of an event that was clear.\<close>

definition deliver_ack :: "flow_task \<Rightarrow> int \<Rightarrow> flow_task" where
  "deliver_ack t n =
     (let f = flow_acknowledge (ft_flow t) n;
          woken = ft_phase t = Parked \<and> \<not> credit_available (ft_flow t) \<and> credit_available f
      in t\<lparr>ft_flow := f, ft_phase := (if woken then Woken else ft_phase t)\<rparr>)"

inductive flow_step :: "int \<Rightarrow> flow_task \<Rightarrow> flow_task \<Rightarrow> bool" for limit where
  fs_ask: "ft_phase t = Asking \<or> ft_phase t = Woken \<Longrightarrow> flow_step limit t (wait_for_credit t)"
| fs_send: "ft_phase t = Granted \<Longrightarrow> n \<le> limit \<Longrightarrow>
    flow_step limit t (t\<lparr>ft_flow := flow_sent (ft_flow t) n, ft_phase := Asking\<rparr>)"
| fs_ack: "flow_step limit t (deliver_ack t n)"

text \<open>
  A connection enables the flow if its browser asked for it, counts the replay it was attached with,
  and then starts the sender.
\<close>

inductive flow_reachable :: "int \<Rightarrow> int \<Rightarrow> int \<Rightarrow> flow_task \<Rightarrow> bool" for high replay limit where
  fr_start: "f = new_flow high \<or> f = flow_enable (new_flow high) \<Longrightarrow>
    flow_reachable high replay limit \<lparr>ft_flow = flow_sent f replay, ft_phase = Asking\<rparr>"
| fr_step: "flow_reachable high replay limit t \<Longrightarrow> flow_step limit t t' \<Longrightarrow>
    flow_reachable high replay limit t'"

inductive_cases flow_stepE: "flow_step limit t t'"

definition mark :: "int \<Rightarrow> int" where
  "mark high = max 1 high"

definition reduced :: "int \<Rightarrow> int \<Rightarrow> int" where
  "reduced u n = max 0 (u - n)"

lemma mark_pos: "0 < mark high"
  by (simp add: mark_def)

lemma reduced_bounds: "0 \<le> reduced u n" "0 \<le> u \<Longrightarrow> 0 < n \<Longrightarrow> reduced u n \<le> u"
  "0 < m \<Longrightarrow> reduced u n < m \<longleftrightarrow> u - n < m"
  by (auto simp: reduced_def)

definition flow_bound :: "int \<Rightarrow> int \<Rightarrow> int \<Rightarrow> int" where
  "flow_bound high replay limit = max (max 0 replay) (mark high - 1 + max 0 limit)"

definition flow_inv :: "int \<Rightarrow> int \<Rightarrow> int \<Rightarrow> flow_task \<Rightarrow> bool" where
  "flow_inv high replay limit t \<longleftrightarrow>
     (let f = ft_flow t
      in high_water_bytes f = mark high
       \<and> 0 \<le> unacknowledged_bytes f
       \<and> unacknowledged_bytes f \<le> flow_bound high replay limit
       \<and> (\<not> flow_enabled f \<longrightarrow> unacknowledged_bytes f = 0)
       \<and> (flow_enabled f \<and> ft_phase t = Granted \<longrightarrow> unacknowledged_bytes f < high_water_bytes f)
       \<and> (ft_phase t = Parked \<longrightarrow> must_wait f \<and> \<not> credit_available f))"

lemma bound_room: "u < mark high \<Longrightarrow> n \<le> limit \<Longrightarrow> 0 < n \<Longrightarrow> u + n \<le> flow_bound high replay limit"
  by (simp add: flow_bound_def max_def)

lemma sent_simps:
  "high_water_bytes (flow_sent f n) = high_water_bytes f" "flow_enabled (flow_sent f n) = flow_enabled f"
  "unacknowledged_bytes (flow_sent f n) =
     (if flow_enabled f \<and> 0 < n then unacknowledged_bytes f + n else unacknowledged_bytes f)"
  by (simp_all add: flow_sent_def Let_def)

lemma ack_simps:
  assumes "flow_enabled f" and "0 < n"
  shows "high_water_bytes (flow_acknowledge f n) = high_water_bytes f"
    "flow_enabled (flow_acknowledge f n)"
    "unacknowledged_bytes (flow_acknowledge f n) = reduced (unacknowledged_bytes f) n"
    "credit_available (flow_acknowledge f n) =
       (credit_available f \<or> reduced (unacknowledged_bytes f) n < high_water_bytes f)"
  using assms by (auto simp: flow_acknowledge_def Let_def reduced_def)

lemma flow_inv_ask: "flow_inv high replay limit t \<Longrightarrow> flow_inv high replay limit (wait_for_credit t)"
  by (auto simp: flow_inv_def Let_def wait_for_credit_def must_wait_def)

lemma flow_inv_send:
  assumes "flow_inv high replay limit t" and "ft_phase t = Granted" and "n \<le> limit"
  shows "flow_inv high replay limit (t\<lparr>ft_flow := flow_sent (ft_flow t) n, ft_phase := Asking\<rparr>)"
proof (cases "flow_enabled (ft_flow t) \<and> 0 < n")
  case True
  then show ?thesis using assms bound_room [of "unacknowledged_bytes (ft_flow t)" high n limit replay]
    by (simp add: flow_inv_def Let_def sent_simps)
next
  case False
  then have "flow_sent (ft_flow t) n = ft_flow t" by (auto simp: flow_sent_def)
  then show ?thesis using assms by (simp add: flow_inv_def Let_def)
qed

lemma flow_inv_ack:
  assumes "flow_inv high replay limit t"
  shows "flow_inv high replay limit (deliver_ack t n)"
proof (cases "flow_enabled (ft_flow t) \<and> 0 < n")
  case True
  let ?u = "unacknowledged_bytes (ft_flow t)"
  have h: "high_water_bytes (ft_flow t) = mark high" "0 \<le> ?u" "?u \<le> flow_bound high replay limit"
    "ft_phase t = Granted \<longrightarrow> ?u < mark high"
    "ft_phase t = Parked \<longrightarrow> mark high \<le> ?u \<and> \<not> credit_available (ft_flow t)"
    using assms True by (auto simp: flow_inv_def Let_def must_wait_def)
  have "reduced ?u n \<le> ?u" "0 \<le> reduced ?u n" using h(2) True reduced_bounds by auto
  with h True show ?thesis
    by (auto simp: flow_inv_def Let_def deliver_ack_def ack_simps must_wait_def)
next
  case False
  then have "flow_acknowledge (ft_flow t) n = ft_flow t" by (auto simp: flow_acknowledge_def)
  then have "deliver_ack t n = t" by (simp add: deliver_ack_def)
  then show ?thesis using assms by simp
qed

lemma flow_inv_step: "flow_step limit t t' \<Longrightarrow> flow_inv high replay limit t \<Longrightarrow> flow_inv high replay limit t'"
  by (erule flow_stepE) (simp_all add: flow_inv_ask flow_inv_send flow_inv_ack)

lemma flow_inv_reachable: "flow_reachable high replay limit t \<Longrightarrow> flow_inv high replay limit t"
proof (induction rule: flow_reachable.induct)
  case (fr_start f)
  then show ?case
    by (auto simp: flow_inv_def flow_bound_def mark_def Let_def new_flow_def flow_enable_def sent_simps)
next
  case (fr_step t t')
  then show ?case by (blast intro: flow_inv_step)
qed

text \<open>
  C37. The sender never runs further ahead of the browser than one message past the high-water mark
  (or the replay it was attached with), and it is never left waiting once the browser has caught up:
  while it is parked, an acknowledgement that brings the outstanding bytes below the mark wakes it,
  and, woken, it is granted the send unless something was counted in between.
\<close>

theorem credit_is_bounded_and_never_lost:
  assumes "flow_reachable high replay limit t"
  shows "unacknowledged_bytes (ft_flow t) \<le> flow_bound high replay limit
    \<and> (ft_phase t = Parked \<and> unacknowledged_bytes (ft_flow t) - n < mark high \<longrightarrow>
        ft_phase (deliver_ack t n) = Woken \<and> ft_phase (wait_for_credit (deliver_ack t n)) = Granted)"
proof (intro conjI impI)
  note inv = flow_inv_reachable [OF assms]
  show "unacknowledged_bytes (ft_flow t) \<le> flow_bound high replay limit"
    using inv by (simp add: flow_inv_def Let_def)
next
  note inv = flow_inv_reachable [OF assms]
  assume p: "ft_phase t = Parked \<and> unacknowledged_bytes (ft_flow t) - n < mark high"
  with inv have w: "flow_enabled (ft_flow t)" "0 < n" "high_water_bytes (ft_flow t) = mark high"
    "\<not> credit_available (ft_flow t)"
    by (auto simp: flow_inv_def Let_def must_wait_def)
  with p show "ft_phase (deliver_ack t n) = Woken"
    and "ft_phase (wait_for_credit (deliver_ack t n)) = Granted"
    using mark_pos [of high] reduced_bounds(3) [of "mark high" "unacknowledged_bytes (ft_flow t)" n]
    by (simp_all add: deliver_ack_def Let_def ack_simps wait_for_credit_def must_wait_def)
qed

definition parked_demo :: flow_task where
  "parked_demo = wait_for_credit \<lparr>ft_flow = flow_sent (flow_enable (new_flow 8)) 10, ft_phase = Asking\<rparr>"

theorem credit_is_bounded_and_never_lost_witness:
  "ft_phase parked_demo = Parked \<and> unacknowledged_bytes (ft_flow parked_demo) \<le> 11
   \<and> ft_phase (wait_for_credit (deliver_ack parked_demo 5)) = Granted"
proof -
  have "flow_reachable 8 10 4 \<lparr>ft_flow = flow_sent (flow_enable (new_flow 8)) 10, ft_phase = Asking\<rparr>"
    by (rule fr_start) simp
  then have r: "flow_reachable 8 10 4 parked_demo"
    unfolding parked_demo_def by (rule fr_step) (rule fs_ask, simp)
  have p: "ft_phase parked_demo = Parked" "unacknowledged_bytes (ft_flow parked_demo) = 10"
    by code_simp+
  with credit_is_bounded_and_never_lost [OF r, of 5] show ?thesis by (simp add: flow_bound_def mark_def)
qed

end
