(* ===== verification/Pointer_Input.thy ===== *)
theory Pointer_Input
  imports Composer_Input
begin

text \<open>
  \<^verbatim>\<open>terminal_core/input.py\<close>: telling a terminal's own reports from typing. The patterns are those of
  the module; the last theorem ties them to the patterns of \<^verbatim>\<open>composer_input.py\<close>, which a browser's
  pointer reports must also satisfy for a screen reading to survive them.
\<close>

definition lit_ci :: "string \<Rightarrow> rx" where
  "lit_ci cs = cats (map (\<lambda>a. One (\<lambda>c. lower_char c = lower_char a)) cs)"

definition hex_digit :: rx where
  "hex_digit = One (\<lambda>c. is_digit c \<or> lower_char c \<in> set ''abcdef'')"

definition OSC_DEFAULT_COLOR_RESPONSE :: rx where
  "OSC_DEFAULT_COLOR_RESPONSE = plus (cats
     [lit [CHR 0x1B, CHR '']''], Alt (lit ''10'') (lit ''11''), lit '';'',
      Alt (cats [lit_ci ''rgb:'', times 1 4 hex_digit, times 2 2 (Cat (lit ''/'') (times 1 4 hex_digit))])
          (cats [lit_ci ''rgba:'', times 1 4 hex_digit, times 3 3 (Cat (lit ''/'') (times 1 4 hex_digit))]),
      Alt (lit [CHR 0x07]) (lit [CHR 0x1B, CHR 0x5C])])"

definition MOUSE_REPORT :: rx where
  "MOUSE_REPORT = Cat (lit [CHR 0x1B, CHR ''['']) (alts
     [cats [lit ''<'', Grp 1 (times 1 4 digit), lit '';'', times 1 5 digit, lit '';'', times 1 5 digit, one_of ''Mm''],
      cats [Grp 2 (times 1 4 digit), lit '';'', times 1 5 digit, lit '';'', times 1 5 digit, lit ''M''],
      cats [lit ''M'', Grp 3 (times 3 3 (in_range 32 255))]])"

definition MOUSE_REPORT_ONLY :: rx where
  "MOUSE_REPORT_ONLY = plus MOUSE_REPORT"

definition is_default_color_response :: "string \<Rightarrow> bool" where
  "is_default_color_response data \<longleftrightarrow> fullmatch OSC_DEFAULT_COLOR_RESPONSE data"

datatype pointer_kind = Motion | Button

text \<open>Group 1 or 2 holds a decimal button; the first byte of group 3 is the button plus 32.\<close>

definition report_button :: "captures \<Rightarrow> int" where
  "report_button g =
     (case group 1 g of
        Some b \<Rightarrow> dec_value b
      | None \<Rightarrow> (case group 2 g of
                   Some b \<Rightarrow> dec_value b
                 | None \<Rightarrow> (case group 3 g of Some (c # _) \<Rightarrow> int (code c) - 32 | _ \<Rightarrow> 0)))"

definition motion_bit :: "int \<Rightarrow> bool" where
  "motion_bit button \<longleftrightarrow> odd (button div 32)"

definition pointer_report_kind :: "string \<Rightarrow> pointer_kind option" where
  "pointer_report_kind data =
     (if data = [] \<or> \<not> fullmatch MOUSE_REPORT_ONLY data then None
      else if \<exists>g \<in> set (find_all MOUSE_REPORT data). \<not> motion_bit (report_button g) then Some Button
      else Some Motion)"

subsection \<open>A pointer report is never text\<close>

definition ends :: "rx \<Rightarrow> string \<Rightarrow> string \<Rightarrow> bool" where
  "ends r s t \<longleftrightarrow> (\<exists>g. (g, t) \<in> set (rmatch r s))"

lemma ends_simps:
  "ends (Cat a b) s t \<longleftrightarrow> (\<exists>u. ends a s u \<and> ends b u t)"
  "ends (Alt a b) s t \<longleftrightarrow> ends a s t \<or> ends b s t"
  "ends (Grp k a) s t \<longleftrightarrow> ends a s t"
  unfolding ends_def by (force simp: then_match_in)+

definition same_ends :: "rx \<Rightarrow> rx \<Rightarrow> bool" where
  "same_ends a b \<longleftrightarrow> (\<forall>s t. ends a s t \<longrightarrow> ends b s t)"

lemma same_ends_refl: "same_ends a a"
  by (simp add: same_ends_def)

lemma same_ends_Grp: "same_ends (Grp k r) r"
  by (simp add: same_ends_def ends_simps)

lemma same_ends_Cat: "same_ends a a' \<Longrightarrow> same_ends b b' \<Longrightarrow> same_ends (Cat a b) (Cat a' b')"
  unfolding same_ends_def ends_simps by blast

lemma same_ends_trans: "same_ends a b \<Longrightarrow> same_ends b c \<Longrightarrow> same_ends a c"
  unfolding same_ends_def by blast

lemma same_ends_AltR: "same_ends a c \<Longrightarrow> same_ends a (Alt b c)"
  unfolding same_ends_def ends_simps by blast

lemma same_ends_three:
  "same_ends (Cat x a) a' \<Longrightarrow> same_ends (Cat x b) b' \<Longrightarrow> same_ends (Cat x c) c' \<Longrightarrow>
   same_ends (Cat x (Alt a (Alt b c))) (Alt a' (Alt b' c'))"
  unfolding same_ends_def ends_simps by blast

lemma iterates_mono: "iterates (rmatch a) s t \<Longrightarrow> same_ends a b \<Longrightarrow> iterates (rmatch b) s t"
proof (induction rule: iterates.induct)
  case (iter_more g u s t)
  then obtain h where "(h, u) \<in> set (rmatch b s)" by (auto simp: same_ends_def ends_def)
  with iter_more show ?case by (auto intro: iterates.iter_more)
qed (rule iter_stop)

lemmas same_ends_intros = same_ends_refl same_ends_Grp same_ends_Cat

lemma mouse_reports_are_keys: "same_ends MOUSE_REPORT NON_ADDITIVE_KEY"
proof -
  let ?x = "lit [CHR 0x1B, CHR ''['']"
  let ?n = "\<lambda>k. times 1 k digit" and ?s = "lit '';''"
  have sgr: "same_ends (Cat ?x (cats [lit ''<'', Grp 1 (?n 4), ?s, ?n 5, ?s, ?n 5, one_of ''Mm'']))
      (csi [lit ''<'', ?n 4, ?s, ?n 5, ?s, ?n 5, one_of ''Mm''])"
    and urxvt: "same_ends (Cat ?x (cats [Grp 2 (?n 4), ?s, ?n 5, ?s, ?n 5, lit ''M'']))
      (csi [?n 4, ?s, ?n 5, ?s, ?n 5, lit ''M''])"
    and x10: "same_ends (Cat ?x (cats [lit ''M'', Grp 3 (times 3 3 (in_range 32 255))]))
      (csi [lit ''M'', times 3 3 (in_range 32 255)])"
    by (simp, intro same_ends_intros)+
  have "same_ends MOUSE_REPORT (alts
     [csi [lit ''<'', ?n 4, ?s, ?n 5, ?s, ?n 5, one_of ''Mm''], csi [?n 4, ?s, ?n 5, ?s, ?n 5, lit ''M''],
      csi [lit ''M'', times 3 3 (in_range 32 255)]])"
    unfolding MOUSE_REPORT_def alts.simps
    by (rule same_ends_three [OF sgr urxvt x10])
  moreover have "same_ends (alts
     [csi [lit ''<'', ?n 4, ?s, ?n 5, ?s, ?n 5, one_of ''Mm''], csi [?n 4, ?s, ?n 5, ?s, ?n 5, lit ''M''],
      csi [lit ''M'', times 3 3 (in_range 32 255)]]) NON_ADDITIVE_KEY"
    unfolding NON_ADDITIVE_KEY_def alts.simps
    by (intro same_ends_AltR same_ends_refl)
  ultimately show ?thesis by (rule same_ends_trans)
qed

text \<open>
  A payload the terminal core takes for pointer reports is never one that could put text in the
  composer: it leaves a browser's screen reading standing, as it leaves the input revision alone.
\<close>

theorem pointer_reports_add_no_text:
  "pointer_report_kind data \<noteq> None \<Longrightarrow> \<not> write_may_add_text data"
proof -
  assume "pointer_report_kind data \<noteq> None"
  then have f: "data \<noteq> []" "fullmatch (plus MOUSE_REPORT) data"
    by (auto simp: pointer_report_kind_def MOUSE_REPORT_ONLY_def split: if_splits)
  have "\<not> nullable MOUSE_REPORT" by (simp add: MOUSE_REPORT_def lit_def)
  with f have "iterates (rmatch MOUSE_REPORT) data []" by (simp add: fullmatch_plus)
  from iterates_mono [OF this mouse_reports_are_keys] f(1) show ?thesis
    by (simp add: write_may_add_text_def NON_ADDITIVE_WRITE_def fullmatch_plus non_additive_key_nonempty)
qed

definition demo_report :: string where
  "demo_report = CHR 0x1B # ''[M'' @ [CHR 0x43, CHR 0x21, CHR 0x22]"

theorem pointer_reports_add_no_text_witness:
  "pointer_report_kind demo_report = Some Motion \<and> \<not> write_may_add_text demo_report"
proof -
  have "pointer_report_kind demo_report = Some Motion" by code_simp
  then show ?thesis using pointer_reports_add_no_text [of demo_report] by simp
qed

end
