(* ===== verification/Terminal_Connection.thy ===== *)
theory Terminal_Connection
  imports Core_Safety Output_Flow Pointer_Input
begin

text \<open>
  \<^verbatim>\<open>terminal_core/connection.py\<close>: one browser connection, from handshake to detach. A world holds the
  session's core, each connection's output credit, the frames sent on each socket (a socket is named
  by its connection) and what the handlers asked of the host. A handler that suspends with state left
  to change is split at its \<^verbatim>\<open>await\<close>; sending itself is assumed to succeed. A frame that is not a JSON
  object, or whose type is a list or an object, is left out.
\<close>

definition PTY_ATTACH_READY_TIMEOUT_SECONDS :: seconds where
  "PTY_ATTACH_READY_TIMEOUT_SECONDS = 1 / 4"

definition REFUSED_CLAIM_COOLDOWN_SECONDS :: seconds where
  "REFUSED_CLAIM_COOLDOWN_SECONDS = 1"

datatype outgoing = Json pydict | Raw bytes string

datatype host_call =
    Typed_Text string
  | Typed_Bytes string
  | Owner_Submit string
  | Composer_Read composer_reading
  | Broadcast string

datatype message = Binary string | Text_Frame pydict | Other_Message

record conn_env =
  ce :: core_env
  wall :: seconds
  leader :: "string option"
  generation :: string
  snapshot :: "pydict \<times> int"

record world =
  core :: terminal_core
  flows :: "(string \<times> output_flow) list"
  sent :: "(string \<times> outgoing) list"
  calls :: "host_call list"

datatype failure = Raised py_error | Refused refusal_reason

abbreviation frame_type :: "pydict \<Rightarrow> pyval" where
  "frame_type f \<equiv> py_get f ''type''"

definition send :: "string \<Rightarrow> pydict \<Rightarrow> world \<Rightarrow> world" where
  "send conn f w = w\<lparr>sent := sent w @ [(conn, Json f)]\<rparr>"

definition on_core :: "(terminal_core \<Rightarrow> terminal_core) \<Rightarrow> world \<Rightarrow> world" where
  "on_core g w = w\<lparr>core := g (core w)\<rparr>"

definition call_host :: "host_call \<Rightarrow> world \<Rightarrow> world" where
  "call_host k w = w\<lparr>calls := calls w @ [k]\<rparr>"

definition versioned_frame :: "pydict \<Rightarrow> string \<Rightarrow> py_error + pydict" where
  "versioned_frame f gen =
     (case py_get f ''snapshot'' of
        PDict snap \<Rightarrow>
          bind_err (let v = py_get f ''revision'' in if truthy v then int_of v else Inr 0)
            (\<lambda>rv. Inr (AList.update ''snapshot''
              (PDict (AList.update ''_snapshot_enriched'' (PBool False)
                (AList.update ''_snapshot_revision'' (PInt rv)
                  (AList.update ''_snapshot_generation'' (PStr gen) snap)))) f))
      | _ \<Rightarrow> Inr f)"

subsection \<open>Input\<close>

definition input_seq :: "pydict \<Rightarrow> int option" where
  "input_seq f = (case py_get f ''input_seq'' of
     PInt n \<Rightarrow> if 0 < n \<and> n \<le> 2147483647 then Some n else None | _ \<Rightarrow> None)"

fun seq_field :: "int option \<Rightarrow> pydict" where
  "seq_field None = []"
| "seq_field (Some n) = [(''input_seq'', PInt n)]"

definition millis :: "seconds \<Rightarrow> int" where
  "millis t = \<lfloor>t * 1000\<rfloor>"

text \<open>The optional telemetry of an input frame: integers within their bounds, and a known source.\<close>

definition bounded_fields :: "pydict \<Rightarrow> pydict" where
  "bounded_fields f = concat (map (\<lambda>(key, maximum).
      case py_get f key of PInt n \<Rightarrow> if 0 \<le> n \<and> n \<le> maximum then [(key, PInt n)] else [] | _ \<Rightarrow> [])
    [(''client_sent_at_ms'', 10 ^ 15), (''client_event_delay_ms'', 600000), (''client_queue_delay_ms'', 600000),
     (''ws_buffered_bytes'', 2 ^ 31 - 1)])"

definition input_diagnostic :: "pydict \<Rightarrow> int \<Rightarrow> pydict" where
  "input_diagnostic f received_at =
     (case input_seq f of
        None \<Rightarrow> []
      | Some n \<Rightarrow>
          (''input_seq'', PInt n) # bounded_fields f
          @ (case py_get f ''input_source'' of
               PStr src \<Rightarrow> if src \<in> set [''beforeinput'', ''input'', ''keydown'', ''paste'']
                           then [(''input_source'', PStr src)] else []
             | _ \<Rightarrow> [])
          @ [(''server_received_at_ms'', PInt received_at)])"

definition input_text :: "(pyval \<Rightarrow> string) \<Rightarrow> pydict \<Rightarrow> string" where
  "input_text repr f = (case map_of f ''data'' of None \<Rightarrow> [] | Some v \<Rightarrow> py_to_str repr v)"

text \<open>What the handler does once the bytes are in the pseudo terminal.\<close>

definition is_terminal_response :: "pydict \<Rightarrow> bool" where
  "is_terminal_response f \<longleftrightarrow> py_get f ''kind'' = PStr ''terminal_response''"

definition is_typed_text :: "pydict \<Rightarrow> string \<Rightarrow> bool" where
  "is_typed_text f data \<longleftrightarrow> \<not> is_terminal_response f \<and> pointer_report_kind data = None"

definition account_input :: "seconds \<Rightarrow> pydict \<Rightarrow> string \<Rightarrow> world \<Rightarrow> world" where
  "account_input now f data w =
     (if is_typed_text f data
      then call_host (Owner_Submit data) (call_host (Typed_Text data) (on_core (note_typed_input now) w))
      else if pointer_report_kind data = Some Button then on_core (note_pointer_input now) w
      else w)"

definition report_input :: "conn_env \<Rightarrow> pydict \<Rightarrow> string \<Rightarrow> world \<Rightarrow> world" where
  "report_input e f data w =
     (let now = e_now (ce e)
      in if is_typed_text f data \<and> 2 \<le> now - last_input_report_ts (core w)
         then on_core (\<lambda>c. emit ''terminal_input'' ''daemon''
                ([(''input_owner'', PBool True), (''bytes'', PInt (int (utf8_length data)))]
                 @ input_diagnostic f (millis (wall e))) (c\<lparr>last_input_report_ts := now\<rparr>)) w
         else w)"

definition ack_input :: "conn_env \<Rightarrow> string \<Rightarrow> pydict \<Rightarrow> string \<Rightarrow> world \<Rightarrow> world" where
  "ack_input e conn f data w =
     (case input_seq f of
        Some n \<Rightarrow>
          if is_typed_text f data
          then send conn [(''type'', PStr ''input_ack''), (''input_seq'', PInt n),
                          (''server_received_at_ms'', PInt (millis (wall e)))] w
          else w
      | None \<Rightarrow> w)"

definition after_text_input :: "conn_env \<Rightarrow> string \<Rightarrow> pydict \<Rightarrow> string \<Rightarrow> world \<Rightarrow> world" where
  "after_text_input e conn f data w0 =
     (let w = ack_input e conn f data (report_input e f data (account_input (e_now (ce e)) f data w0))
      in if truthy (py_get f ''broadcast'') \<and> \<not> is_terminal_response f then call_host (Broadcast data) w else w)"

definition input_rejected_frame :: "pydict \<Rightarrow> string \<Rightarrow> terminal_core \<Rightarrow> pydict" where
  "input_rejected_frame f data c =
     [(''type'', PStr ''input_rejected''), (''epoch'', PInt (epoch (owner c))),
      (''owner_device'', opt_str (device (owner c))), (''data'', PStr data),
      (''broadcast'', PBool (truthy (py_get f ''broadcast''))), (''retry'', PBool (truthy (py_get f ''retry'')))]
     @ seq_field (input_seq f)"

definition session_ended_frame :: pydict where
  "session_ended_frame = [(''type'', PStr ''input_refused''), (''reason'', PStr ''session_ended'')]"

definition handle_text_input ::
  "(pyval \<Rightarrow> string) \<Rightarrow> conn_env \<Rightarrow> string \<Rightarrow> pydict \<Rightarrow> world \<Rightarrow> failure + world" where
  "handle_text_input repr e conn f w =
     (let data = input_text repr f;
          d = e_desc (ce e)
      in if suppresses_late_color_response d \<and> is_default_color_response data then Inr w
         else if input_owner (core w) \<noteq> Some conn then
           Inr (if is_terminal_response f then w
                else (let w = on_core (note_input_rejected (ce e) (int (utf8_length data))) w
                      in send conn (input_rejected_frame f data (core w)) w))
         else if ended d then Inr (send conn session_ended_frame w)
         else (case core_write (ce e) data None (core w) of
                 Inl reason \<Rightarrow> Inl (Refused reason)
               | Inr c \<Rightarrow> Inr (after_text_input e conn f data (w\<lparr>core := c\<rparr>))))"

definition handle_binary_input :: "conn_env \<Rightarrow> string \<Rightarrow> string \<Rightarrow> world \<Rightarrow> failure + world" where
  "handle_binary_input e conn data w =
     (if input_owner (core w) \<noteq> Some conn
      then Inr (on_core (note_input_rejected (ce e) (int (length data))) w)
      else if ended (e_desc (ce e)) then Inr (send conn session_ended_frame w)
      else (case core_write (ce e) data None (core w) of
              Inl reason \<Rightarrow> Inl (Refused reason)
            | Inr c \<Rightarrow>
                (let now = e_now (ce e);
                     w = call_host (Typed_Bytes data) (w\<lparr>core := note_typed_input now c\<rparr>)
                 in Inr (if 2 \<le> now - last_input_report_ts (core w)
                         then on_core (\<lambda>c. emit ''terminal_input'' ''daemon''
                                [(''input_owner'', PBool True), (''bytes'', PInt (int (length data)))]
                                (c\<lparr>last_input_report_ts := now\<rparr>)) w
                         else w))))"

subsection \<open>Claims\<close>

fun verdict_name :: "claim_verdict \<Rightarrow> string" where
  "verdict_name GRANT_UNOWNED = ''granted_unowned''"
| "verdict_name GRANT_GESTURE = ''granted_gesture''"
| "verdict_name GRANT_IDLE_OWNER = ''granted_idle_owner''"
| "verdict_name GRANT_DEVICE_IN_USE = ''granted_device_in_use''"
| "verdict_name GRANT_RENEWED = ''renewed''"
| "verdict_name DENY_ACTIVE_OWNER = ''denied_active_owner''"
| "verdict_name DENY_UNFOCUSED = ''denied_unfocused''"
| "verdict_name DENY_DEVICE_IN_USE = ''denied_device_in_use''"

definition owner_frame :: "terminal_core \<Rightarrow> bool \<Rightarrow> string \<Rightarrow> pydict" where
  "owner_frame c active reason =
     [(''type'', PStr ''input_owner''), (''active'', PBool active), (''epoch'', PInt (epoch (owner c))),
      (''reason'', PStr reason), (''owner_device'', opt_str (device (owner c)))]"

definition claim_of :: "(pyval \<Rightarrow> string) \<Rightarrow> conn_env \<Rightarrow> string \<Rightarrow> pydict \<Rightarrow> claim_request" where
  "claim_of repr e conn f =
     (let dev = (let v = py_get f ''device'' in take 32 (if truthy v then py_to_str repr v else ''unknown''))
      in \<lparr>cr_connection_id = conn, cr_now = e_now (ce e),
          cr_reason = (if py_get f ''reason'' = PStr ''passive'' then Passive else Gesture),
          cr_device = dev, cr_focused = (py_get f ''focused'' \<noteq> PBool False),
          other_device_in_use = (leader e \<noteq> None \<and> leader e \<noteq> Some dev),
          this_device_in_use = (leader e = Some dev)\<rparr>)"

definition claim_entry :: "conn_env \<Rightarrow> claim_request \<Rightarrow> claim_decision \<Rightarrow> terminal_core \<Rightarrow> pydict" where
  "claim_entry e rq dec c =
     [(''ts'', PFloat (wall e)), (''device'', PStr (cr_device rq)),
      (''ask'', PStr (case cr_reason rq of Passive \<Rightarrow> ''passive'' | Gesture \<Rightarrow> ''gesture'')),
      (''focused'', PBool (cr_focused rq)), (''leader'', opt_str (leader e)),
      (''owner_device'', opt_str (device (owner c))), (''verdict'', PStr (verdict_name (cd_reason dec))),
      (''granted'', PBool (granted dec))]"

text \<open>
  \<open>claim_begins\<close> runs to the first \<^verbatim>\<open>await\<close> of a granted claim; \<open>claim_ends\<close> tells the displaced owner
  and re-arbitrates the geometry.
\<close>

definition claim_begins ::
  "(pyval \<Rightarrow> string) \<Rightarrow> conn_env \<Rightarrow> string \<Rightarrow> pydict \<Rightarrow> world \<Rightarrow> (claim_decision \<times> string option) option \<times> world" where
  "claim_begins repr e conn f w0 =
     (let rq = claim_of repr e conn f;
          dec = evaluate_claim (owner (core w0)) rq PASSIVE_CLAIM_HOLD_SECONDS;
          w = on_core (record_claim (claim_entry e rq dec (core w0))) w0
      in if \<not> granted dec then
           (let refused_at = (case map_of (claim_refusals (core w)) conn of None \<Rightarrow> 0 | Some t \<Rightarrow> t);
                w = on_core (\<lambda>c. c\<lparr>input_claim_denials := input_claim_denials c + 1,
                                   claim_refusals := AList.update conn (cr_now rq) (claim_refusals c)\<rparr>) w
            in (None,
                if cr_reason rq = Passive \<and> cr_now rq - refused_at < REFUSED_CLAIM_COOLDOWN_SECONDS then w
                else send conn (owner_frame (core w) False (verdict_name (cd_reason dec))) w))
         else
           (let displaced = (if changed dec then input_owner_socket (core w) else None);
                w = on_core (\<lambda>c. (apply_owner_state (cd_state dec) c)\<lparr>input_owner_socket := Some conn\<rparr>) w
            in (Some (dec, displaced),
                send conn (owner_frame (core w) True (verdict_name (cd_reason dec))) w)))"

definition claim_ends :: "conn_env \<Rightarrow> claim_decision \<times> string option \<Rightarrow> world \<Rightarrow> world" where
  "claim_ends e k w0 =
     (let (dec, displaced) = k;
          w = (case displaced of
                 None \<Rightarrow> w0
               | Some s \<Rightarrow> send s (owner_frame (core w0) False ''claimed_elsewhere'') w0)
      in if changed dec then
           (let (moved, c) = apply_geometry (core w);
                c = (if moved then schedule_resize_repaint (ce e) c else c)
            in w\<lparr>core := emit ''terminal_input_owner'' ''daemon''
                 [(''device'', opt_str (device (owner c))), (''epoch'', PInt (epoch (owner c))),
                  (''grant'', PStr (verdict_name (cd_reason dec))), (''denials'', PInt (input_claim_denials c))] c\<rparr>)
         else w)"

definition claim_input :: "(pyval \<Rightarrow> string) \<Rightarrow> conn_env \<Rightarrow> string \<Rightarrow> pydict \<Rightarrow> world \<Rightarrow> world" where
  "claim_input repr e conn f w =
     (case claim_begins repr e conn f w of (None, w) \<Rightarrow> w | (Some k, w) \<Rightarrow> claim_ends e k w)"

subsection \<open>Other frames\<close>

definition apply_client_viewport :: "string \<Rightarrow> pydict \<Rightarrow> world \<Rightarrow> py_error + bool \<times> world" where
  "apply_client_viewport conn f w =
     bind_err (bind_err (py_item f ''cols'') int_of) (\<lambda>cols.
     bind_err (bind_err (py_item f ''rows'') int_of) (\<lambda>rows.
       let (moved, c) = apply_geometry (set_viewport conn cols rows (truthy (py_get f ''hidden'')) (core w))
       in Inr (moved, w\<lparr>core := c\<rparr>)))"

definition raised :: "py_error + 'a \<Rightarrow> failure + 'a" where
  "raised = map_sum Raised id"

definition handle_client_message ::
  "(pyval \<Rightarrow> string) \<Rightarrow> (pydict \<Rightarrow> string) \<Rightarrow> conn_env \<Rightarrow> string \<Rightarrow> message \<Rightarrow> world \<Rightarrow> failure + world" where
  "handle_client_message repr dumps e conn m w =
     (case m of
        Binary data \<Rightarrow> handle_binary_input e conn data w
      | Other_Message \<Rightarrow> Inr w
      | Text_Frame f \<Rightarrow>
          if frame_type f = PStr ''claim_input'' then Inr (claim_input repr e conn f w)
          else if frame_type f = PStr ''input'' then handle_text_input repr e conn f w
          else if frame_type f = PStr ''terminal_state'' \<and> input_owner (core w) = Some conn then
            (let mode = (let v = py_get f ''mode'' in if truthy v then py_to_str repr v else [])
             in if mode \<notin> set [''normal'', ''alternate''] then Inl (Raised ValueError)
                else (let (switched, c) = set_terminal_mode (e_now (ce e)) mode (core w)
                      in Inr (w\<lparr>core := (if switched
                           then emit ''terminal_mode_changed'' ''browser'' [(''mode'', PStr mode)] c else c)\<rparr>)))
          else if frame_type f \<in> {PStr ''attach_ready'', PStr ''resize''} then
            bind_err (raised (apply_client_viewport conn f w))
              (\<lambda>(moved, w). Inr (if moved then on_core (schedule_resize_repaint (ce e)) w else w))
          else if frame_type f = PStr ''repaint'' then Inr (on_core (handle_client_repaint (ce e)) w)
          else if frame_type f = PStr ''client_diagnostic'' then
            Inr (on_core (note_client_diagnostic dumps (ce e) conn f) w)
          else if frame_type f = PStr ''composer_reading'' then
            bind_err (raised (note_composer_reading (ce e) f (core w)))
              (\<lambda>(r, c). Inr (let w = w\<lparr>core := c\<rparr>
                 in (case r of None \<Rightarrow> w | Some r \<Rightarrow> call_host (Composer_Read r) w)))
          else if frame_type f = PStr ''output_ack'' then
            Inr (case (py_get f ''bytes'', map_of (flows w) conn) of
                   (PInt n, Some fl) \<Rightarrow> w\<lparr>flows := AList.update conn (flow_acknowledge fl n) (flows w)\<rparr>
                 | _ \<Rightarrow> w)
          else Inr w)"

text \<open>The loop checks the core before every message: a retired one takes none.\<close>

datatype connection_end = Moved_Away | Failed failure

definition receive_message ::
  "(pyval \<Rightarrow> string) \<Rightarrow> (pydict \<Rightarrow> string) \<Rightarrow> conn_env \<Rightarrow> string \<Rightarrow> message \<Rightarrow> world \<Rightarrow> connection_end + world" where
  "receive_message repr dumps e conn m w =
     (if retired (core w) \<noteq> None then Inl Moved_Away
      else map_sum Failed id (handle_client_message repr dumps e conn m w))"

subsection \<open>Attaching\<close>

text \<open>
  The handshake: messages that arrive before the first \<^verbatim>\<open>attach_ready\<close> or \<^verbatim>\<open>resize\<close> frame are kept for
  later, and a timeout ends it without one.
\<close>

datatype arrival = Arrives message | Timeout | Peer_Closed

record handshake =
  hs_since :: "int option"
  hs_stream :: "string option"
  hs_geometry_queued :: bool
  hs_pending :: "message list"
  hs_closed :: bool

definition new_handshake :: handshake where
  "new_handshake = \<lparr>hs_since = None, hs_stream = None, hs_geometry_queued = False, hs_pending = [], hs_closed = False\<rparr>"

definition ready_frame :: "string \<Rightarrow> pydict \<Rightarrow> handshake \<Rightarrow> world \<Rightarrow> py_error + handshake \<times> world" where
  "ready_frame conn f h w0 =
     (let w = (if py_get f ''output_flow_control'' = PBool True
               then w0\<lparr>flows := map (\<lambda>(k, fl). (k, if k = conn then flow_enable fl else fl)) (flows w0)\<rparr> else w0);
          h = (case py_get f ''since'' of PInt n \<Rightarrow> h\<lparr>hs_since := Some n\<rparr> | _ \<Rightarrow> h);
          h = (case py_get f ''stream'' of PStr s \<Rightarrow> if s \<noteq> [] then h\<lparr>hs_stream := Some s\<rparr> else h | _ \<Rightarrow> h)
      in bind_err (apply_client_viewport conn f w)
           (\<lambda>(moved, w). Inr (h\<lparr>hs_geometry_queued := moved\<rparr>, w)))"

fun shake_hands :: "string \<Rightarrow> arrival list \<Rightarrow> handshake \<Rightarrow> world \<Rightarrow> py_error + handshake \<times> world" where
  "shake_hands conn [] h w = Inr (h, w)"
| "shake_hands conn (Timeout # _) h w = Inr (h, w)"
| "shake_hands conn (Peer_Closed # _) h w = Inr (h\<lparr>hs_closed := True\<rparr>, w)"
| "shake_hands conn (Arrives m # ms) h w =
     (case m of
        Text_Frame f \<Rightarrow>
          if frame_type f \<in> {PStr ''attach_ready'', PStr ''resize''} then ready_frame conn f h w
          else shake_hands conn ms (h\<lparr>hs_pending := hs_pending h @ [m]\<rparr>) w
      | _ \<Rightarrow> shake_hands conn ms (h\<lparr>hs_pending := hs_pending h @ [m]\<rparr>) w)"

definition connection_opens :: "conn_env \<Rightarrow> string \<Rightarrow> world \<Rightarrow> bool \<times> world" where
  "connection_opens e conn w =
     (let d = e_desc (ce e)
      in (attachments_seen (core w) = 0 \<and> session_state d \<notin> set [''exited'', ''crashed'']
            \<and> wall e - created_at d \<le> 5,
          on_core (\<lambda>c. c\<lparr>attachments_seen := Suc (attachments_seen c), sockets := conn # sockets c\<rparr>)
            (w\<lparr>flows := AList.update conn (new_flow PTY_OUTPUT_HIGH_WATER_BYTES) (flows w)\<rparr>)))"

text \<open>
  The attach itself and the frames that answer it. The frames are built from the one snapshot, so
  they are sent here in one piece; only the geometry frame reads the core again.
\<close>

definition replay_start_frame :: "string \<Rightarrow> bool \<Rightarrow> pydict" where
  "replay_start_frame reason allow =
     [(''type'', PStr ''replay_start''), (''reason'', PStr reason), (''allow_terminal_responses'', PBool allow)]"

definition replay_end_frame :: "string \<Rightarrow> int \<Rightarrow> string \<Rightarrow> pydict" where
  "replay_end_frame reason position sid =
     [(''type'', PStr ''replay_end''), (''reason'', PStr reason), (''position'', PInt position), (''stream'', PStr sid)]"

definition kind_name :: "replay_kind \<Rightarrow> string" where
  "kind_name k = (case k of Delta \<Rightarrow> ''delta'' | Attach \<Rightarrow> ''attach'')"

definition send_versioned :: "conn_env \<Rightarrow> string \<Rightarrow> pydict \<Rightarrow> world \<Rightarrow> world" where
  "send_versioned e conn f w = (case versioned_frame f (generation e) of Inr f \<Rightarrow> send conn f w | Inl _ \<Rightarrow> w)"

definition count_sent :: "string \<Rightarrow> nat \<Rightarrow> world \<Rightarrow> world" where
  "count_sent conn n w =
     w\<lparr>flows := map (\<lambda>(k, fl). (k, if k = conn then flow_sent fl (int n) else fl)) (flows w)\<rparr>"

definition send_bytes :: "string \<Rightarrow> bytes \<Rightarrow> string \<Rightarrow> world \<Rightarrow> world" where
  "send_bytes conn d kind w = (count_sent conn (length d) w)\<lparr>sent := sent w @ [(conn, Raw d kind)]\<rparr>"

definition attach_client ::
  "conn_env \<Rightarrow> bool \<Rightarrow> int \<times> int \<Rightarrow> string \<Rightarrow> bool \<Rightarrow> handshake \<Rightarrow> world \<Rightarrow> bool \<times> nat \<times> world" where
  "attach_client e rebuilt fallback conn allow h w0 =
     (let (res, s) = attach (hs_since h) (hs_stream h) (snapshot e) (e_remote (ce e)) rebuilt (stream (core w0));
          sid = stream_id (e_remote (ce e)) s;
          (snap, rv) = ar_snapshot res;
          kind = kind_name (ar_kind res);
          w = on_core (\<lambda>c. emit ''terminal_attached'' ''daemon'' [(''connections'', PInt (int (length (subscribers s))))]
                             (c\<lparr>stream := s\<rparr>)) w0;
          w = send_versioned e conn [(''type'', PStr ''state''), (''snapshot'', PDict snap), (''revision'', PInt rv)] w;
          w = send conn (replay_start_frame kind (allow \<and> ar_kind res = Attach)) w;
          w = (if ar_payload res = [] then w
               else send_bytes conn (ar_payload res) (if ar_kind res = Attach then ''attach_replay'' else ''delta_replay'') w);
          w = send conn (replay_end_frame kind (ar_position res) sid) w;
          w = (if hs_geometry_queued h then w else send conn (geometry_frame fallback (core w)) w);
          over = (py_get snap ''state'' \<in> {PStr ''exited'', PStr ''crashed''});
          w = (if over
               then send_versioned e conn [(''type'', PStr ''exit''), (''snapshot'', PDict snap), (''revision'', PInt rv),
                                           (''reason'', PStr ''already_ended'')] w
               else if ar_kind res = Attach then on_core (schedule_attach_repaint (ce e)) w
               else w)
      in (over, ar_subscriber res, w))"

subsection \<open>Sending\<close>

text \<open>What \<^verbatim>\<open>pty_sender\<close> takes from the queue after a message of bytes: payload, held-back frame, rest.\<close>

fun gather :: "nat \<Rightarrow> bytes \<Rightarrow> 'f queued list \<Rightarrow> bytes \<times> 'f queued option \<times> 'f queued list" where
  "gather n acc [] = (acc, None, [])"
| "gather n acc (x # q) =
     (if PTY_OUTPUT_BATCH_BYTES \<le> int n then (acc, None, x # q)
      else (case x of
              Output d \<Rightarrow> gather (n + length d) (acc @ d) q
            | _ \<Rightarrow> (acc, Some x, q)))"

definition batch :: "bytes \<Rightarrow> 'f queued list \<Rightarrow> bytes \<times> 'f queued option \<times> 'f queued list" where
  "batch first q = gather (length first) first q"

text \<open>\<open>send_resync\<close> is the sender's answer to a resync marker; its result says whether the sender ends.\<close>

definition send_resync :: "conn_env \<Rightarrow> int \<times> int \<Rightarrow> string \<Rightarrow> nat \<Rightarrow> world \<Rightarrow> bool \<times> world" where
  "send_resync e fallback conn i w0 =
     (case take_resync i (snapshot e) (stream (core w0)) of
        None \<Rightarrow> (True, w0)
      | Some (res, s) \<Rightarrow>
          (let w = on_core (\<lambda>c. c\<lparr>stream := s\<rparr>) w0;
               w = send conn [(''type'', PStr ''gap''), (''dropped_bytes'', PInt (rr_dropped_bytes res)),
                              (''dropped_chunks'', PInt (rr_dropped_chunks res))] w;
               w = send conn [(''type'', PStr ''replay_start''), (''reason'', PStr ''resync'')] w;
               w = (if rr_replay res = [] then w else send_bytes conn (rr_replay res) ''resync_replay'' w);
               w = send conn (replay_end_frame ''resync'' (rr_position res) (stream_id (e_remote (ce e)) s)) w;
               (snap, rv) = rr_snapshot res;
               w = send_versioned e conn [(''type'', PStr ''update''), (''snapshot'', PDict snap), (''revision'', PInt rv)] w;
               w = send conn (geometry_frame fallback (core w)) w
           in (case rr_exit res of
                 Some f \<Rightarrow> if f \<noteq> [] then (True, send_versioned e conn f w) else (False, w)
               | None \<Rightarrow> (False, w))))"

definition send_control :: "conn_env \<Rightarrow> string \<Rightarrow> pydict \<Rightarrow> world \<Rightarrow> bool \<times> world" where
  "send_control e conn f w = (frame_type f = PStr ''exit'', send_versioned e conn f w)"

subsection \<open>Detaching\<close>

definition detach :: "conn_env \<Rightarrow> string \<Rightarrow> nat option \<Rightarrow> world \<Rightarrow> world" where
  "detach e conn subscriber w =
     w\<lparr>core :=
       (let c = (core w)\<lparr>sockets := removeAll conn (sockets (core w))\<rparr>;
            (released, c) = release_input_owner conn c;
            c = drop_viewport conn c;
            c = c\<lparr>claim_refusals := AList.delete conn (claim_refusals c)\<rparr>;
            c = (case subscriber of None \<Rightarrow> c | Some i \<Rightarrow> c\<lparr>stream := unsubscribe i (stream c)\<rparr>);
            (moved, c) = apply_geometry c;
            c = (if moved then schedule_resize_repaint (ce e) c else c);
            c = (if released
                 then c\<lparr>stream := publish_control
                   [(''type'', PStr ''input_owner_released''), (''epoch'', PInt (epoch (owner c)))] (stream c)\<rparr>
                 else c)
        in emit ''terminal_detached'' ''daemon'' [(''connections'', PInt (int (attached_connections c)))] c)\<rparr>"

subsection \<open>What reaches the pseudo terminal\<close>

fun written_by :: "pty_op list \<Rightarrow> string list" where
  "written_by [] = []"
| "written_by (Pty_Write d # ops) = d # written_by ops"
| "written_by (Pty_Resize _ _ # ops) = written_by ops"

lemma written_by_append [simp]: "written_by (a @ b) = written_by a @ written_by b"
  by (induction a rule: written_by.induct) auto

abbreviation writes :: "terminal_core \<Rightarrow> string list" where
  "writes c \<equiv> written_by (pty_log c)"

lemma core_write_ok:
  assumes "core_write e d None c = Inr c'"
  shows "pty_log c' = pty_log c @ [Pty_Write d]" "retired c = None" "input_revision c' = input_revision c"
    "owner c' = owner c" "last_input_report_ts c' = last_input_report_ts c"
  using assms
  by (cases "retired c"; auto simp: core_write_def Let_def pty_def note_change_def split: if_splits)+

lemma core_write_fail: "core_write e d None c = Inl x \<Longrightarrow> x = Moved \<and> retired c \<noteq> None"
  by (cases "retired c") (auto simp: core_write_def Let_def split: if_splits)

lemma world_ops [simp]:
  "core (send conn f w) = core w" "core (call_host k w) = core w" "core (on_core g w) = g (core w)"
  "sent (send conn f w) = sent w @ [(conn, Json f)]" "sent (on_core g w) = sent w" "sent (call_host k w) = sent w"
  by (simp_all add: send_def call_host_def on_core_def)

lemma account_input_core [simp]:
  "pty_log (core (account_input now f data w)) = pty_log (core w)"
  "input_revision (core (account_input now f data w)) =
     (if is_typed_text f data then input_revision (core w) + 1 else input_revision (core w))"
  by (simp_all add: account_input_def note_typed_input_def note_pointer_input_def note_change_def)

lemma report_input_core [simp]:
  "pty_log (core (report_input e f data w)) = pty_log (core w)"
  "input_revision (core (report_input e f data w)) = input_revision (core w)"
  by (simp_all add: report_input_def emit_def Let_def)

lemma ack_input_core [simp]: "core (ack_input e conn f data w) = core w"
  by (simp add: ack_input_def split: option.split)

lemma after_text_input_core:
  "pty_log (core (after_text_input e conn f data w)) = pty_log (core w)"
  "input_revision (core (after_text_input e conn f data w)) =
     (if is_typed_text f data then input_revision (core w) + 1 else input_revision (core w))"
  by (simp_all add: after_text_input_def Let_def)

text \<open>
  C16. No keystroke is lost silently. A text frame that is neither a terminal's own reply nor a late
  answer to a colour query has one of four outcomes: the owner's bytes are written to the pseudo
  terminal, and the input revision moves exactly when they are not pointer reports; a client that is
  not the owner gets the very bytes back and nothing is written; the owner of an ended session is told
  so; or the core is retired and the connection ends without a write.
\<close>

theorem typed_text_is_never_lost:
  assumes "\<not> is_terminal_response f"
    and "\<not> (suppresses_late_color_response (e_desc (ce e)) \<and> is_default_color_response (input_text repr f))"
  shows "case handle_text_input repr e conn f w of
      Inl x \<Rightarrow> x = Refused Moved \<and> retired (core w) \<noteq> None
    | Inr w' \<Rightarrow>
        if input_owner (core w) \<noteq> Some conn then
          pty_log (core w') = pty_log (core w) \<and> input_revision (core w') = input_revision (core w)
          \<and> (\<exists>fr. sent w' = sent w @ [(conn, Json fr)] \<and> frame_type fr = PStr ''input_rejected''
                 \<and> py_get fr ''data'' = PStr (input_text repr f))
        else if ended (e_desc (ce e)) then
          core w' = core w \<and> sent w' = sent w @ [(conn, Json session_ended_frame)]
        else
          pty_log (core w') = pty_log (core w) @ [Pty_Write (input_text repr f)]
          \<and> input_revision (core w')
              = input_revision (core w) + (if pointer_report_kind (input_text repr f) = None then 1 else 0)"
proof -
  let ?d = "input_text repr f"
  have rej: "pty_log (note_input_rejected e' n c) = pty_log c" "input_revision (note_input_rejected e' n c) = input_revision c"
    for e' n c by (simp_all add: note_input_rejected_def note_change_def emit_def Let_def)
  show ?thesis
  proof (cases "input_owner (core w) = Some conn \<and> \<not> ended (e_desc (ce e))")
    case False
    then show ?thesis using assms
      by (auto simp: handle_text_input_def Let_def rej input_rejected_frame_def py_get_def)
  next
    case True
    then show ?thesis using assms
      by (cases "core_write (ce e) ?d None (core w)")
        (auto simp: handle_text_input_def Let_def after_text_input_core core_write_ok is_typed_text_def
          dest: core_write_fail)
  qed
qed


theorem typed_text_is_never_lost_witness:
  "\<exists>w'. handle_text_input (\<lambda>_. []) \<lparr>ce = demo_env 9, wall = 9, leader = None, generation = [], snapshot = ([], 0)\<rparr>
      ''c1'' [(''type'', PStr ''input''), (''data'', PStr ''ls'')]
      \<lparr>core = demo_core, flows = [], sent = [], calls = []\<rparr> = Inr w'
    \<and> (\<exists>fr. sent w' = [(''c1'', Json fr)] \<and> frame_type fr = PStr ''input_rejected'' \<and> py_get fr ''data'' = PStr ''ls'')"
proof -
  let ?f = "[(''type'', PStr ''input''), (''data'', PStr ''ls'')]"
  let ?e = "\<lparr>ce = demo_env 9, wall = 9, leader = None, generation = [], snapshot = ([], 0)\<rparr>"
  let ?w = "\<lparr>core = demo_core, flows = [], sent = [], calls = []\<rparr>"
  have h: "\<not> is_terminal_response ?f"
    "\<not> (suppresses_late_color_response (e_desc (ce ?e)) \<and> is_default_color_response (input_text (\<lambda>_. []) ?f))"
    "input_text (\<lambda>_. []) ?f = ''ls''" "input_owner demo_core \<noteq> Some ''c1''" "retired demo_core = None"
    by code_simp+
  show ?thesis
    using typed_text_is_never_lost [OF h(1,2), where conn = "''c1''" and w = ?w] h(3-5)
    by (cases "handle_text_input (\<lambda>_. []) ?e ''c1'' ?f ?w") auto
qed

subsection \<open>Only the owner writes\<close>

lemma writes_repaint_event [simp]: "pty_log (repaint_event e why sz b c) = pty_log c"
  by (cases why) (simp_all add: repaint_event_def emit_def)

lemma writes_core_ops [simp]:
  "writes (start_repaint e why c) = writes c"
  "writes (snd (apply_geometry c)) = writes c"
  "writes (note_client_diagnostic dumps e conn f c) = writes c"
proof -
  show "writes (start_repaint e why c) = writes c"
    by (simp add: start_repaint_def pty_def split: option.split)
  show "writes (snd (apply_geometry c)) = writes c"
    by (simp add: apply_geometry_def pty_def note_change_def Let_def split: option.split)
  show "writes (note_client_diagnostic dumps e conn f c) = writes c"
    by (cases "py_get f ''phase''") (simp_all add: note_client_diagnostic_def emit_def split_beta Let_def)
qed

lemma writes_reading: "note_composer_reading e f c = Inr (r, c') \<Longrightarrow> writes c' = writes c"
proof -
  have k: "writes (snd (keep_reading e f r c)) = writes c" for r
    by (simp add: keep_reading_def note_change_def Let_def)
  assume "note_composer_reading e f c = Inr (r, c')"
  then obtain x where "(r, c') = (case x of None \<Rightarrow> (None, c) | Some r \<Rightarrow> keep_reading e f r c)"
    unfolding note_composer_reading_def bind_err_Inr by (metis Inr_inject)
  then show ?thesis using k by (auto split: option.splits dest: arg_cong [where f = snd])
qed

lemma writes_schedule [simp]: "pty_log (schedule_resize_repaint e c) = pty_log c"
  by (simp add: schedule_resize_repaint_def Let_def)

lemma writes_claim: "writes (core (claim_input repr e conn f w)) = writes (core w)"
  by (auto simp: claim_input_def claim_begins_def claim_ends_def record_claim_def apply_owner_state_def
      note_change_def emit_def Let_def split_beta split: option.split)

lemma writes_viewport: "apply_client_viewport conn f w = Inr (m, w') \<Longrightarrow> writes (core w') = writes (core w)"
  by (auto simp: apply_client_viewport_def bind_err_Inr set_viewport_def note_change_def split_beta)

lemma writes_text:
  assumes "handle_text_input repr e conn f w = Inr w'"
  shows "writes (core w') = writes (core w) \<or>
    input_owner (core w) = Some conn \<and> \<not> ended (e_desc (ce e)) \<and> writes (core w') = writes (core w) @ [input_text repr f]"
  using assms
  by (auto simp: handle_text_input_def Let_def after_text_input_core note_input_rejected_def note_change_def emit_def
      core_write_ok split: if_splits sum.splits)

lemma writes_binary:
  assumes "handle_binary_input e conn data w = Inr w'"
  shows "writes (core w') = writes (core w) \<or>
    input_owner (core w) = Some conn \<and> \<not> ended (e_desc (ce e)) \<and> writes (core w') = writes (core w) @ [data]"
  using assms
  by (auto simp: handle_binary_input_def Let_def note_input_rejected_def note_typed_input_def note_change_def emit_def
      core_write_ok split: if_splits sum.splits)

lemma writes_repaint [simp]: "writes (handle_client_repaint e c) = writes c"
  by (simp add: handle_client_repaint_def)

lemma writes_other:
  assumes "handle_client_message repr dumps e conn (Text_Frame f) w = Inr w'" and "frame_type f \<noteq> PStr ''input''"
  shows "writes (core w') = writes (core w)"
  using assms
  by (auto simp: handle_client_message_def writes_claim set_terminal_mode_def note_change_def emit_def Let_def
      bind_err_Inr raised_def map_sum_def writes_viewport writes_reading
      split: if_splits sum.splits option.splits pyval.splits)

text \<open>
  C30. Whatever a browser sends, its bytes reach the pseudo terminal only while its connection owns the
  input of a live session held by this core, and then exactly the bytes of that one message.
\<close>

theorem only_the_owner_writes:
  assumes "receive_message repr dumps e conn m w = Inr w'"
  shows "writes (core w') = writes (core w)
    \<or> input_owner (core w) = Some conn \<and> retired (core w) = None \<and> \<not> ended (e_desc (ce e))
      \<and> (\<exists>d. writes (core w') = writes (core w) @ [d]
           \<and> (m = Binary d \<or> (\<exists>f. m = Text_Frame f \<and> frame_type f = PStr ''input'' \<and> d = input_text repr f)))"
proof -
  from assms have r: "retired (core w) = None" and h: "handle_client_message repr dumps e conn m w = Inr w'"
    by (cases "retired (core w)"; auto simp: receive_message_def map_sum_def split: if_splits sum.splits)+
  show ?thesis
  proof (cases m)
    case (Binary d)
    then show ?thesis using h r writes_binary [of e conn d w w'] by (auto simp: handle_client_message_def)
  next
    case (Text_Frame f)
    show ?thesis
    proof (cases "frame_type f = PStr ''input''")
      case True
      then show ?thesis using h r Text_Frame writes_text [of repr e conn f w w']
        by (auto simp: handle_client_message_def)
    next
      case False
      then show ?thesis using h Text_Frame writes_other by blast
    qed
  next
    case Other_Message
    then show ?thesis using h by (simp add: handle_client_message_def)
  qed
qed

definition owned_world :: world where
  "owned_world = \<lparr>core = demo_core\<lparr>owner := \<lparr>connection_id = Some ''c1'', epoch = 1, device = Some ''d'', last_gesture_at = None\<rparr>\<rparr>,
     flows = [], sent = [], calls = []\<rparr>"

definition demo_conn_env :: conn_env where
  "demo_conn_env = \<lparr>ce = demo_env 9, wall = 9, leader = None, generation = [], snapshot = ([], 0)\<rparr>"

theorem only_the_owner_writes_witness:
  "\<exists>w'. receive_message (\<lambda>_. []) (\<lambda>_. []) demo_conn_env ''c1'' (Binary ''y'') owned_world = Inr w'
     \<and> writes (core w') = writes (core owned_world) @ [''y'']"
proof -
  have "\<not> isl (receive_message (\<lambda>_. []) (\<lambda>_. []) demo_conn_env ''c1'' (Binary ''y'') owned_world)" by code_simp
  then obtain w' where w': "receive_message (\<lambda>_. []) (\<lambda>_. []) demo_conn_env ''c1'' (Binary ''y'') owned_world = Inr w'"
    by (metis isl_def sum.exhaust_sel)
  have "map_sum (\<lambda>_. ()) (\<lambda>w. writes (core w)) (receive_message (\<lambda>_. []) (\<lambda>_. []) demo_conn_env ''c1'' (Binary ''y'') owned_world)
      = Inr [''y'']" "writes (core owned_world) = []" by code_simp+
  then show ?thesis using only_the_owner_writes [OF w'] w' by auto
qed

subsection \<open>Batches\<close>

lemma gather_spec:
  "gather n acc q = (payload, held, rest) \<Longrightarrow>
   \<exists>ds. payload = acc @ concat ds
     \<and> q = map Output ds @ (case held of None \<Rightarrow> [] | Some x \<Rightarrow> [x]) @ rest
     \<and> (\<forall>x. held = Some x \<longrightarrow> (\<forall>d. x \<noteq> Output d))
     \<and> (ds \<noteq> [] \<longrightarrow> int n + int (length (concat (butlast ds))) < PTY_OUTPUT_BATCH_BYTES)
     \<and> (held = None \<and> rest \<noteq> [] \<longrightarrow> PTY_OUTPUT_BATCH_BYTES \<le> int n + int (length (concat ds)))"
proof (induction n acc q arbitrary: payload rule: gather.induct)
  case (1 n acc)
  then show ?case by (intro exI [of _ "[]"]) auto
next
  case (2 n acc x q)
  show ?case
  proof (cases "PTY_OUTPUT_BATCH_BYTES \<le> int n")
    case True
    then show ?thesis using "2.prems" by (intro exI [of _ "[]"]) auto
  next
    case False
    show ?thesis
    proof (cases x)
      case (Output d)
      then obtain ds where ds: "payload = (acc @ d) @ concat ds"
        "q = map Output ds @ (case held of None \<Rightarrow> [] | Some x \<Rightarrow> [x]) @ rest"
        "\<forall>x. held = Some x \<longrightarrow> (\<forall>d. x \<noteq> Output d)"
        "ds \<noteq> [] \<longrightarrow> int (n + length d) + int (length (concat (butlast ds))) < PTY_OUTPUT_BATCH_BYTES"
        "held = None \<and> rest \<noteq> [] \<longrightarrow> PTY_OUTPUT_BATCH_BYTES \<le> int (n + length d) + int (length (concat ds))"
        using "2.IH" [OF False Output] "2.prems" False by auto
      then show ?thesis using Output False
        by (intro exI [of _ "d # ds"]) auto
    qed (use "2.prems" False in \<open>(intro exI [of _ "[]"], auto)+\<close>)
  qed
qed

text \<open>
  Joining waiting output into one frame neither reorders nor delays anything: what the sender takes
  from its queue is a run of output messages at its front, sent as their concatenation; it stops at
  the first message that is not output, which is sent next, and otherwise takes more only while the
  frame is below the batch size, so it never exceeds that size by more than its last piece.
\<close>

theorem batches_keep_the_order:
  assumes "batch d q = (payload, held, rest)"
  shows "\<exists>ds. payload = d @ concat ds
     \<and> q = map Output ds @ (case held of None \<Rightarrow> [] | Some x \<Rightarrow> [x]) @ rest
     \<and> (\<forall>x. held = Some x \<longrightarrow> (\<forall>d. x \<noteq> Output d))
     \<and> (ds \<noteq> [] \<longrightarrow> int (length (d @ concat (butlast ds))) < PTY_OUTPUT_BATCH_BYTES)
     \<and> (held = None \<and> rest \<noteq> [] \<longrightarrow> PTY_OUTPUT_BATCH_BYTES \<le> int (length payload))"
  using gather_spec [OF assms [unfolded batch_def]] by auto

theorem batches_keep_the_order_witness:
  "batch ''ab'' [Output ''c'', Output ''de'', Frame (1 :: int), Output ''f'']
     = (''abcde'', Some (Frame 1), [Output ''f''])
   \<and> (\<exists>ds. ''abcde'' = ''ab'' @ concat ds \<and> [Output ''c'', Output ''de'', Frame (1 :: int), Output ''f'']
         = map Output ds @ [Frame 1] @ [Output ''f''])"
proof -
  have b: "batch ''ab'' [Output ''c'', Output ''de'', Frame (1 :: int), Output ''f'']
     = (''abcde'', Some (Frame 1), [Output ''f''])"
    by (simp add: batch_def PTY_OUTPUT_BATCH_BYTES_def)
  from batches_keep_the_order [OF b] b show ?thesis unfolding option.case by blast
qed

subsection \<open>Claims and detaching\<close>

definition claim_decision_of :: "(pyval \<Rightarrow> string) \<Rightarrow> conn_env \<Rightarrow> string \<Rightarrow> pydict \<Rightarrow> world \<Rightarrow> claim_decision" where
  "claim_decision_of repr e conn f w =
     evaluate_claim (owner (core w)) (claim_of repr e conn f) PASSIVE_CLAIM_HOLD_SECONDS"

lemma granted_owner:
  "granted (evaluate_claim st rq hold) \<Longrightarrow> connection_id (cd_state (evaluate_claim st rq hold)) = Some (cr_connection_id rq)"
  by (auto simp: evaluate_claim_def Let_def split: if_splits)

lemma claim_of_conn [simp]: "cr_connection_id (claim_of repr e conn f) = conn"
  by (simp add: claim_of_def Let_def)

lemma apply_geometry_spec:
  assumes "apply_geometry c = (moved, c')" and "retired c = None"
  shows "owner c' = owner c" "input_owner_socket c' = input_owner_socket c" "viewports c' = viewports c"
    "claim_refusals c' = claim_refusals c" "sockets c' = sockets c"
    "geometry c' = (case effective_geometry (viewports c) (input_owner c) of None \<Rightarrow> geometry c | Some g \<Rightarrow> Some g)"
    "map fst (subscribers (stream c')) = map fst (subscribers (stream c))"
proof -
  have "owner c' = owner c \<and> input_owner_socket c' = input_owner_socket c \<and> viewports c' = viewports c
    \<and> claim_refusals c' = claim_refusals c \<and> sockets c' = sockets c
    \<and> geometry c' = (case effective_geometry (viewports c) (input_owner c) of None \<Rightarrow> geometry c | Some g \<Rightarrow> Some g)
    \<and> map fst (subscribers (stream c')) = map fst (subscribers (stream c))"
  proof (cases "effective_geometry (viewports c) (input_owner c)")
    case None
    then show ?thesis using assms by (simp add: apply_geometry_def)
  next
    case (Some g)
    then show ?thesis using assms
      by (cases "geometry c = Some g")
        (auto simp: apply_geometry_def pty_def note_change_def publish_control_def each_subscriber_def Let_def comp_def
          split_beta)
  qed
  then show "owner c' = owner c" "input_owner_socket c' = input_owner_socket c" "viewports c' = viewports c"
    "claim_refusals c' = claim_refusals c" "sockets c' = sockets c"
    "geometry c' = (case effective_geometry (viewports c) (input_owner c) of None \<Rightarrow> geometry c | Some g \<Rightarrow> Some g)"
    "map fst (subscribers (stream c')) = map fst (subscribers (stream c))"
    by simp_all
qed

text \<open>
  C32. A claim is settled in one step for everyone. Granted, the claiming connection owns the input and
  its socket, and is told so; if that displaced another socket, that socket is told under the same new
  epoch; the pseudo terminal has the size the new owner dictates. Refused, ownership, geometry and the
  pseudo terminal are as they were, and the refusal is answered unless the same connection's passive
  claim was refused within the cooldown.
\<close>

theorem claim_is_settled:
  fixes repr e conn f
  assumes "retired (core w) = None"
  defines "dec \<equiv> claim_decision_of repr e conn f w" and "w' \<equiv> claim_input repr e conn f w"
  shows "if granted dec then
      owner (core w') = cd_state dec \<and> input_owner (core w') = Some conn
      \<and> input_owner_socket (core w') = Some conn
      \<and> sent w' = sent w @ [(conn, Json (owner_frame (core w') True (verdict_name (cd_reason dec))))]
          @ (case (if changed dec then input_owner_socket (core w) else None) of
               None \<Rightarrow> [] | Some s \<Rightarrow> [(s, Json (owner_frame (core w') False ''claimed_elsewhere''))])
      \<and> (changed dec \<longrightarrow> (\<forall>g. effective_geometry (viewports (core w)) (Some conn) = Some g \<longrightarrow> geometry (core w') = Some g))
    else
      owner (core w') = owner (core w) \<and> geometry (core w') = geometry (core w)
      \<and> pty_log (core w') = pty_log (core w)
      \<and> (\<exists>out. sent w' = sent w @ out
           \<and> (out = [] \<longleftrightarrow> cr_reason (claim_of repr e conn f) = Passive
                \<and> e_now (ce e) - (case map_of (claim_refusals (core w)) conn of None \<Rightarrow> 0 | Some t \<Rightarrow> t)
                    < REFUSED_CLAIM_COOLDOWN_SECONDS))"
proof -
  let ?rq = "claim_of repr e conn f"
  have now: "cr_now ?rq = e_now (ce e)" by (simp add: claim_of_def Let_def)
  have dec: "evaluate_claim (owner (core w)) ?rq PASSIVE_CLAIM_HOLD_SECONDS = dec"
    by (simp add: dec_def claim_decision_of_def)
  show ?thesis
  proof (cases "granted dec")
    case False
    then show ?thesis
      by (auto simp: w'_def claim_input_def claim_begins_def dec Let_def now record_claim_def note_change_def)
  next
    case True
    let ?c = "(apply_owner_state (cd_state dec) (record_claim (claim_entry e ?rq dec (core w)) (core w)))\<lparr>input_owner_socket := Some conn\<rparr>"
    have own: "connection_id (cd_state dec) = Some conn"
      using granted_owner [of "owner (core w)" ?rq PASSIVE_CLAIM_HOLD_SECONDS] True unfolding dec by simp
    have c: "owner ?c = cd_state dec" "input_owner_socket ?c = Some conn" "viewports ?c = viewports (core w)"
      "retired ?c = None"
      using assms(1) by (simp_all add: apply_owner_state_def record_claim_def note_change_def)
    have fr: "owner_frame a b r = owner_frame a' b r" if "owner a = owner a'" for a a' b r
      using that by (simp add: owner_frame_def)
    obtain moved c2 where g: "apply_geometry ?c = (moved, c2)" by (rule prod.exhaust)
    note gs = apply_geometry_spec [OF g c(4)]
    show ?thesis
    proof (cases "changed dec")
      case False
      then show ?thesis using True own c
        by (simp add: w'_def claim_input_def claim_begins_def claim_ends_def dec Let_def)
    next
      case ch: True
      let ?w = "claim_input repr e conn f w"
      have "core ?w = emit ''terminal_input_owner'' ''daemon''
           [(''device'', opt_str (device (owner c2))), (''epoch'', PInt (epoch (owner c2))),
            (''grant'', PStr (verdict_name (cd_reason dec))), (''denials'', PInt (input_claim_denials
               (if moved then schedule_resize_repaint (ce e) c2 else c2)))]
           (if moved then schedule_resize_repaint (ce e) c2 else c2)"
        using True ch g
        by (simp add: claim_input_def claim_begins_def claim_ends_def dec Let_def schedule_resize_repaint_def
            split: option.split)
      then have o: "owner (core ?w) = cd_state dec" "input_owner_socket (core ?w) = Some conn" "geometry (core ?w) = geometry c2"
        using gs(1,2) c(1,2) by (simp_all add: emit_def schedule_resize_repaint_def Let_def)
      have "sent ?w = sent w @ [(conn, Json (owner_frame ?c True (verdict_name (cd_reason dec))))]
          @ (case input_owner_socket (core w) of None \<Rightarrow> []
             | Some s \<Rightarrow> [(s, Json (owner_frame ?c False ''claimed_elsewhere''))])"
        using True ch g
        by (simp add: claim_input_def claim_begins_def claim_ends_def dec Let_def split: option.split)
          (simp add: record_claim_def note_change_def)
      moreover have "owner_frame ?c b r = owner_frame (core ?w) b r" for b r
        by (rule fr) (simp add: o(1) c(1))
      ultimately show ?thesis using True ch o own gs(6) c(1,3) by (simp add: w'_def split: option.split)
    qed
  qed
qed


theorem claim_is_settled_witness:
  "input_owner (core (claim_input (\<lambda>_. []) demo_conn_env ''c2'' [(''device'', PStr ''phone'')] owned_world)) = Some ''c2''
   \<and> input_owner_socket (core (claim_input (\<lambda>_. []) demo_conn_env ''c2'' [(''device'', PStr ''phone'')] owned_world)) = Some ''c2''"
proof -
  have h: "retired (core owned_world) = None"
    "granted (claim_decision_of (\<lambda>_. []) demo_conn_env ''c2'' [(''device'', PStr ''phone'')] owned_world)"
    by code_simp+
  from claim_is_settled [OF h(1), of "\<lambda>_. []" demo_conn_env "''c2''" "[(''device'', PStr ''phone'')]"] h(2)
  show ?thesis unfolding if_P [OF h(2)] by blast
qed

lemma map_of_map_snd: "map_of (map (\<lambda>(k, x). (k, g x)) xs) i = map_option g (map_of xs i)"
  by (induction xs) auto

lemma unsubscribe_keys: "i \<notin> fst ` set (subscribers (unsubscribe i s))"
  by (auto simp: unsubscribe_def AList.delete_eq)

text \<open>What \<open>detach\<close> does before it re-arbitrates the geometry.\<close>

definition withdrawn :: "string \<Rightarrow> nat \<Rightarrow> terminal_core \<Rightarrow> terminal_core" where
  "withdrawn conn i c =
     (let c = c\<lparr>sockets := removeAll conn (sockets c)\<rparr>;
          c = drop_viewport conn (snd (release_input_owner conn c));
          c = c\<lparr>claim_refusals := AList.delete conn (claim_refusals c)\<rparr>
      in c\<lparr>stream := unsubscribe i (stream c)\<rparr>)"

lemma withdrawn_facts:
  "input_owner (withdrawn conn i c) \<noteq> Some conn" "epoch (owner (withdrawn conn i c)) = epoch (owner c)"
  "conn \<notin> set (sockets (withdrawn conn i c))" "map_of (viewports (withdrawn conn i c)) conn = None"
  "map_of (claim_refusals (withdrawn conn i c)) conn = None"
  "i \<notin> fst ` set (subscribers (stream (withdrawn conn i c)))"
  "geometry (withdrawn conn i c) = geometry c" "retired (withdrawn conn i c) = retired c"
  using unsubscribe_keys
  by (auto simp: withdrawn_def Let_def drop_viewport_def release_input_owner_def apply_owner_state_def
      release_owner_def note_change_def)

lemma detach_core:
  assumes "apply_geometry (withdrawn conn i (core w)) = (moved, g)"
  shows "\<exists>c'. core (detach e conn (Some i) w) = c' \<and> owner c' = owner g \<and> sockets c' = sockets g
    \<and> viewports c' = viewports g \<and> claim_refusals c' = claim_refusals g \<and> geometry c' = geometry g
    \<and> map fst (subscribers (stream c')) = map fst (subscribers (stream g))"
proof -
  define released where "released = fst (release_input_owner conn ((core w)\<lparr>sockets := removeAll conn (sockets (core w))\<rparr>))"
  have "core (detach e conn (Some i) w) =
     (let c = (if moved then schedule_resize_repaint (ce e) g else g);
          c = (if released
               then c\<lparr>stream := publish_control
                 [(''type'', PStr ''input_owner_released''), (''epoch'', PInt (epoch (owner c)))] (stream c)\<rparr>
               else c)
      in emit ''terminal_detached'' ''daemon'' [(''connections'', PInt (int (attached_connections c)))] c)"
    using assms by (simp add: detach_def withdrawn_def released_def Let_def split_beta)
  then show ?thesis
    by (simp add: Let_def emit_def schedule_resize_repaint_def publish_control_def each_subscriber_def comp_def split_beta)
qed

lemma apply_geometry_keeps:
  assumes "apply_geometry c = (moved, g)"
  shows "owner g = owner c \<and> sockets g = sockets c \<and> viewports g = viewports c \<and> claim_refusals g = claim_refusals c
    \<and> map fst (subscribers (stream g)) = map fst (subscribers (stream c))"
proof (cases "retired c")
  case None
  with apply_geometry_spec [OF assms] show ?thesis by simp
next
  case (Some a)
  with assms show ?thesis by (simp add: apply_geometry_def)
qed

text \<open>
  C33. A connection that ends leaves nothing behind, in whatever state it ends: it owns no input, its
  socket is not served, no viewport of its is arbitrated, no refusal is remembered and its subscriber
  is gone, so the session is not counted as attended; the owner epoch is untouched, and unless the
  core is retired the pseudo terminal has the size the remaining viewports give it.
\<close>

theorem detach_leaves_nothing:
  "let c' = core (detach e conn (Some i) w)
   in input_owner c' \<noteq> Some conn \<and> conn \<notin> set (sockets c') \<and> map_of (viewports c') conn = None
    \<and> map_of (claim_refusals c') conn = None \<and> i \<notin> fst ` set (subscribers (stream c'))
    \<and> epoch (owner c') = epoch (owner (core w))
    \<and> (retired (core w) = None \<longrightarrow>
         geometry c' = (case effective_geometry (viewports c') (input_owner c') of
                          None \<Rightarrow> geometry (core w) | Some g \<Rightarrow> Some g))"
proof -
  obtain moved g where g: "apply_geometry (withdrawn conn i (core w)) = (moved, g)" by (rule prod.exhaust)
  from detach_core [OF g, of e] apply_geometry_keeps [OF g] obtain c' where
    c': "core (detach e conn (Some i) w) = c'" "owner c' = owner (withdrawn conn i (core w))"
      "sockets c' = sockets (withdrawn conn i (core w))" "viewports c' = viewports (withdrawn conn i (core w))"
      "claim_refusals c' = claim_refusals (withdrawn conn i (core w))" "geometry c' = geometry g"
      "map fst (subscribers (stream c')) = map fst (subscribers (stream (withdrawn conn i (core w))))" by auto
  have "fst ` set (subscribers (stream c')) = fst ` set (subscribers (stream (withdrawn conn i (core w))))"
    using c'(7) by (metis list.set_map)
  moreover have "retired (core w) = None \<longrightarrow> geometry c' =
      (case effective_geometry (viewports c') (input_owner c') of None \<Rightarrow> geometry (core w) | Some g \<Rightarrow> Some g)"
    using apply_geometry_spec(6) [OF g] c'(2,4,6) withdrawn_facts(7,8) [of conn i "core w"]
    by (simp split: option.split)
  ultimately show ?thesis using c' withdrawn_facts [where conn = conn and i = i and c = "core w"] by (simp add: Let_def)
qed

theorem detach_leaves_nothing_witness:
  "input_owner (core (detach demo_conn_env ''c1'' (Some 0) owned_world)) = None
   \<and> geometry (core (detach demo_conn_env ''c1'' (Some 0) owned_world)) = None"
proof -
  have h: "retired (core owned_world) = None" "geometry (core owned_world) = None"
    "viewports (core (detach demo_conn_env ''c1'' (Some 0) owned_world)) = []"
    "input_owner (core (detach demo_conn_env ''c1'' (Some 0) owned_world)) = None"
    by code_simp+
  with detach_leaves_nothing [of demo_conn_env "''c1''" 0 owned_world]
  show ?thesis by (simp add: Let_def effective_geometry_def)
qed

end
