(* ===== verification/Cron.thy ===== *)
theory Cron
  imports Py_Regex Py_Text
begin

text \<open>
  The cron half of \<^verbatim>\<open>schedules.py\<close>: the five-field expression, its parser, and the walk over
  candidate days that finds the next fire. A local wall clock is a parameter with two operations,
  from an instant to a wall moment and back, since its rules come from the host or from the time
  zone database. An error keeps its code and its field map; its prose message is left out.
\<close>

subsection \<open>Errors\<close>

record schedule_error =
  se_code :: string
  se_fields :: "(string \<times> string) list"

definition schedule_error :: "string \<Rightarrow> (string \<times> string) list \<Rightarrow> schedule_error + 'a" where
  "schedule_error c fs = Inl \<lparr>se_code = c, se_fields = fs\<rparr>"

lemma schedule_error_simps [simp]:
  "schedule_error c fs \<noteq> Inr x"
  "Inr x \<noteq> schedule_error c fs"
  "bind_err (schedule_error c fs) f = schedule_error c fs"
  by (simp_all add: schedule_error_def)

subsection \<open>The wall clock\<close>

text \<open>A naive \<^verbatim>\<open>datetime\<close>. Dates past the year 9999 raise in Python and go on here.\<close>

record moment =
  mo_year :: nat
  mo_month :: nat
  mo_day :: nat
  mo_hour :: nat
  mo_minute :: nat
  mo_second :: nat
  mo_micro :: nat

record wall =
  wall_of :: "seconds \<Rightarrow> moment"
  epoch_of :: "moment \<Rightarrow> seconds"

definition is_leap :: "nat \<Rightarrow> bool" where
  "is_leap y \<longleftrightarrow> y mod 4 = 0 \<and> (y mod 100 \<noteq> 0 \<or> y mod 400 = 0)"

definition month_days :: "nat \<Rightarrow> nat \<Rightarrow> nat" where
  "month_days y m =
     (if m = 2 then (if is_leap y then 29 else 28)
      else if m \<in> {4, 6, 9, 11} then 30 else 31)"

definition next_date :: "nat \<times> nat \<times> nat \<Rightarrow> nat \<times> nat \<times> nat" where
  "next_date = (\<lambda>(y, m, d).
     if d < month_days y m then (y, m, d + 1)
     else if m < 12 then (y, m + 1, 1)
     else (y + 1, 1, 1))"

definition date_of :: "moment \<Rightarrow> nat \<times> nat \<times> nat" where
  "date_of c = (mo_year c, mo_month c, mo_day c)"

definition set_date :: "nat \<times> nat \<times> nat \<Rightarrow> moment \<Rightarrow> moment" where
  "set_date = (\<lambda>(y, m, d) c. c\<lparr>mo_year := y, mo_month := m, mo_day := d\<rparr>)"

text \<open>\<^verbatim>\<open>moment + timedelta(days=1)\<close> and \<^verbatim>\<open>moment + timedelta(minutes=1)\<close>.\<close>

definition add_day :: "moment \<Rightarrow> moment" where
  "add_day c = set_date (next_date (date_of c)) c"

definition add_minute :: "moment \<Rightarrow> moment" where
  "add_minute c =
     (if mo_minute c < 59 then c\<lparr>mo_minute := mo_minute c + 1\<rparr>
      else if mo_hour c < 23 then c\<lparr>mo_hour := mo_hour c + 1, mo_minute := 0\<rparr>
      else add_day (c\<lparr>mo_hour := 0, mo_minute := 0\<rparr>))"

text \<open>\<^verbatim>\<open>date.toordinal()\<close> and \<^verbatim>\<open>date.weekday()\<close>, Monday being 0.\<close>

definition days_before_year :: "nat \<Rightarrow> nat" where
  "days_before_year y = (y - 1) * 365 + (y - 1) div 4 - (y - 1) div 100 + (y - 1) div 400"

definition days_before_month :: "nat \<Rightarrow> nat \<Rightarrow> nat" where
  "days_before_month y m = sum_list (map (month_days y) [1..<m])"

definition ordinal :: "nat \<times> nat \<times> nat \<Rightarrow> nat" where
  "ordinal = (\<lambda>(y, m, d). days_before_year y + days_before_month y m + d)"

definition weekday :: "moment \<Rightarrow> nat" where
  "weekday c = (ordinal (date_of c) + 6) mod 7"

subsection \<open>Cron expressions\<close>

record cron_expression =
  cr_minutes :: "nat list"
  cr_hours :: "nat list"
  cr_days_of_month :: "nat list"
  cr_months :: "nat list"
  cr_days_of_week :: "nat list"
  cr_dom_restricted :: bool
  cr_dow_restricted :: bool
  cr_source :: string

definition matches_date :: "cron_expression \<Rightarrow> moment \<Rightarrow> bool" where
  "matches_date e c =
     (if mo_month c \<notin> set (cr_months e) then False
      else
        let day = (weekday c + 1) mod 7;
            dom_hit = mo_day c \<in> set (cr_days_of_month e);
            dow_hit = day \<in> set (cr_days_of_week e)
        in if cr_dom_restricted e \<and> cr_dow_restricted e then dom_hit \<or> dow_hit
           else dom_hit \<and> dow_hit)"

definition field_ranges :: "(string \<times> nat \<times> nat) list" where
  "field_ranges =
     [(''minute'', 0, 59), (''hour'', 0, 23), (''day_of_month'', 1, 31), (''month'', 1, 12),
      (''day_of_week'', 0, 7)]"

definition named_months :: "(string \<times> nat) list" where
  "named_months =
     [(''jan'', 1), (''feb'', 2), (''mar'', 3), (''apr'', 4), (''may'', 5), (''jun'', 6),
      (''jul'', 7), (''aug'', 8), (''sep'', 9), (''oct'', 10), (''nov'', 11), (''dec'', 12)]"

definition named_days :: "(string \<times> nat) list" where
  "named_days =
     [(''sun'', 0), (''mon'', 1), (''tue'', 2), (''wed'', 3), (''thu'', 4), (''fri'', 5), (''sat'', 6)]"

definition number_or_name :: rx where
  "number_or_name = Alt (plus digit) (times 3 3 (in_range 97 122))"

definition term_rx :: rx where
  "term_rx =
     Cat
       (Alt (Grp 1 (lit ''*''))
         (Cat (Grp 2 number_or_name) (Opt (Cat (lit ''-'') (Grp 3 number_or_name)))))
       (Opt (Cat (lit ''/'') (Grp 4 (plus digit))))"

definition bad_cron :: "schedule_error + 'a" where
  "bad_cron = schedule_error ''invalid_cron'' []"

definition parse_value :: "string \<Rightarrow> string \<Rightarrow> nat \<Rightarrow> nat \<Rightarrow> schedule_error + nat" where
  "parse_value raw name low high =
     (let token = lower (strip raw) in
      if name = ''month'' \<and> map_of named_months token \<noteq> None
      then Inr (the (map_of named_months token))
      else if name = ''day_of_week'' \<and> map_of named_days token \<noteq> None
      then Inr (the (map_of named_days token))
      else if \<not> is_decimal token then bad_cron
      else
        let v = nat (dec_value token) in
        if low \<le> v \<and> v \<le> high then Inr v else bad_cron)"

text \<open>\<^verbatim>\<open>range(a, b + 1, step)\<close>.\<close>

definition py_range :: "nat \<Rightarrow> nat \<Rightarrow> nat \<Rightarrow> nat list" where
  "py_range a b s = (if b < a then [] else map (\<lambda>k. a + k * s) [0..<Suc ((b - a) div s)])"

text \<open>One term of a comma list, from the groups of its match.\<close>

definition term_bounds ::
  "string \<Rightarrow> nat \<Rightarrow> nat \<Rightarrow> captures \<Rightarrow> schedule_error + (nat \<times> nat)" where
  "term_bounds name low high g =
     (if group 1 g \<noteq> None then Inr (low, high)
      else
        bind_err (parse_value (case group 2 g of None \<Rightarrow> '''' | Some r \<Rightarrow> r) name low high) (\<lambda>a.
        bind_err
          (case group 3 g of
             Some r \<Rightarrow> parse_value r name low high
           | None \<Rightarrow> Inr (if group 4 g \<noteq> None then high else a)) (\<lambda>b.
        if b < a then bad_cron else Inr (a, b))))"

definition term_values :: "string \<Rightarrow> nat \<Rightarrow> nat \<Rightarrow> string \<Rightarrow> schedule_error + nat list" where
  "term_values name low high t =
     (case full_captures term_rx (lower (strip t)) of
        None \<Rightarrow> bad_cron
      | Some g \<Rightarrow>
          let step = (case group 4 g of None \<Rightarrow> 1 | Some r \<Rightarrow> nat (dec_value r)) in
          if step < 1 then bad_cron
          else bind_err (term_bounds name low high g) (\<lambda>(a, b). Inr (py_range a b step)))"

fun all_values :: "string \<Rightarrow> nat \<Rightarrow> nat \<Rightarrow> string list \<Rightarrow> schedule_error + nat list" where
  "all_values name low high [] = Inr []"
| "all_values name low high (t # ts) =
     bind_err (term_values name low high t) (\<lambda>vs.
     bind_err (all_values name low high ts) (\<lambda>ws. Inr (vs @ ws)))"

text \<open>\<^verbatim>\<open>tuple(sorted(set(xs)))\<close>.\<close>

definition sorted_set :: "nat list \<Rightarrow> nat list" where
  "sorted_set xs = sort (remdups xs)"

definition parse_field :: "string \<Rightarrow> nat \<Rightarrow> nat \<Rightarrow> string \<Rightarrow> schedule_error + nat list" where
  "parse_field name low high spec =
     bind_err (all_values name low high (split_on (CHR '','') spec)) (\<lambda>vs.
     if vs = [] then bad_cron else Inr (sorted_set vs))"

fun parse_fields ::
  "(string \<times> nat \<times> nat) list \<Rightarrow> string list \<Rightarrow> schedule_error + nat list list" where
  "parse_fields ((name, low, high) # rs) (f # fs) =
     bind_err (parse_field name low high f) (\<lambda>vs.
     bind_err (parse_fields rs fs) (\<lambda>vss. Inr (vs # vss)))"
| "parse_fields _ _ = Inr []"

definition parse_cron :: "string \<Rightarrow> schedule_error + cron_expression" where
  "parse_cron s =
     (let fields = words (strip s) in
      if length fields \<noteq> 5
      then schedule_error ''invalid_cron'' [(''cron'', ''five fields required'')]
      else
        bind_err (parse_fields field_ranges fields) (\<lambda>parsed.
        Inr \<lparr>
          cr_minutes = parsed ! 0,
          cr_hours = parsed ! 1,
          cr_days_of_month = parsed ! 2,
          cr_months = parsed ! 3,
          cr_days_of_week = sorted_set (map (\<lambda>d. if d = 7 then 0 else d) (parsed ! 4)),
          cr_dom_restricted = strip (fields ! 2) \<noteq> ''*'',
          cr_dow_restricted = strip (fields ! 4) \<noteq> ''*'',
          cr_source = join_with '' '' fields\<rparr>))"

subsection \<open>The search for the next fire\<close>

definition cron_search_days :: nat where
  "cron_search_days = 1500"

fun try_minutes ::
  "wall \<Rightarrow> seconds \<Rightarrow> moment \<Rightarrow> nat \<Rightarrow> nat \<Rightarrow> nat \<Rightarrow> nat list \<Rightarrow> seconds option" where
  "try_minutes w after cursor fh fm h [] = None"
| "try_minutes w after cursor fh fm h (m # ms) =
     (if h = fh \<and> m < fm then try_minutes w after cursor fh fm h ms
      else
        let candidate = epoch_of w (cursor\<lparr>mo_hour := h, mo_minute := m\<rparr>) in
        if after < candidate then Some candidate else try_minutes w after cursor fh fm h ms)"

fun try_hours ::
  "wall \<Rightarrow> seconds \<Rightarrow> moment \<Rightarrow> nat \<Rightarrow> nat \<Rightarrow> nat list \<Rightarrow> nat list \<Rightarrow> seconds option" where
  "try_hours w after cursor fh fm ms [] = None"
| "try_hours w after cursor fh fm ms (h # hs) =
     (if h < fh then try_hours w after cursor fh fm ms hs
      else
        (case try_minutes w after cursor fh fm h ms of
           Some t \<Rightarrow> Some t
         | None \<Rightarrow> try_hours w after cursor fh fm ms hs))"

definition next_day :: "moment \<Rightarrow> moment" where
  "next_day c = (add_day c)\<lparr>mo_hour := 0, mo_minute := 0\<rparr>"

text \<open>\<open>n\<close> days are left to look at; the first one is only looked at from the cursor on.\<close>

fun cron_walk ::
  "cron_expression \<Rightarrow> seconds \<Rightarrow> wall \<Rightarrow> nat \<Rightarrow> bool \<Rightarrow> moment \<Rightarrow> seconds option" where
  "cron_walk e after w 0 first cursor = None"
| "cron_walk e after w (Suc n) first cursor =
     (let fh = (if first then mo_hour cursor else 0);
          fm = (if first then mo_minute cursor else 0)
      in case (if matches_date e cursor
               then try_hours w after cursor fh fm (cr_minutes e) (cr_hours e) else None) of
           Some t \<Rightarrow> Some t
         | None \<Rightarrow> cron_walk e after w n False (next_day cursor))"

definition first_cursor :: "wall \<Rightarrow> seconds \<Rightarrow> moment" where
  "first_cursor w after = add_minute ((wall_of w after)\<lparr>mo_second := 0, mo_micro := 0\<rparr>)"

definition next_cron_fire :: "cron_expression \<Rightarrow> seconds \<Rightarrow> wall \<Rightarrow> seconds option" where
  "next_cron_fire e after w = cron_walk e after w cron_search_days True (first_cursor w after)"

subsection \<open>The values of a field\<close>

lemma set_sorted_set [simp]: "set (sorted_set xs) = set xs"
  by (simp add: sorted_set_def)

lemma sorted_sorted_set [simp]: "sorted (sorted_set xs)"
  and distinct_sorted_set [simp]: "distinct (sorted_set xs)"
  by (simp_all add: sorted_set_def)

lemma sorted_set_Nil [simp]: "sorted_set xs = [] \<longleftrightarrow> xs = []"
  by (metis set_empty set_sorted_set)

lemma py_range_set: "0 < s \<Longrightarrow> v \<in> set (py_range a b s) \<Longrightarrow> a \<le> v \<and> v \<le> b"
proof -
  assume s: "0 < s" and "v \<in> set (py_range a b s)"
  then obtain k where k: "a \<le> b" "k \<le> (b - a) div s" "v = a + k * s"
    by (auto simp: py_range_def simp del: upt_Suc split: if_splits)
  have "k * s \<le> (b - a) div s * s" using k(2) by simp
  also have "\<dots> \<le> b - a" by simp
  finally have "k * s \<le> b - a" .
  with k show ?thesis by simp
qed

lemma py_range_first: "a \<le> b \<Longrightarrow> a \<in> set (py_range a b s)"
  by (auto simp: py_range_def simp del: upt_Suc)

text \<open>The name tables stay inside the ranges of the fields they belong to.\<close>

definition names_fit :: "string \<times> nat \<times> nat \<Rightarrow> bool" where
  "names_fit = (\<lambda>(name, low, high).
     low \<le> high \<and>
     (name = ''month'' \<longrightarrow> (\<forall>v \<in> snd ` set named_months. low \<le> v \<and> v \<le> high)) \<and>
     (name = ''day_of_week'' \<longrightarrow> (\<forall>v \<in> snd ` set named_days. low \<le> v \<and> v \<le> high)))"

lemma field_ranges_fit: "\<forall>r \<in> set field_ranges. names_fit r"
  by (simp add: field_ranges_def names_fit_def named_months_def named_days_def)

lemma parse_value_bounds:
  assumes "names_fit (name, low, high)" and "parse_value raw name low high = Inr v"
  shows "low \<le> v \<and> v \<le> high"
proof -
  let ?t = "lower (strip raw)"
  consider (m) "name = ''month''" "map_of named_months ?t = Some v"
    | (d) "name = ''day_of_week''" "map_of named_days ?t = Some v"
    | (n) "low \<le> v \<and> v \<le> high"
    using assms(2) by (auto simp: parse_value_def Let_def bad_cron_def split: if_splits)
  then show ?thesis
  proof cases
    case m
    then have "v \<in> snd ` set named_months" by (force dest: map_of_SomeD)
    with m(1) assms(1) show ?thesis unfolding names_fit_def by blast
  next
    case d
    then have "v \<in> snd ` set named_days" by (force dest: map_of_SomeD)
    with d(1) assms(1) show ?thesis unfolding names_fit_def by blast
  qed
qed

lemma term_bounds_range:
  assumes "names_fit (name, low, high)" and "term_bounds name low high g = Inr (a, b)"
  shows "low \<le> a \<and> a \<le> b \<and> b \<le> high"
proof (cases "group 1 g = None")
  case True
  then obtain r where a: "parse_value r name low high = Inr a"
    and b: "(case group 3 g of Some r \<Rightarrow> parse_value r name low high
             | None \<Rightarrow> Inr (if group 4 g \<noteq> None then high else a)) = Inr b" and ab: "a \<le> b"
    using assms(2) by (auto simp: term_bounds_def bind_err_Inr bad_cron_def split: if_splits)
  have "low \<le> a \<and> a \<le> high" by (rule parse_value_bounds [OF assms(1) a])
  moreover have "b \<le> high"
    using b calculation by (auto split: option.splits if_splits dest: parse_value_bounds [OF assms(1)])
  ultimately show ?thesis using ab by simp
next
  case False
  with assms show ?thesis by (simp add: term_bounds_def names_fit_def)
qed

definition in_bounds :: "nat \<Rightarrow> nat \<Rightarrow> nat list \<Rightarrow> bool" where
  "in_bounds low high vs \<longleftrightarrow> vs \<noteq> [] \<and> (\<forall>v \<in> set vs. low \<le> v \<and> v \<le> high)"

lemma term_values_within:
  assumes "names_fit (name, low, high)" and "term_values name low high t = Inr vs"
  shows "in_bounds low high vs"
proof -
  have "\<exists>a b s. 0 < s \<and> vs = py_range a b s \<and> (\<exists>g. term_bounds name low high g = Inr (a, b))"
  proof (cases "full_captures term_rx (lower (strip t))")
    case (Some g)
    define s where "s = (case group 4 g of None \<Rightarrow> 1 | Some r \<Rightarrow> nat (dec_value r))"
    have "term_values name low high t =
        (if s < 1 then bad_cron else bind_err (term_bounds name low high g) (\<lambda>(a, b). Inr (py_range a b s)))"
      by (simp add: term_values_def Some s_def)
    with assms(2) show ?thesis by (auto simp: bind_err_Inr bad_cron_def split: if_splits)
  qed (use assms(2) in \<open>simp add: term_values_def bad_cron_def\<close>)
  then obtain a b s where s: "0 < s" "vs = py_range a b s" "\<exists>g. term_bounds name low high g = Inr (a, b)"
    by blast
  then have r: "low \<le> a \<and> a \<le> b \<and> b \<le> high" using term_bounds_range [OF assms(1)] by blast
  moreover have "a \<in> set vs" using r s(2) by (simp add: py_range_first)
  ultimately show ?thesis using s(1,2) py_range_set [of s _ a b] by (fastforce simp: in_bounds_def)
qed

lemma all_values_within:
  "names_fit (name, low, high) \<Longrightarrow> all_values name low high ts = Inr vs \<Longrightarrow> ts \<noteq> [] \<Longrightarrow> in_bounds low high vs"
proof (induction ts arbitrary: vs)
  case (Cons t ts)
  then obtain us ws where u: "term_values name low high t = Inr us" "all_values name low high ts = Inr ws"
    "vs = us @ ws" by (auto simp: bind_err_Inr)
  have "in_bounds low high us" by (rule term_values_within [OF Cons.prems(1) u(1)])
  moreover have "ts = [] \<and> ws = [] \<or> in_bounds low high ws" using u(2) Cons by (cases ts) auto
  ultimately show ?case using u(3) by (auto simp: in_bounds_def)
qed simp

lemma parse_field_within:
  assumes "names_fit (name, low, high)" and "parse_field name low high f = Inr vs"
  shows "in_bounds low high vs \<and> sorted vs \<and> distinct vs"
proof -
  from assms(2) obtain us where "all_values name low high (split_on (CHR '','') f) = Inr us" "vs = sorted_set us"
    by (auto simp: parse_field_def bind_err_Inr bad_cron_def split: if_splits)
  with all_values_within [OF assms(1)] show ?thesis by (auto simp: in_bounds_def)
qed

lemma parse_fields_each:
  "parse_fields rs fs = Inr vss \<Longrightarrow> length rs = length fs \<Longrightarrow>
     list_all2 (\<lambda>(name, low, high) vs. \<exists>f. parse_field name low high f = Inr vs) rs vss"
  by (induction rs fs arbitrary: vss rule: parse_fields.induct) (auto simp: bind_err_Inr)

definition cron_ok :: "cron_expression \<Rightarrow> bool" where
  "cron_ok e \<longleftrightarrow>
     in_bounds 0 59 (cr_minutes e) \<and> in_bounds 0 23 (cr_hours e) \<and> in_bounds 1 31 (cr_days_of_month e) \<and>
     in_bounds 1 12 (cr_months e) \<and> in_bounds 0 6 (cr_days_of_week e) \<and>
     sorted (cr_minutes e) \<and> sorted (cr_hours e) \<and> sorted (cr_days_of_month e) \<and>
     sorted (cr_months e) \<and> sorted (cr_days_of_week e) \<and>
     distinct (cr_minutes e) \<and> distinct (cr_hours e) \<and> distinct (cr_days_of_month e) \<and>
     distinct (cr_months e) \<and> distinct (cr_days_of_week e)"

lemma parsed_fields:
  assumes "parse_fields field_ranges fs = Inr vss" and "length fs = 5"
  shows "\<exists>a b c d e. vss = [a, b, c, d, e] \<and>
    (in_bounds 0 59 a \<and> sorted a \<and> distinct a) \<and> (in_bounds 0 23 b \<and> sorted b \<and> distinct b) \<and>
    (in_bounds 1 31 c \<and> sorted c \<and> distinct c) \<and> (in_bounds 1 12 d \<and> sorted d \<and> distinct d) \<and>
    (in_bounds 0 7 e \<and> sorted e \<and> distinct e)"
proof -
  have fit: "names_fit (''minute'', 0, 59)" "names_fit (''hour'', 0, 23)" "names_fit (''day_of_month'', 1, 31)"
    "names_fit (''month'', 1, 12)" "names_fit (''day_of_week'', 0, 7)"
    using field_ranges_fit by (simp_all add: field_ranges_def)
  have "length field_ranges = length fs" using assms(2) by (simp add: field_ranges_def)
  from parse_fields_each [OF assms(1) this] obtain a b c d e where v: "vss = [a, b, c, d, e]"
    and p: "\<exists>f. parse_field ''minute'' 0 59 f = Inr a" "\<exists>f. parse_field ''hour'' 0 23 f = Inr b"
    "\<exists>f. parse_field ''day_of_month'' 1 31 f = Inr c" "\<exists>f. parse_field ''month'' 1 12 f = Inr d"
    "\<exists>f. parse_field ''day_of_week'' 0 7 f = Inr e"
    by (clarsimp simp: field_ranges_def list_all2_Cons1 simp del: One_nat_def) blast
  have "in_bounds 0 59 a \<and> sorted a \<and> distinct a" using p(1) fit(1) by (blast dest: parse_field_within)
  moreover have "in_bounds 0 23 b \<and> sorted b \<and> distinct b" using p(2) fit(2) by (blast dest: parse_field_within)
  moreover have "in_bounds 1 31 c \<and> sorted c \<and> distinct c" using p(3) fit(3) by (blast dest: parse_field_within)
  moreover have "in_bounds 1 12 d \<and> sorted d \<and> distinct d" using p(4) fit(4) by (blast dest: parse_field_within)
  moreover have "in_bounds 0 7 e \<and> sorted e \<and> distinct e" using p(5) fit(5) by (blast dest: parse_field_within)
  ultimately show ?thesis unfolding v by blast
qed

lemma parse_cron_parts:
  assumes "parse_cron s = Inr e"
  obtains vss where "length (words s) = 5" "parse_fields field_ranges (words s) = Inr vss"
    "cr_source e = join_with '' '' (words s)" "cr_minutes e = vss ! 0" "cr_hours e = vss ! 1"
    "cr_days_of_month e = vss ! 2" "cr_months e = vss ! 3"
    "cr_days_of_week e = sorted_set (map (\<lambda>d. if d = 7 then 0 else d) (vss ! 4))"
  using assms by (auto simp: parse_cron_def words_strip Let_def bind_err_Inr split: if_splits)

lemma parse_cron_ok: "parse_cron s = Inr e \<Longrightarrow> cron_ok e"
proof -
  assume "parse_cron s = Inr e"
  then obtain vss where p: "length (words s) = 5" "parse_fields field_ranges (words s) = Inr vss"
    "cr_minutes e = vss ! 0" "cr_hours e = vss ! 1" "cr_days_of_month e = vss ! 2" "cr_months e = vss ! 3"
    and w: "cr_days_of_week e = sorted_set (map (\<lambda>d. if d = 7 then 0 else d) (vss ! 4))"
    by (rule parse_cron_parts)
  from parsed_fields [OF p(2,1)] obtain a b c d f where v: "vss = [a, b, c, d, f]"
    and q: "in_bounds 0 59 a \<and> sorted a \<and> distinct a" "in_bounds 0 23 b \<and> sorted b \<and> distinct b"
    "in_bounds 1 31 c \<and> sorted c \<and> distinct c" "in_bounds 1 12 d \<and> sorted d \<and> distinct d" "in_bounds 0 7 f"
    by blast
  have "in_bounds 0 6 (cr_days_of_week e)" using q(5) unfolding w v in_bounds_def by fastforce
  then show ?thesis using p q w by (simp add: v cron_ok_def)
qed

lemma parse_cron_source: "parse_cron s = Inr e \<Longrightarrow> parse_cron (cr_source e) = Inr e"
proof -
  assume a: "parse_cron s = Inr e"
  have "words (cr_source e) = words s"
    using a by (rule parse_cron_parts) (simp add: words_join words_are_words)
  then have "parse_cron (cr_source e) = parse_cron s" by (simp add: parse_cron_def words_strip)
  with a show ?thesis by simp
qed

subsection \<open>The calendar\<close>

definition valid_date :: "nat \<times> nat \<times> nat \<Rightarrow> bool" where
  "valid_date = (\<lambda>(y, m, d). 1 \<le> y \<and> 1 \<le> m \<and> m \<le> 12 \<and> 1 \<le> d \<and> d \<le> month_days y m)"

definition valid_moment :: "moment \<Rightarrow> bool" where
  "valid_moment c \<longleftrightarrow> valid_date (date_of c) \<and> mo_hour c < 24 \<and> mo_minute c < 60"

lemma month_days_pos [simp]: "0 < month_days y m"
  by (simp add: month_days_def)

lemma valid_next_date: "valid_date d \<Longrightarrow> valid_date (next_date d)"
  by (cases d) (auto simp: valid_date_def next_date_def Suc_le_eq)

lemma leap_count:
  "b \<le> a \<Longrightarrow> (r \<longrightarrow> q) \<Longrightarrow> (q \<longrightarrow> p) \<Longrightarrow>
     Suc n * 365 + (a + (if p then 1 else 0)) - (b + (if q then 1 else 0)) + (c + (if r then 1 else 0)) =
     n * 365 + a - b + c + (if p \<and> (\<not> q \<or> r) then 366 else 365 :: nat)"
  by (cases p; cases q; cases r) simp_all

lemma days_before_year_Suc:
  assumes "1 \<le> y"
  shows "days_before_year (Suc y) = days_before_year y + (if is_leap y then 366 else 365)"
proof -
  obtain n where n: "y = Suc n" using assms by (cases y) auto
  have q: "Suc n div k = n div k + (if Suc n mod k = 0 then 1 else 0)" if "0 < k" for k
    using that by (simp add: div_Suc)
  have le: "n div 100 \<le> n div 4" by (simp add: div_le_mono2)
  have m: "Suc n mod 100 = 0 \<Longrightarrow> Suc n mod 4 = 0" "Suc n mod 400 = 0 \<Longrightarrow> Suc n mod 100 = 0"
    by (simp_all add: mod_eq_0_iff_dvd) (auto elim: dvd_trans [rotated])
  show ?thesis
    unfolding n days_before_year_def is_leap_def diff_Suc_1 q [of 4, simplified] q [of 100, simplified]
      q [of 400, simplified]
    by (rule leap_count [OF le]) (use m in blast)+
qed

lemma days_before_month_Suc:
  "1 \<le> m \<Longrightarrow> days_before_month y (Suc m) = days_before_month y m + month_days y m"
  by (simp add: days_before_month_def)

lemma days_before_month_1 [simp]: "days_before_month y (Suc 0) = 0"
  by (simp add: days_before_month_def)

lemma days_before_month_13: "days_before_month y 13 = (if is_leap y then 366 else 365)"
  by (simp add: days_before_month_def month_days_def upt_rec)

lemma ordinal_next_date: "valid_date d \<Longrightarrow> ordinal (next_date d) = Suc (ordinal d)"
proof (cases d)
  case (fields y m k)
  assume v: "valid_date d"
  have "m = 12 \<Longrightarrow> days_before_month y m + month_days y m = (if is_leap y then 366 else 365)"
    using days_before_month_Suc [of 12 y] days_before_month_13 [of y] by simp
  with v days_before_month_Suc [of m y] days_before_year_Suc [of y] show ?thesis
    by (auto simp: fields valid_date_def next_date_def ordinal_def)
qed

lemma days_before_month_mono:
  assumes "1 \<le> m" and "m \<le> n"
  shows "days_before_month y m \<le> days_before_month y n"
  using assms(2)
proof (induction rule: dec_induct)
  case (step n)
  then show ?case using days_before_month_Suc [of n y] assms(1) by simp
qed simp

lemma days_before_year_mono:
  assumes "1 \<le> y" and "y \<le> z"
  shows "days_before_year y \<le> days_before_year z"
  using assms(2)
proof (induction rule: dec_induct)
  case (step n)
  then show ?case using days_before_year_Suc [of n] assms(1) by simp
qed simp

lemma month_end: "1 \<le> m \<Longrightarrow> m < n \<Longrightarrow> days_before_month y m + month_days y m \<le> days_before_month y n"
  using days_before_month_Suc [of m y] days_before_month_mono [of "Suc m" n y] by simp

lemma year_end:
  assumes "valid_date (y, m, d)"
  shows "days_before_month y m + d \<le> (if is_leap y then 366 else 365)"
proof -
  have "days_before_month y m + month_days y m \<le> days_before_month y 13"
    using assms by (intro month_end) (auto simp: valid_date_def)
  moreover have "d \<le> month_days y m" using assms by (simp add: valid_date_def)
  ultimately show ?thesis unfolding days_before_month_13 [of y] by linarith
qed

lemma ordinal_inj:
  assumes "valid_date a" and "valid_date b" and "ordinal a = ordinal b"
  shows "a = b"
proof -
  have less: "ordinal (y, m, d) < ordinal (y', m', d')"
    if v: "valid_date (y, m, d)" "valid_date (y', m', d')"
      and l: "y < y' \<or> y = y' \<and> (m < m' \<or> m = m' \<and> d < d')" for y m d y' m' d'
  proof -
    consider "y < y'" | "y = y'" "m < m'" | "y = y'" "m = m'" "d < d'" using l by blast
    then show ?thesis
    proof cases
      case 1
      have "days_before_year (Suc y) \<le> days_before_year y'"
        using 1 by (intro days_before_year_mono) auto
      moreover have "days_before_year (Suc y) = days_before_year y + (if is_leap y then 366 else 365)"
        using v(1) by (intro days_before_year_Suc) (simp add: valid_date_def)
      moreover have "1 \<le> d'" using v(2) by (simp add: valid_date_def)
      ultimately show ?thesis using year_end [OF v(1)] by (simp add: ordinal_def split: if_splits)
    next
      case 2
      then show ?thesis using v month_end [of m m' y] by (auto simp: ordinal_def valid_date_def)
    qed (simp add: ordinal_def)
  qed
  obtain y m d y' m' d' where ab: "a = (y, m, d)" "b = (y', m', d')"
    by (cases a; cases b) auto
  show ?thesis
  proof (rule ccontr)
    assume "a \<noteq> b"
    then have "(y < y' \<or> y = y' \<and> (m < m' \<or> m = m' \<and> d < d')) \<or>
      (y' < y \<or> y' = y \<and> (m' < m \<or> m' = m \<and> d' < d))" unfolding ab by auto
    with less [of y m d y' m' d'] less [of y' m' d' y m d] assms show False
      unfolding ab by auto
  qed
qed

lemma date_of_set_date [simp]: "date_of (set_date d c) = d"
  by (cases d) (simp add: date_of_def set_date_def)

lemma date_of_time [simp]:
  "date_of (c\<lparr>mo_hour := h\<rparr>) = date_of c" "date_of (c\<lparr>mo_minute := m\<rparr>) = date_of c"
  "date_of (c\<lparr>mo_second := s\<rparr>) = date_of c" "date_of (c\<lparr>mo_micro := u\<rparr>) = date_of c"
  by (simp_all add: date_of_def)

lemma time_of_set_date [simp]:
  "mo_hour (set_date d c) = mo_hour c" "mo_minute (set_date d c) = mo_minute c"
  "mo_second (set_date d c) = mo_second c" "mo_micro (set_date d c) = mo_micro c"
  by (cases d; simp add: set_date_def)+

lemma date_of_add_day [simp]: "date_of (add_day c) = next_date (date_of c)"
  by (simp add: add_day_def)

lemma time_of_add_day [simp]:
  "mo_hour (add_day c) = mo_hour c" "mo_minute (add_day c) = mo_minute c"
  "mo_second (add_day c) = mo_second c" "mo_micro (add_day c) = mo_micro c"
  by (simp_all add: add_day_def)

text \<open>Days of the week follow one another: a fact the cron rule relies on.\<close>

lemma weekday_add_day: "valid_moment c \<Longrightarrow> weekday (add_day c) = (weekday c + 1) mod 7"
  by (simp add: weekday_def valid_moment_def ordinal_next_date) presburger

text \<open>Minutes since the first of January of year one.\<close>

definition minute_stamp :: "moment \<Rightarrow> nat" where
  "minute_stamp c = (ordinal (date_of c) * 24 + mo_hour c) * 60 + mo_minute c"

lemma minute_stamp_add_minute: "valid_moment c \<Longrightarrow> minute_stamp (add_minute c) = Suc (minute_stamp c)"
  by (auto simp: minute_stamp_def add_minute_def valid_moment_def ordinal_next_date)

lemma valid_add_minute: "valid_moment c \<Longrightarrow> valid_moment (add_minute c)"
  by (auto simp: add_minute_def valid_moment_def valid_next_date)

lemma valid_next_day: "valid_moment c \<Longrightarrow> valid_moment (next_day c)"
  by (auto simp: next_day_def valid_moment_def valid_next_date)

lemma radix_eq:
  assumes "a * n + b = c * n + (d :: nat)" and "b < n" and "d < n"
  shows "a = c \<and> b = d"
proof -
  have "(a * n + b) div n = (c * n + d) div n" "(a * n + b) mod n = (c * n + d) mod n"
    by (simp_all only: assms(1))
  with assms(2,3) show ?thesis by simp
qed

lemma minute_stamp_eq:
  assumes "valid_moment a" and "valid_moment b"
  shows "minute_stamp a = minute_stamp b \<longleftrightarrow>
    date_of a = date_of b \<and> mo_hour a = mo_hour b \<and> mo_minute a = mo_minute b"
proof
  assume "minute_stamp a = minute_stamp b"
  then have m: "ordinal (date_of a) * 24 + mo_hour a = ordinal (date_of b) * 24 + mo_hour b \<and>
      mo_minute a = mo_minute b"
    using assms by (intro radix_eq [of _ 60]) (auto simp: minute_stamp_def valid_moment_def)
  then have "ordinal (date_of a) = ordinal (date_of b) \<and> mo_hour a = mo_hour b"
    using assms by (intro radix_eq [of _ 24]) (auto simp: valid_moment_def)
  then show "date_of a = date_of b \<and> mo_hour a = mo_hour b \<and> mo_minute a = mo_minute b"
    using assms m ordinal_inj by (auto simp: valid_moment_def)
qed (simp add: minute_stamp_def)

subsection \<open>The search as the first of a list\<close>

definition time_slots :: "nat \<Rightarrow> nat \<Rightarrow> nat list \<Rightarrow> moment \<Rightarrow> nat \<Rightarrow> moment list" where
  "time_slots fh fm ms c h =
     map (\<lambda>m. c\<lparr>mo_hour := h, mo_minute := m\<rparr>) (filter (\<lambda>m. fh < h \<or> fh = h \<and> fm \<le> m) ms)"

definition day_slots :: "cron_expression \<Rightarrow> bool \<Rightarrow> moment \<Rightarrow> moment list" where
  "day_slots e first c =
     (if matches_date e c
      then concat (map
        (time_slots (if first then mo_hour c else 0) (if first then mo_minute c else 0) (cr_minutes e) c)
        (cr_hours e))
      else [])"

definition cron_slots :: "cron_expression \<Rightarrow> moment \<Rightarrow> nat \<Rightarrow> moment list" where
  "cron_slots e c n = concat (map (\<lambda>k. day_slots e (k = 0) ((next_day ^^ k) c)) [0..<n])"

abbreviation first_after :: "wall \<Rightarrow> seconds \<Rightarrow> moment list \<Rightarrow> seconds option" where
  "first_after w after cs \<equiv> find (\<lambda>t. after < t) (map (epoch_of w) cs)"

lemma find_append: "find P (xs @ ys) = (case find P xs of None \<Rightarrow> find P ys | Some x \<Rightarrow> Some x)"
  by (induction xs) auto

lemma try_minutes_find:
  "fh \<le> h \<Longrightarrow> try_minutes w after c fh fm h ms = first_after w after (time_slots fh fm ms c h)"
  by (induction ms) (auto simp: time_slots_def Let_def)

lemma try_hours_find:
  "try_hours w after c fh fm ms hs = first_after w after (concat (map (time_slots fh fm ms c) hs))"
proof (induction hs)
  case (Cons h hs)
  have "h < fh \<Longrightarrow> time_slots fh fm ms c h = []" by (auto simp: time_slots_def)
  then show ?case using Cons try_minutes_find [of fh h w after c fm ms]
    by (simp add: find_append split: option.splits)
qed simp

lemma cron_walk_step:
  "cron_walk e after w (Suc n) first c =
     (case first_after w after (day_slots e first c) of
        Some t \<Rightarrow> Some t | None \<Rightarrow> cron_walk e after w n False (next_day c))"
  by (simp add: try_hours_find day_slots_def Let_def split: option.splits)

lemma next_day_hour [simp]: "mo_hour (next_day c) = 0" "mo_minute (next_day c) = 0"
  by (simp_all add: next_day_def)

lemma cron_walk_later:
  "cron_walk e after w n False c =
     first_after w after (concat (map (\<lambda>k. day_slots e False ((next_day ^^ k) c)) [0..<n]))"
proof (induction n arbitrary: c)
  case (Suc n)
  have "[0..<Suc n] = 0 # map Suc [0..<n]" by (simp add: map_Suc_upt upt_conv_Cons)
  then show ?case
    by (simp add: cron_walk_step find_append Suc.IH funpow_swap1 comp_def del: upt_Suc cron_walk.simps(2)
        split: option.splits)
qed simp

lemma cron_walk_first:
  "cron_walk e after w n True c = first_after w after (cron_slots e c n)"
proof (cases n)
  case (Suc k)
  have "[0..<Suc k] = 0 # map Suc [0..<k]" by (simp add: map_Suc_upt upt_conv_Cons)
  then show ?thesis
    unfolding Suc cron_walk_step cron_walk_later cron_slots_def
    by (simp add: find_append funpow_swap1 comp_def del: upt_Suc split: option.splits)
qed (simp add: cron_slots_def)

lemma next_cron_fire_find:
  "next_cron_fire e after w = first_after w after (cron_slots e (first_cursor w after) cron_search_days)"
  unfolding next_cron_fire_def by (rule cron_walk_first)

subsection \<open>What the slots are\<close>

lemma next_day_parts [simp]:
  "date_of (next_day c) = next_date (date_of c)"
  "mo_second (next_day c) = mo_second c" "mo_micro (next_day c) = mo_micro c"
  by (simp_all add: next_day_def)

lemma nth_day:
  assumes "valid_moment c"
  shows "valid_moment ((next_day ^^ k) c)"
    and "ordinal (date_of ((next_day ^^ k) c)) = ordinal (date_of c) + k"
    and "mo_second ((next_day ^^ k) c) = mo_second c"
    and "mo_micro ((next_day ^^ k) c) = mo_micro c"
proof -
  have "valid_moment ((next_day ^^ k) c) \<and> ordinal (date_of ((next_day ^^ k) c)) = ordinal (date_of c) + k \<and>
    mo_second ((next_day ^^ k) c) = mo_second c \<and> mo_micro ((next_day ^^ k) c) = mo_micro c"
  proof (induction k)
    case (Suc k)
    then have v: "valid_date (date_of ((next_day ^^ k) c))" by (simp add: valid_moment_def)
    from Suc valid_next_day [of "(next_day ^^ k) c"] ordinal_next_date [OF v] show ?case
      by simp
  qed (simp add: assms)
  then show "valid_moment ((next_day ^^ k) c)" "ordinal (date_of ((next_day ^^ k) c)) = ordinal (date_of c) + k"
    "mo_second ((next_day ^^ k) c) = mo_second c" "mo_micro ((next_day ^^ k) c) = mo_micro c" by auto
qed

lemma matches_date_time [simp]: "matches_date e (c\<lparr>mo_hour := h, mo_minute := m\<rparr>) = matches_date e c"
  by (simp add: matches_date_def weekday_def)

text \<open>A moment of the wall clock the expression names, on the minute.\<close>

definition names_moment :: "cron_expression \<Rightarrow> moment \<Rightarrow> bool" where
  "names_moment e m \<longleftrightarrow>
     valid_moment m \<and> matches_date e m \<and> mo_hour m \<in> set (cr_hours e) \<and>
     mo_minute m \<in> set (cr_minutes e) \<and> mo_second m = 0 \<and> mo_micro m = 0"

definition on_the_minute :: "moment \<Rightarrow> bool" where
  "on_the_minute c \<longleftrightarrow> valid_moment c \<and> mo_second c = 0 \<and> mo_micro c = 0"

lemma day_slots_mem:
  "s \<in> set (day_slots e first c) \<longleftrightarrow>
     matches_date e c \<and>
     (\<exists>h \<in> set (cr_hours e). \<exists>m \<in> set (cr_minutes e).
        s = c\<lparr>mo_hour := h, mo_minute := m\<rparr> \<and>
        (first \<longrightarrow> mo_hour c < h \<or> mo_hour c = h \<and> mo_minute c \<le> m))"
  by (auto simp: day_slots_def time_slots_def)

lemma cron_ok_mem:
  "cron_ok e \<Longrightarrow> h \<in> set (cr_hours e) \<Longrightarrow> h < 24"
  "cron_ok e \<Longrightarrow> m \<in> set (cr_minutes e) \<Longrightarrow> m < 60"
  by (auto simp: cron_ok_def in_bounds_def)

lemma moment_of_date:
  assumes "date_of s = date_of c" and "mo_second s = mo_second c" and "mo_micro s = mo_micro c"
  shows "s = c\<lparr>mo_hour := mo_hour s, mo_minute := mo_minute s\<rparr>"
  using assms by (cases s; cases c) (simp add: date_of_def)

text \<open>The moments between the cursor and the horizon that the expression names, no more and no fewer.\<close>

lemma cron_slots_mem:
  assumes "cron_ok e" and "on_the_minute c"
  shows "s \<in> set (cron_slots e c n) \<longleftrightarrow>
    names_moment e s \<and> minute_stamp c \<le> minute_stamp s \<and> ordinal (date_of s) < ordinal (date_of c) + n"
    (is "?l \<longleftrightarrow> ?r")
proof
  assume ?l
  then obtain k h m where k: "k < n" and d: "matches_date e ((next_day ^^ k) c)"
    and hm: "h \<in> set (cr_hours e)" "m \<in> set (cr_minutes e)"
    and s: "s = ((next_day ^^ k) c)\<lparr>mo_hour := h, mo_minute := m\<rparr>"
    and first: "k = 0 \<Longrightarrow> mo_hour c < h \<or> mo_hour c = h \<and> mo_minute c \<le> m"
    by (auto simp: cron_slots_def day_slots_mem split: if_splits)
  have lt: "h < 24" "m < 60" "mo_hour c < 24" "mo_minute c < 60"
    using hm assms cron_ok_mem by (auto simp: on_the_minute_def valid_moment_def)
  have v: "valid_moment c" using assms(2) by (simp add: on_the_minute_def)
  have "names_moment e s" using nth_day [OF v, of k] d hm lt assms(2)
    by (simp add: names_moment_def s valid_moment_def on_the_minute_def)
  moreover have "ordinal (date_of s) = ordinal (date_of c) + k" using nth_day [OF v] by (simp add: s)
  moreover have "minute_stamp c \<le> minute_stamp s"
    using calculation(2) first lt by (cases "k = 0") (auto simp: minute_stamp_def s)
  ultimately show ?r using k by simp
next
  assume r: ?r
  have v: "valid_moment c" "valid_moment s"
    using assms(2) r by (simp_all add: on_the_minute_def names_moment_def)
  have o: "ordinal (date_of c) \<le> ordinal (date_of s)"
  proof (rule ccontr)
    assume "\<not> ?thesis"
    with r v(2) show False by (auto simp: minute_stamp_def valid_moment_def)
  qed
  define k where "k = ordinal (date_of s) - ordinal (date_of c)"
  have "date_of s = date_of ((next_day ^^ k) c)"
    using v nth_day [OF v(1), of k] o by (intro ordinal_inj) (auto simp: valid_moment_def k_def)
  moreover have "mo_second s = 0" "mo_micro s = 0" using r by (simp_all add: names_moment_def)
  ultimately have s: "s = ((next_day ^^ k) c)\<lparr>mo_hour := mo_hour s, mo_minute := mo_minute s\<rparr>"
    using nth_day [OF v(1), of k] assms(2) by (intro moment_of_date) (auto simp: on_the_minute_def)
  have "mo_hour c < mo_hour s \<or> mo_hour c = mo_hour s \<and> mo_minute c \<le> mo_minute s" if "k = 0"
  proof -
    have "ordinal (date_of s) = ordinal (date_of c)" using that o by (simp add: k_def)
    with r v show ?thesis by (auto simp: minute_stamp_def valid_moment_def)
  qed
  moreover have "matches_date e ((next_day ^^ k) c)"
    using r s by (metis matches_date_time names_moment_def)
  ultimately have "s \<in> set (day_slots e (k = 0) ((next_day ^^ k) c))"
    using r s by (cases "k = 0") (auto simp: day_slots_mem names_moment_def)
  moreover have "k < n" using r o unfolding k_def by linarith
  ultimately show ?l by (auto simp: cron_slots_def)
qed

subsection \<open>The slots are in order\<close>

abbreviation before :: "moment \<Rightarrow> moment \<Rightarrow> bool" where
  "before a b \<equiv> minute_stamp a < minute_stamp b"

lemma sorted_wrt_concat_map:
  assumes "\<And>x. x \<in> set xs \<Longrightarrow> sorted_wrt R (f x)"
    and "sorted_wrt (\<lambda>x y. \<forall>a \<in> set (f x). \<forall>b \<in> set (f y). R a b) xs"
  shows "sorted_wrt R (concat (map f xs))"
  using assms by (induction xs) (auto simp: sorted_wrt_append)

lemma strict_sorted: "sorted (ns :: nat list) \<Longrightarrow> distinct ns \<Longrightarrow> sorted_wrt (<) ns"
  by (simp add: strict_sorted_iff)

lemma time_slots_sorted:
  assumes "sorted_wrt (<) ms"
  shows "sorted_wrt before (time_slots fh fm ms c h)"
proof -
  have "sorted_wrt (<) (filter P ms)" for P using assms by (rule sorted_wrt_filter)
  then show ?thesis by (simp add: time_slots_def sorted_wrt_map minute_stamp_def)
qed

lemma day_slots_sorted:
  assumes "cron_ok e"
  shows "sorted_wrt before (day_slots e first c)"
proof -
  have s: "sorted_wrt (<) (cr_minutes e)" "sorted_wrt (<) (cr_hours e)"
    using assms by (simp_all add: cron_ok_def strict_sorted)
  have "before a b"
    if "h < h'" "a \<in> set (time_slots fh fm (cr_minutes e) c h)" "b \<in> set (time_slots fh fm (cr_minutes e) c h')"
    for a b h h' fh fm
    using that cron_ok_mem(2) [OF assms] by (fastforce simp: time_slots_def minute_stamp_def)
  with s(2) have "sorted_wrt (\<lambda>h h'. \<forall>a \<in> set (time_slots fh fm (cr_minutes e) c h).
      \<forall>b \<in> set (time_slots fh fm (cr_minutes e) c h'). before a b) (cr_hours e)" for fh fm
    by (auto elim!: sorted_wrt_mono_rel [rotated])
  then show ?thesis
    unfolding day_slots_def by (auto intro!: sorted_wrt_concat_map time_slots_sorted s(1))
qed

lemma day_slots_date: "s \<in> set (day_slots e first c) \<Longrightarrow> date_of s = date_of c"
  by (auto simp: day_slots_mem)

lemma cron_slots_sorted:
  assumes "cron_ok e" and "on_the_minute c"
  shows "sorted_wrt before (cron_slots e c n)"
proof -
  have v: "valid_moment c" using assms(2) by (simp add: on_the_minute_def)
  let ?day = "\<lambda>k. day_slots e (k = 0) ((next_day ^^ k) c)"
  have "before a b" if "k < k'" "k' < n" "a \<in> set (?day k)" "b \<in> set (?day k')" for k k' a b
  proof -
    have "a \<in> set (cron_slots e c n)" using that(1-3) unfolding cron_slots_def by force
    then have "valid_moment a" using cron_slots_mem [OF assms] by (simp add: names_moment_def)
    moreover have "ordinal (date_of a) = ordinal (date_of c) + k" "ordinal (date_of b) = ordinal (date_of c) + k'"
      using that(3,4) [THEN day_slots_date] nth_day(2) [OF v] by simp_all
    ultimately show ?thesis using that(1) by (auto simp: minute_stamp_def valid_moment_def)
  qed
  then have "sorted_wrt (\<lambda>k k'. \<forall>a \<in> set (?day k). \<forall>b \<in> set (?day k'). before a b) [0..<n]"
    by (auto simp: sorted_wrt_iff_nth_less)
  then show ?thesis unfolding cron_slots_def by (intro sorted_wrt_concat_map day_slots_sorted assms(1))
qed

lemma find_sorted:
  "find P xs = Some x \<Longrightarrow> sorted_wrt R xs \<Longrightarrow> y \<in> set xs \<Longrightarrow> P y \<Longrightarrow> x = y \<or> R x y"
  by (induction xs) (auto split: if_splits)

lemma on_the_minute_first_cursor:
  "valid_moment (wall_of w after) \<Longrightarrow> on_the_minute (first_cursor w after)"
  using valid_add_minute [of "(wall_of w after)\<lparr>mo_second := 0, mo_micro := 0\<rparr>"]
  by (simp add: on_the_minute_def first_cursor_def valid_moment_def add_minute_def)

lemma minute_stamp_first_cursor:
  "valid_moment (wall_of w after) \<Longrightarrow> minute_stamp (first_cursor w after) = Suc (minute_stamp (wall_of w after))"
  using minute_stamp_add_minute [of "(wall_of w after)\<lparr>mo_second := 0, mo_micro := 0\<rparr>"]
  by (simp add: first_cursor_def valid_moment_def minute_stamp_def)

subsection \<open>A fixed offset\<close>

text \<open>
  Without daylight saving a later minute of the wall clock is not an earlier instant, and the minute
  an instant falls into does not start after it.
\<close>

definition steady :: "wall \<Rightarrow> bool" where
  "steady w \<longleftrightarrow>
     (\<forall>a b. on_the_minute a \<longrightarrow> on_the_minute b \<longrightarrow> minute_stamp a \<le> minute_stamp b \<longrightarrow> epoch_of w a \<le> epoch_of w b)"

definition reads_minute :: "wall \<Rightarrow> seconds \<Rightarrow> bool" where
  "reads_minute w t \<longleftrightarrow>
     valid_moment (wall_of w t) \<and> epoch_of w ((wall_of w t)\<lparr>mo_second := 0, mo_micro := 0\<rparr>) \<le> t"

lemma fire_parts:
  assumes "cron_ok e" and "valid_moment (wall_of w after)" and "next_cron_fire e after w = Some t"
  shows "after < t \<and> (\<exists>m. names_moment e m \<and> before (wall_of w after) m \<and> t = epoch_of w m)"
proof -
  obtain m where m: "m \<in> set (cron_slots e (first_cursor w after) cron_search_days)" "t = epoch_of w m" "after < t"
    using assms(3) unfolding next_cron_fire_find by (auto simp: find_Some_iff) (metis nth_mem)
  with assms cron_slots_mem [OF assms(1) on_the_minute_first_cursor [OF assms(2)]]
    minute_stamp_first_cursor [OF assms(2)] show ?thesis by auto
qed

lemma fire_earliest:
  assumes "cron_ok e" and "steady w" and "reads_minute w after"
    and "next_cron_fire e after w = Some t" and "names_moment e m" and "after < epoch_of w m"
  shows "t \<le> epoch_of w m"
proof -
  let ?c = "first_cursor w after"
  let ?cs = "cron_slots e ?c cron_search_days"
  let ?f = "(wall_of w after)\<lparr>mo_second := 0, mo_micro := 0\<rparr>"
  have v: "valid_moment (wall_of w after)" and f: "epoch_of w ?f \<le> after"
    using assms(3) by (simp_all add: reads_minute_def)
  have om: "on_the_minute m" "on_the_minute ?f"
    using assms(5) v by (simp_all add: names_moment_def on_the_minute_def valid_moment_def)
  note mono = assms(2) [unfolded steady_def, rule_format]
  have "\<not> minute_stamp m \<le> minute_stamp ?f" using mono [OF om] f assms(6) by fastforce
  then have later: "minute_stamp ?c \<le> minute_stamp m" using minute_stamp_first_cursor [OF v] by (simp add: minute_stamp_def)
  note mem = cron_slots_mem [OF assms(1) on_the_minute_first_cursor [OF v]]
  have fire: "first_after w after ?cs = Some t" using assms(4) by (simp add: next_cron_fire_find)
  have on: "on_the_minute s" if "s \<in> set ?cs" for s
    using that by (simp add: mem names_moment_def on_the_minute_def)
  show ?thesis
  proof (cases "m \<in> set ?cs")
    case True
    have "sorted_wrt (\<lambda>a b. epoch_of w a \<le> epoch_of w b) ?cs"
      using cron_slots_sorted [OF assms(1) on_the_minute_first_cursor [OF v], of cron_search_days] mono on
      by (auto elim!: sorted_wrt_mono_rel [rotated])
    then have "sorted_wrt (\<le>) (map (epoch_of w) ?cs)" by (simp add: sorted_wrt_map)
    from find_sorted [OF fire this, of "epoch_of w m"] True assms(6) show ?thesis by auto
  next
    case False
    obtain s where s: "s \<in> set ?cs" "t = epoch_of w s"
      using fire by (auto simp: find_Some_iff) (metis nth_mem)
    have "ordinal (date_of s) < ordinal (date_of m)"
      using False later s(1) assms(5) by (simp add: mem)
    then have "minute_stamp s \<le> minute_stamp m" using on [OF s(1)] by (auto simp: minute_stamp_def on_the_minute_def valid_moment_def)
    with mono [OF on [OF s(1)] om(1)] s(2) show ?thesis by simp
  qed
qed

lemma never_matches:
  assumes "\<not> cr_dow_restricted e"
    and "\<And>y m d. m \<in> set (cr_months e) \<Longrightarrow> d \<in> set (cr_days_of_month e) \<Longrightarrow> month_days y m < d"
    and "valid_moment c"
  shows "\<not> matches_date e c"
  using assms(1,3) assms(2) [of "mo_month c" "mo_day c" "mo_year c"]
  by (auto simp: matches_date_def valid_moment_def valid_date_def date_of_def Let_def)

lemma month_days_leap: "month_days y m \<le> month_days 4 m"
  by (simp add: month_days_def is_leap_def)

lemma fire_never:
  assumes "cron_ok e" and "\<not> cr_dow_restricted e"
    and "\<forall>m \<in> set (cr_months e). \<forall>d \<in> set (cr_days_of_month e). month_days 4 m < d"
    and "valid_moment (wall_of w after)"
  shows "next_cron_fire e after w = None"
proof (rule ccontr)
  assume "\<not> ?thesis"
  then obtain t where "next_cron_fire e after w = Some t" by auto
  from fire_parts [OF assms(1,4) this] obtain m where "names_moment e m" by blast
  moreover have "\<And>y m d. m \<in> set (cr_months e) \<Longrightarrow> d \<in> set (cr_days_of_month e) \<Longrightarrow> month_days y m < d"
    using assms(3) month_days_leap order.strict_trans1 by blast
  ultimately show False using never_matches [OF assms(2)] by (auto simp: names_moment_def)
qed

text \<open>UTC from 1970 on.\<close>

definition utc_moment :: "seconds \<Rightarrow> moment" where
  "utc_moment t =
     (let n = nat \<lfloor>t\<rfloor>; s = n mod 86400;
          (y, m, d) = (next_date ^^ (n div 86400)) (1970, 1, 1)
      in \<lparr>mo_year = y, mo_month = m, mo_day = d, mo_hour = s div 3600, mo_minute = s mod 3600 div 60,
          mo_second = s mod 60, mo_micro = nat \<lfloor>(t - of_int \<lfloor>t\<rfloor>) * 1000000\<rfloor>\<rparr>)"

definition utc_epoch :: "moment \<Rightarrow> seconds" where
  "utc_epoch c =
     of_int ((int (minute_stamp c) - 1035594720) * 60 + int (mo_second c)) + of_nat (mo_micro c) / 1000000"

definition utc :: wall where
  "utc = \<lparr>wall_of = utc_moment, epoch_of = utc_epoch\<rparr>"

lemma steady_utc: "steady utc"
  by (auto simp: steady_def utc_def utc_epoch_def on_the_minute_def)

subsection \<open>Properties\<close>

text \<open>
  The walk over days with its early returns is the first instant later than \<^verbatim>\<open>after\<close> in the list of
  all wall moments the expression names between the cursor and the horizon, in calendar order.
\<close>

theorem cron_walk_is_first_in_order:
  assumes "parse_cron s = Inr e" and "valid_moment (wall_of w after)"
  shows "next_cron_fire e after w =
      first_after w after (cron_slots e (first_cursor w after) cron_search_days) \<and>
    sorted_wrt before (cron_slots e (first_cursor w after) cron_search_days) \<and>
    (\<forall>m. m \<in> set (cron_slots e (first_cursor w after) cron_search_days) \<longleftrightarrow>
       names_moment e m \<and> minute_stamp (wall_of w after) < minute_stamp m \<and>
       ordinal (date_of m) < ordinal (date_of (first_cursor w after)) + cron_search_days)"
  using cron_slots_sorted [OF parse_cron_ok [OF assms(1)] on_the_minute_first_cursor [OF assms(2)]]
    cron_slots_mem [OF parse_cron_ok [OF assms(1)] on_the_minute_first_cursor [OF assms(2)]]
    minute_stamp_first_cursor [OF assms(2)]
  by (simp add: next_cron_fire_find Suc_le_eq)

lemma day_of_stamp: "mo_hour c < 24 \<Longrightarrow> mo_minute c < 60 \<Longrightarrow> ordinal (date_of c) = minute_stamp c div 1440"
  by (simp add: minute_stamp_def)

lemma search_covers:
  assumes ok: "cron_ok e" and st: "steady w" and r: "reads_minute w after"
    and none: "next_cron_fire e after w = None" and m: "names_moment e m" "after < epoch_of w m"
  shows "ordinal (date_of (wall_of w after)) + cron_search_days \<le> ordinal (date_of m)"
proof -
  let ?c = "first_cursor w after"
  let ?f = "(wall_of w after)\<lparr>mo_second := 0, mo_micro := 0\<rparr>"
  have v: "valid_moment (wall_of w after)" and f: "epoch_of w ?f \<le> after" using r by (simp_all add: reads_minute_def)
  have om: "on_the_minute m" "on_the_minute ?f"
    using m v by (simp_all add: names_moment_def on_the_minute_def valid_moment_def)
  have "\<not> minute_stamp m \<le> minute_stamp ?f" using st [unfolded steady_def, rule_format, OF om] f m(2) by fastforce
  then have later: "minute_stamp ?c \<le> minute_stamp m" using minute_stamp_first_cursor [OF v] by (simp add: minute_stamp_def)
  have "m \<notin> set (cron_slots e ?c cron_search_days)"
    using none m(2) by (auto simp: next_cron_fire_find find_None_iff)
  with m(1) later have far: "ordinal (date_of ?c) + cron_search_days \<le> ordinal (date_of m)"
    by (simp add: cron_slots_mem [OF ok on_the_minute_first_cursor [OF v]])
  have "on_the_minute ?c" by (rule on_the_minute_first_cursor [OF v])
  then have "ordinal (date_of ?c) = minute_stamp ?c div 1440"
    by (intro day_of_stamp) (simp_all add: on_the_minute_def valid_moment_def)
  moreover have "ordinal (date_of (wall_of w after)) = minute_stamp (wall_of w after) div 1440"
    using v by (intro day_of_stamp) (simp_all add: valid_moment_def)
  ultimately have "ordinal (date_of (wall_of w after)) \<le> ordinal (date_of ?c)"
    using minute_stamp_first_cursor [OF v] by (simp add: div_le_mono)
  with far show ?thesis by simp
qed

text \<open>
  C38. On a clock without daylight saving, within the 1500 days the search covers, no moment the expression
  names is passed over: a fire is one of the moments it names, later than the instant asked about, and the
  earliest of them; and when there is no fire, every later one is at least 1500 days away.
\<close>

theorem cron_fire_is_earliest:
  assumes "parse_cron s = Inr e" and "steady w" and "reads_minute w after"
    and "names_moment e m" and "after < epoch_of w m"
  shows "case next_cron_fire e after w of
      Some t \<Rightarrow> after < t \<and> t \<le> epoch_of w m \<and> (\<exists>m'. names_moment e m' \<and> t = epoch_of w m')
    | None \<Rightarrow> ordinal (date_of (wall_of w after)) + 1500 \<le> ordinal (date_of m)"
proof (cases "next_cron_fire e after w")
  case None
  with search_covers [OF parse_cron_ok [OF assms(1)] assms(2,3) None assms(4,5)] show ?thesis
    by (simp add: cron_search_days_def)
next
  case (Some t)
  have v: "valid_moment (wall_of w after)" using assms(3) by (simp add: reads_minute_def)
  from Some fire_earliest [OF parse_cron_ok [OF assms(1)] assms(2,3) Some assms(4,5)]
    fire_parts [OF parse_cron_ok [OF assms(1)] v Some] show ?thesis by auto
qed

text \<open>
  The search ends on an expression that never happens: if every named day of month is too late
  for every named month even in a leap year, the answer is that there is no next fire.
\<close>

theorem impossible_dates_never_fire:
  assumes "parse_cron s = Inr e" and "\<not> cr_dow_restricted e"
    and "\<forall>m \<in> set (cr_months e). \<forall>d \<in> set (cr_days_of_month e). month_days 4 m < d"
    and "valid_moment (wall_of w after)"
  shows "next_cron_fire e after w = None"
  by (rule fire_never [OF parse_cron_ok [OF assms(1)] assms(2-4)])

subsection \<open>Witnesses\<close>

definition first_or_monday :: cron_expression where
  "first_or_monday =
     \<lparr>cr_minutes = [0, 30], cr_hours = [9], cr_days_of_month = [1], cr_months = [1, 2, 3, 4, 5, 6, 7, 8, 9, 10, 11, 12],
      cr_days_of_week = [1], cr_dom_restricted = True, cr_dow_restricted = True,
      cr_source = ''*/30 9 1 * mon''\<rparr>"

lemma parse_first_or_monday: "parse_cron ''*/30 9  1 * mon '' = Inr first_or_monday"
  by code_simp

definition february_30 :: cron_expression where
  "february_30 =
     \<lparr>cr_minutes = [30], cr_hours = [2], cr_days_of_month = [30], cr_months = [2],
      cr_days_of_week = [0, 1, 2, 3, 4, 5, 6], cr_dom_restricted = True, cr_dow_restricted = False,
      cr_source = ''30 2 30 2 *''\<rparr>"

lemma parse_february_30: "parse_cron ''30 2 30 2 *'' = Inr february_30"
  by code_simp

text \<open>
  1970-01-01 was a Thursday. At 09:10:05 that day, the first of the month, the next slot is 09:30; the
  one after it is 09:00 on Monday the fifth.
\<close>

lemmas calendar_eval =
  utc_def utc_moment_def utc_epoch_def minute_stamp_def ordinal_def days_before_year_def days_before_month_def
  month_days_def is_leap_def date_of_def matches_date_def weekday_def first_or_monday_def

lemma utc_at_33005: "wall_of utc 33005 =
    \<lparr>mo_year = 1970, mo_month = 1, mo_day = 1, mo_hour = 9, mo_minute = 10, mo_second = 5, mo_micro = 0\<rparr>"
  by (simp add: utc_def utc_moment_def)

lemma reads_33005: "reads_minute utc 33005"
  by (simp add: reads_minute_def utc_at_33005) (simp add: calendar_eval valid_moment_def valid_date_def)

lemma first_or_monday_fires: "next_cron_fire first_or_monday 33005 utc = Some 34200"
proof -
  have c: "first_cursor utc 33005 =
      \<lparr>mo_year = 1970, mo_month = 1, mo_day = 1, mo_hour = 9, mo_minute = 11, mo_second = 0, mo_micro = 0\<rparr>"
    by (simp add: first_cursor_def utc_at_33005 add_minute_def)
  have n: "cron_search_days = Suc 1499" by (simp add: cron_search_days_def)
  show ?thesis
    unfolding next_cron_fire_def n c cron_walk.simps
    by (simp add: calendar_eval Let_def)
qed

lemma valid_33005: "valid_moment (wall_of utc 33005)"
  using reads_33005 by (simp add: reads_minute_def)

lemma cron_walk_is_first_in_order_witness:
  "first_after utc 33005 (cron_slots first_or_monday (first_cursor utc 33005) cron_search_days) = Some 34200"
  using cron_walk_is_first_in_order [OF parse_first_or_monday valid_33005] first_or_monday_fires by simp

definition monday_nine :: moment where
  "monday_nine = \<lparr>mo_year = 1970, mo_month = 1, mo_day = 5, mo_hour = 9, mo_minute = 0, mo_second = 0, mo_micro = 0\<rparr>"

lemma cron_fire_is_earliest_witness: "(34200 :: seconds) \<le> epoch_of utc monday_nine"
proof -
  have "names_moment first_or_monday monday_nine"
    by (simp add: names_moment_def monday_nine_def valid_moment_def valid_date_def calendar_eval Let_def)
  moreover have "33005 < epoch_of utc monday_nine"
    by (simp add: monday_nine_def calendar_eval)
  ultimately show ?thesis
    using cron_fire_is_earliest [OF parse_first_or_monday steady_utc reads_33005] first_or_monday_fires by fastforce
qed

lemma impossible_dates_never_fire_witness: "next_cron_fire february_30 33005 utc = None"
  by (rule impossible_dates_never_fire [OF parse_february_30 _ _ valid_33005])
    (simp_all add: february_30_def month_days_def is_leap_def)

end
