(* ===== verification/Schedules.thy ===== *)
theory Schedules
  imports Cron
begin

text \<open>
  The rest of \<^verbatim>\<open>schedules.py\<close>: the definition of a schedule, its validation from a request body, and
  the next time it fires. Times are seconds since the epoch. The table of agent harnesses, the time
  zone database and the host's clock are parameters, and so is how Python prints floats and
  containers.
\<close>

subsection \<open>Parameters and bounds\<close>

record schedule_env =
  agent_harness :: "string \<Rightarrow> bool"
  host_wall :: wall
  zone_wall :: "string \<Rightarrow> wall option"
  py_repr :: "pyval \<Rightarrow> string"

definition trigger_kinds :: "string list" where
  "trigger_kinds = [''once'', ''interval'', ''cron'']"

definition overlap_policies :: "string list" where
  "overlap_policies = [''skip'', ''allow'']"

definition schedule_actions :: "string list" where
  "schedule_actions = [''spawn'', ''resume'']"

definition target_kinds :: "string list" where
  "target_kinds = [''run'', ''latest_of_session'', ''fork_point'']"

definition cut_modes :: "string list" where
  "cut_modes = [''before'', ''after'']"

definition max_label_chars :: nat where "max_label_chars = 80"
definition max_prompt_chars :: nat where "max_prompt_chars = 100000"
definition max_follow_ups :: nat where "max_follow_ups = 20"
definition max_follow_up_chars :: nat where "max_follow_up_chars = 100000"
definition min_interval_seconds :: seconds where "min_interval_seconds = 300"
definition max_interval_seconds :: seconds where "max_interval_seconds = 90 * 86400"
definition max_once_horizon_seconds :: seconds where "max_once_horizon_seconds = 365 * 86400"
definition max_follow_up_delay_seconds :: seconds where "max_follow_up_delay_seconds = 7 * 86400"
definition max_resume_once_horizon_seconds :: seconds where
  "max_resume_once_horizon_seconds = 21 * 86400"
definition default_context_ceiling_pct :: rat where "default_context_ceiling_pct = 7 / 10"

definition resolve_wall :: "schedule_env \<Rightarrow> string \<Rightarrow> schedule_error + wall" where
  "resolve_wall env tz =
     (if tz = [] then Inr (host_wall env)
      else
        (case zone_wall env tz of
           Some w \<Rightarrow> Inr w
         | None \<Rightarrow> schedule_error ''invalid_timezone''
             [(''timezone'', ''must be an IANA timezone name, or empty for this host'')]))"

subsection \<open>The specification record\<close>

record follow_up =
  fu_body :: string
  fu_delay_seconds :: seconds
  fu_armed :: bool

text \<open>
  The moment of a \<^verbatim>\<open>once\<close> trigger, a float: epoch seconds, or not-a-number, which the horizon test lets
  through because no comparison with it is true.
\<close>

datatype epoch_time =
    Epoch seconds
  | Not_A_Number

record schedule_spec =
  sp_label :: string
  sp_prompt :: string
  sp_trigger_kind :: string
  sp_cron :: string
  sp_interval_seconds :: "seconds option"
  sp_run_at :: "epoch_time option"
  sp_timezone :: string
  sp_catch_up :: bool
  sp_overlap :: string
  sp_backend :: string
  sp_profile_id :: string
  sp_cwd :: string
  sp_session_name :: string
  sp_daily_run_cap :: int
  sp_follow_ups :: "follow_up list"
  sp_action :: string
  sp_target_run_id :: string
  sp_target_kind :: string
  sp_target_cut_message_id :: string
  sp_target_cut_mode :: string
  sp_context_ceiling_pct :: rat

definition follow_up_as_dict :: "follow_up \<Rightarrow> pydict" where
  "follow_up_as_dict f =
     [(''body'', PStr (fu_body f)), (''delay_seconds'', PFloat (fu_delay_seconds f)),
      (''armed'', PBool (fu_armed f))]"

definition opt_float :: "rat option \<Rightarrow> pyval" where
  "opt_float r = (case r of None \<Rightarrow> PNone | Some x \<Rightarrow> PFloat x)"

definition run_at_value :: "epoch_time option \<Rightarrow> pyval" where
  "run_at_value t = (case t of None \<Rightarrow> PNone | Some (Epoch x) \<Rightarrow> PFloat x | Some Not_A_Number \<Rightarrow> PNaN)"

definition spec_as_dict :: "schedule_spec \<Rightarrow> pydict" where
  "spec_as_dict s =
     [(''label'', PStr (sp_label s)), (''prompt'', PStr (sp_prompt s)),
      (''trigger_kind'', PStr (sp_trigger_kind s)), (''cron'', PStr (sp_cron s)),
      (''interval_seconds'', opt_float (sp_interval_seconds s)),
      (''run_at'', run_at_value (sp_run_at s)), (''timezone'', PStr (sp_timezone s)),
      (''catch_up'', PBool (sp_catch_up s)), (''overlap'', PStr (sp_overlap s)),
      (''backend'', PStr (sp_backend s)), (''profile_id'', PStr (sp_profile_id s)),
      (''cwd'', PStr (sp_cwd s)), (''session_name'', PStr (sp_session_name s)),
      (''daily_run_cap'', PInt (sp_daily_run_cap s)),
      (''follow_ups'', PList (map (\<lambda>f. PDict (follow_up_as_dict f)) (sp_follow_ups s))),
      (''action'', PStr (sp_action s)), (''target_run_id'', PStr (sp_target_run_id s)),
      (''target_kind'', PStr (sp_target_kind s)),
      (''target_cut_message_id'', PStr (sp_target_cut_message_id s)),
      (''target_cut_mode'', PStr (sp_target_cut_mode s)),
      (''context_ceiling_pct'', PFloat (sp_context_ceiling_pct s))]"

subsection \<open>Fields\<close>

text \<open>The texts of the field hints are carried as the code writes them; \<open>hint\<close> builds a one-field map.\<close>

abbreviation reject :: "string \<Rightarrow> string \<Rightarrow> string \<Rightarrow> schedule_error + 'a" where
  "reject c name hint \<equiv> schedule_error c [(name, hint)]"

definition at_most_chars :: "nat \<Rightarrow> string" where
  "at_most_chars n = ''at most '' @ decimal n @ '' characters''"

definition text_field :: "pyval \<Rightarrow> string \<Rightarrow> nat \<Rightarrow> bool \<Rightarrow> schedule_error + string" where
  "text_field body name limit required =
     bind_err
       (case body of
          PNone \<Rightarrow> Inr ''''
        | PStr s \<Rightarrow> Inr (strip s)
        | _ \<Rightarrow> reject ''invalid_field'' name ''must be text'')
       (\<lambda>value.
        if required \<and> value = '''' then reject ''invalid_field'' name ''is required''
        else if limit < length value then reject ''invalid_field'' name (at_most_chars limit)
        else Inr value)"

text \<open>\<^verbatim>\<open>str(body.get(name) or dflt).strip()\<close>.\<close>

definition choice_text :: "schedule_env \<Rightarrow> pydict \<Rightarrow> string \<Rightarrow> string \<Rightarrow> string" where
  "choice_text env body name dflt =
     (let v = py_get body name in
      strip (if truthy v then py_to_str (py_repr env) v else dflt))"

definition follow_up_name :: "nat \<Rightarrow> string" where
  "follow_up_name i = ''follow_ups['' @ decimal i @ ''].body''"

definition parse_follow_up :: "nat \<Rightarrow> pyval \<Rightarrow> schedule_error + follow_up" where
  "parse_follow_up i entry0 =
     (let entry = (case entry0 of PStr s \<Rightarrow> PDict [(''body'', PStr s)] | v \<Rightarrow> v) in
      case entry of
        PDict d \<Rightarrow>
          bind_err (text_field (py_get d ''body'') (follow_up_name i) max_follow_up_chars True) (\<lambda>body.
          let delay = (if truthy (py_get d ''delay_seconds'') then py_get d ''delay_seconds'' else PInt 0) in
          case py_number delay of
            None \<Rightarrow> schedule_error ''invalid_follow_ups'' []
          | Some x \<Rightarrow>
              if 0 \<le> x \<and> x \<le> max_follow_up_delay_seconds
              then Inr \<lparr>fu_body = body, fu_delay_seconds = x, fu_armed = truthy (py_get d ''armed'')\<rparr>
              else schedule_error ''invalid_follow_ups'' [])
      | _ \<Rightarrow> schedule_error ''invalid_follow_ups'' [])"

fun parse_each :: "nat \<Rightarrow> pyval list \<Rightarrow> schedule_error + follow_up list" where
  "parse_each i [] = Inr []"
| "parse_each i (x # xs) =
     bind_err (parse_follow_up i x) (\<lambda>f. bind_err (parse_each (Suc i) xs) (\<lambda>fs. Inr (f # fs)))"

definition parse_follow_ups :: "pyval \<Rightarrow> schedule_error + follow_up list" where
  "parse_follow_ups raw =
     (case raw of
        PNone \<Rightarrow> Inr []
      | PList xs \<Rightarrow>
          if max_follow_ups < length xs
          then reject ''invalid_follow_ups'' ''follow_ups'' (''at most '' @ decimal max_follow_ups @ '' messages'')
          else parse_each 0 xs
      | _ \<Rightarrow> reject ''invalid_follow_ups'' ''follow_ups'' ''must be a list'')"

subsection \<open>What a resume names\<close>

record schedule_target =
  tg_run_id :: string
  tg_kind :: string
  tg_cut_message_id :: string
  tg_cut_mode :: string
  tg_context_ceiling_pct :: rat

definition no_target :: schedule_target where
  "no_target = \<lparr>tg_run_id = '''', tg_kind = ''run'', tg_cut_message_id = '''', tg_cut_mode = '''',
     tg_context_ceiling_pct = 0\<rparr>"

text \<open>Refuse the first of some fields that is set.\<close>

fun refuse_set :: "schedule_env \<Rightarrow> (string \<times> string \<times> pyval) list \<Rightarrow> string \<Rightarrow> schedule_error + unit" where
  "refuse_set env [] hint = Inr ()"
| "refuse_set env ((c, name, v) # rest) hint =
     (if strip (if truthy v then py_to_str (py_repr env) v else '''') \<noteq> ''''
      then reject c name hint
      else refuse_set env rest hint)"

definition parse_cut :: "schedule_env \<Rightarrow> pydict \<Rightarrow> string \<Rightarrow> schedule_error + (string \<times> string)" where
  "parse_cut env body kind =
     (if kind \<noteq> ''fork_point'' then Inr ('''', '''')
      else
        bind_err (text_field (py_get body ''target_cut_message_id'') ''target_cut_message_id'' 200 True) (\<lambda>m.
        let mode = choice_text env body ''target_cut_mode'' '''' in
        if mode \<notin> set cut_modes then reject ''invalid_target'' ''target_cut_mode'' ''must be before or after''
        else Inr (m, mode)))"

definition parse_ceiling :: "pydict \<Rightarrow> string \<Rightarrow> schedule_error + rat" where
  "parse_ceiling body kind =
     (let v = py_get body ''context_ceiling_pct'';
          ceiling = (if v = PNone
            then PFloat (if kind = ''latest_of_session'' then default_context_ceiling_pct else 0) else v)
      in if ceiling = PNaN then reject ''invalid_target'' ''context_ceiling_pct'' ''must be between 0 and 1''
         else (case py_number ceiling of
           None \<Rightarrow> reject ''invalid_target'' ''context_ceiling_pct'' ''must be a number between 0 and 1''
         | Some x \<Rightarrow>
             if 0 \<le> x \<and> x \<le> 1 then Inr (if kind = ''latest_of_session'' then x else 0)
             else reject ''invalid_target'' ''context_ceiling_pct'' ''must be between 0 and 1''))"

definition parse_target :: "schedule_env \<Rightarrow> pydict \<Rightarrow> bool \<Rightarrow> schedule_error + schedule_target" where
  "parse_target env body resuming =
     (if \<not> resuming then
        bind_err
          (refuse_set env
             (map (\<lambda>n. (''invalid_target'', n, py_get body n))
                [''target_run_id'', ''target_kind'', ''target_cut_message_id''])
             ''only applies to a resume'')
          (\<lambda>_. Inr no_target)
      else
        bind_err (text_field (py_get body ''target_run_id'') ''target_run_id'' 120 True) (\<lambda>run_id.
        let kind = choice_text env body ''target_kind'' ''run'' in
        if kind \<notin> set target_kinds then reject ''invalid_target'' ''target_kind'' ''unknown target''
        else
          bind_err (parse_cut env body kind) (\<lambda>(m, mode).
          bind_err (parse_ceiling body kind) (\<lambda>ceiling.
          Inr \<lparr>tg_run_id = run_id, tg_kind = kind, tg_cut_message_id = m, tg_cut_mode = mode,
            tg_context_ceiling_pct = ceiling\<rparr>))))"

subsection \<open>The trigger\<close>

record trigger =
  tr_cron :: string
  tr_interval :: "seconds option"
  tr_run_at :: "epoch_time option"

definition parse_interval :: "pydict \<Rightarrow> schedule_error + seconds" where
  "parse_interval body =
     (if py_get body ''interval_seconds'' = PNaN
      then reject ''invalid_interval'' ''interval_seconds'' ''outside the allowed range''
      else (case py_number (py_get body ''interval_seconds'') of
        None \<Rightarrow> reject ''invalid_interval'' ''interval_seconds'' ''must be a number''
      | Some x \<Rightarrow>
          if min_interval_seconds \<le> x \<and> x \<le> max_interval_seconds then Inr x
          else reject ''invalid_interval'' ''interval_seconds'' ''outside the allowed range''))"

definition once_horizon :: "bool \<Rightarrow> seconds" where
  "once_horizon resuming =
     (if resuming then max_resume_once_horizon_seconds else max_once_horizon_seconds)"

text \<open>\<^verbatim>\<open>x > y\<close> and \<^verbatim>\<open>x <= y\<close> for a float against a finite one: both are false of not-a-number.\<close>

fun later_than :: "epoch_time \<Rightarrow> seconds \<Rightarrow> bool" where
  "later_than (Epoch x) y = (y < x)"
| "later_than Not_A_Number y = False"

fun not_later_than :: "epoch_time \<Rightarrow> seconds \<Rightarrow> bool" where
  "not_later_than (Epoch x) y = (x \<le> y)"
| "not_later_than Not_A_Number y = False"

text \<open>\<^verbatim>\<open>float(x)\<close> of what \<^verbatim>\<open>isinstance\<close> lets through.\<close>

definition as_epoch :: "pyval \<Rightarrow> epoch_time option" where
  "as_epoch v = (if v = PNaN then Some Not_A_Number else map_option Epoch (py_number v))"

definition parse_run_at :: "pydict \<Rightarrow> bool \<Rightarrow> seconds \<Rightarrow> schedule_error + epoch_time" where
  "parse_run_at body resuming now =
     (case as_epoch (py_get body ''run_at'') of
        None \<Rightarrow> reject ''invalid_run_at'' ''run_at'' ''must be epoch seconds''
      | Some t \<Rightarrow>
          if later_than t (now + once_horizon resuming)
          then reject ''invalid_run_at'' ''run_at'' ''too far in the future''
          else Inr t)"

definition parse_trigger ::
  "pydict \<Rightarrow> string \<Rightarrow> bool \<Rightarrow> seconds \<Rightarrow> schedule_error + trigger" where
  "parse_trigger body kind resuming now =
     (if kind = ''cron'' then
        bind_err (text_field (py_get body ''cron'') ''cron'' 200 True) (\<lambda>t.
        bind_err (parse_cron t) (\<lambda>e.
        Inr \<lparr>tr_cron = cr_source e, tr_interval = None, tr_run_at = None\<rparr>))
      else if kind = ''interval'' then
        bind_err (parse_interval body) (\<lambda>x. Inr \<lparr>tr_cron = '''', tr_interval = Some x, tr_run_at = None\<rparr>)
      else
        bind_err (parse_run_at body resuming now) (\<lambda>x.
        Inr \<lparr>tr_cron = '''', tr_interval = None, tr_run_at = Some x\<rparr>))"

definition parse_cap :: "pydict \<Rightarrow> schedule_error + int" where
  "parse_cap body =
     (let v = py_get body ''daily_run_cap'';
          cap = (if truthy v then v else PInt 0)
      in case cap of
           PInt n \<Rightarrow>
             if n < 0 \<or> 500 < n then reject ''invalid_field'' ''daily_run_cap'' ''must be between 0 and 500''
             else Inr n
         | _ \<Rightarrow> reject ''invalid_field'' ''daily_run_cap'' ''must be between 0 and 500'')"

text \<open>The three choices every schedule makes, in the order they are checked.\<close>

definition parse_choices ::
  "schedule_env \<Rightarrow> pydict \<Rightarrow> schedule_error + (string \<times> string \<times> string)" where
  "parse_choices env body =
     (let kind = choice_text env body ''trigger_kind'' ''cron'';
          action = choice_text env body ''action'' ''spawn'';
          overlap = choice_text env body ''overlap'' ''skip''
      in if kind \<notin> set trigger_kinds then reject ''invalid_trigger'' ''trigger_kind'' ''unknown trigger''
         else if action \<notin> set schedule_actions then reject ''invalid_action'' ''action'' ''unknown action''
         else if overlap \<notin> set overlap_policies
         then reject ''invalid_overlap'' ''overlap'' ''must be skip or allow''
         else if action = ''resume'' \<and> overlap \<noteq> ''skip''
         then reject ''invalid_overlap'' ''overlap'' ''must be skip for a resume''
         else Inr (kind, action, overlap))"

definition parse_backend :: "schedule_env \<Rightarrow> pydict \<Rightarrow> schedule_error + string" where
  "parse_backend env body =
     bind_err (text_field (py_get body ''backend'') ''backend'' 40 False) (\<lambda>b.
     if b \<noteq> '''' \<and> \<not> agent_harness env b
     then reject ''invalid_backend'' ''backend'' ''must be a registered agent harness''
     else Inr b)"

definition refuse_on_resume :: "schedule_env \<Rightarrow> pydict \<Rightarrow> bool \<Rightarrow> string \<Rightarrow> schedule_error + unit" where
  "refuse_on_resume env body resuming backend =
     (if resuming then
        refuse_set env
          [(''invalid_backend'', ''backend'', PStr backend),
           (''invalid_profile_id'', ''profile_id'', py_get body ''profile_id''),
           (''invalid_cwd'', ''cwd'', py_get body ''cwd'')]
          ''cannot be set on a resume''
      else Inr ())"

definition parse_spec :: "schedule_env \<Rightarrow> pydict \<Rightarrow> seconds \<Rightarrow> schedule_error + schedule_spec" where
  "parse_spec env body now =
     bind_err (parse_choices env body) (\<lambda>(kind, action, overlap).
     let resuming = (action = ''resume'') in
     bind_err (text_field (py_get body ''timezone'') ''timezone'' 64 False) (\<lambda>timezone.
     bind_err (resolve_wall env timezone) (\<lambda>_.
     bind_err (parse_backend env body) (\<lambda>backend.
     bind_err (parse_target env body resuming) (\<lambda>target.
     bind_err (refuse_on_resume env body resuming backend) (\<lambda>_.
     bind_err (parse_trigger body kind resuming now) (\<lambda>trigger.
     bind_err (parse_cap body) (\<lambda>cap.
     bind_err (text_field (py_get body ''label'') ''label'' max_label_chars True) (\<lambda>label.
     bind_err (text_field (py_get body ''prompt'') ''prompt'' max_prompt_chars True) (\<lambda>prompt.
     bind_err (text_field (py_get body ''profile_id'') ''profile_id'' 120 False) (\<lambda>profile_id.
     bind_err (text_field (py_get body ''cwd'') ''cwd'' 400 False) (\<lambda>cwd.
     bind_err (text_field (py_get body ''session_name'') ''session_name'' max_label_chars False) (\<lambda>session_name.
     bind_err (parse_follow_ups (py_get body ''follow_ups'')) (\<lambda>follow_ups.
     Inr \<lparr>
       sp_label = label, sp_prompt = prompt, sp_trigger_kind = kind, sp_cron = tr_cron trigger,
       sp_interval_seconds = tr_interval trigger, sp_run_at = tr_run_at trigger,
       sp_timezone = timezone, sp_catch_up = truthy (py_get body ''catch_up''),
       sp_overlap = overlap, sp_backend = backend, sp_profile_id = profile_id, sp_cwd = cwd,
       sp_session_name = session_name, sp_daily_run_cap = cap, sp_follow_ups = follow_ups,
       sp_action = action, sp_target_run_id = tg_run_id target, sp_target_kind = tg_kind target,
       sp_target_cut_message_id = tg_cut_message_id target,
       sp_target_cut_mode = tg_cut_mode target,
       sp_context_ceiling_pct = tg_context_ceiling_pct target\<rparr>))))))))))))))"

subsection \<open>When it fires\<close>

definition next_occurrence ::
  "schedule_env \<Rightarrow> schedule_spec \<Rightarrow> seconds \<Rightarrow> schedule_error + epoch_time option" where
  "next_occurrence env spec after =
     (if sp_trigger_kind spec = ''once'' then
        Inr (case sp_run_at spec of
               None \<Rightarrow> None | Some t \<Rightarrow> if not_later_than t after then None else Some t)
      else if sp_trigger_kind spec = ''interval'' then
        Inr (case sp_interval_seconds spec of
               None \<Rightarrow> None | Some d \<Rightarrow> if d = 0 then None else Some (Epoch (after + d)))
      else
        bind_err (parse_cron (sp_cron spec)) (\<lambda>e.
        bind_err (resolve_wall env (sp_timezone spec)) (\<lambda>w.
        Inr (map_option Epoch (next_cron_fire e after w)))))"

definition first_occurrence ::
  "schedule_env \<Rightarrow> schedule_spec \<Rightarrow> seconds \<Rightarrow> schedule_error + epoch_time option" where
  "first_occurrence env spec now =
     (if sp_trigger_kind spec = ''once'' then
        Inr (case sp_run_at spec of
               None \<Rightarrow> None | Some t \<Rightarrow> if t \<noteq> Epoch 0 \<and> later_than t now then Some t else None)
      else next_occurrence env spec now)"

definition occurrence_key :: "seconds \<Rightarrow> string" where
  "occurrence_key t = signed_decimal (\<lfloor>t / 60\<rfloor> * 60)"

subsection \<open>What the validated fields are\<close>

lemma strip_idem [simp]: "strip (strip s) = strip s"
proof -
  have drop: "dropWhile P (dropWhile P xs) = dropWhile P xs" for P and xs :: string
    by (induction xs) auto
  have front: "lstrip (rstrip (lstrip s)) = rstrip (lstrip s)"
  proof (cases "rstrip (lstrip s)")
    case (Cons c cs)
    obtain t where "lstrip s = rstrip (lstrip s) @ t" using rstrip_decomp by blast
    then have "hd (lstrip s) = c" "lstrip s \<noteq> []" using Cons by (metis append_Cons list.sel(1), metis append_is_Nil_conv list.distinct(1))
    then have "\<not> is_space c" unfolding lstrip_def using hd_dropWhile by blast
    then show ?thesis unfolding Cons by (simp add: lstrip_def)
  qed (simp add: lstrip_def)
  then show ?thesis by (simp add: strip_def rstrip_def drop)
qed

lemma strip_Nil [simp]: "strip [] = []"
  by (simp add: strip_def lstrip_def rstrip_def)

lemma text_field_ok:
  "text_field v name limit required = Inr s \<Longrightarrow>
     length s \<le> limit \<and> strip s = s \<and> (required \<longrightarrow> s \<noteq> '''')"
  by (cases v) (auto simp: text_field_def split: if_splits)

definition follow_up_ok :: "follow_up \<Rightarrow> bool" where
  "follow_up_ok f \<longleftrightarrow>
     fu_body f \<noteq> '''' \<and> length (fu_body f) \<le> max_follow_up_chars \<and>
     0 \<le> fu_delay_seconds f \<and> fu_delay_seconds f \<le> max_follow_up_delay_seconds"

lemma parse_follow_up_ok: "parse_follow_up i v = Inr f \<Longrightarrow> follow_up_ok f"
  by (auto simp: parse_follow_up_def Let_def bind_err_Inr follow_up_ok_def
      dest!: text_field_ok split: pyval.splits option.splits if_splits)

lemma parse_each_ok: "parse_each i vs = Inr fs \<Longrightarrow> length fs = length vs \<and> list_all follow_up_ok fs"
  by (induction i vs arbitrary: fs rule: parse_each.induct) (auto simp: bind_err_Inr parse_follow_up_ok)

lemma parse_follow_ups_ok:
  "parse_follow_ups v = Inr fs \<Longrightarrow> length fs \<le> max_follow_ups \<and> list_all follow_up_ok fs"
  by (cases v) (auto simp: parse_follow_ups_def dest: parse_each_ok split: if_splits)

text \<open>
  What a trigger promises, against the moment it was written at: one trigger within its bounds, or a
  single run at a moment that is not a number.
\<close>

definition trigger_ok :: "schedule_spec \<Rightarrow> seconds \<Rightarrow> bool" where
  "trigger_ok s now \<longleftrightarrow>
     (if sp_trigger_kind s = ''cron'' then
        (case parse_cron (sp_cron s) of Inr e \<Rightarrow> cr_source e = sp_cron s | Inl _ \<Rightarrow> False) \<and>
        sp_interval_seconds s = None \<and> sp_run_at s = None
      else if sp_trigger_kind s = ''interval'' then
        (case sp_interval_seconds s of
           Some d \<Rightarrow> min_interval_seconds \<le> d \<and> d \<le> max_interval_seconds | None \<Rightarrow> False) \<and>
        sp_cron s = '''' \<and> sp_run_at s = None
      else
        sp_trigger_kind s = ''once'' \<and> sp_cron s = '''' \<and> sp_interval_seconds s = None \<and>
        (case sp_run_at s of
           Some (Epoch t) \<Rightarrow> t \<le> now + once_horizon (sp_action s = ''resume'')
         | Some Not_A_Number \<Rightarrow> True
         | None \<Rightarrow> False))"

text \<open>A spawn names no conversation; a resume names one and nothing a spawn would choose.\<close>

definition target_ok :: "schedule_spec \<Rightarrow> bool" where
  "target_ok s \<longleftrightarrow>
     (if sp_action s = ''resume'' then
        sp_overlap s = ''skip'' \<and> sp_backend s = '''' \<and> sp_profile_id s = '''' \<and> sp_cwd s = '''' \<and>
        sp_target_run_id s \<noteq> '''' \<and> length (sp_target_run_id s) \<le> 120 \<and>
        sp_target_kind s \<in> set target_kinds \<and>
        (if sp_target_kind s = ''fork_point''
         then sp_target_cut_message_id s \<noteq> '''' \<and> sp_target_cut_mode s \<in> set cut_modes
         else sp_target_cut_message_id s = '''' \<and> sp_target_cut_mode s = '''') \<and>
        0 \<le> sp_context_ceiling_pct s \<and> sp_context_ceiling_pct s \<le> 1 \<and>
        (sp_target_kind s \<noteq> ''latest_of_session'' \<longrightarrow> sp_context_ceiling_pct s = 0)
      else
        sp_action s = ''spawn'' \<and> sp_target_run_id s = '''' \<and> sp_target_kind s = ''run'' \<and>
        sp_target_cut_message_id s = '''' \<and> sp_target_cut_mode s = '''' \<and> sp_context_ceiling_pct s = 0)"

definition texts_ok :: "schedule_spec \<Rightarrow> bool" where
  "texts_ok s \<longleftrightarrow>
     sp_label s \<noteq> '''' \<and> length (sp_label s) \<le> max_label_chars \<and>
     sp_prompt s \<noteq> '''' \<and> length (sp_prompt s) \<le> max_prompt_chars \<and>
     length (sp_timezone s) \<le> 64 \<and> length (sp_backend s) \<le> 40 \<and> length (sp_profile_id s) \<le> 120 \<and>
     length (sp_cwd s) \<le> 400 \<and> length (sp_session_name s) \<le> max_label_chars"

definition spec_ok :: "schedule_env \<Rightarrow> schedule_spec \<Rightarrow> seconds \<Rightarrow> bool" where
  "spec_ok env s now \<longleftrightarrow>
     trigger_ok s now \<and> target_ok s \<and> texts_ok s \<and>
     sp_overlap s \<in> set overlap_policies \<and>
     (sp_backend s = '''' \<or> agent_harness env (sp_backend s)) \<and>
     (sp_timezone s = '''' \<or> zone_wall env (sp_timezone s) \<noteq> None) \<and>
     0 \<le> sp_daily_run_cap s \<and> sp_daily_run_cap s \<le> 500 \<and>
     length (sp_follow_ups s) \<le> max_follow_ups \<and> list_all follow_up_ok (sp_follow_ups s)"

lemma parse_interval_ok:
  "parse_interval b = Inr x \<Longrightarrow> min_interval_seconds \<le> x \<and> x \<le> max_interval_seconds"
  by (auto simp: parse_interval_def split: option.splits if_splits)

lemma parse_run_at_ok: "parse_run_at b r now = Inr x \<Longrightarrow> \<not> later_than x (now + once_horizon r)"
  by (auto simp: parse_run_at_def split: option.splits if_splits)

lemma not_later_cases: "\<not> later_than x y \<longleftrightarrow> x = Not_A_Number \<or> (\<exists>t. x = Epoch t \<and> t \<le> y)"
  by (cases x) auto

lemma parse_cap_ok: "parse_cap b = Inr n \<Longrightarrow> 0 \<le> n \<and> n \<le> 500"
  by (auto simp: parse_cap_def Let_def split: pyval.splits if_splits)

lemma parse_cut_ok:
  "parse_cut env b k = Inr (m, mode) \<Longrightarrow>
     if k = ''fork_point'' then m \<noteq> '''' \<and> mode \<in> set cut_modes else m = '''' \<and> mode = ''''"
  by (auto simp: parse_cut_def Let_def bind_err_Inr dest!: text_field_ok split: if_splits)

lemma parse_ceiling_ok:
  "parse_ceiling b k = Inr x \<Longrightarrow> 0 \<le> x \<and> x \<le> 1 \<and> (k \<noteq> ''latest_of_session'' \<longrightarrow> x = 0)"
  by (auto simp: parse_ceiling_def Let_def split: option.splits if_splits)

lemma refuse_set_ok:
  "refuse_set env fs h = Inr u \<Longrightarrow> (c, n, v) \<in> set fs \<Longrightarrow>
     strip (if truthy v then py_to_str (py_repr env) v else '''') = ''''"
  by (induction env fs h rule: refuse_set.induct) (auto split: if_splits)

lemma parse_choices_ok:
  "parse_choices env b = Inr (k, a, ov) \<Longrightarrow>
     k \<in> set trigger_kinds \<and> a \<in> set schedule_actions \<and> ov \<in> set overlap_policies \<and>
     (a = ''resume'' \<longrightarrow> ov = ''skip'')"
  by (auto simp: parse_choices_def Let_def split: if_splits)

lemma parse_backend_ok:
  "parse_backend env b = Inr x \<Longrightarrow> length x \<le> 40 \<and> strip x = x \<and> (x = '''' \<or> agent_harness env x)"
  by (auto simp: parse_backend_def bind_err_Inr dest!: text_field_ok split: if_splits)

lemma text_field_blank:
  "strip (if truthy v then py_to_str r v else '''') = '''' \<Longrightarrow> text_field v n l False = Inr s \<Longrightarrow> s = ''''"
  by (cases v) (auto simp: text_field_def split: if_splits)

text \<open>The steps of a successful validation, as one elimination.\<close>

lemma parse_spec_parts:
  assumes "parse_spec env b now = Inr s"
  obtains w tgt trg where
    "parse_choices env b = Inr (sp_trigger_kind s, sp_action s, sp_overlap s)"
    "text_field (py_get b ''timezone'') ''timezone'' 64 False = Inr (sp_timezone s)"
    "resolve_wall env (sp_timezone s) = Inr w"
    "parse_backend env b = Inr (sp_backend s)"
    "parse_target env b (sp_action s = ''resume'') = Inr tgt"
    "refuse_on_resume env b (sp_action s = ''resume'') (sp_backend s) = Inr ()"
    "parse_trigger b (sp_trigger_kind s) (sp_action s = ''resume'') now = Inr trg"
    "parse_cap b = Inr (sp_daily_run_cap s)"
    "text_field (py_get b ''label'') ''label'' max_label_chars True = Inr (sp_label s)"
    "text_field (py_get b ''prompt'') ''prompt'' max_prompt_chars True = Inr (sp_prompt s)"
    "text_field (py_get b ''profile_id'') ''profile_id'' 120 False = Inr (sp_profile_id s)"
    "text_field (py_get b ''cwd'') ''cwd'' 400 False = Inr (sp_cwd s)"
    "text_field (py_get b ''session_name'') ''session_name'' max_label_chars False = Inr (sp_session_name s)"
    "parse_follow_ups (py_get b ''follow_ups'') = Inr (sp_follow_ups s)"
    "sp_cron s = tr_cron trg" "sp_interval_seconds s = tr_interval trg" "sp_run_at s = tr_run_at trg"
    "sp_target_run_id s = tg_run_id tgt" "sp_target_kind s = tg_kind tgt"
    "sp_target_cut_message_id s = tg_cut_message_id tgt" "sp_target_cut_mode s = tg_cut_mode tgt"
    "sp_context_ceiling_pct s = tg_context_ceiling_pct tgt"
  using assms unfolding parse_spec_def
  by (auto simp: bind_err_Inr Let_def)

lemma parse_target_ok:
  assumes "parse_target env b resuming = Inr t"
  shows "if resuming then
      tg_run_id t \<noteq> '''' \<and> length (tg_run_id t) \<le> 120 \<and> strip (tg_run_id t) = tg_run_id t \<and>
      tg_kind t \<in> set target_kinds \<and> parse_cut env b (tg_kind t) = Inr (tg_cut_message_id t, tg_cut_mode t) \<and>
      parse_ceiling b (tg_kind t) = Inr (tg_context_ceiling_pct t)
    else t = no_target"
  using assms by (auto simp: parse_target_def Let_def bind_err_Inr dest!: text_field_ok split: if_splits)

lemma parse_trigger_ok:
  assumes "parse_trigger b k r now = Inr t"
  shows "if k = ''cron'' then
      (\<exists>e. parse_cron (tr_cron t) = Inr e \<and> cr_source e = tr_cron t) \<and> tr_interval t = None \<and> tr_run_at t = None
    else if k = ''interval'' then
      tr_cron t = '''' \<and> tr_run_at t = None \<and>
      (\<exists>d. tr_interval t = Some d \<and> min_interval_seconds \<le> d \<and> d \<le> max_interval_seconds)
    else tr_cron t = '''' \<and> tr_interval t = None \<and>
      (\<exists>x. tr_run_at t = Some x \<and> \<not> later_than x (now + once_horizon r))"
  using assms
  by (auto simp: parse_trigger_def bind_err_Inr dest: parse_interval_ok parse_run_at_ok parse_cron_source split: if_splits)

lemma trigger_kinds_cases: "k \<in> set trigger_kinds \<longleftrightarrow> k = ''once'' \<or> k = ''interval'' \<or> k = ''cron''"
  by (simp add: trigger_kinds_def)

lemma resume_kinds: "a \<in> set schedule_actions \<longleftrightarrow> a = ''spawn'' \<or> a = ''resume''"
  by (simp add: schedule_actions_def)

lemma parse_spec_trigger:
  assumes "parse_spec env b now = Inr s"
  shows "trigger_ok s now"
  using assms
proof (rule parse_spec_parts)
  fix tgt trg w
  assume t: "parse_trigger b (sp_trigger_kind s) (sp_action s = ''resume'') now = Inr trg"
    and e: "sp_cron s = tr_cron trg" "sp_interval_seconds s = tr_interval trg" "sp_run_at s = tr_run_at trg"
    and c: "parse_choices env b = Inr (sp_trigger_kind s, sp_action s, sp_overlap s)"
  consider "sp_trigger_kind s = ''cron''" | "sp_trigger_kind s = ''interval''" | "sp_trigger_kind s = ''once''"
    using parse_choices_ok [OF c] by (auto simp: trigger_kinds_cases)
  then show "trigger_ok s now"
    by cases (use parse_trigger_ok [OF t] e in \<open>auto simp: trigger_ok_def not_later_cases dest: parse_cron_source\<close>)
qed

lemma parse_spec_target:
  assumes "parse_spec env b now = Inr s"
  shows "target_ok s"
  using assms
proof (rule parse_spec_parts)
  fix tgt trg w
  assume t: "parse_target env b (sp_action s = ''resume'') = Inr tgt"
    and r: "refuse_on_resume env b (sp_action s = ''resume'') (sp_backend s) = Inr ()"
    and p: "text_field (py_get b ''profile_id'') ''profile_id'' 120 False = Inr (sp_profile_id s)"
      "text_field (py_get b ''cwd'') ''cwd'' 400 False = Inr (sp_cwd s)"
    and k: "parse_backend env b = Inr (sp_backend s)"
    and c: "parse_choices env b = Inr (sp_trigger_kind s, sp_action s, sp_overlap s)"
    and e: "sp_target_run_id s = tg_run_id tgt" "sp_target_kind s = tg_kind tgt"
    "sp_target_cut_message_id s = tg_cut_message_id tgt" "sp_target_cut_mode s = tg_cut_mode tgt"
    "sp_context_ceiling_pct s = tg_context_ceiling_pct tgt"
  show "target_ok s"
  proof (cases "sp_action s = ''resume''")
    case True
    have set: "strip (if truthy v then py_to_str (py_repr env) v else '''') = ''''"
      if "(c, n, v) \<in> set [(''invalid_backend'', ''backend'', PStr (sp_backend s)),
           (''invalid_profile_id'', ''profile_id'', py_get b ''profile_id''),
           (''invalid_cwd'', ''cwd'', py_get b ''cwd'')]" for c n v
      using r True by (intro refuse_set_ok [OF _ that]) (simp add: refuse_on_resume_def)
    have "strip (sp_backend s) = ''''" using set [of "''invalid_backend''" "''backend''"] by (auto split: if_splits)
    moreover have "sp_profile_id s = ''''"
      by (rule text_field_blank [OF set [of "''invalid_profile_id''" "''profile_id''"] p(1)]) simp
    moreover have "sp_cwd s = ''''"
      by (rule text_field_blank [OF set [of "''invalid_cwd''" "''cwd''"] p(2)]) simp
    ultimately show ?thesis
      using True parse_target_ok [OF t] parse_choices_ok [OF c] parse_backend_ok [OF k] e
        parse_cut_ok [of env b "tg_kind tgt"] parse_ceiling_ok [of b "tg_kind tgt"]
      by (auto simp: target_ok_def)
  next
    case False
    then have "sp_action s = ''spawn''" using parse_choices_ok [OF c] by (auto simp: resume_kinds)
    with parse_target_ok [OF t] e show ?thesis by (simp add: target_ok_def no_target_def)
  qed
qed

lemma parse_spec_ok:
  assumes "parse_spec env b now = Inr s"
  shows "spec_ok env s now"
proof -
  have "texts_ok s \<and> sp_overlap s \<in> set overlap_policies \<and>
     (sp_backend s = '''' \<or> agent_harness env (sp_backend s)) \<and>
     (sp_timezone s = '''' \<or> zone_wall env (sp_timezone s) \<noteq> None) \<and>
     0 \<le> sp_daily_run_cap s \<and> sp_daily_run_cap s \<le> 500 \<and>
     length (sp_follow_ups s) \<le> max_follow_ups \<and> list_all follow_up_ok (sp_follow_ups s)"
    using assms
  proof (rule parse_spec_parts)
    fix w
    assume p: "text_field (py_get b ''timezone'') ''timezone'' 64 False = Inr (sp_timezone s)"
      "text_field (py_get b ''label'') ''label'' max_label_chars True = Inr (sp_label s)"
      "text_field (py_get b ''prompt'') ''prompt'' max_prompt_chars True = Inr (sp_prompt s)"
      "text_field (py_get b ''profile_id'') ''profile_id'' 120 False = Inr (sp_profile_id s)"
      "text_field (py_get b ''cwd'') ''cwd'' 400 False = Inr (sp_cwd s)"
      "text_field (py_get b ''session_name'') ''session_name'' max_label_chars False = Inr (sp_session_name s)"
      and k: "parse_backend env b = Inr (sp_backend s)"
      and c: "parse_choices env b = Inr (sp_trigger_kind s, sp_action s, sp_overlap s)"
      and n: "parse_cap b = Inr (sp_daily_run_cap s)"
      and f: "parse_follow_ups (py_get b ''follow_ups'') = Inr (sp_follow_ups s)"
      and w: "resolve_wall env (sp_timezone s) = Inr w"
    have "sp_timezone s = '''' \<or> zone_wall env (sp_timezone s) \<noteq> None"
      using w by (auto simp: resolve_wall_def split: option.splits if_splits)
    moreover have "texts_ok s"
      using p [THEN text_field_ok] parse_backend_ok [OF k] by (simp add: texts_ok_def)
    ultimately show ?thesis
      using parse_choices_ok [OF c] parse_backend_ok [OF k] parse_cap_ok [OF n] parse_follow_ups_ok [OF f]
      by blast
  qed
  with parse_spec_trigger [OF assms] parse_spec_target [OF assms] show ?thesis
    by (simp add: spec_ok_def)
qed

subsection \<open>Occurrences\<close>

lemma trigger_ok_cases [consumes 1, case_names cron interval once]:
  assumes "trigger_ok s now"
  obtains (cron) e where "sp_trigger_kind s = ''cron''" "parse_cron (sp_cron s) = Inr e" "cr_source e = sp_cron s"
    | (interval) d where "sp_trigger_kind s = ''interval''" "sp_interval_seconds s = Some d"
      "min_interval_seconds \<le> d"
    | (once) t where "sp_trigger_kind s = ''once''" "sp_run_at s = Some t"
        "\<not> later_than t (now + once_horizon (sp_action s = ''resume''))"
proof (cases "sp_trigger_kind s = ''cron''")
  case True
  with assms that(1) show ?thesis by (cases "parse_cron (sp_cron s)") (simp_all add: trigger_ok_def)
next
  case c: False
  show ?thesis
  proof (cases "sp_trigger_kind s = ''interval''")
    case True
    with assms c that(2) show ?thesis by (cases "sp_interval_seconds s") (simp_all add: trigger_ok_def)
  next
    case False
    with assms c that(3) show ?thesis
      by (cases "sp_run_at s") (auto simp: trigger_ok_def not_later_cases split: epoch_time.splits)
  qed
qed

lemma next_of_ok:
  assumes "spec_ok env s now" and "valid_moment (wall_of (host_wall env) after)"
    and "\<And>w. zone_wall env (sp_timezone s) = Some w \<Longrightarrow> valid_moment (wall_of w after)"
  shows "\<exists>r. next_occurrence env s after = Inr r \<and> (\<forall>t. r = Some (Epoch t) \<longrightarrow> after < t) \<and>
    (r = Some Not_A_Number \<longrightarrow> sp_run_at s = Some Not_A_Number)"
proof -
  have "trigger_ok s now" using assms(1) by (simp add: spec_ok_def)
  then show ?thesis
  proof (cases rule: trigger_ok_cases)
    case cron
    have "\<exists>w. resolve_wall env (sp_timezone s) = Inr w \<and> valid_moment (wall_of w after)"
      using assms by (auto simp: spec_ok_def resolve_wall_def)
    then obtain w where w: "resolve_wall env (sp_timezone s) = Inr w" "valid_moment (wall_of w after)" by blast
    with cron fire_parts [OF parse_cron_ok [OF cron(2)] w(2)] show ?thesis by (auto simp: next_occurrence_def)
  next
    case interval
    then show ?thesis by (auto simp: next_occurrence_def min_interval_seconds_def)
  next
    case (once t)
    then show ?thesis by (cases t) (auto simp: next_occurrence_def)
  qed
qed

lemma decimal_inj: "decimal m = decimal n \<longleftrightarrow> m = n"
  by (metis dec_value_decimal of_nat_eq_iff)

lemma decimal_no_sign: "decimal n \<noteq> CHR ''-'' # t"
proof
  assume "decimal n = CHR ''-'' # t"
  with decimal_digits [of n] show False by (simp add: is_digit_def)
qed

lemma signed_decimal_inj: "signed_decimal i = signed_decimal j \<longleftrightarrow> i = j"
  by (cases "i < 0"; cases "j < 0")
    (simp_all add: signed_decimal_def decimal_inj decimal_no_sign decimal_no_sign [symmetric] nat_eq_iff)

lemma occurrence_key_eq: "occurrence_key a = occurrence_key b \<longleftrightarrow> \<lfloor>a / 60\<rfloor> = \<lfloor>b / 60\<rfloor>"
  by (simp add: occurrence_key_def signed_decimal_inj)

lemma key_of_later_interval:
  assumes "spec_ok env s now" and "sp_trigger_kind s = ''interval''" and "next_occurrence env s a = Inr (Some (Epoch t))"
  shows "occurrence_key t \<noteq> occurrence_key a"
proof -
  obtain d where d: "sp_interval_seconds s = Some d" "300 \<le> d"
    using assms(1,2) by (auto simp: spec_ok_def trigger_ok_def min_interval_seconds_def split: option.splits)
  then have "t = a + d" using assms(2,3) by (simp add: next_occurrence_def)
  then have "t / 60 \<ge> a / 60 + 1" using d(2) by (simp add: field_simps)
  then have "\<lfloor>a / 60\<rfloor> + 1 \<le> \<lfloor>t / 60\<rfloor>" by linarith
  then show ?thesis by (simp add: occurrence_key_eq)
qed

subsection \<open>Sending a definition back\<close>

lemma text_field_again:
  "strip s = s \<Longrightarrow> length s \<le> limit \<Longrightarrow> required \<longrightarrow> s \<noteq> '''' \<Longrightarrow> text_field (PStr s) name limit required = Inr s"
  by (simp add: text_field_def)

lemma parse_follow_up_again:
  assumes "parse_follow_up i v = Inr f"
  shows "parse_follow_up j (PDict (follow_up_as_dict f)) = Inr f"
proof -
  have f: "follow_up_ok f" by (rule parse_follow_up_ok [OF assms])
  have "strip (fu_body f) = fu_body f"
    using assms by (auto simp: parse_follow_up_def Let_def bind_err_Inr
        dest!: text_field_ok split: pyval.splits option.splits if_splits)
  with f have "text_field (PStr (fu_body f)) (follow_up_name j) max_follow_up_chars True = Inr (fu_body f)"
    by (intro text_field_again) (auto simp: follow_up_ok_def)
  moreover have "py_number (if truthy (PFloat d) then PFloat d else PInt 0) = Some d" for d
    by simp
  ultimately show ?thesis using f
    by (cases f) (simp add: parse_follow_up_def follow_up_as_dict_def py_get_def follow_up_ok_def Let_def)
qed

lemma parse_each_again:
  "parse_each i vs = Inr fs \<Longrightarrow> parse_each j (map (\<lambda>f. PDict (follow_up_as_dict f)) fs) = Inr fs"
proof (induction i vs arbitrary: j fs rule: parse_each.induct)
  case (2 i x xs)
  then obtain f gs where f: "parse_follow_up i x = Inr f" "parse_each (Suc i) xs = Inr gs" "fs = f # gs"
    by (auto simp: bind_err_Inr)
  from "2.IH" [OF f(2)] parse_follow_up_again [OF f(1)] show ?case by (simp add: f(3))
qed simp

lemma parse_follow_ups_again:
  assumes "parse_follow_ups v = Inr fs"
  shows "parse_follow_ups (PList (map (\<lambda>f. PDict (follow_up_as_dict f)) fs)) = Inr fs"
proof -
  have "length fs \<le> max_follow_ups" using parse_follow_ups_ok [OF assms] by simp
  moreover have "\<exists>i vs. parse_each i vs = Inr fs"
  proof (cases v)
    case PNone
    then have "parse_each 0 [] = Inr fs" using assms by (simp add: parse_follow_ups_def)
    then show ?thesis by blast
  next
    case (PList vs)
    then have "parse_each 0 vs = Inr fs" using assms by (simp add: parse_follow_ups_def split: if_splits)
    then show ?thesis by blast
  qed (use assms in \<open>simp_all add: parse_follow_ups_def\<close>)
  ultimately show ?thesis using parse_each_again by (fastforce simp: parse_follow_ups_def)
qed

text \<open>The value each key of the dictionary carries.\<close>

lemma spec_dict_get:
  "py_get (spec_as_dict s) ''label'' = PStr (sp_label s)"
  "py_get (spec_as_dict s) ''prompt'' = PStr (sp_prompt s)"
  "py_get (spec_as_dict s) ''trigger_kind'' = PStr (sp_trigger_kind s)"
  "py_get (spec_as_dict s) ''cron'' = PStr (sp_cron s)"
  "py_get (spec_as_dict s) ''interval_seconds'' = opt_float (sp_interval_seconds s)"
  "py_get (spec_as_dict s) ''run_at'' = run_at_value (sp_run_at s)"
  "py_get (spec_as_dict s) ''timezone'' = PStr (sp_timezone s)"
  "py_get (spec_as_dict s) ''catch_up'' = PBool (sp_catch_up s)"
  "py_get (spec_as_dict s) ''overlap'' = PStr (sp_overlap s)"
  "py_get (spec_as_dict s) ''backend'' = PStr (sp_backend s)"
  "py_get (spec_as_dict s) ''profile_id'' = PStr (sp_profile_id s)"
  "py_get (spec_as_dict s) ''cwd'' = PStr (sp_cwd s)"
  "py_get (spec_as_dict s) ''session_name'' = PStr (sp_session_name s)"
  "py_get (spec_as_dict s) ''daily_run_cap'' = PInt (sp_daily_run_cap s)"
  "py_get (spec_as_dict s) ''follow_ups'' = PList (map (\<lambda>f. PDict (follow_up_as_dict f)) (sp_follow_ups s))"
  "py_get (spec_as_dict s) ''action'' = PStr (sp_action s)"
  "py_get (spec_as_dict s) ''target_run_id'' = PStr (sp_target_run_id s)"
  "py_get (spec_as_dict s) ''target_kind'' = PStr (sp_target_kind s)"
  "py_get (spec_as_dict s) ''target_cut_message_id'' = PStr (sp_target_cut_message_id s)"
  "py_get (spec_as_dict s) ''target_cut_mode'' = PStr (sp_target_cut_mode s)"
  "py_get (spec_as_dict s) ''context_ceiling_pct'' = PFloat (sp_context_ceiling_pct s)"
  by (simp_all add: py_get_def spec_as_dict_def)

lemma choice_text_of:
  "py_get b n = PStr v \<Longrightarrow> choice_text env b n d = strip (if v = '''' then d else v)"
  by (simp add: choice_text_def Let_def)

lemma choices_again:
  assumes "parse_choices env b = Inr (k, a, ov)"
    and "py_get b' ''trigger_kind'' = PStr k" "py_get b' ''action'' = PStr a" "py_get b' ''overlap'' = PStr ov"
  shows "parse_choices env b' = Inr (k, a, ov)"
proof -
  note ok = parse_choices_ok [OF assms(1)]
  have "strip x = x \<and> x \<noteq> ''''"
    if "x \<in> set trigger_kinds \<union> set schedule_actions \<union> set overlap_policies" for x
    using that
    by (auto simp: trigger_kinds_def schedule_actions_def overlap_policies_def strip_def lstrip_def rstrip_def
        is_space_def)
  with ok assms(2-4) show ?thesis by (auto simp: parse_choices_def choice_text_of)
qed

lemma cap_again: "parse_cap b = Inr n \<Longrightarrow> py_get b' ''daily_run_cap'' = PInt n \<Longrightarrow> parse_cap b' = Inr n"
  using parse_cap_ok [of b n] by (simp add: parse_cap_def Let_def)

lemma backend_again:
  "parse_backend env b = Inr x \<Longrightarrow> py_get b' ''backend'' = PStr x \<Longrightarrow> parse_backend env b' = Inr x"
  using parse_backend_ok [of env b x] by (auto simp: parse_backend_def text_field_again)

lemma cut_again:
  assumes "parse_cut env b k = Inr (m, mode)"
    and "py_get b' ''target_cut_message_id'' = PStr m" "py_get b' ''target_cut_mode'' = PStr mode"
  shows "parse_cut env b' k = Inr (m, mode)"
proof (cases "k = ''fork_point''")
  case True
  then have m: "text_field (py_get b ''target_cut_message_id'') ''target_cut_message_id'' 200 True = Inr m"
    and "mode \<in> set cut_modes"
    using assms(1) by (auto simp: parse_cut_def Let_def bind_err_Inr split: if_splits)
  then have "strip mode = mode \<and> mode \<noteq> ''''"
    by (auto simp: cut_modes_def strip_def lstrip_def rstrip_def is_space_def)
  with True text_field_ok [OF m] \<open>mode \<in> set cut_modes\<close> assms(2,3) show ?thesis
    by (simp add: parse_cut_def text_field_again choice_text_of)
qed (use assms(1) in \<open>simp add: parse_cut_def\<close>)

lemma ceiling_again:
  "parse_ceiling b k = Inr x \<Longrightarrow> py_get b' ''context_ceiling_pct'' = PFloat x \<Longrightarrow> parse_ceiling b' k = Inr x"
  using parse_ceiling_ok [of b k x] by (auto simp: parse_ceiling_def)

lemma target_again:
  assumes "parse_target env b True = Inr t"
    and "py_get b' ''target_run_id'' = PStr (tg_run_id t)" "py_get b' ''target_kind'' = PStr (tg_kind t)"
      "py_get b' ''target_cut_message_id'' = PStr (tg_cut_message_id t)"
      "py_get b' ''target_cut_mode'' = PStr (tg_cut_mode t)"
      "py_get b' ''context_ceiling_pct'' = PFloat (tg_context_ceiling_pct t)"
  shows "parse_target env b' True = Inr t"
proof -
  note ok = parse_target_ok [OF assms(1), simplified]
  then have "strip (tg_kind t) = tg_kind t \<and> tg_kind t \<noteq> ''''"
    by (auto simp: target_kinds_def strip_def lstrip_def rstrip_def is_space_def)
  moreover have "parse_cut env b' (tg_kind t) = Inr (tg_cut_message_id t, tg_cut_mode t)"
    by (rule cut_again [OF _ assms(4,5)]) (use ok in blast)
  moreover have "parse_ceiling b' (tg_kind t) = Inr (tg_context_ceiling_pct t)"
    by (rule ceiling_again [OF _ assms(6)]) (use ok in blast)
  ultimately show ?thesis
    using ok assms(2,3) by (simp add: parse_target_def text_field_again choice_text_of)
qed

lemma join_words_length:
  "length (join_with '' '' (words s)) \<le> length s \<and>
   (s \<noteq> [] \<and> is_space (hd s) \<and> words s \<noteq> [] \<longrightarrow> length (join_with '' '' (words s)) < length s)"
proof (induction s)
  case (Cons c cs)
  have "words (c # cs) = words cs \<and> is_space c \<or>
      (\<not> is_space c \<and> (cs = [] \<or> is_space (hd cs)) \<and> words (c # cs) = [c] # words cs) \<or>
      (\<exists>v vs. \<not> is_space c \<and> words cs = v # vs \<and> words (c # cs) = (c # v) # vs) \<or>
      \<not> is_space c \<and> words cs = [] \<and> words (c # cs) = [[c]]"
    by (cases "words cs") auto
  then consider (skip) "words (c # cs) = words cs" "is_space c"
    | (new) "\<not> is_space c" "cs = [] \<or> is_space (hd cs)" "words (c # cs) = [c] # words cs"
    | (grow) v vs where "\<not> is_space c" "words cs = v # vs" "words (c # cs) = (c # v) # vs"
    | (alone) "\<not> is_space c" "words cs = []" "words (c # cs) = [[c]]"
    by blast
  then show ?case
  proof cases
    case new
    with Cons show ?thesis by (cases "words cs") (auto simp del: words.simps(2))
  next
    case grow
    with Cons show ?thesis by (cases vs) (simp_all del: words.simps)
  qed (use Cons in \<open>auto simp del: words.simps\<close>)
qed simp

lemma strip_same: "s \<noteq> [] \<Longrightarrow> \<not> is_space (hd s) \<Longrightarrow> \<not> is_space (last s) \<Longrightarrow> strip s = s"
proof -
  assume a: "s \<noteq> []" "\<not> is_space (hd s)" "\<not> is_space (last s)"
  have "lstrip s = s" using a by (cases s) (simp_all add: lstrip_def)
  moreover have "rstrip s = s" using a by (cases s rule: rev_cases) (simp_all add: rstrip_def)
  ultimately show ?thesis by (simp add: strip_def)
qed

lemma join_ends:
  "ws \<noteq> [] \<Longrightarrow> \<forall>w \<in> set ws. is_word w \<Longrightarrow>
     join_with '' '' ws \<noteq> [] \<and> \<not> is_space (hd (join_with '' '' ws)) \<and> \<not> is_space (last (join_with '' '' ws))"
  by (induction ws rule: induct_list012) (auto simp: is_word_def)

lemma cron_text_again:
  assumes "text_field v ''cron'' 200 True = Inr x" and "parse_cron x = Inr e"
  shows "text_field (PStr (cr_source e)) ''cron'' 200 True = Inr (cr_source e)"
proof (rule text_field_again)
  have x: "length x \<le> 200" using text_field_ok [OF assms(1)] by simp
  have src: "cr_source e = join_with '' '' (words x)" and ne: "words x \<noteq> []"
    using assms(2) by (auto elim!: parse_cron_parts)
  note ends = join_ends [OF ne]
  show "strip (cr_source e) = cr_source e"
    unfolding src using ends words_are_words by (intro strip_same) auto
  show "length (cr_source e) \<le> 200" using join_words_length [of x] x src by simp
  show "True \<longrightarrow> cr_source e \<noteq> ''''" unfolding src using ends words_are_words by auto
qed

lemma trigger_again:
  assumes "parse_trigger b k r now = Inr t" and "k \<in> set trigger_kinds"
    and "py_get b' ''cron'' = PStr (tr_cron t)" "py_get b' ''interval_seconds'' = opt_float (tr_interval t)"
      "py_get b' ''run_at'' = run_at_value (tr_run_at t)"
  shows "parse_trigger b' k r now = Inr t"
proof -
  note ok = parse_trigger_ok [OF assms(1)]
  consider "k = ''cron''" | "k = ''interval''" | "k = ''once''"
    using assms(2) by (auto simp: trigger_kinds_cases)
  then show ?thesis
  proof cases
    case 1
    then obtain x e where x: "text_field (py_get b ''cron'') ''cron'' 200 True = Inr x" "parse_cron x = Inr e"
      and t: "t = \<lparr>tr_cron = cr_source e, tr_interval = None, tr_run_at = None\<rparr>"
      using assms(1) by (auto simp: parse_trigger_def bind_err_Inr)
    from 1 assms(3) cron_text_again [OF x] parse_cron_source [OF x(2)] show ?thesis
      by (simp add: parse_trigger_def t)
  next
    case 2
    with ok assms(4) show ?thesis
      by (cases t) (auto simp: parse_trigger_def parse_interval_def opt_float_def)
  next
    case 3
    then obtain x where x: "tr_run_at t = Some x" "\<not> later_than x (now + once_horizon r)" using ok by auto
    then have "as_epoch (run_at_value (tr_run_at t)) = Some x" by (cases x) (simp_all add: as_epoch_def run_at_value_def)
    with 3 ok assms(5) x show ?thesis
      by (cases t) (auto simp: parse_trigger_def parse_run_at_def)
  qed
qed

lemma text_again:
  "text_field v n l r = Inr x \<Longrightarrow> text_field (PStr x) n l r = Inr x"
  by (drule text_field_ok) (auto intro: text_field_again)

lemma parse_spec_again:
  assumes "parse_spec env b now = Inr s"
  shows "parse_spec env (spec_as_dict s) now =
    (if sp_action s = ''resume'' then Inr s
     else reject ''invalid_target'' ''target_kind'' ''only applies to a resume'')"
  using assms
proof (rule parse_spec_parts)
  fix w tgt trg
  let ?d = "spec_as_dict s"
  assume c: "parse_choices env b = Inr (sp_trigger_kind s, sp_action s, sp_overlap s)"
    and texts: "text_field (py_get b ''timezone'') ''timezone'' 64 False = Inr (sp_timezone s)"
      "text_field (py_get b ''label'') ''label'' max_label_chars True = Inr (sp_label s)"
      "text_field (py_get b ''prompt'') ''prompt'' max_prompt_chars True = Inr (sp_prompt s)"
      "text_field (py_get b ''profile_id'') ''profile_id'' 120 False = Inr (sp_profile_id s)"
      "text_field (py_get b ''cwd'') ''cwd'' 400 False = Inr (sp_cwd s)"
      "text_field (py_get b ''session_name'') ''session_name'' max_label_chars False = Inr (sp_session_name s)"
    and w: "resolve_wall env (sp_timezone s) = Inr w"
    and k: "parse_backend env b = Inr (sp_backend s)"
    and tgt: "parse_target env b (sp_action s = ''resume'') = Inr tgt"
    and trg: "parse_trigger b (sp_trigger_kind s) (sp_action s = ''resume'') now = Inr trg"
    and n: "parse_cap b = Inr (sp_daily_run_cap s)"
    and f: "parse_follow_ups (py_get b ''follow_ups'') = Inr (sp_follow_ups s)"
    and e: "sp_cron s = tr_cron trg" "sp_interval_seconds s = tr_interval trg" "sp_run_at s = tr_run_at trg"
    "sp_target_run_id s = tg_run_id tgt" "sp_target_kind s = tg_kind tgt"
    "sp_target_cut_message_id s = tg_cut_message_id tgt" "sp_target_cut_mode s = tg_cut_mode tgt"
    "sp_context_ceiling_pct s = tg_context_ceiling_pct tgt"
  have ok: "target_ok s" by (rule parse_spec_target [OF assms])
  have choices: "parse_choices env ?d = Inr (sp_trigger_kind s, sp_action s, sp_overlap s)"
    by (rule choices_again [OF c]) (simp_all add: spec_dict_get)
  have backend: "parse_backend env ?d = Inr (sp_backend s)"
    by (rule backend_again [OF k]) (simp add: spec_dict_get)
  have cap: "parse_cap ?d = Inr (sp_daily_run_cap s)"
    by (rule cap_again [OF n]) (simp add: spec_dict_get)
  have trig: "parse_trigger ?d (sp_trigger_kind s) (sp_action s = ''resume'') now = Inr trg"
    using parse_choices_ok [OF c] by (intro trigger_again [OF trg]) (simp_all add: spec_dict_get e)
  show ?thesis
  proof (cases "sp_action s = ''resume''")
    case True
    have target: "parse_target env ?d (sp_action s = ''resume'') = Inr tgt"
      unfolding True simp_thms by (rule target_again [of env b]) (use tgt True in \<open>simp_all add: spec_dict_get e\<close>)
    have refuse: "refuse_on_resume env ?d (sp_action s = ''resume'') (sp_backend s) = Inr ()"
      using ok True by (simp add: refuse_on_resume_def spec_dict_get target_ok_def)
    have rebuilt: "\<lparr>
       sp_label = sp_label s, sp_prompt = sp_prompt s, sp_trigger_kind = sp_trigger_kind s, sp_cron = tr_cron trg,
       sp_interval_seconds = tr_interval trg, sp_run_at = tr_run_at trg,
       sp_timezone = sp_timezone s, sp_catch_up = sp_catch_up s,
       sp_overlap = sp_overlap s, sp_backend = sp_backend s, sp_profile_id = sp_profile_id s, sp_cwd = sp_cwd s,
       sp_session_name = sp_session_name s, sp_daily_run_cap = sp_daily_run_cap s, sp_follow_ups = sp_follow_ups s,
       sp_action = sp_action s, sp_target_run_id = tg_run_id tgt, sp_target_kind = tg_kind tgt,
       sp_target_cut_message_id = tg_cut_message_id tgt,
       sp_target_cut_mode = tg_cut_mode tgt,
       sp_context_ceiling_pct = tg_context_ceiling_pct tgt\<rparr> = s"
      using e by (cases s) simp
    have "parse_spec env ?d now = Inr s"
      unfolding parse_spec_def choices
      by (simp only: bind_err_simps prod.case Let_def spec_dict_get texts [THEN text_again] w backend target
          refuse trig cap parse_follow_ups_again [OF f] truthy.simps rebuilt)
    with True show ?thesis by simp
  next
    case False
    then have "sp_target_run_id s = ''''" "sp_target_kind s = ''run''" using ok by (simp_all add: target_ok_def)
    then have "parse_target env ?d False = reject ''invalid_target'' ''target_kind'' ''only applies to a resume''"
      by (simp add: parse_target_def spec_dict_get strip_def lstrip_def rstrip_def is_space_def)
    with False choices backend w texts(1) [THEN text_again] show ?thesis
      by (simp add: parse_spec_def spec_dict_get Let_def)
  qed
qed

subsection \<open>Properties\<close>


text \<open>
  C40. The dictionary of an accepted resume, sent back, is accepted as the same definition. The one of
  an accepted spawn is refused: it carries a \<^verbatim>\<open>target_kind\<close>, which only a resume may.
\<close>

theorem resent_definition_is_the_same_or_refused:
  assumes "parse_spec env body now = Inr s"
  shows "parse_spec env (spec_as_dict s) now =
    (if sp_action s = ''resume'' then Inr s
     else reject ''invalid_target'' ''target_kind'' ''only applies to a resume'')"
  by (rule parse_spec_again [OF assms])

text \<open>
  The next occurrence of an accepted definition never fails and, if it is a number, is strictly later than
  the instant asked about, so a loop over occurrences moves forward, whatever daylight saving does.
\<close>

theorem occurrences_move_forward:
  assumes "parse_spec env body now = Inr s" and "valid_moment (wall_of (host_wall env) after)"
    and "\<And>w. zone_wall env (sp_timezone s) = Some w \<Longrightarrow> valid_moment (wall_of w after)"
  shows "\<exists>r. next_occurrence env s after = Inr r \<and> (\<forall>t. r = Some (Epoch t) \<longrightarrow> after < t) \<and>
    (r = Some Not_A_Number \<longrightarrow> sp_run_at s = Some Not_A_Number)"
  by (rule next_of_ok [OF parse_spec_ok [OF assms(1)] assms(2,3)])

text \<open>
  A single run at a moment that is not a number is accepted, and never scheduled: no comparison with the
  moment is true, neither the one with the horizon nor the one with the present.
\<close>

lemma nan_run_at_is_accepted:
  assumes "py_get body ''run_at'' = PNaN"
  shows "parse_trigger body ''once'' resuming now =
      Inr \<lparr>tr_cron = '''', tr_interval = None, tr_run_at = Some Not_A_Number\<rparr>"
    and "sp_trigger_kind s = ''once'' \<Longrightarrow> sp_run_at s = Some Not_A_Number \<Longrightarrow> first_occurrence env s later = Inr None"
  using assms by (simp_all add: parse_trigger_def parse_run_at_def as_epoch_def first_occurrence_def)

text \<open>
  Two instants have the same occurrence key exactly when they fall into the same minute, and an
  accepted interval never gives two successive occurrences the same key.
\<close>

theorem one_key_per_minute:
  assumes "parse_spec env body now = Inr s"
  shows "(occurrence_key a = occurrence_key b \<longleftrightarrow> \<lfloor>a / 60\<rfloor> = \<lfloor>b / 60\<rfloor>) \<and>
    (sp_trigger_kind s = ''interval'' \<longrightarrow>
      (\<forall>t. next_occurrence env s a = Inr (Some (Epoch t)) \<longrightarrow> occurrence_key t \<noteq> occurrence_key a))"
  using occurrence_key_eq key_of_later_interval [OF parse_spec_ok [OF assms]] by blast

subsection \<open>Witnesses\<close>

definition demo_schedule_env :: schedule_env where
  "demo_schedule_env =
     \<lparr>agent_harness = (\<lambda>n. n = ''claude''), host_wall = utc, zone_wall = (\<lambda>_. None), py_repr = (\<lambda>_. ''?'')\<rparr>"

definition demo_body :: pydict where
  "demo_body =
     [(''label'', PStr '' nightly''), (''prompt'', PStr ''go''), (''action'', PStr ''resume''),
      (''trigger_kind'', PStr ''interval''), (''interval_seconds'', PInt 600),
      (''target_run_id'', PStr ''r1''), (''target_kind'', PStr ''latest_of_session''),
      (''follow_ups'', PList [PStr ''next ''])]"

definition demo_spec :: schedule_spec where
  "demo_spec = \<lparr>
     sp_label = ''nightly'', sp_prompt = ''go'', sp_trigger_kind = ''interval'', sp_cron = '''',
     sp_interval_seconds = Some 600, sp_run_at = None, sp_timezone = '''', sp_catch_up = False,
     sp_overlap = ''skip'', sp_backend = '''', sp_profile_id = '''', sp_cwd = '''', sp_session_name = '''',
     sp_daily_run_cap = 0,
     sp_follow_ups = [\<lparr>fu_body = ''next'', fu_delay_seconds = 0, fu_armed = False\<rparr>],
     sp_action = ''resume'', sp_target_run_id = ''r1'', sp_target_kind = ''latest_of_session'',
     sp_target_cut_message_id = '''', sp_target_cut_mode = '''', sp_context_ceiling_pct = 7 / 10\<rparr>"

lemmas stripping = strip_def lstrip_def rstrip_def is_space_def

lemma demo_get:
  "py_get demo_body ''label'' = PStr '' nightly''" "py_get demo_body ''prompt'' = PStr ''go''"
  "py_get demo_body ''action'' = PStr ''resume''" "py_get demo_body ''trigger_kind'' = PStr ''interval''"
  "py_get demo_body ''interval_seconds'' = PInt 600" "py_get demo_body ''target_run_id'' = PStr ''r1''"
  "py_get demo_body ''target_kind'' = PStr ''latest_of_session''"
  "py_get demo_body ''follow_ups'' = PList [PStr ''next '']"
  "py_get demo_body ''overlap'' = PNone" "py_get demo_body ''timezone'' = PNone"
  "py_get demo_body ''backend'' = PNone" "py_get demo_body ''profile_id'' = PNone" "py_get demo_body ''cwd'' = PNone"
  "py_get demo_body ''session_name'' = PNone" "py_get demo_body ''daily_run_cap'' = PNone"
  "py_get demo_body ''catch_up'' = PNone" "py_get demo_body ''context_ceiling_pct'' = PNone"
  by (simp_all add: py_get_def demo_body_def)

lemma parse_demo: "parse_spec demo_schedule_env demo_body 0 = Inr demo_spec"
proof -
  have "parse_choices demo_schedule_env demo_body = Inr (''interval'', ''resume'', ''skip'')"
    by (simp add: parse_choices_def choice_text_def demo_get trigger_kinds_def schedule_actions_def
        overlap_policies_def stripping)
  moreover have "parse_target demo_schedule_env demo_body True = Inr
      \<lparr>tg_run_id = ''r1'', tg_kind = ''latest_of_session'', tg_cut_message_id = '''', tg_cut_mode = '''',
       tg_context_ceiling_pct = 7 / 10\<rparr>"
    by (simp add: parse_target_def choice_text_def text_field_def demo_get target_kinds_def stripping
        parse_cut_def parse_ceiling_def default_context_ceiling_pct_def)
  moreover have "parse_follow_ups (PList [PStr ''next '']) =
      Inr [\<lparr>fu_body = ''next'', fu_delay_seconds = 0, fu_armed = False\<rparr>]"
    by (simp add: parse_follow_ups_def parse_follow_up_def py_get_def text_field_def stripping
        max_follow_ups_def max_follow_up_chars_def max_follow_up_delay_seconds_def)
  ultimately show ?thesis
    by (simp add: parse_spec_def demo_get text_field_def stripping resolve_wall_def parse_backend_def
        refuse_on_resume_def parse_trigger_def parse_interval_def min_interval_seconds_def
        max_interval_seconds_def parse_cap_def max_label_chars_def max_prompt_chars_def demo_spec_def)
qed


lemma resent_definition_is_the_same_or_refused_witness:
  "parse_spec demo_schedule_env (spec_as_dict demo_spec) 0 = Inr demo_spec"
  using resent_definition_is_the_same_or_refused [OF parse_demo] by (simp add: demo_spec_def)

lemma occurrences_move_forward_witness:
  "\<exists>r. next_occurrence demo_schedule_env demo_spec 33005 = Inr r \<and> (\<forall>t. r = Some (Epoch t) \<longrightarrow> 33005 < t)"
  using occurrences_move_forward [OF parse_demo, of 33005] by (auto simp: demo_schedule_env_def valid_33005)

lemma one_key_per_minute_witness: "occurrence_key 660 \<noteq> occurrence_key 60"
  using one_key_per_minute [OF parse_demo, of 60]
  by (simp add: demo_spec_def next_occurrence_def)

end
