(* ===== verification/Schedule_Store.thy ===== *)
theory Schedule_Store
  imports Schedules "HOL-Library.List_Lexorder" "HOL-Library.Char_ord"
begin

text \<open>
  \<^verbatim>\<open>schedule_store.py\<close>: the two SQLite tables as lists of rows in insertion order, and one function per
  operation with the meaning of its SQL. Each operation runs on one worker thread and commits before
  it returns, so it is one atomic step. Identifiers come from \<^verbatim>\<open>uuid4\<close> and are arguments. The JSON text
  of the follow-ups is the value it parses to; a failing disk is not modelled.
\<close>

subsection \<open>Tables\<close>

record schedule_row =
  sr_id :: string
  sr_project_id :: string
  sr_project_root :: string
  sr_label :: string
  sr_enabled :: bool
  sr_trigger_kind :: string
  sr_cron :: string
  sr_interval_seconds :: "seconds option"
  sr_run_at :: "seconds option"
  sr_timezone :: string
  sr_catch_up :: bool
  sr_overlap :: string
  sr_backend :: string
  sr_profile_id :: string
  sr_cwd :: string
  sr_session_name :: string
  sr_prompt :: string
  sr_follow_ups :: "pydict list"
  sr_daily_run_cap :: int
  sr_next_fire_at :: "seconds option"
  sr_last_fire_at :: "seconds option"
  sr_last_session_id :: "string option"
  sr_last_outcome :: string
  sr_last_reason :: string
  sr_disabled_reason :: string
  sr_created_at :: seconds
  sr_updated_at :: seconds
  sr_revision :: int
  sr_action :: string
  sr_target_run_id :: string
  sr_target_kind :: string
  sr_target_cut_message_id :: string
  sr_target_cut_mode :: string
  sr_context_ceiling_pct :: rat

record run_row =
  rr_id :: string
  rr_schedule_id :: string
  rr_project_id :: string
  rr_fire_key :: string
  rr_due_at :: "seconds option"
  rr_started_at :: seconds
  rr_finished_at :: "seconds option"
  rr_outcome :: string
  rr_reason :: string
  rr_session_id :: "string option"
  rr_origin :: string
  rr_queued_messages :: int

record schedule_store =
  ss_schedules :: "schedule_row list"
  ss_runs :: "run_row list"

definition empty_store :: schedule_store where
  "empty_store = \<lparr>ss_schedules = [], ss_runs = []\<rparr>"

definition run_outcomes :: "string list" where
  "run_outcomes = [''started'', ''spawned'', ''skipped'', ''failed'', ''missed'']"

text \<open>\<^verbatim>\<open>x or default\<close> on a text column, as \<^verbatim>\<open>_row_to_schedule\<close> and \<^verbatim>\<open>_row_to_run\<close> read rows.\<close>

definition or_text :: "string \<Rightarrow> string \<Rightarrow> string" where
  "or_text s d = (if s = '''' then d else s)"

definition row_to_schedule :: "schedule_row \<Rightarrow> schedule_row" where
  "row_to_schedule r =
     r\<lparr>sr_overlap := or_text (sr_overlap r) ''skip'', sr_action := or_text (sr_action r) ''spawn'',
       sr_target_kind := or_text (sr_target_kind r) ''run''\<rparr>"

definition row_to_run :: "run_row \<Rightarrow> run_row" where
  "row_to_run r = r\<lparr>rr_origin := or_text (rr_origin r) ''timer''\<rparr>"

subsection \<open>Statements\<close>

text \<open>\<^verbatim>\<open>UPDATE ... WHERE id=?\<close> and \<^verbatim>\<open>SELECT ... WHERE id=?\<close>.\<close>

definition update_schedule ::
  "string \<Rightarrow> (schedule_row \<Rightarrow> schedule_row) \<Rightarrow> schedule_store \<Rightarrow> schedule_store" where
  "update_schedule sid f st =
     st\<lparr>ss_schedules := map (\<lambda>r. if sr_id r = sid then f r else r) (ss_schedules st)\<rparr>"

definition update_run ::
  "string \<Rightarrow> (run_row \<Rightarrow> run_row) \<Rightarrow> schedule_store \<Rightarrow> schedule_store" where
  "update_run rid f st = st\<lparr>ss_runs := map (\<lambda>r. if rr_id r = rid then f r else r) (ss_runs st)\<rparr>"

definition get_schedule :: "string \<Rightarrow> schedule_store \<Rightarrow> schedule_row option" where
  "get_schedule sid st = map_option row_to_schedule (find (\<lambda>r. sr_id r = sid) (ss_schedules st))"

definition find_run :: "string \<Rightarrow> schedule_store \<Rightarrow> run_row option" where
  "find_run rid st = find (\<lambda>r. rr_id r = rid) (ss_runs st)"

subsection \<open>Definitions\<close>

text \<open>A float bound to a column: SQLite stores not-a-number as NULL.\<close>

definition real_column :: "epoch_time option \<Rightarrow> seconds option" where
  "real_column t = (case t of Some (Epoch x) \<Rightarrow> Some x | _ \<Rightarrow> None)"

lemma real_column_simps [simp]:
  "real_column None = None" "real_column (Some (Epoch x)) = Some x" "real_column (Some Not_A_Number) = None"
  by (simp_all add: real_column_def)

text \<open>The columns a definition writes.\<close>

definition write_spec :: "schedule_spec \<Rightarrow> schedule_row \<Rightarrow> schedule_row" where
  "write_spec s r = r\<lparr>
     sr_label := sp_label s, sr_trigger_kind := sp_trigger_kind s, sr_cron := sp_cron s,
     sr_interval_seconds := sp_interval_seconds s, sr_run_at := real_column (sp_run_at s),
     sr_timezone := sp_timezone s, sr_catch_up := sp_catch_up s, sr_overlap := sp_overlap s,
     sr_backend := sp_backend s, sr_profile_id := sp_profile_id s, sr_cwd := sp_cwd s,
     sr_session_name := sp_session_name s, sr_prompt := sp_prompt s,
     sr_follow_ups := map follow_up_as_dict (sp_follow_ups s),
     sr_daily_run_cap := sp_daily_run_cap s, sr_action := sp_action s,
     sr_target_run_id := sp_target_run_id s, sr_target_kind := sp_target_kind s,
     sr_target_cut_message_id := sp_target_cut_message_id s,
     sr_target_cut_mode := sp_target_cut_mode s,
     sr_context_ceiling_pct := sp_context_ceiling_pct s\<rparr>"

definition blank_row :: schedule_row where
  "blank_row = \<lparr>
     sr_id = '''', sr_project_id = '''', sr_project_root = '''', sr_label = '''', sr_enabled = True,
     sr_trigger_kind = '''', sr_cron = '''', sr_interval_seconds = None, sr_run_at = None,
     sr_timezone = '''', sr_catch_up = False, sr_overlap = ''skip'', sr_backend = '''',
     sr_profile_id = '''', sr_cwd = '''', sr_session_name = '''', sr_prompt = '''',
     sr_follow_ups = [], sr_daily_run_cap = 0, sr_next_fire_at = None, sr_last_fire_at = None,
     sr_last_session_id = None, sr_last_outcome = '''', sr_last_reason = '''',
     sr_disabled_reason = '''', sr_created_at = 0, sr_updated_at = 0, sr_revision = 1,
     sr_action = ''spawn'', sr_target_run_id = '''', sr_target_kind = ''run'',
     sr_target_cut_message_id = '''', sr_target_cut_mode = '''', sr_context_ceiling_pct = 0\<rparr>"

text \<open>The primary key refuses a second row of the same identifier: \<open>None\<close>.\<close>

definition create_schedule ::
  "string \<Rightarrow> string \<Rightarrow> string \<Rightarrow> schedule_spec \<Rightarrow> seconds option \<Rightarrow> seconds \<Rightarrow> schedule_store
    \<Rightarrow> (schedule_row \<times> schedule_store) option" where
  "create_schedule sid pid proot spec next_at now st =
     (if sid \<in> sr_id ` set (ss_schedules st) then None
      else
        let r = write_spec spec
          (blank_row\<lparr>sr_id := sid, sr_project_id := pid, sr_project_root := proot, sr_enabled := True,
            sr_next_fire_at := next_at, sr_created_at := now, sr_updated_at := now,
            sr_revision := 1\<rparr>)
        in Some (row_to_schedule r, st\<lparr>ss_schedules := ss_schedules st @ [r]\<rparr>))"

definition replace_schedule ::
  "string \<Rightarrow> schedule_spec \<Rightarrow> seconds option \<Rightarrow> int option \<Rightarrow> seconds \<Rightarrow> schedule_store
    \<Rightarrow> schedule_row option \<times> schedule_store" where
  "replace_schedule sid spec next_at revision now st =
     (let hit = (\<lambda>r. sr_id r = sid \<and> (case revision of None \<Rightarrow> True | Some v \<Rightarrow> sr_revision r = v))
      in if \<exists>r \<in> set (ss_schedules st). hit r then
           let st' = st\<lparr>ss_schedules := map (\<lambda>r.
                 if hit r then (write_spec spec r)\<lparr>sr_next_fire_at := next_at, sr_updated_at := now,
                   sr_revision := sr_revision r + 1, sr_disabled_reason := ''''\<rparr>
                 else r) (ss_schedules st)\<rparr>
           in (get_schedule sid st', st')
         else (None, st))"

definition set_enabled ::
  "string \<Rightarrow> bool \<Rightarrow> seconds option \<Rightarrow> string \<Rightarrow> seconds \<Rightarrow> schedule_store
    \<Rightarrow> schedule_row option \<times> schedule_store" where
  "set_enabled sid enabled next_at reason now st =
     (let st' = update_schedule sid
        (\<lambda>r. r\<lparr>sr_enabled := enabled, sr_next_fire_at := next_at, sr_disabled_reason := reason,
          sr_updated_at := now, sr_revision := sr_revision r + 1\<rparr>) st
      in (get_schedule sid st', st'))"

definition set_next_fire ::
  "string \<Rightarrow> seconds option \<Rightarrow> seconds \<Rightarrow> schedule_store \<Rightarrow> schedule_store" where
  "set_next_fire sid next_at now =
     update_schedule sid (\<lambda>r. r\<lparr>sr_next_fire_at := next_at, sr_updated_at := now\<rparr>)"

definition delete_schedule :: "string \<Rightarrow> schedule_store \<Rightarrow> bool \<times> schedule_store" where
  "delete_schedule sid st =
     (sid \<in> sr_id ` set (ss_schedules st),
      \<lparr>ss_schedules = filter (\<lambda>r. sr_id r \<noteq> sid) (ss_schedules st),
       ss_runs = filter (\<lambda>r. rr_schedule_id r \<noteq> sid) (ss_runs st)\<rparr>)"

definition list_schedules :: "string \<Rightarrow> schedule_store \<Rightarrow> schedule_row list" where
  "list_schedules pid st =
     map row_to_schedule
       (if pid \<noteq> '''' then
          sort_key sr_created_at (filter (\<lambda>r. sr_project_id r = pid) (ss_schedules st))
        else sort_key sr_project_id (sort_key sr_created_at (ss_schedules st)))"

definition is_due :: "seconds \<Rightarrow> schedule_row \<Rightarrow> bool" where
  "is_due now r \<longleftrightarrow> sr_enabled r \<and> (case sr_next_fire_at r of None \<Rightarrow> False | Some t \<Rightarrow> t \<le> now)"

definition due_schedules :: "seconds \<Rightarrow> schedule_store \<Rightarrow> schedule_row list" where
  "due_schedules now st =
     map row_to_schedule
       (sort_key (\<lambda>r. case sr_next_fire_at r of None \<Rightarrow> 0 | Some t \<Rightarrow> t)
          (filter (is_due now) (ss_schedules st)))"

subsection \<open>Runs\<close>

text \<open>\<open>None\<close> is \<^verbatim>\<open>ScheduleConflict\<close>: the unique index on schedule and fire key, or the primary key.\<close>

definition claimed :: "string \<Rightarrow> string \<Rightarrow> schedule_store \<Rightarrow> bool" where
  "claimed sid key st \<longleftrightarrow> (\<exists>r \<in> set (ss_runs st). rr_schedule_id r = sid \<and> rr_fire_key r = key)"

definition new_run :: "string \<Rightarrow> string \<Rightarrow> string \<Rightarrow> string \<Rightarrow> seconds option \<Rightarrow> string \<Rightarrow> seconds \<Rightarrow> run_row" where
  "new_run rid sid pid key due origin now =
     \<lparr>rr_id = rid, rr_schedule_id = sid, rr_project_id = pid, rr_fire_key = key, rr_due_at = due,
      rr_started_at = now, rr_finished_at = None, rr_outcome = ''started'', rr_reason = '''',
      rr_session_id = None, rr_origin = origin, rr_queued_messages = 0\<rparr>"

definition claim_run ::
  "string \<Rightarrow> string \<Rightarrow> string \<Rightarrow> string \<Rightarrow> seconds option \<Rightarrow> string \<Rightarrow> seconds \<Rightarrow> schedule_store
    \<Rightarrow> (run_row \<times> schedule_store) option" where
  "claim_run rid sid pid key due origin now st =
     (if claimed sid key st \<or> rid \<in> rr_id ` set (ss_runs st) then None
      else
        let r = new_run rid sid pid key due origin now
        in Some (row_to_run r, st\<lparr>ss_runs := ss_runs st @ [r]\<rparr>))"

definition finish_run ::
  "string \<Rightarrow> string \<Rightarrow> string \<Rightarrow> string option \<Rightarrow> int \<Rightarrow> seconds \<Rightarrow> schedule_store
    \<Rightarrow> run_row option \<times> schedule_store" where
  "finish_run rid outcome reason sid queued now st =
     (let st1 = update_run rid
        (\<lambda>r. r\<lparr>rr_outcome := outcome, rr_reason := reason, rr_session_id := sid,
          rr_queued_messages := queued, rr_finished_at := Some now\<rparr>) st
      in case find_run rid st1 of
           None \<Rightarrow> (None, st1)
         | Some r \<Rightarrow>
             (Some (row_to_run r),
              update_schedule (rr_schedule_id r)
                (\<lambda>s. s\<lparr>sr_last_fire_at := Some (rr_started_at r), sr_last_outcome := outcome,
                  sr_last_reason := reason, sr_last_session_id := sid, sr_updated_at := now\<rparr>) st1))"

definition list_runs :: "string \<Rightarrow> string \<Rightarrow> int \<Rightarrow> schedule_store \<Rightarrow> run_row list" where
  "list_runs sid pid limit st =
     (let bounded = nat (max 1 (min limit 200));
          rows = (if sid \<noteq> '''' then filter (\<lambda>r. rr_schedule_id r = sid) (ss_runs st)
                  else if pid \<noteq> '''' then filter (\<lambda>r. rr_project_id r = pid) (ss_runs st)
                  else ss_runs st)
      in map row_to_run (take bounded (sort_key (\<lambda>r. - rr_started_at r) rows)))"

definition runs_since :: "string \<Rightarrow> seconds \<Rightarrow> schedule_store \<Rightarrow> int" where
  "runs_since sid since st =
     int (length (filter
       (\<lambda>r. rr_schedule_id r = sid \<and> since \<le> rr_started_at r \<and>
         rr_outcome r \<in> {''spawned'', ''started''}) (ss_runs st)))"

definition active_sessions :: "schedule_store \<Rightarrow> string list" where
  "active_sessions st = List.map_filter sr_last_session_id (ss_schedules st)"

definition prune_runs :: "int \<Rightarrow> seconds \<Rightarrow> schedule_store \<Rightarrow> schedule_store" where
  "prune_runs retention_days now st =
     (let cutoff = now - of_int (max 1 retention_days) * 86400
      in st\<lparr>ss_runs := filter (\<lambda>r. cutoff \<le> rr_started_at r) (ss_runs st)\<rparr>)"

end
