(* ===== verification/Scheduler.thy ===== *)
theory Scheduler
  imports Schedule_Store
begin

text \<open>
  \<^verbatim>\<open>scheduler.py\<close>: what one fire of a schedule does, the sweep over due schedules and the repair at
  daemon start. What the service is given from outside is a record of parameters: the install's
  settings, the registered Projects, the automation gate, the session registry, spawning, resuming,
  forking, the prompt queue, and the clock readings of one fire. What it does to the outside is a
  list of effects in order. Log lines are left out.
\<close>

subsection \<open>Parameters and effects\<close>

definition missed_grace_seconds :: seconds where
  "missed_grace_seconds = 900"

definition reason_labels :: "(string \<times> string) list" where
  "reason_labels =
     [(''install_disabled'', ''scheduled runs are switched off for this install''),
      (''project_missing'', ''the Project this schedule belongs to is no longer registered''),
      (''automation_disabled'', ''this Project has not opted into scheduled runs''),
      (''overlap'', ''the previous run's session is still live''),
      (''daily_cap'', ''this schedule reached its daily run cap''),
      (''concurrency_cap'', ''too many scheduled sessions are already running''),
      (''missed_window'', ''the daemon was not running when this was due''),
      (''target_missing'', ''the conversation this schedule resumes has no History entry any more''),
      (''history_unavailable'', ''history is not available to this daemon'')]"

definition reason_label :: "string \<Rightarrow> string" where
  "reason_label k = (case map_of reason_labels k of None \<Rightarrow> '''' | Some s \<Rightarrow> s)"

definition transient_resume_codes :: "string list" where
  "transient_resume_codes = [''conversation_live'', ''conversation_held'']"

definition resume_reason_labels :: "(string \<times> string) list" where
  "resume_reason_labels =
     [(''conversation_live'', ''the conversation is open in another session''),
      (''conversation_held'', ''another CLI process is holding this conversation''),
      (''context_ceiling'', ''the conversation is already too full to continue usefully'')]"

text \<open>What \<^verbatim>\<open>resume_run\<close> and \<^verbatim>\<open>fork_run\<close> of \<^verbatim>\<open>session_resume.py\<close> may answer.\<close>

record resumed =
  rs_session_id :: string
  rs_agent_run_id :: "string option"
  rs_project_id :: string
  rs_conversation_id :: string

datatype resume_answer =
    Resumed resumed
  | Refused string string
  | Raised string

datatype fork_answer =
    Forked string pydict
  | Fork_Refused string string
  | Fork_Raised string

record resume_request =
  rq_row :: pydict
  rq_project_id :: string
  rq_name :: string
  rq_flow :: string
  rq_conversation_id :: string
  rq_fork :: "pydict option"

record history_source =
  hs_entry :: "string \<Rightarrow> pydict option"
  hs_latest :: "string \<Rightarrow> pydict option"

record queue_message =
  qm_session_id :: string
  qm_body :: string
  qm_armed :: bool
  qm_sender_id :: string
  qm_sender_label :: string
  qm_not_before :: "seconds option"
  qm_label :: string
  qm_index :: nat

datatype schedule_effect =
    Spawn_Asked pydict
  | Fork_Asked pydict string string string
  | Resume_Asked resume_request
  | Enqueued queue_message
  | Lineage string string string pydict
  | Fired string string string string string "string option"
  | Notified string string "string option"

record fire_env =
  fe_schedules :: schedule_env
  fe_enabled :: bool
  fe_max_concurrent :: int
  fe_project_root :: "string \<Rightarrow> string option"
  fe_gate :: "string \<Rightarrow> string list"
  fe_session_state :: "string \<Rightarrow> string option"
  fe_spawn :: "pydict \<Rightarrow> string + string"
  fe_enqueue :: "queue_message \<Rightarrow> bool"
  fe_history :: "history_source option"
  fe_lineage_store :: bool
  fe_fork :: "pydict \<Rightarrow> string \<Rightarrow> string \<Rightarrow> string \<Rightarrow> fork_answer"
  fe_resume :: "resume_request \<Rightarrow> resume_answer"
  fe_notify :: bool
  fe_run_id :: string
  fe_queue_clock :: seconds
  fe_finish_clock :: seconds

subsection \<open>The stored definition\<close>

definition stored_follow_up :: "pyval \<Rightarrow> rat" where
  "stored_follow_up v = (case py_number v of None \<Rightarrow> 0 | Some x \<Rightarrow> x)"

definition text_or_empty :: "schedule_env \<Rightarrow> pyval \<Rightarrow> string" where
  "text_or_empty env v = (if truthy v then py_to_str (py_repr env) v else '''')"

definition follow_ups_from_row :: "schedule_env \<Rightarrow> pydict list \<Rightarrow> follow_up list" where
  "follow_ups_from_row env items =
     map (\<lambda>d. \<lparr>fu_body = text_or_empty env (py_get d ''body''),
        fu_delay_seconds = stored_follow_up (py_get d ''delay_seconds''),
        fu_armed = truthy (py_get d ''armed'')\<rparr>)
      (filter (\<lambda>d. strip (text_or_empty env (py_get d ''body'')) \<noteq> '''') items)"

definition spec_from_row :: "schedule_env \<Rightarrow> schedule_row \<Rightarrow> schedule_spec" where
  "spec_from_row env r = \<lparr>
     sp_label = sr_label r, sp_prompt = sr_prompt r, sp_trigger_kind = sr_trigger_kind r,
     sp_cron = sr_cron r, sp_interval_seconds = sr_interval_seconds r,
     sp_run_at = map_option Epoch (sr_run_at r),
     sp_timezone = sr_timezone r, sp_catch_up = sr_catch_up r,
     sp_overlap = or_text (sr_overlap r) ''skip'', sp_backend = sr_backend r,
     sp_profile_id = sr_profile_id r, sp_cwd = sr_cwd r, sp_session_name = sr_session_name r,
     sp_daily_run_cap = sr_daily_run_cap r,
     sp_follow_ups = follow_ups_from_row env (sr_follow_ups r),
     sp_action = or_text (sr_action r) ''spawn'', sp_target_run_id = sr_target_run_id r,
     sp_target_kind = or_text (sr_target_kind r) ''run'',
     sp_target_cut_message_id = sr_target_cut_message_id r,
     sp_target_cut_mode = sr_target_cut_mode r,
     sp_context_ceiling_pct = sr_context_ceiling_pct r\<rparr>"

subsection \<open>Guards\<close>

definition session_live :: "fire_env \<Rightarrow> string option \<Rightarrow> bool" where
  "session_live env sid =
     (case sid of
        None \<Rightarrow> False
      | Some s \<Rightarrow>
          s \<noteq> '''' \<and>
          (case fe_session_state env s of
             None \<Rightarrow> False | Some state \<Rightarrow> state \<noteq> ''exited'' \<and> state \<noteq> ''crashed''))"

definition live_scheduled_sessions :: "fire_env \<Rightarrow> schedule_store \<Rightarrow> string list" where
  "live_scheduled_sessions env st = filter (\<lambda>s. session_live env (Some s)) (active_sessions st)"

record fire_result =
  fx_outcome :: string
  fx_reason :: string
  fx_session_id :: "string option"
  fx_queued :: int

definition no_session :: "string \<Rightarrow> string \<Rightarrow> fire_result" where
  "no_session outcome reason =
     \<lparr>fx_outcome = outcome, fx_reason = reason, fx_session_id = None, fx_queued = 0\<rparr>"

definition skipped :: "string \<Rightarrow> fire_result" where
  "skipped k = no_session ''skipped'' (reason_label k)"

text \<open>The guards after the Project is known, in order; \<open>None\<close> lets the fire go on.\<close>

definition project_guards ::
  "fire_env \<Rightarrow> schedule_row \<Rightarrow> schedule_spec \<Rightarrow> seconds \<Rightarrow> string \<Rightarrow> schedule_store \<Rightarrow> fire_result option" where
  "project_guards env row spec now proot st =
     (if ''scheduled_runs'' \<notin> set (fe_gate env proot) then Some (skipped ''automation_disabled'')
      else if sp_overlap spec = ''skip'' \<and> session_live env (sr_last_session_id row)
      then Some (skipped ''overlap'')
      else if sp_daily_run_cap spec \<noteq> 0 \<and>
        sp_daily_run_cap spec < runs_since (sr_id row) (now - 86400) st
      then Some (skipped ''daily_cap'')
      else if fe_max_concurrent env \<noteq> 0 \<and>
        fe_max_concurrent env \<le> int (length (live_scheduled_sessions env st))
      then Some (skipped ''concurrency_cap'')
      else None)"

definition is_late :: "schedule_spec \<Rightarrow> string \<Rightarrow> seconds \<Rightarrow> seconds \<Rightarrow> bool" where
  "is_late spec origin now due \<longleftrightarrow>
     origin = ''timer'' \<and> missed_grace_seconds < now - due \<and> \<not> sp_catch_up spec"

subsection \<open>Messages behind a fire\<close>

definition staged_messages :: "schedule_spec \<Rightarrow> follow_up list" where
  "staged_messages spec =
     (if sp_action spec = ''resume'' \<and> strip (sp_prompt spec) \<noteq> ''''
      then \<lparr>fu_body = sp_prompt spec, fu_delay_seconds = 0, fu_armed = False\<rparr> # sp_follow_ups spec
      else sp_follow_ups spec)"

definition staged_message ::
  "schedule_spec \<Rightarrow> string \<Rightarrow> string \<Rightarrow> seconds \<Rightarrow> nat \<Rightarrow> follow_up \<Rightarrow> queue_message" where
  "staged_message spec sid rid base i f = \<lparr>
     qm_session_id = sid, qm_body = fu_body f, qm_armed = fu_armed f,
     qm_sender_id = ''schedule:'' @ rid,
     qm_sender_label = ''Schedule '' @ [CHR 0xB7] @ '' '' @ sp_label spec,
     qm_not_before = (if fu_delay_seconds f = 0 then None else Some (base + fu_delay_seconds f)),
     qm_label = sp_label spec, qm_index = i\<rparr>"

definition queue_messages ::
  "fire_env \<Rightarrow> schedule_spec \<Rightarrow> string \<Rightarrow> string \<Rightarrow> int \<times> schedule_effect list" where
  "queue_messages env spec sid rid =
     (let ms = map (\<lambda>(i, f). staged_message spec sid rid (fe_queue_clock env) i f)
        (enumerate 0 (staged_messages spec))
      in (int (length (filter (fe_enqueue env) ms)), map Enqueued ms))"

subsection \<open>Resuming\<close>

definition py_round :: "rat \<Rightarrow> int" where
  "py_round r =
     (let f = \<lfloor>r\<rfloor>; d = r - of_int f
      in if d < 1 / 2 then f else if 1 / 2 < d then f + 1 else if even f then f else f + 1)"

definition percent :: "rat \<Rightarrow> string" where
  "percent r = signed_decimal (py_round (r * 100)) @ ''%''"

definition context_refusal :: "schedule_spec \<Rightarrow> pydict \<Rightarrow> string option" where
  "context_refusal spec row =
     (let ceiling = sp_context_ceiling_pct spec in
      if ceiling = 0 then None
      else
        (case (case py_get row ''final_context_pct'' of
                 PBool b \<Rightarrow> Some (if b then 1 else 0) | v \<Rightarrow> py_number v) of
           None \<Rightarrow> None
         | Some measured \<Rightarrow>
             if measured \<le> 0 \<or> measured < ceiling then None
             else Some (''the conversation is already too full to continue usefully ('' @
               percent measured @ '' of its context window, ceiling '' @ percent ceiling @ '')'')))"

definition target_row :: "history_source \<Rightarrow> schedule_spec \<Rightarrow> pydict option" where
  "target_row h spec =
     (if sp_target_kind spec = ''latest_of_session'' then hs_latest h (sp_target_run_id spec)
      else hs_entry h (sp_target_run_id spec))"

definition lineage_effects ::
  "fire_env \<Rightarrow> pydict \<Rightarrow> resumed \<Rightarrow> pydict option \<Rightarrow> schedule_effect list" where
  "lineage_effects env row r fork =
     (let source = text_or_empty (fe_schedules env) (py_get row ''id'');
          child = (case rs_agent_run_id r of None \<Rightarrow> rs_session_id r
                   | Some c \<Rightarrow> or_text c (rs_session_id r))
      in if \<not> fe_lineage_store env \<or> child = source then []
         else [Lineage source child
           (if fork \<noteq> None \<and> fork \<noteq> Some [] then ''branch'' else ''resume'')
           ([(''backend'', py_get row ''backend''), (''project_id'', PStr (rs_project_id r)),
             (''origin'', PStr ''schedule'')] @
            (case fork of
               None \<Rightarrow> []
             | Some d \<Rightarrow>
                 if d = [] then []
                 else
                   [(''strategy'', PStr ''transcript_fork''),
                    (''source_conversation_id'', py_get row ''native_id''),
                    (''branch_conversation_id'', PStr (rs_conversation_id r))] @
                   map (\<lambda>k. (k, py_get d k))
                     [''from_message_id'', ''from_message_role'', ''mode'', ''cut_offset'']))])"

text \<open>A refusal of the resume: the code decides whether it is a skip, and one code disarms.\<close>

definition refused_result :: "string \<Rightarrow> string \<Rightarrow> fire_result" where
  "refused_result c msg =
     no_session (if c \<in> set transient_resume_codes then ''skipped'' else ''failed'')
       (take 400 (case map_of resume_reason_labels c of None \<Rightarrow> msg | Some s \<Rightarrow> s))"

definition after_refusal :: "string \<Rightarrow> string \<Rightarrow> seconds \<Rightarrow> schedule_store \<Rightarrow> schedule_store" where
  "after_refusal sid c now st =
     (if c = ''not_agent'' then snd (set_enabled sid False None c now st) else st)"

definition resume_with ::
  "fire_env \<Rightarrow> schedule_row \<Rightarrow> schedule_spec \<Rightarrow> string \<Rightarrow> string \<Rightarrow> seconds \<Rightarrow> pydict \<Rightarrow> string
    \<Rightarrow> pydict option \<Rightarrow> schedule_store \<Rightarrow> fire_result \<times> schedule_store \<times> schedule_effect list" where
  "resume_with env srow spec rid pid now row conversation fork st =
     (let rq = \<lparr>rq_row = row, rq_project_id = pid, rq_name = strip (sp_session_name spec),
        rq_flow = ''scheduled resume '' @ py_repr (fe_schedules env) (PStr (sp_label spec)),
        rq_conversation_id = conversation, rq_fork = fork\<rparr>
      in case fe_resume env rq of
           Refused c msg \<Rightarrow>
             (refused_result c msg, after_refusal (sr_id srow) c now st, [Resume_Asked rq])
         | Raised msg \<Rightarrow> (no_session ''failed'' (take 400 msg), st, [Resume_Asked rq])
         | Resumed r \<Rightarrow>
             let (n, effs) = queue_messages env spec (rs_session_id r) rid
             in (\<lparr>fx_outcome = ''spawned'', fx_reason = '''', fx_session_id = Some (rs_session_id r),
                  fx_queued = n\<rparr>, st,
                 Resume_Asked rq # lineage_effects env row r fork @ effs))"

definition resume_target ::
  "fire_env \<Rightarrow> schedule_row \<Rightarrow> schedule_spec \<Rightarrow> string \<Rightarrow> string \<Rightarrow> seconds \<Rightarrow> schedule_store
    \<Rightarrow> fire_result \<times> schedule_store \<times> schedule_effect list" where
  "resume_target env srow spec rid pid now st =
     (case fe_history env of
        None \<Rightarrow> (no_session ''failed'' (reason_label ''history_unavailable''), st, [])
      | Some h \<Rightarrow>
          (case target_row h spec of
             None \<Rightarrow>
               (skipped ''target_missing'',
                snd (set_enabled (sr_id srow) False None ''target_missing'' now st), [])
           | Some row \<Rightarrow>
               (case context_refusal spec row of
                  Some full \<Rightarrow> (no_session ''skipped'' full, st, [])
                | None \<Rightarrow>
                    if sp_target_kind spec = ''fork_point'' then
                      let ask = Fork_Asked row pid (sp_target_cut_message_id spec) (sp_target_cut_mode spec)
                      in case fe_fork env row pid (sp_target_cut_message_id spec) (sp_target_cut_mode spec) of
                           Fork_Refused c msg \<Rightarrow>
                             (refused_result c msg, after_refusal (sr_id srow) c now st, [ask])
                         | Fork_Raised msg \<Rightarrow> (no_session ''failed'' (take 400 msg), st, [ask])
                         | Forked conversation report \<Rightarrow>
                             let (r, st', effs) =
                               resume_with env srow spec rid pid now row conversation (Some report) st
                             in (r, st', ask # effs)
                    else resume_with env srow spec rid pid now row '''' None st)))"

subsection \<open>Spawning\<close>

definition spawn_body :: "schedule_spec \<Rightarrow> string \<Rightarrow> pydict" where
  "spawn_body spec pid =
     (let label = take 80 (strip (or_text (sp_session_name spec) (sp_label spec))) in
      [(''project_id'', PStr pid), (''seed_text'', PStr (sp_prompt spec))] @
      (if sp_backend spec = '''' then [] else [(''backend'', PStr (sp_backend spec))]) @
      (if sp_profile_id spec = '''' then [] else [(''profile_id'', PStr (sp_profile_id spec))]) @
      (if sp_cwd spec = '''' then [] else [(''cwd'', PStr (sp_cwd spec))]) @
      (if label = '''' then [] else [(''name'', PStr label)]))"

definition spawn_target ::
  "fire_env \<Rightarrow> schedule_spec \<Rightarrow> string \<Rightarrow> string \<Rightarrow> fire_result \<times> schedule_effect list" where
  "spawn_target env spec rid pid =
     (let body = spawn_body spec pid in
      case fe_spawn env body of
        Inl msg \<Rightarrow> (no_session ''failed'' (take 400 msg), [Spawn_Asked body])
      | Inr sid \<Rightarrow>
          let (n, effs) = queue_messages env spec sid rid
          in (\<lparr>fx_outcome = ''spawned'', fx_reason = '''', fx_session_id = Some sid, fx_queued = n\<rparr>,
              Spawn_Asked body # effs))"

subsection \<open>One fire\<close>

definition execute ::
  "fire_env \<Rightarrow> schedule_row \<Rightarrow> schedule_spec \<Rightarrow> string \<Rightarrow> seconds \<Rightarrow> seconds \<Rightarrow> string \<Rightarrow> schedule_store
    \<Rightarrow> fire_result \<times> schedule_store \<times> schedule_effect list" where
  "execute env row spec rid due now origin st =
     (if \<not> fe_enabled env then (skipped ''install_disabled'', st, [])
      else if is_late spec origin now due
      then (no_session ''missed'' (reason_label ''missed_window''), st, [])
      else
        (case fe_project_root env (sr_project_id row) of
           None \<Rightarrow>
             (skipped ''project_missing'',
              snd (set_enabled (sr_id row) False None ''project_missing'' now st), [])
         | Some proot \<Rightarrow>
             (case project_guards env row spec now proot st of
                Some r \<Rightarrow> (r, st, [])
              | None \<Rightarrow>
                  if sp_action spec = ''resume''
                  then resume_target env row spec rid (sr_project_id row) now st
                  else
                    let (r, effs) = spawn_target env spec rid (sr_project_id row) in (r, st, effs))))"

text \<open>The trigger moves on before anything else is decided.\<close>

definition advance_trigger ::
  "fire_env \<Rightarrow> schedule_row \<Rightarrow> schedule_spec \<Rightarrow> seconds \<Rightarrow> seconds \<Rightarrow> schedule_store
    \<Rightarrow> schedule_error + schedule_store" where
  "advance_trigger env row spec due now st =
     bind_err (next_occurrence (fe_schedules env) spec (max due now)) (\<lambda>following.
     let st1 = set_next_fire (sr_id row) (real_column following) now st
     in Inr (if following = None \<and> sp_trigger_kind spec = ''once''
             then snd (set_enabled (sr_id row) False None ''completed'' now st1) else st1))"

definition settle ::
  "fire_env \<Rightarrow> schedule_row \<Rightarrow> schedule_spec \<Rightarrow> string \<Rightarrow> fire_result \<Rightarrow> schedule_store
    \<Rightarrow> run_row option \<times> schedule_store \<times> schedule_effect list" where
  "settle env row spec origin r st =
     (let (run, st') = finish_run (fe_run_id env) (fx_outcome r) (fx_reason r) (fx_session_id r)
        (fx_queued r) (fe_finish_clock env) st
      in (run, st',
          Fired (sr_id row) (sp_label spec) (fx_outcome r) (fx_reason r) origin (fx_session_id r) #
          (if fx_outcome r = ''failed'' \<and> fe_notify env
           then [Notified (sr_id row)
             (or_text (fx_reason r) ''the scheduled run could not start'') (fx_session_id r)]
           else [])))"

definition fire ::
  "fire_env \<Rightarrow> schedule_row \<Rightarrow> seconds \<Rightarrow> seconds \<Rightarrow> string \<Rightarrow> string option \<Rightarrow> bool \<Rightarrow> schedule_store
    \<Rightarrow> schedule_error + (run_row option \<times> schedule_store \<times> schedule_effect list)" where
  "fire env row due now origin key advance st =
     (let spec = spec_from_row (fe_schedules env) row in
      bind_err (if advance then advance_trigger env row spec due now st else Inr st) (\<lambda>st1.
      Inr
        (case claim_run (fe_run_id env) (sr_id row) (sr_project_id row)
            (case key of None \<Rightarrow> occurrence_key due | Some k \<Rightarrow> k) (Some due) origin now st1 of
           None \<Rightarrow> (None, st1, [])
         | Some (run, st2) \<Rightarrow>
             let (r, st3, effs) = execute env row spec (rr_id run) due now origin st2;
                 (settled, st4, effs') = settle env row spec origin r st3
             in (settled, st4, effs @ effs'))))"

text \<open>\<^verbatim>\<open>run_now\<close>: its own key, no effect on the timer's window.\<close>

definition run_now ::
  "fire_env \<Rightarrow> string \<Rightarrow> string \<Rightarrow> seconds \<Rightarrow> schedule_store
    \<Rightarrow> (schedule_error + (run_row option \<times> schedule_store \<times> schedule_effect list)) option" where
  "run_now env sid unique now st =
     (case get_schedule sid st of
        None \<Rightarrow> None
      | Some row \<Rightarrow> Some (fire env row now now ''manual'' (Some (''manual:'' @ unique)) False st))"

subsection \<open>The sweep\<close>

text \<open>
  A fire that raises is logged and costs the sweep nothing. \<open>ctx\<close> gives every schedule the
  parameters of its own fire.
\<close>

fun sweep_rows ::
  "(string \<Rightarrow> fire_env) \<Rightarrow> seconds \<Rightarrow> schedule_row list \<Rightarrow> schedule_store
    \<Rightarrow> run_row list \<times> schedule_store \<times> schedule_effect list" where
  "sweep_rows ctx now [] st = ([], st, [])"
| "sweep_rows ctx now (row # rows) st =
     (let due = (case sr_next_fire_at row of None \<Rightarrow> 0 | Some t \<Rightarrow> t) in
      case fire (ctx (sr_id row)) row due now ''timer'' None True st of
        Inl e \<Rightarrow> sweep_rows ctx now rows st
      | Inr (run, st1, effs) \<Rightarrow>
          let (runs, st2, effs') = sweep_rows ctx now rows st1
          in ((case run of None \<Rightarrow> runs | Some r \<Rightarrow> r # runs), st2, effs @ effs'))"

definition tick ::
  "(string \<Rightarrow> fire_env) \<Rightarrow> seconds \<Rightarrow> schedule_store
    \<Rightarrow> run_row list \<times> schedule_store \<times> schedule_effect list" where
  "tick ctx now st = sweep_rows ctx now (due_schedules now st) st"

subsection \<open>Daemon start\<close>

definition repaired_fire ::
  "schedule_env \<Rightarrow> seconds \<Rightarrow> schedule_row \<Rightarrow> schedule_error + seconds option" where
  "repaired_fire env now row =
     (let stored = sr_next_fire_at row in
      if \<not> sr_enabled row then Inr stored
      else if (case stored of None \<Rightarrow> False | Some t \<Rightarrow> t \<le> now) then Inr stored
      else if stored \<noteq> None \<and> sr_trigger_kind row \<noteq> ''cron'' then Inr stored
      else bind_err (first_occurrence env (spec_from_row env row) now) (\<lambda>f. Inr (real_column f)))"

fun restore_rows ::
  "schedule_env \<Rightarrow> seconds \<Rightarrow> schedule_row list \<Rightarrow> schedule_store \<Rightarrow> schedule_store \<times> schedule_error option" where
  "restore_rows env now [] st = (st, None)"
| "restore_rows env now (row # rows) st =
     (case repaired_fire env now row of
        Inl e \<Rightarrow> (st, Some e)
      | Inr following \<Rightarrow>
          restore_rows env now rows
            (if following = sr_next_fire_at row then st else set_next_fire (sr_id row) following now st))"

definition restore_schedules ::
  "schedule_env \<Rightarrow> seconds \<Rightarrow> schedule_store \<Rightarrow> schedule_store \<times> schedule_error option" where
  "restore_schedules env now st = restore_rows env now (list_schedules '''' st) st"

text \<open>\<^verbatim>\<open>status\<close>: total, armed, live and the ceiling.\<close>

definition schedule_status :: "fire_env \<Rightarrow> schedule_store \<Rightarrow> bool \<times> nat \<times> nat \<times> nat \<times> int" where
  "schedule_status env st =
     (let rows = list_schedules '''' st in
      (fe_enabled env, length rows, length (filter sr_enabled rows),
       length (live_scheduled_sessions env st), fe_max_concurrent env))"

subsection \<open>What the statements keep\<close>

lemma ss_runs_update_schedule [simp]: "ss_runs (update_schedule sid f st) = ss_runs st"
  by (simp add: update_schedule_def)

lemma ss_schedules_update_run [simp]: "ss_schedules (update_run rid f st) = ss_schedules st"
  by (simp add: update_run_def)

lemma find_map_same: "(\<And>x. P (f x) = P x) \<Longrightarrow> find P (map f xs) = map_option f (find P xs)"
  by (induction xs) auto

text \<open>A function that keeps the identifier acts on the row it finds.\<close>

lemma find_update_schedule:
  assumes "\<And>r. sr_id (f r) = sr_id r"
  shows "find (\<lambda>r. sr_id r = j) (ss_schedules (update_schedule sid f st)) =
    map_option (\<lambda>r. if j = sid then f r else r) (find (\<lambda>r. sr_id r = j) (ss_schedules st))"
proof -
  have "find (\<lambda>r. sr_id r = j) (map (\<lambda>r. if sr_id r = sid then f r else r) rs) =
    map_option (\<lambda>r. if j = sid then f r else r) (find (\<lambda>r. sr_id r = j) rs)" for rs
    by (induction rs) (auto simp: assms)
  then show ?thesis by (simp add: update_schedule_def)
qed

definition stored_row :: "string \<Rightarrow> schedule_store \<Rightarrow> schedule_row option" where
  "stored_row sid st = find (\<lambda>r. sr_id r = sid) (ss_schedules st)"

lemma stored_row_runs [simp]: "stored_row j (st\<lparr>ss_runs := rs\<rparr>) = stored_row j st"
  by (simp add: stored_row_def)

lemma get_schedule_stored: "get_schedule sid st = map_option row_to_schedule (stored_row sid st)"
  by (simp add: get_schedule_def stored_row_def)

lemma stored_row_id: "stored_row sid st = Some r \<Longrightarrow> sr_id r = sid"
  by (auto simp: stored_row_def find_Some_iff)

lemma stored_row_update:
  "(\<And>r. sr_id (f r) = sr_id r) \<Longrightarrow>
     stored_row j (update_schedule sid f st) = map_option (\<lambda>r. if j = sid then f r else r) (stored_row j st)"
  unfolding stored_row_def by (rule find_update_schedule)

lemma stored_row_set_enabled:
  "stored_row j (snd (set_enabled sid en nf reason now st)) =
     map_option (\<lambda>r. if j = sid then r\<lparr>sr_enabled := en, sr_next_fire_at := nf, sr_disabled_reason := reason,
       sr_updated_at := now, sr_revision := sr_revision r + 1\<rparr> else r) (stored_row j st)"
  by (simp add: set_enabled_def Let_def stored_row_update)

lemma stored_row_set_next_fire:
  "stored_row j (set_next_fire sid nf now st) =
     map_option (\<lambda>r. if j = sid then r\<lparr>sr_next_fire_at := nf, sr_updated_at := now\<rparr> else r) (stored_row j st)"
  by (simp add: set_next_fire_def stored_row_update)

lemma runs_set_enabled [simp]: "ss_runs (snd (set_enabled sid en nf reason now st)) = ss_runs st"
  by (simp add: set_enabled_def Let_def)

lemma runs_set_next_fire [simp]: "ss_runs (set_next_fire sid nf now st) = ss_runs st"
  by (simp add: set_next_fire_def)

lemma runs_after_refusal [simp]: "ss_runs (after_refusal sid c now st) = ss_runs st"
  by (simp add: after_refusal_def)

lemma runs_advance:
  "advance_trigger env row spec due now st = Inr st' \<Longrightarrow> ss_runs st' = ss_runs st"
  by (auto simp: advance_trigger_def bind_err_Inr Let_def)

lemma schedules_claim_run:
  "claim_run rid sid pid key due origin now st = Some (run, st') \<Longrightarrow>
     ss_schedules st' = ss_schedules st \<and> ss_runs st' = ss_runs st @ [new_run rid sid pid key due origin now] \<and>
     \<not> claimed sid key st \<and> rid \<notin> rr_id ` set (ss_runs st) \<and> rr_id run = rid"
  by (auto simp: claim_run_def row_to_run_def new_run_def Let_def split: if_splits)

subsection \<open>Every effect of the execution\<close>

definition asks_session :: "schedule_effect \<Rightarrow> bool" where
  "asks_session e = (case e of Spawn_Asked b \<Rightarrow> True | Resume_Asked q \<Rightarrow> True | _ \<Rightarrow> False)"

definition sessions_asked :: "schedule_effect list \<Rightarrow> nat" where
  "sessions_asked effs = length (filter asks_session effs)"

lemma sessions_asked_simps [simp]:
  "sessions_asked [] = 0"
  "sessions_asked (e # effs) = (if asks_session e then Suc (sessions_asked effs) else sessions_asked effs)"
  "sessions_asked (effs @ effs') = sessions_asked effs + sessions_asked effs'"
  by (simp_all add: sessions_asked_def)

lemma asks_session_simps [simp]:
  "asks_session (Spawn_Asked b)" "asks_session (Resume_Asked q)"
  "\<not> asks_session (Fork_Asked a b' c d)" "\<not> asks_session (Enqueued m)" "\<not> asks_session (Lineage e f g h)"
  "\<not> asks_session (Fired i j k l m' n)" "\<not> asks_session (Notified p q' r)"
  by (simp_all add: asks_session_def)

lemma asked_queue: "queue_messages env spec sid rid = (n, effs) \<Longrightarrow> sessions_asked effs = 0"
  by (auto simp: queue_messages_def Let_def sessions_asked_def filter_empty_conv)

lemma asked_lineage [simp]: "sessions_asked (lineage_effects env row r fork) = 0"
  by (auto simp: lineage_effects_def Let_def)

text \<open>What an execution leaves of the store: the runs, and every other schedule.\<close>

definition only_touches :: "string \<Rightarrow> schedule_store \<Rightarrow> schedule_store \<Rightarrow> bool" where
  "only_touches sid st st' \<longleftrightarrow>
     ss_runs st' = ss_runs st \<and>
     (\<forall>j. j \<noteq> sid \<longrightarrow> stored_row j st' = stored_row j st) \<and>
     (\<forall>j. (stored_row j st' = None) = (stored_row j st = None))"

lemma only_touches_refl [simp]: "only_touches sid st st"
  by (simp add: only_touches_def)

lemma only_touches_set_enabled [simp]: "only_touches sid st (snd (set_enabled sid en nf reason now st))"
  by (simp add: only_touches_def stored_row_set_enabled option.map_ident)

lemma only_touches_after_refusal [simp]: "only_touches sid st (after_refusal sid c now st)"
  by (simp add: after_refusal_def)

text \<open>An execution disarms its schedule or leaves the row alone.\<close>

definition disarms :: "string \<Rightarrow> schedule_store \<Rightarrow> schedule_store \<Rightarrow> bool" where
  "disarms sid st st' \<longleftrightarrow>
     st' = st \<or> (\<exists>reason now. st' = snd (set_enabled sid False None reason now st))"

lemma disarms_refl [simp]: "disarms sid st st"
  by (simp add: disarms_def)

lemma disarms_set_enabled [simp]: "disarms sid st (snd (set_enabled sid False None reason now st))"
  by (auto simp: disarms_def)

lemma disarms_after_refusal [simp]: "disarms sid st (after_refusal sid c now st)"
  by (simp add: after_refusal_def)

lemma disarms_touches: "disarms sid st st' \<Longrightarrow> only_touches sid st st'"
  by (auto simp: disarms_def)

lemma resume_with_parts:
  assumes "resume_with env srow spec rid pid now row conv fork st = (r, st', effs)"
  shows "disarms (sr_id srow) st st' \<and> sessions_asked effs = 1"
  using assms asked_queue [of env spec _ rid]
  by (auto simp: resume_with_def Let_def split: resume_answer.splits prod.splits)

lemma resume_target_parts:
  assumes "resume_target env srow spec rid pid now st = (r, st', effs)"
  shows "disarms (sr_id srow) st st' \<and> sessions_asked effs \<le> 1"
proof -
  have *: "disarms (sr_id srow) st st'' \<and> sessions_asked effs'' \<le> 1"
    if "resume_with env srow spec rid pid now row conv fork st = (r'', st'', effs'')" for row conv fork r'' st'' effs''
    using resume_with_parts [OF that] by simp
  show ?thesis
    using assms unfolding resume_target_def
    by (auto simp: Let_def dest: * split: option.splits if_splits fork_answer.splits prod.splits)
qed

lemma spawn_target_parts: "spawn_target env spec rid pid = (r, effs) \<Longrightarrow> sessions_asked effs = 1"
  using asked_queue [of env spec _ rid]
  by (auto simp: spawn_target_def Let_def split: sum.splits prod.splits)

lemma execute_parts:
  assumes "execute env row spec rid due now origin st = (r, st', effs)"
  shows "disarms (sr_id row) st st' \<and> sessions_asked effs \<le> 1"
  using assms unfolding execute_def
  by (auto dest: resume_target_parts spawn_target_parts split: if_splits option.splits prod.splits)

text \<open>A session is asked for only after every guard let the fire pass.\<close>

lemma execute_permitted:
  assumes "execute env row spec rid due now origin st = (r, st', effs)" and "sessions_asked effs \<noteq> 0"
  shows "fe_enabled env \<and> \<not> is_late spec origin now due \<and>
    (\<exists>proot. fe_project_root env (sr_project_id row) = Some proot \<and>
       project_guards env row spec now proot st = None)"
  using assms unfolding execute_def by (auto split: if_splits option.splits)

lemma project_guards_None:
  "project_guards env row spec now proot st = None \<longleftrightarrow>
     ''scheduled_runs'' \<in> set (fe_gate env proot) \<and>
     \<not> (sp_overlap spec = ''skip'' \<and> session_live env (sr_last_session_id row)) \<and>
     (sp_daily_run_cap spec \<noteq> 0 \<longrightarrow> runs_since (sr_id row) (now - 86400) st \<le> sp_daily_run_cap spec) \<and>
     (fe_max_concurrent env \<noteq> 0 \<longrightarrow>
       int (length (live_scheduled_sessions env st)) < fe_max_concurrent env)"
  by (auto simp: project_guards_def skipped_def)

subsection \<open>One fire, step by step\<close>

lemma fire_cases [consumes 1, case_names conflict claimed]:
  assumes "fire env row due now origin key adv st = Inr (settled, st', effs)"
  obtains (conflict) st1 where
      "(if adv then advance_trigger env row (spec_from_row (fe_schedules env) row) due now st else Inr st) = Inr st1"
      "settled = None" "st' = st1" "effs = []"
    | (claimed) st1 run st2 r st3 effs1 effs2 where
      "(if adv then advance_trigger env row (spec_from_row (fe_schedules env) row) due now st else Inr st) = Inr st1"
      "claim_run (fe_run_id env) (sr_id row) (sr_project_id row)
         (case key of None \<Rightarrow> occurrence_key due | Some k \<Rightarrow> k) (Some due) origin now st1 = Some (run, st2)"
      "execute env row (spec_from_row (fe_schedules env) row) (rr_id run) due now origin st2 = (r, st3, effs1)"
      "settle env row (spec_from_row (fe_schedules env) row) origin r st3 = (settled, st', effs2)"
      "effs = effs1 @ effs2"
proof -
  let ?spec = "spec_from_row (fe_schedules env) row"
  let ?key = "case key of None \<Rightarrow> occurrence_key due | Some k \<Rightarrow> k"
  obtain st1 where st1: "(if adv then advance_trigger env row ?spec due now st else Inr st) = Inr st1"
    and rest: "(case claim_run (fe_run_id env) (sr_id row) (sr_project_id row) ?key (Some due) origin now st1 of
           None \<Rightarrow> (None, st1, [])
         | Some (run, st2) \<Rightarrow>
             let (r, st3, effs) = execute env row ?spec (rr_id run) due now origin st2;
                 (settled, st4, effs') = settle env row ?spec origin r st3
             in (settled, st4, effs @ effs')) = (settled, st', effs)"
    using assms by (auto simp: fire_def Let_def bind_err_Inr)
  show ?thesis
  proof (cases "claim_run (fe_run_id env) (sr_id row) (sr_project_id row) ?key (Some due) origin now st1")
    case None
    show ?thesis by (rule conflict [OF st1]) (use rest None in simp_all)
  next
    case (Some p)
    obtain run st2 where p: "p = (run, st2)" by (cases p)
    obtain r st3 effs1 where e: "execute env row ?spec (rr_id run) due now origin st2 = (r, st3, effs1)"
      by (cases "execute env row ?spec (rr_id run) due now origin st2")
    obtain s4 st4 effs2 where s: "settle env row ?spec origin r st3 = (s4, st4, effs2)"
      by (cases "settle env row ?spec origin r st3")
    have "s4 = settled" "st4 = st'" "effs = effs1 @ effs2" using rest by (simp_all add: Some p e s)
    then show ?thesis using claimed [OF st1 Some [unfolded p] e] s by simp
  qed
qed

definition last_fire :: "fire_result \<Rightarrow> seconds \<Rightarrow> seconds \<Rightarrow> schedule_row \<Rightarrow> schedule_row" where
  "last_fire r started now s =
     s\<lparr>sr_last_fire_at := Some started, sr_last_outcome := fx_outcome r, sr_last_reason := fx_reason r,
       sr_last_session_id := fx_session_id r, sr_updated_at := now\<rparr>"

lemma last_fire_simps [simp]:
  "sr_id (last_fire r started now s) = sr_id s"
  "sr_enabled (last_fire r started now s) = sr_enabled s"
  "sr_next_fire_at (last_fire r started now s) = sr_next_fire_at s"
  "sr_last_session_id (last_fire r started now s) = fx_session_id r"
  "sr_revision (last_fire r started now s) = sr_revision s"
  by (simp_all add: last_fire_def)

text \<open>The run a fire claimed is the run it settles.\<close>

lemma settle_after_claim:
  assumes "claim_run (fe_run_id env) (sr_id row) pid key due org now st1 = Some (run, st2)"
    and "ss_runs st3 = ss_runs st2" and "settle env row spec origin r st3 = (settled, st', effs)"
  shows "(\<exists>x. settled = Some x \<and> rr_outcome x = fx_outcome r \<and> rr_reason x = fx_reason r \<and>
      rr_session_id x = fx_session_id r) \<and>
    (\<forall>j. stored_row j st' = map_option
      (\<lambda>s. if j = sr_id row then last_fire r now (fe_finish_clock env) s else s) (stored_row j st3)) \<and>
    map (\<lambda>x. (rr_schedule_id x, rr_fire_key x)) (ss_runs st') =
      map (\<lambda>x. (rr_schedule_id x, rr_fire_key x)) (ss_runs st3) \<and>
    map rr_id (ss_runs st') = map rr_id (ss_runs st3) \<and>
    sessions_asked effs = 0"
proof -
  let ?new = "new_run (fe_run_id env) (sr_id row) pid key due org now"
  let ?done = "\<lambda>x. x\<lparr>rr_outcome := fx_outcome r, rr_reason := fx_reason r, rr_session_id := fx_session_id r,
      rr_queued_messages := fx_queued r, rr_finished_at := Some (fe_finish_clock env)\<rparr>"
  let ?st = "update_run (fe_run_id env) ?done st3"
  have runs: "ss_runs st3 = ss_runs st1 @ [?new]" and fresh: "fe_run_id env \<notin> rr_id ` set (ss_runs st1)"
    using schedules_claim_run [OF assms(1)] assms(2) by auto
  have old: "map (\<lambda>x. if rr_id x = fe_run_id env then ?done x else x) (ss_runs st1) = ss_runs st1"
    using fresh by (intro map_idI) (metis image_eqI)
  have found: "find_run (fe_run_id env) ?st = Some (?done ?new)"
  proof -
    have "find (\<lambda>x. rr_id x = fe_run_id env) (ss_runs st1) = None"
      unfolding find_None_iff using fresh by (metis image_eqI)
    then show ?thesis
      by (simp add: find_run_def update_run_def runs find_append old) (simp add: new_run_def)
  qed
  have f: "finish_run (fe_run_id env) (fx_outcome r) (fx_reason r) (fx_session_id r) (fx_queued r)
      (fe_finish_clock env) st3 =
    (Some (row_to_run (?done ?new)),
     update_schedule (sr_id row) (last_fire r now (fe_finish_clock env)) ?st)"
    by (simp add: finish_run_def found) (simp add: new_run_def last_fire_def [abs_def])
  have same: "stored_row j ?st = stored_row j st3" for j
    by (simp add: stored_row_def)
  show ?thesis
    using assms(3)
    by (auto simp: settle_def f row_to_run_def new_run_def stored_row_update same update_run_def
        runs comp_def cong: map_cong)
qed

lemma advance_row:
  assumes "advance_trigger env row spec due now st = Inr st'"
  shows "\<exists>f. next_occurrence (fe_schedules env) spec (max due now) = Inr f \<and>
    (\<forall>s. stored_row (sr_id row) st' = Some s \<longrightarrow> sr_next_fire_at s = real_column f \<or> \<not> sr_enabled s) \<and>
    (\<forall>j. j \<noteq> sr_id row \<longrightarrow> stored_row j st' = stored_row j st)"
  using assms
  by (auto simp: advance_trigger_def bind_err_Inr Let_def stored_row_set_next_fire stored_row_set_enabled
      option.map_ident)

lemma disarms_row:
  assumes "disarms sid st st'" and "stored_row sid st' = Some s'"
  shows "\<exists>s. stored_row sid st = Some s \<and> (s' = s \<or> \<not> sr_enabled s')"
  using assms by (auto simp: disarms_def stored_row_set_enabled)

text \<open>After a timer fire, whatever came of it, the row waits for a later instant or is disarmed.\<close>

lemma fire_moves_on:
  assumes "fire env row due now ''timer'' key True st = Inr (settled, st', effs)"
    and "\<And>f. next_occurrence (fe_schedules env) (spec_from_row (fe_schedules env) row) (max due now) = Inr (Some (Epoch f))
      \<Longrightarrow> max due now < f"
  shows "(\<forall>s. stored_row (sr_id row) st' = Some s \<longrightarrow> \<not> is_due now s) \<and>
    (\<forall>j. j \<noteq> sr_id row \<longrightarrow> stored_row j st' = stored_row j st)"
  using assms(1)
proof (cases rule: fire_cases)
  case (conflict st1)
  then obtain f where f: "next_occurrence (fe_schedules env) (spec_from_row (fe_schedules env) row) (max due now) = Inr f"
    "\<forall>s. stored_row (sr_id row) st1 = Some s \<longrightarrow> sr_next_fire_at s = real_column f \<or> \<not> sr_enabled s"
    "\<forall>j. j \<noteq> sr_id row \<longrightarrow> stored_row j st1 = stored_row j st"
    using advance_row [of env row "spec_from_row (fe_schedules env) row" due now st st1] by auto
  with assms(2) conflict show ?thesis by (fastforce simp: is_due_def real_column_def split: option.splits epoch_time.splits)
next
  case (claimed st1 run st2 r st3 effs1 effs2)
  then obtain f where f: "next_occurrence (fe_schedules env) (spec_from_row (fe_schedules env) row) (max due now) = Inr f"
    "\<forall>s. stored_row (sr_id row) st1 = Some s \<longrightarrow> sr_next_fire_at s = real_column f \<or> \<not> sr_enabled s"
    "\<forall>j. j \<noteq> sr_id row \<longrightarrow> stored_row j st1 = stored_row j st"
    using advance_row [of env row "spec_from_row (fe_schedules env) row" due now st st1] by auto
  have st2: "stored_row j st2 = stored_row j st1" for j
    using schedules_claim_run [OF claimed(2)] by (simp add: stored_row_def)
  have d: "disarms (sr_id row) st2 st3" using execute_parts [OF claimed(3)] by simp
  have st3: "only_touches (sr_id row) st2 st3" by (rule disarms_touches [OF d])
  then have "ss_runs st3 = ss_runs st2" by (simp add: only_touches_def)
  note fin = settle_after_claim [OF claimed(2) this claimed(4)]
  have "\<not> is_due now s" if "stored_row (sr_id row) st' = Some s" for s
  proof -
    from that fin obtain s3 where s3: "stored_row (sr_id row) st3 = Some s3"
      "s = last_fire r now (fe_finish_clock env) s3" by auto
    from disarms_row [OF d s3(1)] f(2) st2 have "sr_next_fire_at s3 = real_column f \<or> \<not> sr_enabled s3" by auto
    with s3(2) f(1) assms(2) show ?thesis
      by (fastforce simp: is_due_def real_column_def split: option.splits epoch_time.splits)
  qed
  moreover have "stored_row j st' = stored_row j st" if "j \<noteq> sr_id row" for j
    using fin st3 f(3) st2 that by (simp add: only_touches_def option.map_ident)
  ultimately show ?thesis by blast
qed

subsection \<open>A whole sweep\<close>

definition row_ids :: "schedule_store \<Rightarrow> string list" where
  "row_ids st = map sr_id (ss_schedules st)"

lemma row_ids_update: "(\<And>r. sr_id (f r) = sr_id r) \<Longrightarrow> row_ids (update_schedule sid f st) = row_ids st"
  by (simp add: row_ids_def update_schedule_def)

lemma row_ids_set_enabled [simp]: "row_ids (snd (set_enabled sid en nf reason now st)) = row_ids st"
  by (simp add: set_enabled_def Let_def row_ids_update)

lemma row_ids_set_next_fire [simp]: "row_ids (set_next_fire sid nf now st) = row_ids st"
  by (simp add: set_next_fire_def row_ids_update)

lemma row_ids_disarms: "disarms sid st st' \<Longrightarrow> row_ids st' = row_ids st"
  by (auto simp: disarms_def)

lemma row_ids_settle: "settle env row spec origin r st = (settled, st', effs) \<Longrightarrow> row_ids st' = row_ids st"
proof -
  have u: "row_ids (update_run rid f st) = row_ids st" for rid f by (simp add: row_ids_def)
  show "settle env row spec origin r st = (settled, st', effs) \<Longrightarrow> row_ids st' = row_ids st"
    by (auto simp: settle_def finish_run_def Let_def row_ids_update u split: option.splits prod.splits)
qed

lemma row_ids_fire:
  assumes "fire env row due now origin key adv st = Inr (settled, st', effs)"
  shows "row_ids st' = row_ids st"
proof -
  have a: "row_ids st1 = row_ids st"
    if "(if adv then advance_trigger env row spec due now st else Inr st) = Inr st1" for spec st1
    using that by (auto simp: advance_trigger_def bind_err_Inr Let_def split: if_splits)
  from assms show ?thesis
  proof (cases rule: fire_cases)
    case (claimed st1 run st2 r st3 effs1 effs2)
    have "row_ids st2 = row_ids st1" using schedules_claim_run [OF claimed(2)] by (simp add: row_ids_def)
    moreover have "row_ids st3 = row_ids st2" using execute_parts [OF claimed(3)] by (blast dest: row_ids_disarms)
    ultimately show ?thesis using a [OF claimed(1)] row_ids_settle [OF claimed(4)] by simp
  qed (simp add: a)
qed

lemma stored_row_mem:
  assumes "distinct (row_ids st)"
  shows "stored_row sid st = Some r \<longleftrightarrow> r \<in> set (ss_schedules st) \<and> sr_id r = sid"
proof -
  have "find (\<lambda>r. sr_id r = sid) rs = Some r \<longleftrightarrow> r \<in> set rs \<and> sr_id r = sid"
    if "distinct (map sr_id rs)" for rs
    using that by (induction rs) (auto simp: rev_image_eqI)
  with assms show ?thesis by (simp add: stored_row_def row_ids_def)
qed

definition due_time :: "schedule_row \<Rightarrow> seconds" where
  "due_time r = (case sr_next_fire_at r of None \<Rightarrow> 0 | Some t \<Rightarrow> t)"

text \<open>The next occurrence of the stored definition exists or is known not to, and is later.\<close>

definition advances :: "schedule_env \<Rightarrow> seconds \<Rightarrow> schedule_row \<Rightarrow> bool" where
  "advances env now r \<longleftrightarrow>
     (case next_occurrence env (spec_from_row env r) (max (due_time r) now) of
        Inl e \<Rightarrow> False | Inr (Some (Epoch t)) \<Rightarrow> max (due_time r) now < t | Inr _ \<Rightarrow> True)"

lemma fire_succeeds:
  assumes "advances (fe_schedules env) now row"
  shows "\<exists>settled st' effs. fire env row (due_time row) now origin key True st = Inr (settled, st', effs)"
proof -
  obtain f where "next_occurrence (fe_schedules env) (spec_from_row (fe_schedules env) row)
      (max (due_time row) now) = Inr f"
    using assms by (auto simp: advances_def split: sum.splits)
  then obtain st1 where a: "advance_trigger env row (spec_from_row (fe_schedules env) row) (due_time row) now st = Inr st1"
    by (simp add: advance_trigger_def Let_def)
  have "\<exists>x. fire env row (due_time row) now origin key True st = Inr x"
    unfolding fire_def Let_def if_True a bind_err_simps by blast
  then show ?thesis by (metis prod_cases3)
qed

lemma sweep_moves_on:
  "\<forall>r \<in> set rows. advances (fe_schedules (ctx (sr_id r))) now r \<Longrightarrow>
   sweep_rows ctx now rows st = (runs, st', effs) \<Longrightarrow>
   (\<forall>r \<in> set rows. \<forall>s. stored_row (sr_id r) st' = Some s \<longrightarrow> \<not> is_due now s) \<and>
   (\<forall>j. j \<notin> sr_id ` set rows \<longrightarrow> stored_row j st' = stored_row j st) \<and> row_ids st' = row_ids st"
proof (induction ctx now rows st arbitrary: runs st' effs rule: sweep_rows.induct)
  case (2 ctx now row rows st)
  have adv: "advances (fe_schedules (ctx (sr_id row))) now row" using "2.prems"(1) by simp
  obtain run st1 effs1 where f:
      "fire (ctx (sr_id row)) row (due_time row) now ''timer'' None True st = Inr (run, st1, effs1)"
    using fire_succeeds [OF adv] by blast
  have step: "(\<forall>s. stored_row (sr_id row) st1 = Some s \<longrightarrow> \<not> is_due now s) \<and>
      (\<forall>j. j \<noteq> sr_id row \<longrightarrow> stored_row j st1 = stored_row j st)"
    by (rule fire_moves_on [OF f]) (use adv in \<open>simp add: advances_def\<close>)
  obtain runs2 effs2 where rest: "sweep_rows ctx now rows st1 = (runs2, st', effs2)"
    using "2.prems"(2) f by (auto simp: due_time_def Let_def split: prod.splits)
  have IH: "(\<forall>r \<in> set rows. \<forall>s. stored_row (sr_id r) st' = Some s \<longrightarrow> \<not> is_due now s) \<and>
      (\<forall>j. j \<notin> sr_id ` set rows \<longrightarrow> stored_row j st' = stored_row j st1) \<and> row_ids st' = row_ids st1"
    by (rule "2.IH"(2) [OF refl f [unfolded due_time_def] refl refl _ rest]) (use "2.prems"(1) in auto)
  have "\<not> is_due now s" if "stored_row (sr_id row) st' = Some s" for s
  proof (cases "sr_id row \<in> sr_id ` set rows")
    case True
    then obtain r where "r \<in> set rows" "sr_id r = sr_id row" by auto
    with IH that show ?thesis by force
  next
    case False
    with IH step that show ?thesis by auto
  qed
  with IH step row_ids_fire [OF f] show ?case by auto
qed simp

lemma due_rows: "r \<in> set (due_schedules now st) \<longleftrightarrow> (\<exists>s \<in> set (ss_schedules st). is_due now s \<and> r = row_to_schedule s)"
  by (auto simp: due_schedules_def)

lemma row_to_schedule_same [simp]:
  "sr_id (row_to_schedule s) = sr_id s" "sr_next_fire_at (row_to_schedule s) = sr_next_fire_at s"
  "sr_enabled (row_to_schedule s) = sr_enabled s" "sr_last_session_id (row_to_schedule s) = sr_last_session_id s"
  by (simp_all add: row_to_schedule_def)

lemma spec_of_read_row [simp]: "spec_from_row env (row_to_schedule s) = spec_from_row env s"
  by (simp add: spec_from_row_def row_to_schedule_def or_text_def)

lemma due_time_read [simp]: "due_time (row_to_schedule s) = due_time s"
  by (simp add: due_time_def)

lemma advances_read [simp]: "advances env now (row_to_schedule s) = advances env now s"
  unfolding advances_def due_time_read spec_of_read_row by (rule refl)

lemma tick_leaves_nothing_due:
  assumes "distinct (row_ids st)" and "tick ctx now st = (runs, st', effs)"
    and "\<forall>s \<in> set (ss_schedules st). is_due now s \<longrightarrow> advances (fe_schedules (ctx (sr_id s))) now s"
  shows "due_schedules now st' = []"
proof -
  have sweep: "(\<forall>r \<in> set (due_schedules now st). \<forall>s. stored_row (sr_id r) st' = Some s \<longrightarrow> \<not> is_due now s) \<and>
     (\<forall>j. j \<notin> sr_id ` set (due_schedules now st) \<longrightarrow> stored_row j st' = stored_row j st) \<and> row_ids st' = row_ids st"
    by (rule sweep_moves_on [OF _ assms(2) [unfolded tick_def]]) (use assms(3) in \<open>auto simp: due_rows\<close>)
  have "\<not> is_due now s" if s: "s \<in> set (ss_schedules st')" for s
  proof (cases "sr_id s \<in> sr_id ` set (due_schedules now st)")
    case True
    have "stored_row (sr_id s) st' = Some s" using s sweep assms(1) by (simp add: stored_row_mem)
    with True sweep show ?thesis by (metis imageE)
  next
    case False
    then have "stored_row (sr_id s) st = Some s" using s sweep assms(1) by (metis stored_row_mem)
    then have "s \<in> set (ss_schedules st)" using assms(1) by (simp add: stored_row_mem)
    then have "is_due now s \<Longrightarrow> row_to_schedule s \<in> set (due_schedules now st)" by (auto simp: due_rows)
    with False show ?thesis by (metis image_eqI row_to_schedule_same(1))
  qed
  then have "filter (is_due now) (ss_schedules st') = []" by (simp add: filter_empty_conv)
  then show ?thesis by (simp add: due_schedules_def)
qed

subsection \<open>Definitions survive the store\<close>

lemma follow_ups_survive:
  assumes "list_all follow_up_ok fs" and "\<forall>f \<in> set fs. strip (fu_body f) = fu_body f"
  shows "follow_ups_from_row env (map follow_up_as_dict fs) = fs"
proof -
  have one: "text_or_empty env (py_get (follow_up_as_dict f) ''body'') = fu_body f"
    "stored_follow_up (py_get (follow_up_as_dict f) ''delay_seconds'') = fu_delay_seconds f"
    "truthy (py_get (follow_up_as_dict f) ''armed'') = fu_armed f" for f
    by (auto simp: follow_up_as_dict_def py_get_def text_or_empty_def stored_follow_up_def)
  have "filter (\<lambda>d. strip (text_or_empty env (py_get d ''body'')) \<noteq> '''') (map follow_up_as_dict fs) =
      map follow_up_as_dict fs"
    using assms by (intro filter_True) (auto simp: one follow_up_ok_def list_all_iff)
  then show ?thesis by (simp add: follow_ups_from_row_def one comp_def map_idI)
qed

lemma parse_each_strip:
  "parse_each i vs = Inr fs \<Longrightarrow> \<forall>f \<in> set fs. strip (fu_body f) = fu_body f"
proof (induction i vs arbitrary: fs rule: parse_each.induct)
  case (2 i x xs)
  have "strip (fu_body f) = fu_body f" if "parse_follow_up i x = Inr f" for f
    using that by (auto simp: parse_follow_up_def Let_def bind_err_Inr
        dest!: text_field_ok split: pyval.splits option.splits if_splits)
  with 2 show ?case by (auto simp: bind_err_Inr)
qed simp

lemma parse_follow_ups_strip:
  "parse_follow_ups v = Inr fs \<Longrightarrow> \<forall>f \<in> set fs. strip (fu_body f) = fu_body f"
  by (cases v) (auto simp: parse_follow_ups_def dest: parse_each_strip split: if_splits)

lemma accepted_nonempty:
  assumes "parse_spec env b now = Inr s"
  shows "sp_overlap s \<noteq> ''''" "sp_action s \<noteq> ''''" "sp_target_kind s \<noteq> ''''"
proof -
  have o: "spec_ok env s now" by (rule parse_spec_ok [OF assms])
  show "sp_overlap s \<noteq> ''''" using o by (auto simp: spec_ok_def overlap_policies_def)
  show "sp_action s \<noteq> ''''" "sp_target_kind s \<noteq> ''''"
    using o by (auto simp: spec_ok_def target_ok_def target_kinds_def split: if_splits)
qed

lemma spec_of_written_row:
  assumes "parse_spec env b now = Inr s" and "sp_run_at s \<noteq> Some Not_A_Number"
  shows "spec_from_row env' (write_spec s r) = s"
proof -
  have "list_all follow_up_ok (sp_follow_ups s) \<and> (\<forall>f \<in> set (sp_follow_ups s). strip (fu_body f) = fu_body f)"
    using assms(1) by (rule parse_spec_parts) (auto dest: parse_follow_ups_ok parse_follow_ups_strip)
  then have "follow_ups_from_row env' (map follow_up_as_dict (sp_follow_ups s)) = sp_follow_ups s"
    by (simp add: follow_ups_survive)
  moreover have "map_option Epoch (real_column (sp_run_at s)) = sp_run_at s"
    using assms(2) by (simp add: real_column_def split: option.splits epoch_time.splits)
  ultimately show ?thesis using accepted_nonempty [OF assms(1)]
    by (cases s) (simp add: spec_from_row_def write_spec_def or_text_def)
qed

subsection \<open>The overlap guard\<close>

lemma reason_labels_distinct:
  "reason_label ''overlap'' \<noteq> reason_label ''install_disabled''"
  "reason_label ''overlap'' \<noteq> reason_label ''project_missing''"
  "reason_label ''overlap'' \<noteq> reason_label ''automation_disabled''"
  "reason_label ''overlap'' \<noteq> reason_label ''daily_cap''"
  "reason_label ''overlap'' \<noteq> reason_label ''concurrency_cap''"
  by (simp_all add: reason_label_def reason_labels_def)

lemma skipped_simps [simp]:
  "fx_outcome (skipped k) = ''skipped''" "fx_reason (skipped k) = reason_label k" "fx_session_id (skipped k) = None"
  by (simp_all add: skipped_def no_session_def)

lemma skipped_for_overlap:
  assumes "execute env row spec rid due now origin st = (r, st', effs)"
    and "fx_outcome r = ''skipped''" and "fx_reason r = reason_label ''overlap''" and "sp_action spec \<noteq> ''resume''"
  shows "fe_enabled env \<and> \<not> is_late spec origin now due \<and>
    (\<exists>proot. fe_project_root env (sr_project_id row) = Some proot \<and> ''scheduled_runs'' \<in> set (fe_gate env proot)) \<and>
    session_live env (sr_last_session_id row) \<and> fx_session_id r = None \<and> st' = st"
proof -
  have sp: "fx_outcome r'' \<noteq> ''skipped''" if "spawn_target env spec rid pid = (r'', effs'')" for pid r'' effs''
    using that by (auto simp: spawn_target_def no_session_def Let_def split: sum.splits prod.splits)
  have ne: "fx_outcome (no_session ''missed'' m) \<noteq> ''skipped''" for m by (simp add: no_session_def)
  have e: "fe_enabled env" "\<not> is_late spec origin now due"
    using assms reason_labels_distinct(1) ne unfolding execute_def by (auto split: if_splits)
  obtain proot where p: "fe_project_root env (sr_project_id row) = Some proot"
    using assms e reason_labels_distinct(2) unfolding execute_def by (auto split: option.splits)
  have x: "execute env row spec rid due now origin st =
     (case project_guards env row spec now proot st of
        Some r \<Rightarrow> (r, st, [])
      | None \<Rightarrow> let (r, effs) = spawn_target env spec rid (sr_project_id row) in (r, st, effs))"
    using e p assms(4) by (simp add: execute_def)
  have g: "project_guards env row spec now proot st = Some r" "st' = st"
    using assms(1,2) sp unfolding x by (auto split: option.splits prod.splits)
  have "''scheduled_runs'' \<in> set (fe_gate env proot) \<and> session_live env (sr_last_session_id row) \<and> fx_session_id r = None"
    using g(1) assms(3) reason_labels_distinct(3-5) by (auto simp: project_guards_def split: if_splits)
  with e p g(2) show ?thesis by blast
qed

lemma active_update:
  "(\<And>r. sr_last_session_id (f r) = sr_last_session_id r) \<Longrightarrow>
     active_sessions (update_schedule sid f st) = active_sessions st"
proof -
  assume f: "\<And>r. sr_last_session_id (f r) = sr_last_session_id r"
  have "List.map_filter sr_last_session_id (map (\<lambda>r. if sr_id r = sid then f r else r) rs) =
      List.map_filter sr_last_session_id rs" for rs
    by (induction rs) (auto simp: map_filter_simps f split: option.splits)
  then show ?thesis by (simp add: active_sessions_def update_schedule_def)
qed

lemma active_advance:
  "advance_trigger env row spec due now st = Inr st' \<Longrightarrow> active_sessions st' = active_sessions st"
  by (auto simp: advance_trigger_def bind_err_Inr Let_def set_enabled_def set_next_fire_def active_update)

lemma active_claim:
  "claim_run rid sid pid key due origin now st = Some (run, st') \<Longrightarrow> active_sessions st' = active_sessions st"
  by (auto simp: active_sessions_def dest: schedules_claim_run)

lemma spawns_when_guards_pass:
  assumes "fire env row due now origin key True st = Inr (Some run, st', effs)"
    and "fe_enabled env" and "\<not> is_late (spec_from_row (fe_schedules env) row) origin now due"
    and "fe_project_root env (sr_project_id row) = Some proot" and "''scheduled_runs'' \<in> set (fe_gate env proot)"
    and "sp_action (spec_from_row (fe_schedules env) row) \<noteq> ''resume''"
    and "sr_last_session_id row = None" and "sp_daily_run_cap (spec_from_row (fe_schedules env) row) = 0"
    and "int (length (live_scheduled_sessions env st)) < fe_max_concurrent env"
  shows "\<exists>b. Spawn_Asked b \<in> set effs"
  using assms(1)
proof (cases rule: fire_cases)
  case (claimed st1 run' st2 r st3 effs1 effs2)
  let ?spec = "spec_from_row (fe_schedules env) row"
  have "active_sessions st2 = active_sessions st"
    using active_advance claimed(1) active_claim [OF claimed(2)] by fastforce
  then have "project_guards env row ?spec now proot st2 = None"
    unfolding project_guards_None using assms(5,7-9) by (simp add: session_live_def live_scheduled_sessions_def)
  then have "effs1 = snd (spawn_target env ?spec (rr_id run') (sr_project_id row))"
    using claimed(3) assms(2-4,6) by (auto simp: execute_def split: prod.splits)
  then have "\<exists>b. Spawn_Asked b \<in> set effs1"
    by (auto simp: spawn_target_def Let_def split: sum.splits prod.splits)
  with claimed(5) show ?thesis by auto
qed simp

text \<open>Two rows hold the same definition.\<close>

definition same_definition :: "schedule_row \<Rightarrow> schedule_row \<Rightarrow> bool" where
  "same_definition s s' \<longleftrightarrow>
     (\<forall>env. spec_from_row env s' = spec_from_row env s) \<and> sr_project_id s' = sr_project_id s \<and> sr_id s' = sr_id s"

lemma same_definition_refl [simp]: "same_definition s s"
  by (simp add: same_definition_def)

lemma same_definition_trans: "same_definition r s \<Longrightarrow> same_definition s t \<Longrightarrow> same_definition r t"
  by (simp add: same_definition_def)

lemma same_definition_updates:
  "same_definition s (s\<lparr>sr_next_fire_at := nf, sr_updated_at := now\<rparr>)"
  "same_definition s (s\<lparr>sr_enabled := en, sr_next_fire_at := nf, sr_disabled_reason := reason,
     sr_updated_at := now, sr_revision := v\<rparr>)"
  "same_definition s (last_fire r started now s)"
  "same_definition s (row_to_schedule s)"
  by (simp_all add: same_definition_def spec_from_row_def last_fire_def row_to_schedule_def or_text_def)

definition keeps_definitions :: "schedule_store \<Rightarrow> schedule_store \<Rightarrow> bool" where
  "keeps_definitions st st' \<longleftrightarrow>
     (\<forall>j s'. stored_row j st' = Some s' \<longrightarrow> (\<exists>s. stored_row j st = Some s \<and> same_definition s s'))"

lemma keeps_definitions_refl [simp]: "keeps_definitions st st"
  by (simp add: keeps_definitions_def)

lemma keeps_definitions_trans:
  "keeps_definitions st st' \<Longrightarrow> keeps_definitions st' st'' \<Longrightarrow> keeps_definitions st st''"
  unfolding keeps_definitions_def by (blast intro: same_definition_trans)

lemma keeps_set_next_fire: "keeps_definitions st (set_next_fire sid nf now st)"
  using same_definition_updates(1)
  by (auto simp: keeps_definitions_def stored_row_set_next_fire)

lemma keeps_set_enabled: "keeps_definitions st (snd (set_enabled sid en nf reason now st))"
  using same_definition_updates(2)
  by (auto simp: keeps_definitions_def stored_row_set_enabled)

lemma keeps_advance: "advance_trigger env row spec due now st = Inr st' \<Longrightarrow> keeps_definitions st st'"
  using keeps_set_next_fire keeps_definitions_trans [OF keeps_set_next_fire keeps_set_enabled]
  by (auto simp: advance_trigger_def bind_err_Inr Let_def)

lemma keeps_disarms: "disarms sid st st' \<Longrightarrow> keeps_definitions st st'"
  by (auto simp: disarms_def keeps_set_enabled)

lemma fire_keeps_definitions:
  assumes "fire env row due now origin key adv st = Inr (settled, st', effs)"
  shows "keeps_definitions st st'"
  using assms
proof (cases rule: fire_cases)
  case (conflict st1)
  then show ?thesis by (auto split: if_splits dest: keeps_advance)
next
  case (claimed st1 run st2 r st3 effs1 effs2)
  have "keeps_definitions st st1" using claimed(1) by (auto split: if_splits dest: keeps_advance)
  moreover have "keeps_definitions st1 st2"
    using schedules_claim_run [OF claimed(2)] by (simp add: keeps_definitions_def stored_row_def)
  moreover have d: "disarms (sr_id row) st2 st3" using execute_parts [OF claimed(3)] by simp
  moreover have "keeps_definitions st3 st'"
  proof -
    have "ss_runs st3 = ss_runs st2" using disarms_touches [OF d] by (simp add: only_touches_def)
    from settle_after_claim [OF claimed(2) this claimed(4)] show ?thesis
      using same_definition_updates(3) by (auto simp: keeps_definitions_def)
  qed
  ultimately show ?thesis by (blast intro: keeps_definitions_trans keeps_disarms)
qed

text \<open>What the outside looks like at two fires, apart from the identifiers and clocks of each.\<close>

definition same_world :: "fire_env \<Rightarrow> fire_env \<Rightarrow> bool" where
  "same_world env env' \<longleftrightarrow>
     fe_schedules env' = fe_schedules env \<and> fe_enabled env' = fe_enabled env \<and>
     fe_project_root env' = fe_project_root env \<and> fe_gate env' = fe_gate env \<and>
     fe_session_state env' = fe_session_state env \<and> fe_max_concurrent env' = fe_max_concurrent env"

lemma overlap_forgotten:
  assumes "distinct (row_ids st)" and "row \<in> set (due_schedules now st)"
    and f1: "fire env row due now ''timer'' None True st = Inr (Some run, st1, effs)"
    and skip: "rr_outcome run = ''skipped''" "rr_reason run = reason_label ''overlap''"
    and def: "sr_action row \<noteq> ''resume''" "sr_daily_run_cap row = 0"
    and row1: "get_schedule (sr_id row) st1 = Some row1"
    and w: "same_world env env1" and m: "int (length (live_scheduled_sessions env1 st1)) < fe_max_concurrent env1"
    and late: "\<not> is_late (spec_from_row (fe_schedules env1) row1) ''timer'' now1 due1"
    and f2: "fire env1 row1 due1 now1 ''timer'' None True st1 = Inr (Some run1, st2, effs1)"
  shows "session_live env1 (sr_last_session_id row) \<and> (\<exists>b. Spawn_Asked b \<in> set effs1)"
proof -
  let ?spec = "spec_from_row (fe_schedules env) row"
  have spec: "sp_action ?spec \<noteq> ''resume''" "sp_daily_run_cap ?spec = 0"
    using def by (simp_all add: spec_from_row_def or_text_def)
  obtain s0 where s0: "stored_row (sr_id row) st = Some s0" "row = row_to_schedule s0"
    using assms(1,2) by (auto simp: due_rows stored_row_mem)
  obtain s1 where s1: "stored_row (sr_id row) st1 = Some s1" "row1 = row_to_schedule s1"
    using row1 by (auto simp: get_schedule_stored)
  have "same_definition s0 s1"
    using fire_keeps_definitions [OF f1] s0(1) s1(1) unfolding keeps_definitions_def by (metis option.inject)
  then have "same_definition row row1"
    unfolding s0(2) s1(2)
    by (simp add: same_definition_def) (simp add: row_to_schedule_def)
  then have row1_spec: "spec_from_row (fe_schedules env1) row1 = ?spec" "sr_project_id row1 = sr_project_id row"
    "sr_id row1 = sr_id row"
    using w by (simp_all add: same_definition_def same_world_def)
  from f1 obtain run0 stA stB r stC e1 e2 where
      claim: "claim_run (fe_run_id env) (sr_id row) (sr_project_id row) (occurrence_key due) (Some due) ''timer'' now stA = Some (run0, stB)"
      and exec: "execute env row ?spec (rr_id run0) due now ''timer'' stB = (r, stC, e1)"
      and settle: "settle env row ?spec ''timer'' r stC = (Some run, st1, e2)"
    by (cases rule: fire_cases) auto
  have d: "disarms (sr_id row) stB stC" using execute_parts [OF exec] by simp
  then have "ss_runs stC = ss_runs stB" by (auto dest: disarms_touches simp: only_touches_def)
  note fin = settle_after_claim [OF claim this settle]
  have "fx_outcome r = ''skipped''" "fx_reason r = reason_label ''overlap''" using fin skip by auto
  from skipped_for_overlap [OF exec this spec(1)] obtain proot where g:
      "fe_enabled env" "fe_project_root env (sr_project_id row) = Some proot"
      "''scheduled_runs'' \<in> set (fe_gate env proot)" "session_live env (sr_last_session_id row)"
      "fx_session_id r = None" by blast
  have "sr_last_session_id s1 = None" using fin s1(1) g(5) by auto
  then have none: "sr_last_session_id row1 = None" by (simp add: s1(2))
  have "\<exists>b. Spawn_Asked b \<in> set effs1"
    by (rule spawns_when_guards_pass [OF f2, of proot])
      (use w g row1_spec spec none m late in \<open>simp_all add: same_world_def\<close>)
  with g(4) w show ?thesis by (auto simp: session_live_def same_world_def split: option.splits)
qed

subsection \<open>Permission\<close>

lemma runs_since_claim:
  assumes "claim_run rid sid pid key due origin now st = Some (run, st')"
  shows "runs_since sid (now - 86400) st' = runs_since sid (now - 86400) st + 1"
  using schedules_claim_run [OF assms] by (simp add: runs_since_def new_run_def)

lemma runs_since_runs: "ss_runs st' = ss_runs st \<Longrightarrow> runs_since sid t st' = runs_since sid t st"
  by (simp add: runs_since_def)

lemma claimed_runs:
  "map (\<lambda>x. (rr_schedule_id x, rr_fire_key x)) (ss_runs st') = map (\<lambda>x. (rr_schedule_id x, rr_fire_key x)) (ss_runs st) \<Longrightarrow>
     claimed sid key st' = claimed sid key st"
proof -
  have "claimed sid key st \<longleftrightarrow> (sid, key) \<in> set (map (\<lambda>x. (rr_schedule_id x, rr_fire_key x)) (ss_runs st))" for st
    by (auto simp: claimed_def)
  then show "map (\<lambda>x. (rr_schedule_id x, rr_fire_key x)) (ss_runs st') =
      map (\<lambda>x. (rr_schedule_id x, rr_fire_key x)) (ss_runs st) \<Longrightarrow> claimed sid key st' = claimed sid key st"
    by presburger
qed

lemma claimed_claim:
  "claim_run rid sid pid key due origin now st = Some (run, st') \<Longrightarrow>
     claimed j k st' \<longleftrightarrow> claimed j k st \<or> (j = sid \<and> k = key)"
  by (drule schedules_claim_run) (auto simp: claimed_def new_run_def)

lemma fire_permitted:
  fixes key :: "string option" and due :: seconds
  defines "k \<equiv> case key of None \<Rightarrow> occurrence_key due | Some x \<Rightarrow> x"
  assumes "fire env row due now origin key adv st = Inr (settled, st', effs)" and "sessions_asked effs \<noteq> 0"
  shows "fe_enabled env \<and> \<not> is_late (spec_from_row (fe_schedules env) row) origin now due \<and>
    (\<exists>proot. fe_project_root env (sr_project_id row) = Some proot \<and> ''scheduled_runs'' \<in> set (fe_gate env proot)) \<and>
    \<not> (sp_overlap (spec_from_row (fe_schedules env) row) = ''skip'' \<and> session_live env (sr_last_session_id row)) \<and>
    (sr_daily_run_cap row \<noteq> 0 \<longrightarrow> runs_since (sr_id row) (now - 86400) st < sr_daily_run_cap row) \<and>
    (fe_max_concurrent env \<noteq> 0 \<longrightarrow> int (length (live_scheduled_sessions env st)) < fe_max_concurrent env) \<and>
    sessions_asked effs = 1 \<and> \<not> claimed (sr_id row) k st \<and> claimed (sr_id row) k st'"
  using assms(2)
proof (cases rule: fire_cases)
  case (conflict st1)
  then show ?thesis using assms(3) by simp
next
  case (claimed st1 run st2 r st3 effs1 effs2)
  let ?spec = "spec_from_row (fe_schedules env) row"
  have adv: "ss_runs st1 = ss_runs st" "active_sessions st1 = active_sessions st"
    using claimed(1) runs_advance active_advance by (auto split: if_splits)
  have d: "disarms (sr_id row) st2 st3" and one: "sessions_asked effs1 \<le> 1"
    using execute_parts [OF claimed(3)] by simp_all
  have runs3: "ss_runs st3 = ss_runs st2" using disarms_touches [OF d] by (simp add: only_touches_def)
  note fin = settle_after_claim [OF claimed(2) runs3 claimed(4)]
  then have effs: "sessions_asked effs = sessions_asked effs1" by (simp add: claimed(5))
  with assms(3) have asked: "sessions_asked effs1 \<noteq> 0" by simp
  have cap: "sp_daily_run_cap ?spec = sr_daily_run_cap row" by (simp add: spec_from_row_def)
  have "runs_since (sr_id row) (now - 86400) st2 = runs_since (sr_id row) (now - 86400) st + 1"
    using runs_since_claim [OF claimed(2)] runs_since_runs [OF adv(1)] by simp
  moreover have "live_scheduled_sessions env st2 = live_scheduled_sessions env st"
    using active_claim [OF claimed(2)] adv(2) by (simp add: live_scheduled_sessions_def)
  moreover have "\<not> claimed (sr_id row) k st"
    using schedules_claim_run [OF claimed(2)] adv(1) by (simp add: k_def claimed_def)
  moreover have "claimed (sr_id row) k st'"
  proof -
    have "claimed (sr_id row) k st2" using claimed_claim [OF claimed(2)] by (simp add: k_def)
    then show ?thesis using claimed_runs [of st' st3] fin runs3 by (simp add: claimed_def)
  qed
  ultimately show ?thesis
    using execute_permitted [OF claimed(3) asked] one asked effs unfolding project_guards_None cap by auto
qed

subsection \<open>Properties\<close>

text \<open>
  C29. A session is asked for only with every permission: scheduled runs on, the window not missed, the
  Project registered and opted in, no live session of the previous fire under the skip policy, the
  day's runs below the cap and the live scheduled sessions below the ceiling before this fire. It is
  asked for once, and the occurrence was free before and is claimed after.
\<close>

theorem sessions_need_permission:
  assumes "fire env row due now origin key adv st = Inr (settled, st', effs)" and "sessions_asked effs \<noteq> 0"
  shows "fe_enabled env \<and> \<not> is_late (spec_from_row (fe_schedules env) row) origin now due \<and>
    (\<exists>proot. fe_project_root env (sr_project_id row) = Some proot \<and> ''scheduled_runs'' \<in> set (fe_gate env proot)) \<and>
    \<not> (sp_overlap (spec_from_row (fe_schedules env) row) = ''skip'' \<and> session_live env (sr_last_session_id row)) \<and>
    (sr_daily_run_cap row \<noteq> 0 \<longrightarrow> runs_since (sr_id row) (now - 86400) st < sr_daily_run_cap row) \<and>
    (fe_max_concurrent env \<noteq> 0 \<longrightarrow> int (length (live_scheduled_sessions env st)) < fe_max_concurrent env) \<and>
    sessions_asked effs = 1 \<and>
    \<not> claimed (sr_id row) (case key of None \<Rightarrow> occurrence_key due | Some x \<Rightarrow> x) st \<and>
    claimed (sr_id row) (case key of None \<Rightarrow> occurrence_key due | Some x \<Rightarrow> x) st'"
  by (rule fire_permitted [OF assms])

text \<open>
  The overlap guard holds only once. A fire it skips settles its run without a session, and that
  erases the schedule's last session: at the next window, with the first session still live and
  nothing else changed, a second session is asked for.
\<close>

theorem overlap_guard_holds_only_once:
  assumes "distinct (row_ids st)" and "row \<in> set (due_schedules now st)"
    and "fire env row due now ''timer'' None True st = Inr (Some run, st1, effs)"
    and "rr_outcome run = ''skipped''" and "rr_reason run = reason_label ''overlap''"
    and "sr_action row \<noteq> ''resume''" and "sr_daily_run_cap row = 0"
    and "get_schedule (sr_id row) st1 = Some row1" and "same_world env env1"
    and "int (length (live_scheduled_sessions env1 st1)) < fe_max_concurrent env1"
    and "\<not> is_late (spec_from_row (fe_schedules env1) row1) ''timer'' now1 due1"
    and "fire env1 row1 due1 now1 ''timer'' None True st1 = Inr (Some run1, st2, effs1)"
  shows "session_live env1 (sr_last_session_id row) \<and> (\<exists>b. Spawn_Asked b \<in> set effs1)"
  by (rule overlap_forgotten [OF assms])

text \<open>
  A definition survives the store: what \<^verbatim>\<open>create\<close> writes for an accepted definition is read back as
  that definition, follow-ups included, unless its \<^verbatim>\<open>run_at\<close> is not a number (which the store keeps as
  NULL).
\<close>

theorem stored_definition_is_read_back:
  assumes "parse_spec env body now = Inr s" and "sp_run_at s \<noteq> Some Not_A_Number"
    and "create_schedule sid pid proot s next_at now st = Some (row, st')"
  shows "get_schedule sid st' = Some row \<and> spec_from_row env' row = s \<and> sr_id row = sid \<and>
    sr_enabled row \<and> sr_next_fire_at row = next_at"
proof -
  let ?blank = "blank_row\<lparr>sr_id := sid, sr_project_id := pid, sr_project_root := proot, sr_enabled := True,
    sr_next_fire_at := next_at, sr_created_at := now, sr_updated_at := now, sr_revision := 1\<rparr>"
  have st': "row = row_to_schedule (write_spec s ?blank)" "sid \<notin> sr_id ` set (ss_schedules st)"
    "st' = st\<lparr>ss_schedules := ss_schedules st @ [write_spec s ?blank]\<rparr>"
    using assms(3) by (auto simp: create_schedule_def Let_def split: if_splits)
  have "find (\<lambda>r. sr_id r = sid) (ss_schedules st) = None"
    unfolding find_None_iff using st'(2) by (metis image_eqI)
  then show ?thesis
    using spec_of_written_row [OF assms(1,2)]
    by (simp add: st' get_schedule_def find_append) (simp add: write_spec_def)
qed

text \<open>
  A sweep never spins: whatever becomes of the fires - spawned, skipped, missed, failed, lost to
  another claim - no schedule is due at that instant afterwards.
\<close>

theorem sweep_leaves_nothing_due:
  assumes "distinct (row_ids st)" and "tick ctx now st = (runs, st', effs)"
    and "\<forall>s \<in> set (ss_schedules st). is_due now s \<longrightarrow>
      (\<exists>t0. spec_ok (fe_schedules (ctx (sr_id s))) (spec_from_row (fe_schedules (ctx (sr_id s))) s) t0)"
    and "\<And>sid t. valid_moment (wall_of (host_wall (fe_schedules (ctx sid))) t)"
    and "\<And>sid z w t. zone_wall (fe_schedules (ctx sid)) z = Some w \<Longrightarrow> valid_moment (wall_of w t)"
  shows "due_schedules now st' = []"
proof (rule tick_leaves_nothing_due [OF assms(1,2)], intro ballI impI)
  fix s assume "s \<in> set (ss_schedules st)" "is_due now s"
  with assms(3) obtain t0 where
    "spec_ok (fe_schedules (ctx (sr_id s))) (spec_from_row (fe_schedules (ctx (sr_id s))) s) t0" by blast
  then have "\<exists>r. next_occurrence (fe_schedules (ctx (sr_id s))) (spec_from_row (fe_schedules (ctx (sr_id s))) s)
      (max (due_time s) now) = Inr r \<and> (\<forall>t. r = Some (Epoch t) \<longrightarrow> max (due_time s) now < t) \<and>
      (r = Some Not_A_Number \<longrightarrow>
        sp_run_at (spec_from_row (fe_schedules (ctx (sr_id s))) s) = Some Not_A_Number)"
    by (rule next_of_ok) (rule assms(4), rule assms(5))
  then obtain r where
    "next_occurrence (fe_schedules (ctx (sr_id s))) (spec_from_row (fe_schedules (ctx (sr_id s))) s)
      (max (due_time s) now) = Inr r" "\<forall>t. r = Some (Epoch t) \<longrightarrow> max (due_time s) now < t" by blast
  then show "advances (fe_schedules (ctx (sr_id s))) now s"
    by (auto simp: advances_def split: option.splits epoch_time.splits)
qed

subsection \<open>Witnesses\<close>

text \<open>A clock that is always the same moment is enough for an interval.\<close>

definition stopped_wall :: wall where
  "stopped_wall = \<lparr>
     wall_of = (\<lambda>_. \<lparr>mo_year = 1970, mo_month = 1, mo_day = 1, mo_hour = 0, mo_minute = 0, mo_second = 0,
       mo_micro = 0\<rparr>),
     epoch_of = (\<lambda>_. 0)\<rparr>"

definition demo_fire_env :: fire_env where
  "demo_fire_env = \<lparr>
     fe_schedules = demo_schedule_env\<lparr>host_wall := stopped_wall\<rparr>, fe_enabled = True, fe_max_concurrent = 2,
     fe_project_root = (\<lambda>p. if p = ''p'' then Some ''/r'' else None), fe_gate = (\<lambda>_. [''scheduled_runs'']),
     fe_session_state = (\<lambda>s. if s = ''s1'' then Some ''working'' else None),
     fe_spawn = (\<lambda>_. Inr ''s2''), fe_enqueue = (\<lambda>_. True), fe_history = None, fe_lineage_store = False,
     fe_fork = (\<lambda>_ _ _ _. Fork_Raised ''''), fe_resume = (\<lambda>_. Raised ''''), fe_notify = True,
     fe_run_id = ''r1'', fe_queue_clock = 0, fe_finish_clock = 0\<rparr>"

definition demo_row :: schedule_row where
  "demo_row = blank_row\<lparr>sr_id := ''a'', sr_project_id := ''p'', sr_label := ''l'', sr_prompt := ''go'',
     sr_trigger_kind := ''interval'', sr_interval_seconds := Some 300, sr_next_fire_at := Some 0,
     sr_last_session_id := Some ''s1''\<rparr>"

definition demo_schedules :: schedule_store where
  "demo_schedules = \<lparr>ss_schedules = [demo_row], ss_runs = []\<rparr>"

definition fired ::
  "schedule_error + (run_row option \<times> schedule_store \<times> schedule_effect list)
    \<Rightarrow> run_row \<times> schedule_store \<times> schedule_effect list" where
  "fired x = (case x of
     Inr (Some run, st, effs) \<Rightarrow> (run, st, effs) | _ \<Rightarrow> (new_run '''' '''' '''' '''' None '''' 0, empty_store, []))"

definition window_1 :: "run_row \<times> schedule_store \<times> schedule_effect list" where
  "window_1 = fired (fire demo_fire_env demo_row 0 0 ''timer'' None True demo_schedules)"

definition demo_row_2 :: schedule_row where
  "demo_row_2 = the (get_schedule ''a'' (fst (snd window_1)))"

definition demo_fire_env_2 :: fire_env where
  "demo_fire_env_2 = demo_fire_env\<lparr>fe_run_id := ''r2''\<rparr>"

definition window_2 :: "run_row \<times> schedule_store \<times> schedule_effect list" where
  "window_2 = fired (fire demo_fire_env_2 demo_row_2 300 300 ''timer'' None True (fst (snd window_1)))"

lemma window_1_fire:
  "fire demo_fire_env demo_row 0 0 ''timer'' None True demo_schedules =
     Inr (Some (fst window_1), fst (snd window_1), snd (snd window_1))"
  by code_simp

lemma window_2_fire:
  "fire demo_fire_env_2 demo_row_2 300 300 ''timer'' None True (fst (snd window_1)) =
     Inr (Some (fst window_2), fst (snd window_2), snd (snd window_2))"
  by code_simp

lemma overlap_guard_holds_only_once_witness:
  "session_live demo_fire_env_2 (sr_last_session_id demo_row) \<and> (\<exists>b. Spawn_Asked b \<in> set (snd (snd window_2)))"
proof (rule overlap_guard_holds_only_once [OF _ _ window_1_fire _ _ _ _ _ _ _ _ window_2_fire])
  show "distinct (row_ids demo_schedules)" by code_simp
  show "demo_row \<in> set (due_schedules 0 demo_schedules)" by code_simp
  show "rr_outcome (fst window_1) = ''skipped''" by code_simp
  show "rr_reason (fst window_1) = reason_label ''overlap''" by code_simp
  show "sr_action demo_row \<noteq> ''resume''" "sr_daily_run_cap demo_row = 0" by code_simp+
  show "get_schedule (sr_id demo_row) (fst (snd window_1)) = Some demo_row_2" by code_simp
  show "same_world demo_fire_env demo_fire_env_2" by (simp add: same_world_def demo_fire_env_2_def)
  show "int (length (live_scheduled_sessions demo_fire_env_2 (fst (snd window_1)))) < fe_max_concurrent demo_fire_env_2"
    by code_simp
  show "\<not> is_late (spec_from_row (fe_schedules demo_fire_env_2) demo_row_2) ''timer'' 300 300" by code_simp
qed

lemma sessions_need_permission_witness:
  "claimed (sr_id demo_row_2) (occurrence_key 300) (fst (snd window_2)) \<and>
   \<not> claimed (sr_id demo_row_2) (occurrence_key 300) (fst (snd window_1))"
proof -
  have "sessions_asked (snd (snd window_2)) \<noteq> 0" by code_simp
  from sessions_need_permission [OF window_2_fire this] show ?thesis by simp
qed

lemma stored_definition_is_read_back_witness:
  "\<exists>row st'. create_schedule ''a'' ''p'' ''/r'' demo_spec (Some 600) 0 empty_store = Some (row, st') \<and>
     get_schedule ''a'' st' = Some row \<and> spec_from_row demo_schedule_env row = demo_spec"
proof -
  obtain row st' where c: "create_schedule ''a'' ''p'' ''/r'' demo_spec (Some 600) 0 empty_store = Some (row, st')"
    by (simp add: create_schedule_def empty_store_def Let_def)
  have "sp_run_at demo_spec \<noteq> Some Not_A_Number" by (simp add: demo_spec_def)
  from stored_definition_is_read_back [OF parse_demo this c] show ?thesis using c by blast
qed

lemma demo_row_ok:
  "spec_ok (fe_schedules demo_fire_env) (spec_from_row (fe_schedules demo_fire_env) demo_row) 0"
  by (simp add: spec_ok_def trigger_ok_def target_ok_def texts_ok_def spec_from_row_def demo_row_def blank_row_def
      or_text_def follow_ups_from_row_def overlap_policies_def min_interval_seconds_def max_interval_seconds_def
      max_label_chars_def max_prompt_chars_def)

lemma sweep_leaves_nothing_due_witness:
  "due_schedules 0 (fst (snd (tick (\<lambda>_. demo_fire_env) 0 demo_schedules))) = []"
proof (rule sweep_leaves_nothing_due)
  show "distinct (row_ids demo_schedules)" by code_simp
  show "tick (\<lambda>_. demo_fire_env) 0 demo_schedules =
    (fst (tick (\<lambda>_. demo_fire_env) 0 demo_schedules), fst (snd (tick (\<lambda>_. demo_fire_env) 0 demo_schedules)),
     snd (snd (tick (\<lambda>_. demo_fire_env) 0 demo_schedules)))" by simp
  show "\<forall>s \<in> set (ss_schedules demo_schedules). is_due 0 s \<longrightarrow>
      (\<exists>t0. spec_ok (fe_schedules demo_fire_env) (spec_from_row (fe_schedules demo_fire_env) s) t0)"
    using demo_row_ok by (auto simp: demo_schedules_def)
  show "valid_moment (wall_of (host_wall (fe_schedules demo_fire_env)) t)" for t
    by (simp add: demo_fire_env_def stopped_wall_def valid_moment_def valid_date_def date_of_def month_days_def)
  show "valid_moment (wall_of w t)" if "zone_wall (fe_schedules demo_fire_env) z = Some w" for z w t
    using that by (simp add: demo_fire_env_def demo_schedule_env_def)
qed

end
