(* ===== verification/Schedule_Daemon.thy ===== *)
theory Schedule_Daemon
  imports Scheduler
begin

text \<open>
  Fires interleaved: a fire is a coroutine that yields at every \<^verbatim>\<open>await\<close>, so sweeps, run-now requests,
  edits and the end of the process can fall between reading a row, moving its trigger, claiming the
  occurrence, executing and settling. A step relation over the store, the fires under way and the
  sessions asked for so far, with the functions of a single fire as its steps.
\<close>

subsection \<open>The interface a fire relies on\<close>

text \<open>
  A register of occurrences: a claim succeeds only on a key nobody holds, and what is held afterwards
  is what was held before and that key.
\<close>

locale claim_register =
  fixes claim :: "'c \<Rightarrow> 'st \<Rightarrow> 'st option" and claim_key :: "'c \<Rightarrow> 'k" and held :: "'k \<Rightarrow> 'st \<Rightarrow> bool"
  assumes claim_was_free: "claim c st = Some st' \<Longrightarrow> \<not> held (claim_key c) st"
    and claim_holds: "claim c st = Some st' \<Longrightarrow> held k st' \<longleftrightarrow> held k st \<or> k = claim_key c"
begin

lemma claim_once: "held (claim_key c) st \<Longrightarrow> claim c st = None"
  using claim_was_free by (cases "claim c st") auto

lemma claim_extends:
  assumes "distinct ks" and "\<forall>k \<in> set ks. held k st" and "claim c st = Some st'"
  shows "distinct (ks @ [claim_key c]) \<and> (\<forall>k \<in> set (ks @ [claim_key c]). held k st')"
  using assms claim_was_free [OF assms(3)] claim_holds [OF assms(3)] by auto

lemma claim_twice: "claim c st = Some st' \<Longrightarrow> claim_key d = claim_key c \<Longrightarrow> claim d st' = None"
  using claim_holds [of c st st' "claim_key c"] by (auto intro: claim_once)

end

type_synonym claim_args = "string \<times> string \<times> string \<times> string \<times> seconds option \<times> string \<times> seconds"

definition claim_occurrence :: "claim_args \<Rightarrow> schedule_store \<Rightarrow> schedule_store option" where
  "claim_occurrence = (\<lambda>(rid, sid, pid, key, due, origin, now) st.
     map_option snd (claim_run rid sid pid key due origin now st))"

definition occurrence_of :: "claim_args \<Rightarrow> string \<times> string" where
  "occurrence_of = (\<lambda>(rid, sid, pid, key, due, origin, now). (sid, key))"

definition occurrence_held :: "string \<times> string \<Rightarrow> schedule_store \<Rightarrow> bool" where
  "occurrence_held = (\<lambda>(sid, key) st. claimed sid key st)"

interpretation occ: claim_register claim_occurrence occurrence_of occurrence_held
  by unfold_locales
    (auto simp: claim_occurrence_def occurrence_of_def occurrence_held_def claimed_claim dest: schedules_claim_run)

subsection \<open>Fires under way\<close>

datatype fire_phase = Reading | Advanced | Claimed | Executed fire_result

record fire_task =
  ft_row :: schedule_row
  ft_due :: seconds
  ft_now :: seconds
  ft_origin :: string
  ft_key :: string
  ft_advance :: bool
  ft_phase :: fire_phase

record daemon =
  dm_store :: schedule_store
  dm_tasks :: "fire_task list"
  dm_asked :: "(string \<times> string) list"

definition task_occurrence :: "fire_task \<Rightarrow> string \<times> string" where
  "task_occurrence t = (sr_id (ft_row t), ft_key t)"

definition task_spec :: "fire_env \<Rightarrow> fire_task \<Rightarrow> schedule_spec" where
  "task_spec env t = spec_from_row (fe_schedules env) (ft_row t)"

definition sweep_task :: "schedule_row \<Rightarrow> seconds \<Rightarrow> fire_task" where
  "sweep_task row now = \<lparr>ft_row = row, ft_due = due_time row, ft_now = now, ft_origin = ''timer'',
     ft_key = occurrence_key (due_time row), ft_advance = True, ft_phase = Reading\<rparr>"

definition manual_task :: "schedule_row \<Rightarrow> string \<Rightarrow> seconds \<Rightarrow> fire_task" where
  "manual_task row unique now = \<lparr>ft_row = row, ft_due = now, ft_now = now, ft_origin = ''manual'',
     ft_key = ''manual:'' @ unique, ft_advance = False, ft_phase = Reading\<rparr>"

inductive daemon_step :: "daemon \<Rightarrow> daemon \<Rightarrow> bool" where
  step_sweep: "row \<in> set (due_schedules now (dm_store d)) \<Longrightarrow>
    daemon_step d (d\<lparr>dm_tasks := dm_tasks d @ [sweep_task row now]\<rparr>)"
| step_manual: "get_schedule sid (dm_store d) = Some row \<Longrightarrow>
    daemon_step d (d\<lparr>dm_tasks := dm_tasks d @ [manual_task row unique now]\<rparr>)"
| step_advance: "dm_tasks d = xs @ t # ys \<Longrightarrow> ft_phase t = Reading \<Longrightarrow>
    (if ft_advance t
     then advance_trigger env (ft_row t) (task_spec env t) (ft_due t) (ft_now t) (dm_store d)
     else Inr (dm_store d)) = Inr st \<Longrightarrow>
    daemon_step d (d\<lparr>dm_store := st, dm_tasks := xs @ t\<lparr>ft_phase := Advanced\<rparr> # ys\<rparr>)"
| step_raise: "dm_tasks d = xs @ t # ys \<Longrightarrow> ft_phase t = Reading \<Longrightarrow> ft_advance t \<Longrightarrow>
    advance_trigger env (ft_row t) (task_spec env t) (ft_due t) (ft_now t) (dm_store d) = Inl e \<Longrightarrow>
    daemon_step d (d\<lparr>dm_tasks := xs @ ys\<rparr>)"
| step_claim: "dm_tasks d = xs @ t # ys \<Longrightarrow> ft_phase t = Advanced \<Longrightarrow>
    claim_occurrence (rid, sr_id (ft_row t), sr_project_id (ft_row t), ft_key t, Some (ft_due t),
      ft_origin t, ft_now t) (dm_store d) = Some st \<Longrightarrow>
    daemon_step d (d\<lparr>dm_store := st, dm_tasks := xs @ t\<lparr>ft_phase := Claimed\<rparr> # ys\<rparr>)"
| step_conflict: "dm_tasks d = xs @ t # ys \<Longrightarrow> ft_phase t = Advanced \<Longrightarrow>
    claim_occurrence (rid, sr_id (ft_row t), sr_project_id (ft_row t), ft_key t, Some (ft_due t),
      ft_origin t, ft_now t) (dm_store d) = None \<Longrightarrow>
    daemon_step d (d\<lparr>dm_tasks := xs @ ys\<rparr>)"
| step_execute: "dm_tasks d = xs @ t # ys \<Longrightarrow> ft_phase t = Claimed \<Longrightarrow>
    execute env (ft_row t) (task_spec env t) rid (ft_due t) (ft_now t) (ft_origin t) (dm_store d) =
      (r, st, effs) \<Longrightarrow>
    daemon_step d (d\<lparr>dm_store := st, dm_tasks := xs @ t\<lparr>ft_phase := Executed r\<rparr> # ys,
      dm_asked := dm_asked d @ replicate (sessions_asked effs) (task_occurrence t)\<rparr>)"
| step_settle: "dm_tasks d = xs @ t # ys \<Longrightarrow> ft_phase t = Executed r \<Longrightarrow>
    settle env (ft_row t) (task_spec env t) (ft_origin t) r (dm_store d) = (settled, st, effs) \<Longrightarrow>
    daemon_step d (d\<lparr>dm_store := st, dm_tasks := xs @ ys\<rparr>)"
| step_crash: "daemon_step d (d\<lparr>dm_tasks := []\<rparr>)"
| step_create: "create_schedule sid pid proot spec next_at now (dm_store d) = Some (row, st) \<Longrightarrow>
    daemon_step d (d\<lparr>dm_store := st\<rparr>)"
| step_replace: "replace_schedule sid spec next_at revision now (dm_store d) = (row', st) \<Longrightarrow>
    daemon_step d (d\<lparr>dm_store := st\<rparr>)"
| step_enable: "set_enabled sid enabled next_at reason now (dm_store d) = (row', st) \<Longrightarrow>
    daemon_step d (d\<lparr>dm_store := st\<rparr>)"
| step_restore: "daemon_step d (d\<lparr>dm_store := fst (restore_schedules env' now (dm_store d))\<rparr>)"

definition fresh_daemon :: "schedule_store \<Rightarrow> daemon" where
  "fresh_daemon st = \<lparr>dm_store = st, dm_tasks = [], dm_asked = []\<rparr>"

inductive reachable :: "schedule_store \<Rightarrow> daemon \<Rightarrow> bool" for st0 where
  reach_start: "reachable st0 (fresh_daemon st0)"
| reach_step: "reachable st0 d \<Longrightarrow> daemon_step d d' \<Longrightarrow> reachable st0 d'"

inductive_cases daemon_stepE: "daemon_step d d'"

subsection \<open>The invariant\<close>

definition claimed_task :: "fire_task \<Rightarrow> bool" where
  "claimed_task t \<longleftrightarrow> ft_phase t = Claimed"

definition pending :: "fire_task list \<Rightarrow> (string \<times> string) list" where
  "pending ts = map task_occurrence (filter claimed_task ts)"

definition daemon_inv :: "daemon \<Rightarrow> bool" where
  "daemon_inv d \<longleftrightarrow>
     distinct (dm_asked d @ pending (dm_tasks d)) \<and>
     (\<forall>k \<in> set (dm_asked d @ pending (dm_tasks d)). occurrence_held k (dm_store d))"

lemma pending_simps [simp]:
  "pending [] = []" "pending (xs @ ys) = pending xs @ pending ys"
  "pending (t # ts) = (if claimed_task t then [task_occurrence t] else []) @ pending ts"
  by (simp_all add: pending_def)

lemma claimed_task_phase [simp]:
  "claimed_task (t\<lparr>ft_phase := p\<rparr>) \<longleftrightarrow> p = Claimed"
  "task_occurrence (t\<lparr>ft_phase := p\<rparr>) = task_occurrence t"
  by (simp_all add: claimed_task_def task_occurrence_def)

lemma held_runs: "ss_runs st' = ss_runs st \<Longrightarrow> occurrence_held k st' = occurrence_held k st"
  by (cases k) (simp add: occurrence_held_def claimed_def)

lemma held_settle:
  assumes "settle env row spec origin r st = (settled, st', effs)"
  shows "occurrence_held k st' = occurrence_held k st"
proof -
  have u: "occurrence_held k (update_run rid f st) = occurrence_held k st"
    if "\<And>x. rr_schedule_id (f x) = rr_schedule_id x \<and> rr_fire_key (f x) = rr_fire_key x" for rid f
    using that by (cases k) (auto simp: occurrence_held_def claimed_def update_run_def)
  obtain st1 where "st1 = snd (finish_run (fe_run_id env) (fx_outcome r) (fx_reason r) (fx_session_id r)
      (fx_queued r) (fe_finish_clock env) st)" "st' = st1"
    using assms by (auto simp: settle_def split: prod.splits)
  then show ?thesis
    by (auto simp: finish_run_def Let_def u held_runs [OF ss_runs_update_schedule] split: option.splits)
qed

lemma restore_runs: "ss_runs (fst (restore_rows env now rows st)) = ss_runs st"
proof (induction env now rows st rule: restore_rows.induct)
  case (2 env now row rows st)
  then show ?case by (cases "repaired_fire env now row") simp_all
qed simp

lemma inv_edit: "daemon_inv d \<Longrightarrow> ss_runs st = ss_runs (dm_store d) \<Longrightarrow> daemon_inv (d\<lparr>dm_store := st\<rparr>)"
  by (simp add: daemon_inv_def held_runs [of st "dm_store d"])

lemma step_keeps_inv: "daemon_step d d' \<Longrightarrow> daemon_inv d \<Longrightarrow> daemon_inv d'"
proof (induction rule: daemon_step.induct)
  case (step_claim d xs t ys rid st)
  let ?ks = "dm_asked d @ pending (dm_tasks d)"
  have "distinct (?ks @ [task_occurrence t]) \<and> (\<forall>k \<in> set (?ks @ [task_occurrence t]). occurrence_held k st)"
    using occ.claim_extends [of ?ks "dm_store d", OF _ _ step_claim.hyps(3)] step_claim.prems
    by (simp add: daemon_inv_def occurrence_of_def task_occurrence_def)
  moreover have "\<not> claimed_task t" using step_claim.hyps(2) by (simp add: claimed_task_def)
  ultimately show ?case using step_claim.hyps(1) by (auto simp: daemon_inv_def)
next
  case (step_execute d xs t ys env rid r st effs)
  have e: "ss_runs st = ss_runs (dm_store d)" "sessions_asked effs = 0 \<or> sessions_asked effs = 1"
    using execute_parts [OF step_execute.hyps(3)] by (auto dest!: disarms_touches simp: only_touches_def)
  have "claimed_task t" using step_execute.hyps(2) by (simp add: claimed_task_def)
  then show ?case using step_execute.hyps(1) step_execute.prems e(2)
    by (auto simp: daemon_inv_def held_runs [OF e(1)])
next
  case (step_settle d xs t ys r env settled st effs)
  then show ?case by (auto simp: daemon_inv_def held_settle [OF step_settle.hyps(3)] claimed_task_def)
next
  case (step_advance d xs t ys env st)
  have runs: "ss_runs st = ss_runs (dm_store d)"
    using step_advance.hyps(3) by (auto dest: runs_advance split: if_splits)
  from step_advance show ?case by (auto simp: daemon_inv_def held_runs [OF runs] claimed_task_def)
next
  case (step_create sid pid proot spec next_at now d row st)
  then show ?case by (intro inv_edit) (auto simp: create_schedule_def Let_def split: if_splits)
next
  case (step_replace sid spec next_at revision now d row' st)
  then show ?case by (intro inv_edit) (auto simp: replace_schedule_def Let_def split: if_splits)
next
  case (step_enable sid enabled next_at reason now d row' st)
  have "st = snd (set_enabled sid enabled next_at reason now (dm_store d))" using step_enable.hyps by simp
  with step_enable.prems show ?case by (intro inv_edit) simp_all
next
  case (step_restore d env' now)
  then show ?case by (intro inv_edit) (simp_all add: restore_schedules_def restore_runs)
qed (auto simp: daemon_inv_def sweep_task_def manual_task_def claimed_task_def split: if_splits)

lemma reachable_inv: "reachable st0 d \<Longrightarrow> daemon_inv d"
proof (induction rule: reachable.induct)
  case reach_start
  show ?case by (simp add: fresh_daemon_def daemon_inv_def)
next
  case (reach_step d d')
  show ?case by (rule step_keeps_inv [OF reach_step.hyps(2) reach_step.IH])
qed

subsection \<open>Properties\<close>

text \<open>
  C17. However sweeps, manual runs, edits and restarts interleave, at most one session is ever asked
  for per occurrence of a schedule, and every occurrence a session was asked for has its run row. Only
  deleting or pruning the rows is left out.
\<close>

theorem one_session_per_occurrence:
  assumes "reachable st0 d"
  shows "distinct (dm_asked d) \<and> (\<forall>(sid, key) \<in> set (dm_asked d). claimed sid key (dm_store d))"
  using reachable_inv [OF assms] by (auto simp: daemon_inv_def occurrence_held_def)

subsection \<open>Witness\<close>

definition quiet_env :: fire_env where
  "quiet_env = demo_fire_env\<lparr>fe_session_state := (\<lambda>_. None)\<rparr>"

definition demo_task :: fire_task where
  "demo_task = sweep_task demo_row 0"

definition moved :: schedule_store where
  "moved = set_next_fire ''a'' (Some 300) 0 demo_schedules"

definition claimed_store :: schedule_store where
  "claimed_store = the (claim_occurrence (''r1'', ''a'', ''p'', ''0'', Some 0, ''timer'', 0) moved)"

definition demo_execution :: "fire_result \<times> schedule_store \<times> schedule_effect list" where
  "demo_execution =
     execute quiet_env demo_row (spec_from_row (fe_schedules quiet_env) demo_row) ''r1'' 0 0 ''timer'' claimed_store"

definition asked_daemon :: daemon where
  "asked_daemon = \<lparr>dm_store = fst (snd demo_execution),
     dm_tasks = [demo_task\<lparr>ft_phase := Executed (fst demo_execution)\<rparr>], dm_asked = [(''a'', ''0'')]\<rparr>"

lemma demo_task_parts:
  "ft_row demo_task = demo_row" "ft_due demo_task = 0" "ft_now demo_task = 0" "ft_origin demo_task = ''timer''"
  "ft_key demo_task = ''0''" "ft_advance demo_task" "ft_phase demo_task = Reading"
  "sr_id demo_row = ''a''" "sr_project_id demo_row = ''p''"
  by code_simp+

lemma asked_daemon_reachable: "reachable demo_schedules asked_daemon"
proof -
  let ?t = demo_task
  let ?d1 = "\<lparr>dm_store = demo_schedules, dm_tasks = [?t], dm_asked = []\<rparr>"
  let ?d2 = "\<lparr>dm_store = moved, dm_tasks = [?t\<lparr>ft_phase := Advanced\<rparr>], dm_asked = []\<rparr>"
  let ?d3 = "\<lparr>dm_store = claimed_store, dm_tasks = [?t\<lparr>ft_phase := Claimed\<rparr>], dm_asked = []\<rparr>"
  have "demo_row \<in> set (due_schedules 0 demo_schedules)" by code_simp
  then have "daemon_step (fresh_daemon demo_schedules) ?d1"
    using step_sweep [of demo_row 0 "fresh_daemon demo_schedules"] by (simp add: fresh_daemon_def demo_task_def)
  then have r1: "reachable demo_schedules ?d1" by (rule reach_step [OF reach_start])
  have "advance_trigger quiet_env demo_row (spec_from_row (fe_schedules quiet_env) demo_row) 0 0 demo_schedules = Inr moved"
    by code_simp
  then have "daemon_step ?d1 ?d2"
    using step_advance [of ?d1 "[]" ?t "[]" quiet_env moved] by (simp add: demo_task_parts task_spec_def)
  then have r2: "reachable demo_schedules ?d2" by (rule reach_step [OF r1])
  have "claim_occurrence (''r1'', ''a'', ''p'', ''0'', Some 0, ''timer'', 0) moved = Some claimed_store"
    by code_simp
  then have "daemon_step ?d2 ?d3"
    using step_claim [of ?d2 "[]" "?t\<lparr>ft_phase := Advanced\<rparr>" "[]" "''r1''" claimed_store]
    by (simp add: demo_task_parts)
  then have r3: "reachable demo_schedules ?d3" by (rule reach_step [OF r2])
  have asked: "sessions_asked (snd (snd demo_execution)) = 1" by code_simp
  have "daemon_step ?d3 asked_daemon"
    using step_execute [of ?d3 "[]" "?t\<lparr>ft_phase := Claimed\<rparr>" "[]" quiet_env "''r1''" "fst demo_execution"
        "fst (snd demo_execution)" "snd (snd demo_execution)"]
    by (simp add: demo_task_parts task_spec_def asked asked_daemon_def task_occurrence_def flip: demo_execution_def)
  then show ?thesis by (rule reach_step [OF r3])
qed

lemma one_session_per_occurrence_witness:
  "\<exists>d. reachable demo_schedules d \<and> dm_asked d = [(''a'', ''0'')] \<and> claimed ''a'' ''0'' (dm_store d)"
proof -
  have "claimed ''a'' ''0'' (dm_store asked_daemon)"
    using one_session_per_occurrence [OF asked_daemon_reachable] by (simp add: asked_daemon_def)
  then show ?thesis using asked_daemon_reachable by (auto simp: asked_daemon_def)
qed

end
