(* ===== verification/Queue_Store.thy ===== *)
theory Queue_Store
  imports Mux_Prelude "HOL-Library.List_Lexorder" "HOL-Library.Char_ord"
begin

text \<open>
  \<^verbatim>\<open>PromptQueueStore\<close> of \<^verbatim>\<open>prompt_queue.py\<close>: the SQLite tables of messages, delivery attempts, policies
  and counters as lists of rows in insertion order, and one function per operation with the meaning of
  its SQL. Each operation runs on one worker thread as one transaction, so it is one atomic step; an
  operation that raises does so before its first write, or is rolled back. Clock readings and \<^verbatim>\<open>uuid4\<close>
  identifiers are arguments. A JSON column is the value it parses to. A failing disk is not modelled.
\<close>

subsection \<open>Constants\<close>

datatype message_state =
    Drafted | Armed | Blocked | Delivering
  | Sent | Failed | Cancelled | Stranded | Deleted

definition pending_states :: "message_state list" where
  "pending_states = [Drafted, Armed, Blocked]"

definition active_states :: "message_state list" where
  "active_states = pending_states @ [Delivering]"

definition terminal_states :: "message_state list" where
  "terminal_states = [Sent, Failed, Cancelled, Stranded, Deleted]"

definition sender_kinds :: "string list" where
  "sender_kinds = [''user'', ''remote_user'', ''rule'', ''agent'', ''queue_draft'']"

definition human_sender_kinds :: "string list" where
  "human_sender_kinds = [''remote_user'', ''user'']"

definition self_arming_sender_kinds :: "string list" where
  "self_arming_sender_kinds = [''agent'']"

definition cancel_kinds :: "string list" where
  "cancel_kinds = [''cancelled'', ''skipped'', ''revoked'', ''expired'']"

definition auto_policy_global :: string where "auto_policy_global = ''*''"
definition max_body_chars :: nat where "max_body_chars = 500000"
definition history_limit :: nat where "history_limit = 200"

subsection \<open>Tables\<close>

record prompt_row =
  pq_id :: string
  pq_target :: string
  pq_target_run :: "string option"
  pq_target_backend :: "string option"
  pq_target_label :: "string option"
  pq_project :: "string option"
  pq_position :: int
  pq_state :: message_state
  pq_body :: string
  pq_revision :: int
  pq_sender_kind :: string
  pq_sender_id :: "string option"
  pq_sender_label :: "string option"
  pq_origin_session :: "string option"
  pq_correlation :: "string option"
  pq_thread :: "string option"
  pq_chain_depth :: int
  pq_solicited_by :: "string option"
  pq_origin :: "pydict option"
  pq_payload :: "pydict option"
  pq_constraints :: "pydict option"
  pq_blocked_reasons :: "string list option"
  pq_stranded_reason :: "string option"
  pq_cancel_kind :: "string option"
  pq_retargeted_from :: "pydict option"
  pq_created_at :: seconds
  pq_updated_at :: seconds
  pq_edited_at :: "seconds option"
  pq_armed_at :: "seconds option"
  pq_sent_at :: "seconds option"
  pq_deleted_at :: "seconds option"

datatype attempt_outcome = Attempt_Pending | Attempt_Sent | Attempt_Failed | Attempt_Refused

record attempt_row =
  qd_id :: string
  qd_message :: string
  qd_key :: "string option"
  qd_revision :: int
  qd_target :: string
  qd_target_run :: "string option"
  qd_delivery_state :: "string option"
  qd_reasons :: "string list option"
  qd_confirmed :: bool
  qd_interjected :: bool
  qd_initiator :: string
  qd_submitted :: "bool option"
  qd_outcome :: attempt_outcome
  qd_error :: "string option"
  qd_bytes :: "int option"
  qd_created_at :: seconds
  qd_completed_at :: "seconds option"

record auto_policy =
  ap_session :: string
  ap_enabled :: bool
  ap_run :: "string option"
  ap_accept_messages :: bool
  ap_accept_interjections :: bool
  ap_expires_at :: "seconds option"
  ap_max_sends :: int
  ap_sends_used :: int
  ap_paused :: bool
  ap_disabled_reason :: "string option"
  ap_enabled_at :: "seconds option"
  ap_disabled_at :: "seconds option"
  ap_lapse_idle :: "seconds option"
  ap_lapse_window :: "seconds option"
  ap_lapse_pending :: "int option"
  ap_updated_at :: seconds
  ap_updated_by :: "string option"

record queue_store =
  qs_messages :: "prompt_row list"
  qs_attempts :: "attempt_row list"
  qs_policies :: "auto_policy list"
  qs_counters :: "(string \<times> (rat \<times> seconds)) list"

definition empty_queue :: queue_store where
  "empty_queue = \<lparr>qs_messages = [], qs_attempts = [], qs_policies = [], qs_counters = []\<rparr>"

text \<open>\<^verbatim>\<open>QueueError\<close> with its code, status and payload, and \<^verbatim>\<open>sqlite3.IntegrityError\<close>.\<close>

datatype queue_error =
    Queue_Error string int pydict
  | Integrity_Error

abbreviation queue_conflict :: "string \<Rightarrow> pydict \<Rightarrow> queue_error + 'a" where
  "queue_conflict code payload \<equiv> Inl (Queue_Error code 409 payload)"

abbreviation bad_request :: "string \<Rightarrow> queue_error + 'a" where
  "bad_request code \<equiv> Inl (Queue_Error code 400 [])"

abbreviation not_found :: "queue_error + 'a" where
  "not_found \<equiv> Inl (Queue_Error ''not_found'' 404 [])"

fun state_name :: "message_state \<Rightarrow> string" where
  "state_name Drafted = ''draft''"
| "state_name Armed = ''armed''"
| "state_name Blocked = ''blocked''"
| "state_name Delivering = ''delivering''"
| "state_name Sent = ''sent''"
| "state_name Failed = ''failed''"
| "state_name Cancelled = ''cancelled''"
| "state_name Stranded = ''stranded''"
| "state_name Deleted = ''deleted''"

definition immutable_state :: "prompt_row \<Rightarrow> queue_error + 'a" where
  "immutable_state r = queue_conflict ''immutable_state'' [(''state'', PStr (state_name (pq_state r)))]"

definition is_pending :: "prompt_row \<Rightarrow> bool" where
  "is_pending r \<longleftrightarrow> pq_state r \<in> set pending_states"

definition is_unfinished :: "prompt_row \<Rightarrow> bool" where
  "is_unfinished r \<longleftrightarrow> pq_state r \<in> set active_states"

definition is_visible :: "prompt_row \<Rightarrow> bool" where
  "is_visible r \<longleftrightarrow> pq_state r \<noteq> Deleted"

subsection \<open>Statements\<close>

text \<open>\<^verbatim>\<open>SELECT * FROM queue_messages WHERE id=?\<close> and \<^verbatim>\<open>UPDATE queue_messages ... WHERE id=?\<close>.\<close>

definition find_message :: "string \<Rightarrow> queue_store \<Rightarrow> prompt_row option" where
  "find_message mid st = find (\<lambda>r. pq_id r = mid) (qs_messages st)"

definition update_message :: "string \<Rightarrow> (prompt_row \<Rightarrow> prompt_row) \<Rightarrow> queue_store \<Rightarrow> queue_store" where
  "update_message mid f st =
     st\<lparr>qs_messages := map (\<lambda>r. if pq_id r = mid then f r else r) (qs_messages st)\<rparr>"

text \<open>The message after an update; the row is there, so the \<^verbatim>\<open>assert\<close> holds.\<close>

definition refetch :: "string \<Rightarrow> prompt_row \<Rightarrow> queue_store \<Rightarrow> prompt_row" where
  "refetch mid r st = (case find_message mid st of Some r' \<Rightarrow> r' | None \<Rightarrow> r)"

text \<open>\<^verbatim>\<open>WHERE target_session_id=? AND state!='deleted' ORDER BY position\<close>.\<close>

definition visible_queue :: "string \<Rightarrow> queue_store \<Rightarrow> prompt_row list" where
  "visible_queue t st =
     sort_key pq_position (filter (\<lambda>r. pq_target r = t \<and> is_visible r) (qs_messages st))"

fun renumber_ids :: "int \<Rightarrow> string list \<Rightarrow> queue_store \<Rightarrow> queue_store" where
  "renumber_ids i [] st = st"
| "renumber_ids i (m # ms) st =
     renumber_ids (i + 1) ms (update_message m (\<lambda>r. r\<lparr>pq_position := i\<rparr>) st)"

definition renumber_queue :: "string \<Rightarrow> string list option \<Rightarrow> queue_store \<Rightarrow> queue_store" where
  "renumber_queue t ordered st =
     renumber_ids 0 (case ordered of None \<Rightarrow> map pq_id (visible_queue t st) | Some ids \<Rightarrow> ids) st"

text \<open>\<^verbatim>\<open>xs.insert(xs.index(a) + 1, x)\<close> for an anchor that is in the list.\<close>

fun insert_behind :: "'a \<Rightarrow> 'a \<Rightarrow> 'a list \<Rightarrow> 'a list" where
  "insert_behind a x [] = []"
| "insert_behind a x (y # ys) = (if y = a then y # x # ys else y # insert_behind a x ys)"

text \<open>\<^verbatim>\<open>COALESCE(MAX(position)+1,0)\<close>.\<close>

definition next_position :: "prompt_row list \<Rightarrow> int" where
  "next_position rs = (if rs = [] then 0 else Max (pq_position ` set rs) + 1)"

text \<open>Two \<^verbatim>\<open>sender_id\<close> columns under \<^verbatim>\<open>IFNULL(sender_id,'')\<close>.\<close>

definition ifnull :: "string option \<Rightarrow> string" where
  "ifnull s = (case s of None \<Rightarrow> '''' | Some x \<Rightarrow> x)"

definition text_given :: "string option \<Rightarrow> bool" where
  "text_given s \<longleftrightarrow> s \<noteq> None \<and> s \<noteq> Some ''''"

subsection \<open>Creating messages\<close>

definition find_correlated ::
  "string \<Rightarrow> string option \<Rightarrow> string \<Rightarrow> queue_store \<Rightarrow> prompt_row option" where
  "find_correlated kind sender correlation st =
     find (\<lambda>r. pq_sender_kind r = kind \<and> ifnull (pq_sender_id r) = ifnull sender \<and>
       pq_correlation r = Some correlation) (qs_messages st)"

text \<open>The primary key, and the unique index over kind, sender and correlation, in which NULLs differ.\<close>

definition insert_conflicts :: "prompt_row \<Rightarrow> queue_store \<Rightarrow> bool" where
  "insert_conflicts m st \<longleftrightarrow>
     (\<exists>r \<in> set (qs_messages st). pq_id r = pq_id m \<or>
       pq_correlation m \<noteq> None \<and> pq_sender_id m \<noteq> None \<and>
       pq_correlation r = pq_correlation m \<and> pq_sender_id r = pq_sender_id m \<and>
       pq_sender_kind r = pq_sender_kind m)"

record message_request =
  mr_id :: string
  mr_target :: string
  mr_target_run :: "string option"
  mr_target_backend :: "string option"
  mr_target_label :: "string option"
  mr_project :: "string option"
  mr_body :: string
  mr_armed :: bool
  mr_sender_kind :: string
  mr_sender_id :: "string option"
  mr_sender_label :: "string option"
  mr_origin_session :: "string option"
  mr_correlation :: "string option"
  mr_thread :: "string option"
  mr_chain_depth :: int
  mr_solicited_by :: "string option"
  mr_origin :: "pydict option"
  mr_payload :: "pydict option"
  mr_constraints :: "pydict option"
  mr_insert_after :: "string option"

definition new_message :: "message_request \<Rightarrow> int \<Rightarrow> seconds \<Rightarrow> prompt_row" where
  "new_message m pos now = \<lparr>
     pq_id = mr_id m, pq_target = mr_target m, pq_target_run = mr_target_run m,
     pq_target_backend = mr_target_backend m, pq_target_label = mr_target_label m,
     pq_project = mr_project m, pq_position = pos,
     pq_state = (if mr_armed m then Armed else Drafted), pq_body = mr_body m, pq_revision = 1,
     pq_sender_kind = mr_sender_kind m, pq_sender_id = mr_sender_id m,
     pq_sender_label = mr_sender_label m, pq_origin_session = mr_origin_session m,
     pq_correlation = mr_correlation m, pq_thread = mr_thread m,
     pq_chain_depth = max 0 (mr_chain_depth m),
     pq_solicited_by = (if text_given (mr_solicited_by m) then mr_solicited_by m else None),
     pq_origin = mr_origin m, pq_payload = mr_payload m, pq_constraints = mr_constraints m,
     pq_blocked_reasons = None, pq_stranded_reason = None, pq_cancel_kind = None,
     pq_retargeted_from = None, pq_created_at = now, pq_updated_at = now, pq_edited_at = None,
     pq_armed_at = (if mr_armed m then Some now else None), pq_sent_at = None,
     pq_deleted_at = None\<rparr>"

datatype created = Created prompt_row | Deduplicated prompt_row

definition insert_message ::
  "message_request \<Rightarrow> seconds \<Rightarrow> queue_store \<Rightarrow> queue_error + created \<times> queue_store" where
  "insert_message m now st =
     (case (case mr_insert_after m of
              None \<Rightarrow> Inr ([], next_position
                (filter (\<lambda>r. pq_target r = mr_target m \<and> is_visible r) (qs_messages st)))
            | Some anchor \<Rightarrow>
                let ordered = map pq_id (visible_queue (mr_target m) st)
                in if anchor \<notin> set ordered then bad_request ''unknown_anchor''
                   else Inr (insert_behind anchor (mr_id m) ordered, int (length ordered))) of
        Inl e \<Rightarrow> Inl e
      | Inr (ordered, pos) \<Rightarrow>
          let r = new_message m pos now
          in if insert_conflicts r st then Inl Integrity_Error
             else
               let st1 = st\<lparr>qs_messages := qs_messages st @ [r]\<rparr>;
                   st2 = (if ordered = [] then st1 else renumber_queue (mr_target m) (Some ordered) st1)
               in Inr (Created (refetch (mr_id m) r st2), st2))"

definition create_message ::
  "message_request \<Rightarrow> seconds \<Rightarrow> queue_store \<Rightarrow> queue_error + created \<times> queue_store" where
  "create_message m now st =
     (case (if text_given (mr_correlation m)
            then find_correlated (mr_sender_kind m) (mr_sender_id m) (ifnull (mr_correlation m)) st
            else None) of
        Some r \<Rightarrow> Inr (Deduplicated r, st)
      | None \<Rightarrow> insert_message m now st)"

definition message_by_correlation ::
  "string \<Rightarrow> string option \<Rightarrow> string \<Rightarrow> queue_store \<Rightarrow> prompt_row option" where
  "message_by_correlation kind sender correlation st = find_correlated kind sender correlation st"

subsection \<open>Reading\<close>

definition messages_for_target :: "string \<Rightarrow> queue_store \<Rightarrow> prompt_row list \<times> nat" where
  "messages_for_target t st =
     (let rows = take (history_limit + 64) (visible_queue t st)
      in (rows, length (filter is_unfinished rows)))"

text \<open>\<^verbatim>\<open>SUM(CASE ...)\<close>, and \<^verbatim>\<open>MAX\<close> of a text column, which skips NULLs.\<close>

definition count_state :: "(prompt_row \<Rightarrow> bool) \<Rightarrow> prompt_row list \<Rightarrow> nat" where
  "count_state p rs = length (filter p rs)"

definition max_text :: "string option list \<Rightarrow> string option" where
  "max_text xs = (case List.map_filter id xs of [] \<Rightarrow> None | y # ys \<Rightarrow> Some (fold max ys y))"

record target_summary =
  ts_target :: string
  ts_label :: "string option"
  ts_project :: "string option"
  ts_backend :: "string option"
  ts_pending :: nat
  ts_blocked :: nat
  ts_stranded :: nat
  ts_failed :: nat
  ts_total :: nat
  ts_updated_at :: seconds

definition summarise :: "prompt_row list \<Rightarrow> string \<Rightarrow> target_summary" where
  "summarise rs t =
     (let g = filter (\<lambda>r. pq_target r = t) rs
      in \<lparr>ts_target = t, ts_label = max_text (map pq_target_label g),
          ts_project = max_text (map pq_project g), ts_backend = max_text (map pq_target_backend g),
          ts_pending = count_state is_unfinished g,
          ts_blocked = count_state (\<lambda>r. pq_state r = Blocked) g,
          ts_stranded = count_state (\<lambda>r. pq_state r = Stranded) g,
          ts_failed = count_state (\<lambda>r. pq_state r = Failed) g,
          ts_total = length g, ts_updated_at = Max (pq_updated_at ` set g)\<rparr>)"

definition queue_summary :: "queue_store \<Rightarrow> target_summary list" where
  "queue_summary st =
     (let rs = filter is_visible (qs_messages st)
      in sort_key (\<lambda>s. - ts_updated_at s)
           (map (summarise rs) (sort (remdups (map pq_target rs)))))"

definition pending_head :: "string \<Rightarrow> queue_store \<Rightarrow> prompt_row option" where
  "pending_head t st =
     (case sort_key pq_position (filter (\<lambda>r. pq_target r = t \<and> is_pending r) (qs_messages st)) of
        [] \<Rightarrow> None
      | r # _ \<Rightarrow> Some r)"

subsection \<open>Changing messages\<close>

text \<open>The shape the operations share: the row must be there and in a permitted state.\<close>

definition on_message ::
  "string \<Rightarrow> (prompt_row \<Rightarrow> bool) \<Rightarrow> (prompt_row \<Rightarrow> queue_error + 'a) \<Rightarrow> queue_store \<Rightarrow> queue_error + 'a" where
  "on_message mid permitted act st =
     (case find_message mid st of
        None \<Rightarrow> not_found
      | Some r \<Rightarrow> if permitted r then act r else immutable_state r)"

definition edit_body ::
  "string \<Rightarrow> int \<Rightarrow> string \<Rightarrow> seconds \<Rightarrow> queue_store \<Rightarrow> queue_error + prompt_row \<times> queue_store" where
  "edit_body mid revision body now st =
     on_message mid is_pending (\<lambda>row.
       if pq_revision row \<noteq> revision
       then queue_conflict ''revision_conflict'' [(''revision'', PInt (pq_revision row))]
       else
         let next = (if pq_state row = Blocked
                     then (if pq_armed_at row \<noteq> None then Armed else Drafted) else pq_state row);
             st' = update_message mid (\<lambda>r. r\<lparr>pq_body := body, pq_revision := pq_revision r + 1,
               pq_state := next, pq_blocked_reasons := None, pq_edited_at := Some now,
               pq_updated_at := now\<rparr>) st
         in Inr (refetch mid row st', st')) st"

definition set_armed ::
  "string \<Rightarrow> bool \<Rightarrow> seconds \<Rightarrow> queue_store \<Rightarrow> queue_error + prompt_row \<times> queue_store" where
  "set_armed mid armed now st =
     on_message mid is_pending (\<lambda>row.
       let st' = update_message mid (\<lambda>r. r\<lparr>pq_state := (if armed then Armed else Drafted),
             pq_armed_at := (if armed then Some now else None), pq_blocked_reasons := None,
             pq_updated_at := now\<rparr>) st
       in Inr (refetch mid row st', st')) st"

definition move_message ::
  "string \<Rightarrow> string option \<Rightarrow> seconds \<Rightarrow> queue_store \<Rightarrow> queue_error + prompt_row \<times> queue_store" where
  "move_message mid after now st =
     on_message mid is_pending (\<lambda>row.
       let rest = remove1 mid (map pq_id (visible_queue (pq_target row) st))
       in case (case after of
                  None \<Rightarrow> Inr (mid # rest)
                | Some anchor \<Rightarrow>
                    if anchor \<notin> set rest then bad_request ''unknown_anchor''
                    else Inr (insert_behind anchor mid rest)) of
            Inl e \<Rightarrow> Inl e
          | Inr ordered \<Rightarrow>
              let st' = update_message mid (\<lambda>r. r\<lparr>pq_updated_at := now\<rparr>)
                          (renumber_queue (pq_target row) (Some ordered) st)
              in Inr (refetch mid row st', st')) st"

definition cancel_message ::
  "string \<Rightarrow> string \<Rightarrow> seconds \<Rightarrow> queue_store \<Rightarrow> queue_error + prompt_row \<times> queue_store" where
  "cancel_message mid kind now st =
     on_message mid (\<lambda>r. is_pending r \<or> pq_state r = Stranded) (\<lambda>row.
       let st' = update_message mid (\<lambda>r. r\<lparr>pq_state := Cancelled, pq_cancel_kind := Some kind,
             pq_updated_at := now\<rparr>) st
       in Inr (refetch mid row st', st')) st"

record deletion =
  dl_id :: string
  dl_target :: string
  dl_previous_state :: message_state
  dl_sender_kind :: string
  dl_already_deleted :: bool

definition erase_row :: "seconds \<Rightarrow> prompt_row \<Rightarrow> prompt_row" where
  "erase_row now r = r\<lparr>
     pq_state := Deleted, pq_body := '''', pq_origin := None, pq_payload := None,
     pq_constraints := None, pq_blocked_reasons := None, pq_stranded_reason := None,
     pq_cancel_kind := None, pq_retargeted_from := None, pq_deleted_at := Some now,
     pq_updated_at := now\<rparr>"

definition delete_message ::
  "string \<Rightarrow> seconds \<Rightarrow> queue_store \<Rightarrow> queue_error + deletion \<times> queue_store" where
  "delete_message mid now st =
     (case find_message mid st of
        None \<Rightarrow> not_found
      | Some row \<Rightarrow>
          if pq_state row = Delivering
          then queue_conflict ''delivery_in_progress'' [(''state'', PStr ''delivering'')]
          else
            let result = \<lparr>dl_id = pq_id row, dl_target = pq_target row,
                  dl_previous_state = pq_state row, dl_sender_kind = pq_sender_kind row,
                  dl_already_deleted = (pq_state row = Deleted)\<rparr>
            in if pq_state row = Deleted then Inr (result, st)
               else Inr (result, renumber_queue (pq_target row) None
                 (update_message mid (erase_row now) st)))"

definition opt_text :: "string option \<Rightarrow> pyval" where
  "opt_text s = (case s of None \<Rightarrow> PNone | Some x \<Rightarrow> PStr x)"

record queue_target =
  qt_session :: string
  qt_run :: "string option"
  qt_backend :: "string option"
  qt_label :: "string option"
  qt_project :: "string option"

text \<open>Where a retargeted message came from, and the row it becomes.\<close>

definition provenance :: "prompt_row \<Rightarrow> seconds \<Rightarrow> pydict" where
  "provenance row now =
     [(''session_id'', PStr (pq_target row)), (''agent_run_id'', opt_text (pq_target_run row)),
      (''label'', opt_text (pq_target_label row)),
      (''stranded_reason'', opt_text (pq_stranded_reason row)), (''retargeted_at'', PFloat now)]"

definition retarget_row :: "queue_target \<Rightarrow> int \<Rightarrow> pydict \<Rightarrow> seconds \<Rightarrow> prompt_row \<Rightarrow> prompt_row" where
  "retarget_row target pos origin now r = r\<lparr>
     pq_target := qt_session target, pq_target_run := qt_run target,
     pq_target_backend := qt_backend target, pq_target_label := qt_label target,
     pq_project := qt_project target, pq_position := pos, pq_state := Drafted,
     pq_stranded_reason := None, pq_blocked_reasons := None, pq_armed_at := None,
     pq_retargeted_from := Some origin, pq_updated_at := now\<rparr>"

definition retarget_message ::
  "string \<Rightarrow> queue_target \<Rightarrow> seconds \<Rightarrow> queue_store \<Rightarrow> queue_error + prompt_row \<times> queue_store" where
  "retarget_message mid target now st =
     on_message mid (\<lambda>r. pq_state r = Stranded) (\<lambda>row.
       let pos = next_position (filter (\<lambda>r. pq_target r = qt_session target) (qs_messages st));
           st' = update_message mid (retarget_row target pos (provenance row now) now) st
       in Inr (refetch mid row st', st')) st"

definition bind_run :: "string \<Rightarrow> string \<Rightarrow> queue_store \<Rightarrow> queue_store" where
  "bind_run mid run =
     update_message mid (\<lambda>r. if pq_target_run r = None then r\<lparr>pq_target_run := Some run\<rparr> else r)"

definition set_constraints ::
  "string \<Rightarrow> pydict option \<Rightarrow> seconds \<Rightarrow> queue_store \<Rightarrow> queue_error + prompt_row \<times> queue_store" where
  "set_constraints mid constraints now st =
     on_message mid is_pending (\<lambda>row.
       let st' = update_message mid (\<lambda>r. r\<lparr>
             pq_constraints := (if constraints = Some [] then None else constraints),
             pq_updated_at := now\<rparr>) st
       in Inr (refetch mid row st', st')) st"

subsection \<open>Delivery attempts\<close>

definition find_attempt :: "string \<Rightarrow> queue_store \<Rightarrow> attempt_row option" where
  "find_attempt did st = find (\<lambda>a. qd_id a = did) (qs_attempts st)"

definition update_attempt :: "string \<Rightarrow> (attempt_row \<Rightarrow> attempt_row) \<Rightarrow> queue_store \<Rightarrow> queue_store" where
  "update_attempt did f st =
     st\<lparr>qs_attempts := map (\<lambda>a. if qd_id a = did then f a else a) (qs_attempts st)\<rparr>"

definition new_attempt ::
  "string \<Rightarrow> prompt_row \<Rightarrow> string option \<Rightarrow> string \<Rightarrow> seconds \<Rightarrow> attempt_row" where
  "new_attempt did row key initiator now = \<lparr>
     qd_id = did, qd_message = pq_id row, qd_key = key, qd_revision = pq_revision row,
     qd_target = pq_target row, qd_target_run = pq_target_run row, qd_delivery_state = None,
     qd_reasons = None, qd_confirmed = False, qd_interjected = False, qd_initiator = initiator,
     qd_submitted = None, qd_outcome = Attempt_Pending, qd_error = None, qd_bytes = None,
     qd_created_at = now, qd_completed_at = None\<rparr>"

text \<open>The earliest message of the same target ahead of this one that is not done.\<close>

definition line_blocker :: "prompt_row \<Rightarrow> queue_store \<Rightarrow> prompt_row option" where
  "line_blocker row st =
     (case sort_key pq_position (filter (\<lambda>r. pq_target r = pq_target row \<and>
             pq_position r < pq_position row \<and> is_unfinished r) (qs_messages st)) of
        [] \<Rightarrow> None
      | r # _ \<Rightarrow> Some r)"

definition attempt_conflicts :: "attempt_row \<Rightarrow> queue_store \<Rightarrow> bool" where
  "attempt_conflicts a st \<longleftrightarrow>
     (\<exists>b \<in> set (qs_attempts st). qd_id b = qd_id a \<or> qd_key a \<noteq> None \<and> qd_key b = qd_key a)"

datatype claim_answer = Duplicate_Claim attempt_row | Claim_Opened string prompt_row

definition claim_for_delivery ::
  "string \<Rightarrow> int \<Rightarrow> string option \<Rightarrow> string \<Rightarrow> string \<Rightarrow> seconds \<Rightarrow> queue_store
    \<Rightarrow> queue_error + claim_answer \<times> queue_store" where
  "claim_for_delivery mid revision key initiator did now st =
     (case (if text_given key then find (\<lambda>a. qd_key a = key) (qs_attempts st) else None) of
        Some a \<Rightarrow> Inr (Duplicate_Claim a, st)
      | None \<Rightarrow>
          (case find_message mid st of
             None \<Rightarrow> not_found
           | Some row \<Rightarrow>
               if \<not> is_pending row
               then queue_conflict ''invalid_state'' [(''state'', PStr (state_name (pq_state row)))]
               else if pq_revision row \<noteq> revision
               then queue_conflict ''revision_conflict'' [(''revision'', PInt (pq_revision row))]
               else
                 (case line_blocker row st of
                    Some b \<Rightarrow> queue_conflict ''head_of_line_blocked''
                      [(''blocking_message_id'', PStr (pq_id b)),
                       (''blocking_state'', PStr (state_name (pq_state b)))]
                  | None \<Rightarrow>
                      let a = new_attempt did row key initiator now
                      in if attempt_conflicts a st then Inl Integrity_Error
                         else
                           let st1 = update_message mid
                                 (\<lambda>r. r\<lparr>pq_state := Delivering, pq_updated_at := now\<rparr>) st
                           in Inr (Claim_Opened did row,
                                st1\<lparr>qs_attempts := qs_attempts st1 @ [a]\<rparr>))))"

record attempt_result =
  ar_outcome :: attempt_outcome
  ar_state :: message_state
  ar_delivery_state :: "string option"
  ar_reasons :: "string list option"
  ar_confirmed :: bool
  ar_interjected :: bool
  ar_submitted :: "bool option"
  ar_error :: "string option"
  ar_bytes :: "int option"
  ar_blocked_reasons :: "string list option"
  ar_stranded_reason :: "string option"
  ar_cancel_kind :: "string option"

definition settle_attempt :: "attempt_result \<Rightarrow> seconds \<Rightarrow> attempt_row \<Rightarrow> attempt_row" where
  "settle_attempt x now a = a\<lparr>
     qd_outcome := ar_outcome x, qd_delivery_state := ar_delivery_state x, qd_reasons := ar_reasons x,
     qd_confirmed := ar_confirmed x, qd_interjected := ar_interjected x,
     qd_submitted := ar_submitted x, qd_error := ar_error x, qd_bytes := ar_bytes x,
     qd_completed_at := Some now,
     qd_key := (if ar_outcome x = Attempt_Refused then None else qd_key a)\<rparr>"

definition settle_message :: "attempt_result \<Rightarrow> seconds \<Rightarrow> prompt_row \<Rightarrow> prompt_row" where
  "settle_message x now r = r\<lparr>
     pq_state := ar_state x, pq_blocked_reasons := ar_blocked_reasons x,
     pq_stranded_reason := ar_stranded_reason x,
     pq_cancel_kind := (if ar_cancel_kind x = None then pq_cancel_kind r else ar_cancel_kind x),
     pq_sent_at := (if ar_state x = Sent then Some now else pq_sent_at r), pq_updated_at := now\<rparr>"

text \<open>The fetched row, or nothing when the message was pruned meanwhile and the \<^verbatim>\<open>assert\<close> fails.\<close>

definition finalize_delivery ::
  "string \<Rightarrow> string \<Rightarrow> attempt_result \<Rightarrow> seconds \<Rightarrow> queue_store \<Rightarrow> prompt_row option \<times> queue_store" where
  "finalize_delivery did mid x now st =
     (let st' = update_message mid (settle_message x now) (update_attempt did (settle_attempt x now) st)
      in (find_message mid st', st'))"

definition deliveries_of :: "string \<Rightarrow> queue_store \<Rightarrow> attempt_row list" where
  "deliveries_of mid st =
     take 50 (sort_key (\<lambda>a. - qd_created_at a) (filter (\<lambda>a. qd_message a = mid) (qs_attempts st)))"

subsection \<open>Constraints, mailbox, relay bounds\<close>

text \<open>\<^verbatim>\<open>isinstance(v, int | float)\<close>, which a bool satisfies, as the float it becomes.\<close>

fun py_real :: "pyval \<Rightarrow> rat option" where
  "py_real (PBool b) = Some (if b then 1 else 0)"
| "py_real v = py_number v"

definition constraint_time :: "string \<Rightarrow> prompt_row \<Rightarrow> seconds option" where
  "constraint_time k r =
     (case pq_constraints r of None \<Rightarrow> None | Some c \<Rightarrow> py_real (py_get c k))"

definition expired_at :: "seconds \<Rightarrow> prompt_row \<Rightarrow> bool" where
  "expired_at now r \<longleftrightarrow>
     (case constraint_time ''expires_at'' r of None \<Rightarrow> False | Some t \<Rightarrow> t \<le> now)"

definition expired_pending :: "seconds \<Rightarrow> queue_store \<Rightarrow> prompt_row list" where
  "expired_pending now st =
     filter (expired_at now)
       (filter (\<lambda>r. is_pending r \<and> pq_constraints r \<noteq> None) (qs_messages st))"

definition mailbox_kinds :: "string \<Rightarrow> string option \<Rightarrow> string list" where
  "mailbox_kinds author role =
     (let a = (case role of
                 None \<Rightarrow> author
               | Some r \<Rightarrow> if r = ''inbox'' then ''non_human'' else if r = ''outbox'' then ''human'' else r)
      in if a = ''non_human'' then filter (\<lambda>k. k \<notin> set human_sender_kinds) sender_kinds
         else if a = ''human'' then human_sender_kinds else sender_kinds)"

definition mailbox ::
  "string \<Rightarrow> string option \<Rightarrow> string option \<Rightarrow> string option \<Rightarrow> int \<Rightarrow> queue_store \<Rightarrow> prompt_row list" where
  "mailbox author role project target limit st =
     take (nat (max 1 (min limit 500)))
       (sort_key (\<lambda>r. - pq_created_at r)
          (filter (\<lambda>r. is_visible r \<and> pq_sender_kind r \<in> set (mailbox_kinds author role) \<and>
             (text_given project \<longrightarrow> pq_project r = project) \<and>
             (text_given target \<longrightarrow> Some (pq_target r) = target)) (qs_messages st)))"

definition mailbox_targets :: "queue_store \<Rightarrow> (string \<times> string option \<times> string option \<times> seconds) list" where
  "mailbox_targets st =
     map (\<lambda>s. (ts_target s, ts_label s, ts_project s, ts_updated_at s)) (queue_summary st)"

definition count_messages :: "(prompt_row \<Rightarrow> bool) \<Rightarrow> queue_store \<Rightarrow> nat" where
  "count_messages p st = length (filter p (qs_messages st))"

definition sender_message_count :: "string \<Rightarrow> string \<Rightarrow> seconds \<Rightarrow> queue_store \<Rightarrow> nat" where
  "sender_message_count kind sender since =
     count_messages (\<lambda>r. pq_sender_kind r = kind \<and> pq_sender_id r = Some sender \<and> since \<le> pq_created_at r)"

definition pending_message_count :: "string \<Rightarrow> queue_store \<Rightarrow> nat" where
  "pending_message_count t = count_messages (\<lambda>r. pq_target r = t \<and> is_unfinished r)"

definition pending_from_sender_kind :: "string \<Rightarrow> string \<Rightarrow> queue_store \<Rightarrow> nat" where
  "pending_from_sender_kind t kind =
     count_messages (\<lambda>r. pq_target r = t \<and> pq_sender_kind r = kind \<and> is_unfinished r)"

definition thread_message_count :: "string \<Rightarrow> queue_store \<Rightarrow> nat" where
  "thread_message_count thread =
     count_messages (\<lambda>r. pq_thread r = Some thread \<and> pq_sender_kind r = ''agent'' \<and> is_visible r)"

text \<open>The first of the rows with the largest key, as \<^verbatim>\<open>max(items, key=...)\<close> picks it.\<close>

fun first_max :: "('a \<Rightarrow> 'k :: linorder) \<Rightarrow> 'a \<Rightarrow> 'a list \<Rightarrow> 'a" where
  "first_max f b [] = b"
| "first_max f b (x # xs) = first_max f (if f b < f x then x else b) xs"

definition text_or_none :: "string option \<Rightarrow> string option" where
  "text_or_none s = (if text_given s then s else None)"

definition sent_time :: "prompt_row \<Rightarrow> seconds" where
  "sent_time r = (case pq_sent_at r of None \<Rightarrow> 0 | Some t \<Rightarrow> t)"

record reply_window =
  rw_thread :: "string option"
  rw_peer :: "string option"
  rw_sent_at :: seconds

text \<open>\<^verbatim>\<open>GROUP BY sender_id\<close> with bare columns: they come from the row that has \<^verbatim>\<open>MAX(sent_at)\<close>.\<close>

definition open_reply_windows ::
  "string list \<Rightarrow> seconds \<Rightarrow> queue_store \<Rightarrow> (string \<times> reply_window) list" where
  "open_reply_windows ids since st =
     (let rows = filter (\<lambda>r. pq_sender_kind r = ''agent'' \<and> pq_state r = Sent \<and>
            pq_sent_at r \<noteq> None \<and> since \<le> sent_time r \<and> pq_sender_id r \<in> Some ` set ids) (qs_messages st)
      in map (\<lambda>s. (s, case filter (\<lambda>r. pq_sender_id r = Some s) rows of
             [] \<Rightarrow> \<lparr>rw_thread = None, rw_peer = None, rw_sent_at = 0\<rparr>
           | b # rest \<Rightarrow>
               let r = first_max sent_time b rest
               in \<lparr>rw_thread = text_or_none (pq_thread r), rw_peer = text_or_none (Some (pq_target r)),
                   rw_sent_at = sent_time r\<rparr>))
           (sort (remdups (List.map_filter pq_sender_id rows))))"

record relay_context =
  rc_depth :: int
  rc_path :: "string list"
  rc_thread :: "string option"
  rc_from :: "string option"

definition no_relay :: relay_context where
  "no_relay = \<lparr>rc_depth = 0, rc_path = [], rc_thread = None, rc_from = None\<rparr>"

definition relay_path :: "(pyval \<Rightarrow> string) \<Rightarrow> prompt_row \<Rightarrow> string list" where
  "relay_path repr r =
     (case pq_origin r of
        None \<Rightarrow> []
      | Some d \<Rightarrow> (case py_get d ''path'' of PList xs \<Rightarrow> map (py_to_str repr) xs | _ \<Rightarrow> []))"

definition inbound_relay_context ::
  "(pyval \<Rightarrow> string) \<Rightarrow> string \<Rightarrow> string option \<Rightarrow> string option \<Rightarrow> queue_store \<Rightarrow> relay_context" where
  "inbound_relay_context repr session run peer st =
     (let items = take 100 (sort_key (\<lambda>r. - sent_time r)
            (filter (\<lambda>r. pq_target r = session \<and> pq_sender_kind r = ''agent'' \<and> pq_state r = Sent \<and>
               (\<not> text_given run \<or> pq_target_run r = None \<or> pq_target_run r = run)) (qs_messages st)));
          named = (if text_given peer then find (\<lambda>r. ifnull (pq_sender_id r) = ifnull peer) items else None);
          chosen = (case named of
                      Some r \<Rightarrow> Some r
                    | None \<Rightarrow> (case items of [] \<Rightarrow> None | b # rest \<Rightarrow> Some (first_max pq_chain_depth b rest)))
      in case chosen of
           None \<Rightarrow> no_relay
         | Some r \<Rightarrow> \<lparr>rc_depth = pq_chain_depth r, rc_path = relay_path repr r,
             rc_thread = text_or_none (pq_thread r), rc_from = text_or_none (pq_sender_id r)\<rparr>)"

subsection \<open>Policies and counters\<close>

definition find_policy :: "string \<Rightarrow> queue_store \<Rightarrow> auto_policy option" where
  "find_policy sid st = find (\<lambda>p. ap_session p = sid) (qs_policies st)"

definition auto_policies :: "string list option \<Rightarrow> queue_store \<Rightarrow> auto_policy list" where
  "auto_policies ids st =
     (case ids of
        Some [] \<Rightarrow> []
      | _ \<Rightarrow> sort_key (\<lambda>p. - ap_updated_at p)
          (filter (\<lambda>p. ap_session p \<noteq> auto_policy_global \<and>
             (case ids of None \<Rightarrow> True | Some xs \<Rightarrow> ap_session p \<in> set xs)) (qs_policies st)))"

text \<open>The keyword arguments of \<^verbatim>\<open>set_auto_policy\<close>, each one column and its value.\<close>

datatype policy_field =
    Set_Enabled bool
  | Set_Run "string option"
  | Set_Accept_Messages bool
  | Set_Accept_Interjections bool
  | Set_Expires "seconds option"
  | Set_Max_Sends int
  | Set_Sends_Used int
  | Set_Paused bool
  | Set_Disabled_Reason "string option"
  | Set_Enabled_At "seconds option"
  | Set_Disabled_At "seconds option"
  | Set_Lapse_Idle "seconds option"
  | Set_Lapse_Window "seconds option"
  | Set_Lapse_Pending "int option"
  | Set_Updated_By "string option"
  | Unknown_Field string

fun set_policy_field :: "policy_field \<Rightarrow> auto_policy \<Rightarrow> auto_policy" where
  "set_policy_field (Set_Enabled b) p = p\<lparr>ap_enabled := b\<rparr>"
| "set_policy_field (Set_Run r) p = p\<lparr>ap_run := r\<rparr>"
| "set_policy_field (Set_Accept_Messages b) p = p\<lparr>ap_accept_messages := b\<rparr>"
| "set_policy_field (Set_Accept_Interjections b) p = p\<lparr>ap_accept_interjections := b\<rparr>"
| "set_policy_field (Set_Expires t) p = p\<lparr>ap_expires_at := t\<rparr>"
| "set_policy_field (Set_Max_Sends n) p = p\<lparr>ap_max_sends := n\<rparr>"
| "set_policy_field (Set_Sends_Used n) p = p\<lparr>ap_sends_used := n\<rparr>"
| "set_policy_field (Set_Paused b) p = p\<lparr>ap_paused := b\<rparr>"
| "set_policy_field (Set_Disabled_Reason r) p = p\<lparr>ap_disabled_reason := r\<rparr>"
| "set_policy_field (Set_Enabled_At t) p = p\<lparr>ap_enabled_at := t\<rparr>"
| "set_policy_field (Set_Disabled_At t) p = p\<lparr>ap_disabled_at := t\<rparr>"
| "set_policy_field (Set_Lapse_Idle t) p = p\<lparr>ap_lapse_idle := t\<rparr>"
| "set_policy_field (Set_Lapse_Window t) p = p\<lparr>ap_lapse_window := t\<rparr>"
| "set_policy_field (Set_Lapse_Pending n) p = p\<lparr>ap_lapse_pending := n\<rparr>"
| "set_policy_field (Set_Updated_By s) p = p\<lparr>ap_updated_by := s\<rparr>"
| "set_policy_field (Unknown_Field _) p = p"

fun known_field :: "policy_field \<Rightarrow> bool" where
  "known_field (Unknown_Field _) = False"
| "known_field _ = True"

definition new_policy :: "string \<Rightarrow> seconds \<Rightarrow> auto_policy" where
  "new_policy sid now = \<lparr>
     ap_session = sid, ap_enabled = False, ap_run = None, ap_accept_messages = False,
     ap_accept_interjections = False, ap_expires_at = None, ap_max_sends = 0, ap_sends_used = 0,
     ap_paused = False, ap_disabled_reason = None, ap_enabled_at = None, ap_disabled_at = None,
     ap_lapse_idle = None, ap_lapse_window = None, ap_lapse_pending = None, ap_updated_at = now,
     ap_updated_by = None\<rparr>"

definition update_policy :: "string \<Rightarrow> (auto_policy \<Rightarrow> auto_policy) \<Rightarrow> queue_store \<Rightarrow> queue_store" where
  "update_policy sid f st =
     st\<lparr>qs_policies := map (\<lambda>p. if ap_session p = sid then f p else p) (qs_policies st)\<rparr>"

definition set_auto_policy ::
  "string \<Rightarrow> policy_field list \<Rightarrow> seconds \<Rightarrow> queue_store \<Rightarrow> queue_error + auto_policy \<times> queue_store" where
  "set_auto_policy sid named now st =
     (if \<not> list_all known_field named then bad_request ''invalid_policy''
      else
        let st1 = (if find_policy sid st = None
                   then st\<lparr>qs_policies := qs_policies st @ [new_policy sid now]\<rparr> else st);
            f = (\<lambda>p. (fold set_policy_field named p)\<lparr>ap_updated_at := now\<rparr>);
            st2 = update_policy sid f st1
        in Inr (case find_policy sid st2 of Some p \<Rightarrow> p | None \<Rightarrow> new_policy sid now, st2))"

definition may_consume :: "int \<Rightarrow> auto_policy \<Rightarrow> bool" where
  "may_consume max_sends p \<longleftrightarrow> ap_enabled p \<and> (max_sends \<le> 0 \<or> ap_sends_used p < max_sends)"

definition consume_auto_send :: "string \<Rightarrow> int \<Rightarrow> seconds \<Rightarrow> queue_store \<Rightarrow> bool \<times> queue_store" where
  "consume_auto_send sid max_sends now st =
     (\<exists>p \<in> set (qs_policies st). ap_session p = sid \<and> may_consume max_sends p,
      update_policy sid (\<lambda>p. if may_consume max_sends p
        then p\<lparr>ap_sends_used := ap_sends_used p + 1, ap_updated_at := now\<rparr> else p) st)"

definition release_auto_send :: "string \<Rightarrow> seconds \<Rightarrow> queue_store \<Rightarrow> queue_store" where
  "release_auto_send sid now =
     update_policy sid (\<lambda>p. p\<lparr>ap_sends_used := max 0 (ap_sends_used p - 1), ap_updated_at := now\<rparr>)"

text \<open>\<^verbatim>\<open>^reached \d+ consecutive automatic sends$\<close>; the dollar also matches before a final newline.\<close>

definition send_cap_reason :: string where
  "send_cap_reason = ''reached the consecutive automatic send cap''"

definition legacy_cap_race_reason :: string where
  "legacy_cap_race_reason = ''automatic send budget exhausted''"

definition legacy_cap_pattern :: "string \<Rightarrow> bool" where
  "legacy_cap_pattern s \<longleftrightarrow>
     starts_with s ''reached '' \<and>
     (let r = drop (length ''reached '') s;
          digits = takeWhile (\<lambda>c. c \<in> set ''0123456789'') r;
          tail = dropWhile (\<lambda>c. c \<in> set ''0123456789'') r
      in digits \<noteq> [] \<and>
         (tail = '' consecutive automatic sends'' \<or> tail = '' consecutive automatic sends'' @ [CHR 0x0A]))"

definition is_send_cap_reason :: "string option \<Rightarrow> bool" where
  "is_send_cap_reason reason \<longleftrightarrow>
     (let s = ifnull reason
      in s \<noteq> '''' \<and> (s = send_cap_reason \<or> s = legacy_cap_race_reason \<or> legacy_cap_pattern s))"

definition credit_auto_attention :: "string \<Rightarrow> string \<Rightarrow> seconds \<Rightarrow> queue_store \<Rightarrow> bool \<times> queue_store" where
  "credit_auto_attention sid by now st =
     (case find_policy sid st of
        None \<Rightarrow> (False, st)
      | Some row \<Rightarrow>
          let restore = \<not> ap_enabled row \<and> is_send_cap_reason (ap_disabled_reason row)
          in (restore, update_policy sid (\<lambda>p.
                if restore
                then p\<lparr>ap_sends_used := 0, ap_enabled := True, ap_disabled_reason := None,
                  ap_enabled_at := Some now, ap_updated_at := now, ap_updated_by := Some by\<rparr>
                else p\<lparr>ap_sends_used := 0, ap_updated_at := now\<rparr>) st))"

definition bump_counter :: "string \<Rightarrow> rat \<Rightarrow> seconds \<Rightarrow> queue_store \<Rightarrow> queue_store" where
  "bump_counter name delta now st =
     st\<lparr>qs_counters := AList.update name
       ((case map_of (qs_counters st) name of None \<Rightarrow> delta | Some (v, _) \<Rightarrow> v + delta), now)
       (qs_counters st)\<rparr>"

definition set_counter :: "string \<Rightarrow> rat \<Rightarrow> seconds \<Rightarrow> queue_store \<Rightarrow> queue_store" where
  "set_counter name value now st =
     st\<lparr>qs_counters := AList.update name (value, now) (qs_counters st)\<rparr>"

definition queue_counters :: "queue_store \<Rightarrow> (string \<times> rat) list" where
  "queue_counters st = map (\<lambda>(k, v, _). (k, v)) (qs_counters st)"

subsection \<open>Stranding and reconciliation\<close>

definition close_open_deliveries :: "string \<Rightarrow> string \<Rightarrow> seconds \<Rightarrow> queue_store \<Rightarrow> queue_store" where
  "close_open_deliveries mid error now st =
     st\<lparr>qs_attempts := map (\<lambda>a. if qd_message a = mid \<and> qd_outcome a = Attempt_Pending
        then a\<lparr>qd_outcome := Attempt_Failed, qd_error := Some error, qd_completed_at := Some now\<rparr>
        else a) (qs_attempts st)\<rparr>"

definition fail_message :: "string \<Rightarrow> seconds \<Rightarrow> prompt_row \<Rightarrow> prompt_row" where
  "fail_message error now r =
     r\<lparr>pq_state := Failed, pq_stranded_reason := Some error, pq_updated_at := now\<rparr>"

definition fail_interrupted ::
  "string \<Rightarrow> string \<Rightarrow> seconds \<Rightarrow> queue_store \<Rightarrow> prompt_row option \<times> queue_store" where
  "fail_interrupted mid error now st =
     (case find_message mid st of
        None \<Rightarrow> (None, st)
      | Some row \<Rightarrow>
          if pq_state row \<noteq> Delivering then (None, st)
          else
            let st' = close_open_deliveries mid error now (update_message mid (fail_message error now) st)
            in (find_message mid st', st'))"

definition strand_row :: "string \<Rightarrow> seconds \<Rightarrow> prompt_row \<Rightarrow> queue_store \<Rightarrow> queue_store" where
  "strand_row reason now row st =
     (if pq_state row = Delivering
      then
        let error = ''delivery interrupted: '' @ reason
        in close_open_deliveries (pq_id row) error now
             (update_message (pq_id row) (fail_message error now) st)
      else update_message (pq_id row)
        (\<lambda>r. r\<lparr>pq_state := Stranded, pq_stranded_reason := Some reason, pq_updated_at := now\<rparr>) st)"

definition strand_pending ::
  "string \<Rightarrow> string \<Rightarrow> seconds \<Rightarrow> queue_store \<Rightarrow> prompt_row list \<times> queue_store" where
  "strand_pending t reason now st =
     (let rows = filter (\<lambda>r. pq_target r = t \<and> is_unfinished r) (qs_messages st);
          st' = fold (strand_row reason now) rows st
      in (List.map_filter (\<lambda>r. find_message (pq_id r) st') rows, st'))"

definition pending_targets :: "queue_store \<Rightarrow> prompt_row list" where
  "pending_targets st = filter is_unfinished (qs_messages st)"

definition prunable :: "seconds \<Rightarrow> prompt_row \<Rightarrow> bool" where
  "prunable cutoff r \<longleftrightarrow> pq_state r \<in> set terminal_states \<and> pq_updated_at r < cutoff"

definition prune_queue :: "int \<Rightarrow> seconds \<Rightarrow> queue_store \<Rightarrow> queue_store" where
  "prune_queue retention_days now st =
     (let cutoff = now - of_int (max 1 retention_days) * 86400;
          ids = map pq_id (filter (prunable cutoff) (qs_messages st))
      in st\<lparr>qs_messages := filter (\<lambda>r. pq_id r \<notin> set ids) (qs_messages st),
            qs_attempts := filter (\<lambda>a. qd_message a \<notin> set ids \<and> cutoff \<le> qd_created_at a)
              (qs_attempts st)\<rparr>)"

end
