(* ===== verification/Queue_Order.thy ===== *)
theory Queue_Order
  imports Queue_Store
begin

text \<open>
  The order of a target's queue. The table holds it as positions in rows; here it is the list of the
  ids of the visible messages, and every operation of \<open>Queue_Store\<close> is the list operation it is meant
  to be.
\<close>

subsection \<open>The operations as updates of rows\<close>

named_theorems row_ops \<open>definitions of the operations on messages\<close>

lemma store_fields [simp]:
  "qs_messages (update_message mid f st) = map (\<lambda>r. if pq_id r = mid then f r else r) (qs_messages st)"
  "qs_attempts (update_message mid f st) = qs_attempts st"
  "qs_policies (update_message mid f st) = qs_policies st"
  "qs_counters (update_message mid f st) = qs_counters st"
  "qs_messages (update_attempt did g st) = qs_messages st"
  "qs_attempts (update_attempt did g st) = map (\<lambda>a. if qd_id a = did then g a else a) (qs_attempts st)"
  "qs_messages (close_open_deliveries mid err now st) = qs_messages st"
  "qs_messages (update_policy sid h st) = qs_messages st"
  "qs_attempts (update_policy sid h st) = qs_attempts st"
  by (simp_all add: update_message_def update_attempt_def close_open_deliveries_def update_policy_def)

text \<open>Where a row ends up when the ids of a queue are numbered from \<open>i\<close>.\<close>

fun place :: "int \<Rightarrow> string list \<Rightarrow> prompt_row \<Rightarrow> prompt_row" where
  "place i [] r = r"
| "place i (m # ms) r = place (i + 1) ms (if pq_id r = m then r\<lparr>pq_position := i\<rparr> else r)"

lemma renumber_ids_place:
  "renumber_ids i ids st = st\<lparr>qs_messages := map (place i ids) (qs_messages st)\<rparr>"
  by (induction i ids st rule: renumber_ids.induct) (simp_all add: comp_def)

lemma place_position: "\<exists>p. place i ids r = r\<lparr>pq_position := p\<rparr>"
proof (induction ids arbitrary: i r)
  case Nil
  have "place i [] r = r\<lparr>pq_position := pq_position r\<rparr>" by simp
  then show ?case by blast
next
  case (Cons m ms)
  obtain p where "place (i + 1) ms (if pq_id r = m then r\<lparr>pq_position := i\<rparr> else r) =
      (if pq_id r = m then r\<lparr>pq_position := i\<rparr> else r)\<lparr>pq_position := p\<rparr>"
    using Cons.IH by blast
  then have "place i (m # ms) r = r\<lparr>pq_position := p\<rparr>" by simp
  then show ?case by blast
qed

lemma place_fields [simp]:
  "pq_id (place i ids r) = pq_id r" "pq_target (place i ids r) = pq_target r"
  "pq_state (place i ids r) = pq_state r" "pq_body (place i ids r) = pq_body r"
  "pq_revision (place i ids r) = pq_revision r"
  "pq_sender_kind (place i ids r) = pq_sender_kind r" "pq_sender_id (place i ids r) = pq_sender_id r"
  "pq_correlation (place i ids r) = pq_correlation r"
  using place_position [of i ids r] by auto

lemma place_notin [simp]: "pq_id r \<notin> set ids \<Longrightarrow> place i ids r = r"
  by (induction i ids r rule: place.induct) auto

lemma place_nth:
  "distinct ids \<Longrightarrow> k < length ids \<Longrightarrow> pq_id r = ids ! k \<Longrightarrow> pq_position (place i ids r) = i + int k"
proof (induction i ids r arbitrary: k rule: place.induct)
  case (1 i r)
  then show ?case by simp
next
  case (2 i m ms r)
  show ?case
  proof (cases k)
    case 0
    with 2 show ?thesis by simp
  next
    case (Suc j)
    with 2 have "pq_id r = ms ! j" "j < length ms" "pq_id r \<noteq> m"
      by auto
    with "2.IH" [of j] "2.prems"(1) Suc show ?thesis by simp
  qed
qed

subsection \<open>The queue of a target as a list of ids\<close>

definition queue_ids :: "string \<Rightarrow> queue_store \<Rightarrow> string list" where
  "queue_ids t st = map pq_id (visible_queue t st)"

definition in_queue :: "string \<Rightarrow> prompt_row \<Rightarrow> bool" where
  "in_queue t r \<longleftrightarrow> pq_target r = t \<and> is_visible r"

definition ids_distinct :: "queue_store \<Rightarrow> bool" where
  "ids_distinct st \<longleftrightarrow> distinct (map pq_id (qs_messages st))"

definition positions_distinct :: "queue_store \<Rightarrow> bool" where
  "positions_distinct st \<longleftrightarrow>
     (\<forall>r \<in> set (qs_messages st). \<forall>s \<in> set (qs_messages st).
        is_visible r \<and> is_visible s \<and> pq_target r = pq_target s \<and> pq_position r = pq_position s \<longrightarrow>
        pq_id r = pq_id s)"

lemma set_queue_ids: "set (queue_ids t st) = pq_id ` {r \<in> set (qs_messages st). in_queue t r}"
  by (auto simp: queue_ids_def visible_queue_def in_queue_def)

lemma distinct_queue_ids: "ids_distinct st \<Longrightarrow> distinct (queue_ids t st)"
  unfolding ids_distinct_def queue_ids_def visible_queue_def
  by (simp add: distinct_map inj_on_def)

lemma find_message_iff:
  "ids_distinct st \<Longrightarrow> find_message mid st = Some r \<longleftrightarrow> r \<in> set (qs_messages st) \<and> pq_id r = mid"
proof -
  assume "ids_distinct st"
  then have "distinct (map pq_id rs) \<Longrightarrow> find (\<lambda>r. pq_id r = mid) rs = Some r \<longleftrightarrow> r \<in> set rs \<and> pq_id r = mid" for rs
    by (induction rs) auto
  then show ?thesis using \<open>ids_distinct st\<close> by (simp add: ids_distinct_def find_message_def)
qed

text \<open>A list of ids sorted by strictly increasing positions is determined by the positions.\<close>

lemma sorted_ids_unique:
  fixes p :: "string \<Rightarrow> int"
  assumes "distinct xs" "distinct ys" "set xs = set ys"
    and "inj_on p (set ys)" "sorted (map p xs)" "sorted (map p ys)"
  shows "xs = ys"
proof -
  have "map p xs = map p ys"
    using assms by (intro sorted_distinct_set_unique) (auto simp: distinct_map)
  then show ?thesis
    using assms(3,4) by (metis inj_on_map_eq_map sup.idem)
qed

definition position_of :: "queue_store \<Rightarrow> string \<Rightarrow> int" where
  "position_of st x = (case find_message x st of None \<Rightarrow> 0 | Some r \<Rightarrow> pq_position r)"

lemma position_of_row:
  "ids_distinct st \<Longrightarrow> r \<in> set (qs_messages st) \<Longrightarrow> position_of st (pq_id r) = pq_position r"
proof -
  assume "ids_distinct st" and "r \<in> set (qs_messages st)"
  then have "find_message (pq_id r) st = Some r" using find_message_iff by blast
  then show ?thesis by (simp add: position_of_def)
qed

lemma positions_inj:
  assumes "ids_distinct st" "positions_distinct st"
  shows "inj_on (position_of st) (set (queue_ids t st))"
proof (rule inj_onI)
  fix x y
  assume "x \<in> set (queue_ids t st)" "y \<in> set (queue_ids t st)" and eq: "position_of st x = position_of st y"
  then obtain r s where r: "r \<in> set (qs_messages st)" "in_queue t r" "x = pq_id r"
    and s: "s \<in> set (qs_messages st)" "in_queue t s" "y = pq_id s"
    by (auto simp: set_queue_ids)
  then have "pq_position r = pq_position s"
    using eq assms(1) by (simp add: position_of_row)
  moreover have "is_visible r" "is_visible s" "pq_target r = pq_target s"
    using r(2) s(2) by (simp_all add: in_queue_def)
  ultimately have "pq_id r = pq_id s"
    using assms(2) [unfolded positions_distinct_def, rule_format, OF r(1) s(1)] by simp
  with r s show "x = y" by simp
qed

lemma positions_sorted:
  assumes "ids_distinct st"
  shows "sorted (map (position_of st) (queue_ids t st))"
proof -
  have "map (position_of st) (queue_ids t st) = map pq_position (visible_queue t st)"
    unfolding queue_ids_def using assms
    by (auto simp: visible_queue_def position_of_row)
  then show ?thesis by (simp add: visible_queue_def)
qed

lemma queue_ids_eqI:
  assumes "ids_distinct st" "positions_distinct st" "distinct xs" "set xs = set (queue_ids t st)"
    and "sorted (map (position_of st) xs)"
  shows "queue_ids t st = xs"
  using assms positions_inj [OF assms(1,2), of t] positions_sorted [OF assms(1), of t]
  by (intro sorted_ids_unique [where p = "position_of st"]) (auto intro: distinct_queue_ids)

subsection \<open>Renumbering\<close>

abbreviation others_distinct :: "string \<Rightarrow> queue_store \<Rightarrow> bool" where
  "others_distinct t st \<equiv>
     (\<forall>r \<in> set (qs_messages st). \<forall>s \<in> set (qs_messages st).
        is_visible r \<and> is_visible s \<and> pq_target r = pq_target s \<and> pq_target r \<noteq> t \<and>
        pq_position r = pq_position s \<longrightarrow> pq_id r = pq_id s)"

lemma others_distinctI: "positions_distinct st \<Longrightarrow> others_distinct t st"
  unfolding positions_distinct_def by fast

lemma in_queue_place [simp]: "in_queue t (place i ids r) = in_queue t r"
  by (simp add: in_queue_def is_visible_def)

lemma is_visible_place [simp]: "is_visible (place i ids r) = is_visible r"
  by (simp add: is_visible_def)

lemma renumber_keeps_ids: "ids_distinct (renumber_ids i ids st) = ids_distinct st"
  by (simp add: ids_distinct_def renumber_ids_place comp_def)

lemma renumber_members:
  "set (queue_ids t (renumber_ids i ids st)) = set (queue_ids t st)"
proof -
  have "{r \<in> place i ids ` set (qs_messages st). in_queue t r} =
      place i ids ` {r \<in> set (qs_messages st). in_queue t r}" by auto
  then show ?thesis by (simp add: set_queue_ids renumber_ids_place image_image)
qed

lemma place_other:
  assumes "ids_distinct st" "set ids \<subseteq> set (queue_ids t st)" "r \<in> set (qs_messages st)"
    and "\<not> in_queue t r"
  shows "place i ids r = r"
proof (rule place_notin)
  show "pq_id r \<notin> set ids"
  proof
    assume "pq_id r \<in> set ids"
    then obtain s where "s \<in> set (qs_messages st)" "in_queue t s" "pq_id s = pq_id r"
      using assms(2) by (auto simp: set_queue_ids)
    with assms show False by (metis find_message_iff option.inject)
  qed
qed

lemma place_member:
  assumes "distinct ids" "pq_id r \<in> set ids"
  shows "\<exists>k < length ids. pq_id r = ids ! k \<and> pq_position (place 0 ids r) = int k"
  using assms place_nth [of ids _ r 0] by (metis add_0 in_set_conv_nth)

lemma renumbered_position:
  assumes "ids_distinct st" "distinct ids" "set ids = set (queue_ids t st)" "k < length ids"
  shows "position_of (renumber_ids 0 ids st) (ids ! k) = int k"
proof -
  have "ids ! k \<in> set (queue_ids t st)" using assms by (metis nth_mem)
  then obtain r where r: "r \<in> set (qs_messages st)" "pq_id r = ids ! k"
    by (auto simp: set_queue_ids)
  have "place 0 ids r \<in> set (qs_messages (renumber_ids 0 ids st))"
    using r by (simp add: renumber_ids_place)
  then have "position_of (renumber_ids 0 ids st) (pq_id (place 0 ids r)) = pq_position (place 0 ids r)"
    using assms by (intro position_of_row) (simp_all add: renumber_keeps_ids)
  then show ?thesis using r assms place_nth [of ids k r 0] by simp
qed

lemma renumber_distinct:
  assumes "ids_distinct st" "others_distinct t st" "distinct ids" "set ids = set (queue_ids t st)"
  shows "positions_distinct (renumber_ids 0 ids st)"
  unfolding positions_distinct_def renumber_ids_place
proof (simp, intro ballI impI)
  fix r s
  assume r: "r \<in> set (qs_messages st)" and s: "s \<in> set (qs_messages st)"
    and vis: "is_visible r \<and> is_visible s \<and> pq_target r = pq_target s \<and>
      pq_position (place 0 ids r) = pq_position (place 0 ids s)"
  show "pq_id r = pq_id s"
  proof (cases "pq_target r = t")
    case True
    then have "pq_id r \<in> set ids" "pq_id s \<in> set ids"
      using r s vis assms(4) by (auto simp: set_queue_ids in_queue_def)
    from place_member [OF assms(3) this(1)] place_member [OF assms(3) this(2)] vis
    show ?thesis by auto
  next
    case False
    then have "\<not> in_queue t r" "\<not> in_queue t s" using vis by (auto simp: in_queue_def)
    moreover have "set ids \<subseteq> set (queue_ids t st)" using assms(4) by simp
    ultimately have "place 0 ids r = r" "place 0 ids s = s"
      using place_other [OF assms(1)] r s by blast+
    with vis have "pq_position r = pq_position s" by simp
    with vis False r s assms(2) show ?thesis by blast
  qed
qed

lemma renumber_order:
  assumes "ids_distinct st" "others_distinct t st" "distinct ids" "set ids = set (queue_ids t st)"
  shows "queue_ids t (renumber_ids 0 ids st) = ids"
proof (rule queue_ids_eqI)
  have "map (position_of (renumber_ids 0 ids st)) ids = map int [0..<length ids]"
    using renumbered_position [OF assms(1,3,4)] by (auto intro: nth_equalityI)
  then show "sorted (map (position_of (renumber_ids 0 ids st)) ids)"
    by (simp add: sorted_iff_nth_mono)
qed (use assms in \<open>simp_all add: renumber_keeps_ids renumber_distinct renumber_members\<close>)

lemma renumber_elsewhere:
  assumes "ids_distinct st" "set ids \<subseteq> set (queue_ids t st)" "u \<noteq> t"
  shows "visible_queue u (renumber_ids i ids st) = visible_queue u st"
proof -
  have "filter (in_queue u) (map (place i ids) (qs_messages st)) = filter (in_queue u) (qs_messages st)"
  proof (rule trans [OF filter_map])
    have "map (place i ids) (filter (in_queue u) (qs_messages st)) = filter (in_queue u) (qs_messages st)"
      using assms place_other [OF assms(1,2)] by (intro map_idI) (auto simp: in_queue_def)
    then show "map (place i ids) (filter (in_queue u \<circ> place i ids) (qs_messages st)) =
        filter (in_queue u) (qs_messages st)"
      by (simp add: comp_def)
  qed
  then show ?thesis
    by (simp add: visible_queue_def renumber_ids_place in_queue_def [abs_def])
qed

subsection \<open>What the order of a queue depends on\<close>

definition row_key :: "prompt_row \<Rightarrow> string \<times> string \<times> int \<times> bool" where
  "row_key r = (pq_id r, pq_target r, pq_position r, is_visible r)"

abbreviation same_keys :: "queue_store \<Rightarrow> queue_store \<Rightarrow> bool" where
  "same_keys st st' \<equiv> map row_key (qs_messages st') = map row_key (qs_messages st)"

lemma insort_key_map: "insort_key f (g x) (map g xs) = map g (insort_key (f \<circ> g) x xs)"
  by (induction xs) auto

lemma sort_key_map: "sort_key f (map g xs) = map g (sort_key (f \<circ> g) xs)"
  by (induction xs) (auto simp: insort_key_map comp_def)

lemma queue_ids_keys:
  "queue_ids t st = map fst (sort_key (\<lambda>(i, u, p, v). p) (filter (\<lambda>(i, u, p, v). u = t \<and> v)
     (map row_key (qs_messages st))))"
  by (simp add: queue_ids_def visible_queue_def filter_map sort_key_map comp_def row_key_def)

lemma ids_distinct_keys: "ids_distinct st \<longleftrightarrow> distinct (map fst (map row_key (qs_messages st)))"
  by (simp add: ids_distinct_def row_key_def comp_def)

lemma positions_distinct_keys:
  "positions_distinct st \<longleftrightarrow>
     (\<forall>(i, t, p, v) \<in> set (map row_key (qs_messages st)).
        \<forall>(j, u, q, w) \<in> set (map row_key (qs_messages st)). v \<and> w \<and> t = u \<and> p = q \<longrightarrow> i = j)"
  by (simp add: positions_distinct_def row_key_def)

lemma same_keysD:
  assumes "same_keys st st'"
  shows "queue_ids t st' = queue_ids t st" "ids_distinct st' = ids_distinct st"
    "positions_distinct st' = positions_distinct st"
  using assms by (simp_all only: queue_ids_keys ids_distinct_keys positions_distinct_keys)

lemma update_same_keys:
  "(\<And>r. r \<in> set (qs_messages st) \<Longrightarrow> pq_id r = mid \<Longrightarrow> row_key (f r) = row_key r) \<Longrightarrow>
     same_keys st (update_message mid f st)"
  by auto

definition queue_ok :: "queue_store \<Rightarrow> bool" where
  "queue_ok st \<longleftrightarrow> ids_distinct st \<and> positions_distinct st"

lemma same_keys_ok:
  assumes "same_keys st st'"
  shows "queue_ok st' = queue_ok st"
  using same_keysD(2,3) [OF assms] by (simp add: queue_ok_def)

subsection \<open>Each operation on the order\<close>

lemma in_middle: "anchor \<in> set xs \<Longrightarrow> \<exists>as bs. xs = as @ anchor # bs \<and> insert_behind anchor x xs = as @ anchor # x # bs"
proof (induction xs)
  case Nil
  then show ?case by simp
next
  case (Cons y ys)
  show ?case
  proof (cases "y = anchor")
    case True
    then have "y # ys = [] @ anchor # ys \<and> insert_behind anchor x (y # ys) = [] @ anchor # x # ys" by simp
    then show ?thesis by blast
  next
    case False
    with Cons obtain as bs where "ys = as @ anchor # bs \<and> insert_behind anchor x ys = as @ anchor # x # bs"
      by auto
    with False have "y # ys = (y # as) @ anchor # bs" "insert_behind anchor x (y # ys) = (y # as) @ anchor # x # bs"
      by (metis append_Cons insert_behind.simps(2))+
    then show ?thesis by blast
  qed
qed

lemma insert_behind_set [simp]: "anchor \<in> set xs \<Longrightarrow> set (insert_behind anchor x xs) = insert x (set xs)"
  using in_middle [of anchor xs x] by auto

lemma insert_behind_distinct:
  "anchor \<in> set xs \<Longrightarrow> distinct xs \<Longrightarrow> x \<notin> set xs \<Longrightarrow> distinct (insert_behind anchor x xs)"
  using in_middle [of anchor xs x] by auto

lemma in_queue_ids:
  "find_message mid st = Some r \<Longrightarrow> is_visible r \<Longrightarrow> mid \<in> set (queue_ids (pq_target r) st)"
  by (auto simp: set_queue_ids find_message_def find_Some_iff in_queue_def)

lemma move_order:
  assumes ok: "queue_ok st" and mv: "move_message mid after now st = Inr (r, st')"
  shows "queue_ok st' \<and> (\<exists>row. find_message mid st = Some row \<and>
    (\<forall>u. queue_ids u st' = (if u \<noteq> pq_target row then queue_ids u st
      else case after of None \<Rightarrow> mid # remove1 mid (queue_ids u st)
           | Some a \<Rightarrow> insert_behind a mid (remove1 mid (queue_ids u st)))))"
proof -
  obtain row where row: "find_message mid st = Some row" "is_pending row"
    using mv by (auto simp: move_message_def on_message_def immutable_state_def
      split: option.splits if_splits)
  let ?t = "pq_target row"
  let ?rest = "remove1 mid (queue_ids ?t st)"
  let ?new = "case after of None \<Rightarrow> mid # ?rest | Some a \<Rightarrow> insert_behind a mid ?rest"
  let ?num = "renumber_ids 0 ?new st"
  have mid: "mid \<in> set (queue_ids ?t st)"
    using in_queue_ids [OF row(1)] row(2) by (auto simp: is_pending_def is_visible_def pending_states_def)
  have d: "distinct (queue_ids ?t st)" using ok by (simp add: queue_ok_def distinct_queue_ids)
  have st': "st' = update_message mid (\<lambda>r. r\<lparr>pq_updated_at := now\<rparr>) ?num"
    and anchor: "\<And>a. after = Some a \<Longrightarrow> a \<in> set ?rest"
    using mv row
    by (auto simp: move_message_def on_message_def queue_ids_def renumber_queue_def Let_def
      split: option.splits if_splits)
  have new: "distinct ?new" "set ?new = set (queue_ids ?t st)"
    using d mid anchor by (auto simp: insert_behind_distinct split: option.splits)
  have others: "others_distinct ?t st" using ok others_distinctI unfolding queue_ok_def by blast
  have keys: "same_keys ?num st'"
    unfolding st' by (rule update_same_keys) (simp add: row_key_def is_visible_def)
  have "queue_ok ?num"
    using ok others new by (simp add: queue_ok_def renumber_keeps_ids renumber_distinct)
  moreover have "queue_ids ?t ?num = ?new"
    using ok others new by (simp add: queue_ok_def renumber_order)
  moreover have "u \<noteq> ?t \<Longrightarrow> queue_ids u ?num = queue_ids u st" for u
    using ok new(2) renumber_elsewhere [of st ?new ?t u 0] by (simp add: queue_ok_def queue_ids_def)
  ultimately show ?thesis
    using row(1) same_keysD(1) [OF keys] same_keys_ok [OF keys] by auto
qed

lemma sort_key_snoc: "\<forall>y \<in> set xs. f y \<le> f x \<Longrightarrow> sort_key f (xs @ [x]) = sort_key f xs @ [x]"
proof (induction xs)
  case Nil
  then show ?case by simp
next
  case (Cons a xs)
  have "f a \<le> f x \<Longrightarrow> insort_key f a (ys @ [x]) = insort_key f a ys @ [x]" for ys
    by (induction ys) auto
  with Cons show ?case by simp
qed

lemma next_position_above: "r \<in> set rs \<Longrightarrow> pq_position r < next_position rs"
  using Max_ge [of "pq_position ` set rs" "pq_position r"] by (force simp: next_position_def)

lemma append_order:
  assumes ok: "queue_ok st" and fresh: "pq_id r \<notin> pq_id ` set (qs_messages st)" and "is_visible r"
    and last: "\<forall>s \<in> set (qs_messages st). in_queue (pq_target r) s \<longrightarrow> pq_position s < pq_position r"
  shows "queue_ok (st\<lparr>qs_messages := qs_messages st @ [r]\<rparr>) \<and>
    queue_ids u (st\<lparr>qs_messages := qs_messages st @ [r]\<rparr>) =
      (if u = pq_target r then queue_ids u st @ [pq_id r] else queue_ids u st)"
proof
  let ?st = "st\<lparr>qs_messages := qs_messages st @ [r]\<rparr>"
  have "positions_distinct ?st"
    unfolding positions_distinct_def
  proof (intro ballI impI)
    fix a b
    assume ab: "a \<in> set (qs_messages ?st)" "b \<in> set (qs_messages ?st)"
      and same: "is_visible a \<and> is_visible b \<and> pq_target a = pq_target b \<and> pq_position a = pq_position b"
    consider "a = r" "b = r" | "a = r" "b \<in> set (qs_messages st)" | "a \<in> set (qs_messages st)" "b = r"
      | "a \<in> set (qs_messages st)" "b \<in> set (qs_messages st)"
      using ab by auto
    then show "pq_id a = pq_id b"
    proof cases
      case 4
      then show ?thesis
        using ok same unfolding queue_ok_def positions_distinct_def by blast
    qed (use last same in \<open>auto simp: in_queue_def\<close>)
  qed
  then show "queue_ok ?st"
    using ok fresh by (simp add: queue_ok_def ids_distinct_def)
  show "queue_ids u ?st = (if u = pq_target r then queue_ids u st @ [pq_id r] else queue_ids u st)"
  proof (cases "u = pq_target r")
    case True
    have "\<forall>s \<in> set (filter (\<lambda>r. pq_target r = u \<and> is_visible r) (qs_messages st)).
        pq_position s \<le> pq_position r"
      using last True by (auto simp: in_queue_def less_imp_le)
    with True \<open>is_visible r\<close> show ?thesis
      by (simp add: queue_ids_def visible_queue_def sort_key_snoc)
  next
    case False
    then show ?thesis by (simp add: queue_ids_def visible_queue_def)
  qed
qed

text \<open>Hiding a row, as a deletion does.\<close>

lemma hide_order:
  assumes ok: "queue_ok st" and f: "\<And>r. pq_id (f r) = pq_id r" "\<And>r. \<not> is_visible (f r)"
  shows "queue_ok (update_message mid f st) \<and>
    queue_ids u (update_message mid f st) = remove1 mid (queue_ids u st)"
proof
  let ?st = "update_message mid f st"
  have "positions_distinct ?st"
    unfolding positions_distinct_def
  proof (intro ballI impI)
    fix a b
    assume "a \<in> set (qs_messages ?st)" "b \<in> set (qs_messages ?st)"
      and same: "is_visible a \<and> is_visible b \<and> pq_target a = pq_target b \<and> pq_position a = pq_position b"
    then have "a \<in> set (qs_messages st)" "b \<in> set (qs_messages st)"
      using f(2) by (auto split: if_splits)
    with same ok show "pq_id a = pq_id b"
      unfolding queue_ok_def positions_distinct_def by blast
  qed
  moreover have "map pq_id (map (\<lambda>r. if pq_id r = mid then f r else r) rs) = map pq_id rs" for rs
    using f(1) by simp
  ultimately show "queue_ok ?st"
    using ok by (simp add: queue_ok_def ids_distinct_def del: map_map)
  have rows: "filter (\<lambda>r. pq_target r = u \<and> is_visible r) (map (\<lambda>r. if pq_id r = mid then f r else r) rs) =
      filter (\<lambda>r. pq_id r \<noteq> mid) (filter (\<lambda>r. pq_target r = u \<and> is_visible r) rs)" for rs
    using f(2) by (induction rs) auto
  have "queue_ids u ?st = map pq_id (filter (\<lambda>r. pq_id r \<noteq> mid) (visible_queue u st))"
    by (simp only: queue_ids_def visible_queue_def store_fields rows filter_sort)
  also have "\<dots> = filter (\<lambda>x. x \<noteq> mid) (queue_ids u st)"
    by (simp add: queue_ids_def filter_map comp_def)
  also have "\<dots> = remove1 mid (queue_ids u st)"
    using ok distinct_queue_ids [of st u]
    by (simp add: queue_ok_def distinct_remove1_removeAll removeAll_filter_not_eq eq_commute)
  finally show "queue_ids u ?st = remove1 mid (queue_ids u st)" .
qed

lemma create_order:
  assumes ok: "queue_ok st" and new: "create_message m now st = Inr (Created r, st')"
  shows "queue_ok st' \<and> queue_ids u st' = (if u \<noteq> mr_target m then queue_ids u st
    else case mr_insert_after m of None \<Rightarrow> queue_ids u st @ [mr_id m]
         | Some a \<Rightarrow> insert_behind a (mr_id m) (queue_ids u st))"
proof -
  have ins: "insert_message m now st = Inr (Created r, st')"
    using new by (auto simp: create_message_def split: option.splits if_splits)
  show ?thesis
  proof (cases "mr_insert_after m")
    case None
    let ?rs = "filter (\<lambda>r. pq_target r = mr_target m \<and> is_visible r) (qs_messages st)"
    let ?r = "new_message m (next_position ?rs) now"
    have row [simp]: "pq_id ?r = mr_id m" "pq_target ?r = mr_target m" "is_visible ?r"
      "pq_position ?r = next_position ?rs"
      by (simp_all add: new_message_def is_visible_def)
    have "pq_id ?r \<notin> pq_id ` set (qs_messages st)" and st': "st' = st\<lparr>qs_messages := qs_messages st @ [?r]\<rparr>"
      using ins None by (auto simp: insert_message_def insert_conflicts_def Let_def split: if_splits)
    moreover have "\<forall>s \<in> set (qs_messages st). in_queue (pq_target ?r) s \<longrightarrow> pq_position s < pq_position ?r"
      using next_position_above by (auto simp: in_queue_def)
    ultimately show ?thesis
      using append_order [OF ok, of ?r u] None by simp
  next
    case (Some a)
    let ?t = "mr_target m"
    let ?old = "queue_ids ?t st"
    let ?r = "new_message m (int (length ?old)) now"
    let ?st = "st\<lparr>qs_messages := qs_messages st @ [?r]\<rparr>"
    let ?new = "insert_behind a (mr_id m) ?old"
    have row [simp]: "pq_id ?r = mr_id m" "pq_target ?r = ?t" "is_visible ?r"
      by (simp_all add: new_message_def is_visible_def)
    have a: "a \<in> set ?old" and conf: "\<not> insert_conflicts ?r st"
      using ins Some by (auto simp: insert_message_def queue_ids_def Let_def split: if_splits)
    then have ne: "?new \<noteq> []" by (metis insert_behind_set empty_iff empty_set insertI1)
    then have st': "st' = renumber_ids 0 ?new ?st"
      using ins Some a conf
      by (auto simp: insert_message_def queue_ids_def renumber_queue_def Let_def)
    have fresh: "mr_id m \<notin> pq_id ` set (qs_messages st)"
      using conf by (auto simp: insert_conflicts_def)
    have ids: "ids_distinct ?st" using ok fresh by (simp add: queue_ok_def ids_distinct_def)
    have mem: "set (queue_ids v ?st) = (if v = ?t then insert (mr_id m) (set ?old) else set (queue_ids v st))" for v
      using row by (auto simp: set_queue_ids in_queue_def simp del: row intro: rev_image_eqI [of ?r])
    have others: "others_distinct ?t ?st"
    proof (intro ballI impI)
      fix x y
      assume mem: "x \<in> set (qs_messages ?st)" "y \<in> set (qs_messages ?st)"
        and xy: "is_visible x \<and> is_visible y \<and> pq_target x = pq_target y \<and> pq_target x \<noteq> ?t \<and>
          pq_position x = pq_position y"
      have "x \<noteq> ?r" "y \<noteq> ?r" using xy row(2) by metis+
      with mem have "x \<in> set (qs_messages st)" "y \<in> set (qs_messages st)" by simp_all
      with xy ok show "pq_id x = pq_id y"
        unfolding queue_ok_def positions_distinct_def by blast
    qed
    have "mr_id m \<notin> set ?old" using fresh by (auto simp: set_queue_ids)
    then have d: "distinct ?new"
      using ok a by (simp add: queue_ok_def distinct_queue_ids insert_behind_distinct)
    have s: "set ?new = set (queue_ids ?t ?st)" using a mem [of ?t] by simp
    have "queue_ok st'"
      unfolding st' queue_ok_def using ids others d s by (simp only: renumber_keeps_ids renumber_distinct)
    moreover have "queue_ids ?t st' = ?new"
      unfolding st' by (rule renumber_order [OF ids others d s])
    moreover have "queue_ids u st' = queue_ids u st" if "u \<noteq> ?t"
    proof -
      have "visible_queue u st' = visible_queue u ?st"
        unfolding st' by (rule renumber_elsewhere [OF ids _ that]) (simp add: s)
      also have "\<dots> = visible_queue u st"
        unfolding visible_queue_def using row(2) that by simp
      finally show ?thesis by (simp add: queue_ids_def)
    qed
    ultimately show ?thesis using Some by simp
  qed
qed

lemma delete_order:
  assumes ok: "queue_ok st" and del: "delete_message mid now st = Inr (d, st')"
  shows "queue_ok st' \<and> queue_ids u st' = remove1 mid (queue_ids u st)"
proof -
  obtain row where row: "find_message mid st = Some row" "pq_state row \<noteq> Delivering"
    using del by (auto simp: delete_message_def split: option.splits if_splits)
  show ?thesis
  proof (cases "pq_state row = Deleted")
    case True
    then have "st' = st" using del row by (auto simp: delete_message_def Let_def)
    moreover have "mid \<notin> set (queue_ids u st)"
      using row True ok find_message_iff [of st mid]
      by (fastforce simp: queue_ok_def set_queue_ids in_queue_def is_visible_def)
    ultimately show ?thesis using ok by (simp add: remove1_idem)
  next
    case False
    let ?f = "erase_row now"
    have f: "pq_id (?f r) = pq_id r" "\<not> is_visible (?f r)" for r
      by (simp_all add: erase_row_def is_visible_def)
    have st': "st' = renumber_queue (pq_target row) None (update_message mid ?f st)"
      using del row False by (auto simp: delete_message_def Let_def)
    let ?st = "update_message mid ?f st"
    let ?ids = "queue_ids (pq_target row) ?st"
    have hid: "queue_ok ?st" "queue_ids v ?st = remove1 mid (queue_ids v st)" for v
      using hide_order [OF ok, where f = ?f] f by simp_all
    have st'': "st' = renumber_ids 0 ?ids ?st"
      by (simp add: st' renumber_queue_def queue_ids_def)
    have o: "ids_distinct ?st" "others_distinct (pq_target row) ?st" "distinct ?ids"
      using hid(1) others_distinctI unfolding queue_ok_def by (blast intro: distinct_queue_ids)+
    have "queue_ok st'"
      unfolding st'' queue_ok_def using o by (simp only: renumber_keeps_ids renumber_distinct)
    moreover have "queue_ids u st' = queue_ids u ?st"
    proof (cases "u = pq_target row")
      case True
      then show ?thesis unfolding st'' using renumber_order [OF o] by simp
    next
      case False
      then show ?thesis
        unfolding st'' using renumber_elsewhere [OF o(1), of ?ids "pq_target row" u 0]
        by (simp add: queue_ids_def)
    qed
    ultimately show ?thesis using hid(2) by simp
  qed
qed

text \<open>A row moved to the tail of another queue, or of its own, as retargeting does.\<close>

lemma tail_order:
  assumes ok: "queue_ok st" and row: "find_message mid st = Some row" "is_visible row"
    and f: "\<And>r. pq_id (f r) = pq_id r" "\<And>r. pq_target (f r) = t" "\<And>r. is_visible (f r)"
      "\<And>r. pq_position (f r) = p"
    and above: "\<forall>s \<in> set (qs_messages st). pq_target s = t \<longrightarrow> pq_position s < p"
  shows "queue_ok (update_message mid f st) \<and> queue_ids u (update_message mid f st) =
    remove1 mid (queue_ids u st) @ (if u = t then [mid] else [])"
proof -
  let ?st = "update_message mid f st"
  have ids: "ids_distinct st" "ids_distinct ?st"
    using ok f(1) by (auto simp: queue_ok_def ids_distinct_def comp_def if_distrib [of pq_id] cong: if_cong)
  have found: "row \<in> set (qs_messages st)" "pq_id row = mid"
    using row(1) find_message_iff [OF ids(1)] by auto
  have rows: "a \<in> set (qs_messages ?st) \<longleftrightarrow> a \<in> set (qs_messages st) \<and> pq_id a \<noteq> mid \<or> a = f row" for a
  proof -
    have "r \<in> set (qs_messages st) \<and> pq_id r = mid \<longleftrightarrow> r = row" for r
      using row(1) find_message_iff [OF ids(1), of mid r] by auto
    then show ?thesis using f(1) found unfolding store_fields set_map image_iff by metis
  qed
  have pos: "positions_distinct ?st"
    unfolding positions_distinct_def
  proof (intro ballI impI)
    fix a b
    assume ab: "a \<in> set (qs_messages ?st)" "b \<in> set (qs_messages ?st)"
      and same: "is_visible a \<and> is_visible b \<and> pq_target a = pq_target b \<and> pq_position a = pq_position b"
    consider "a = f row" "b = f row" | "a = f row" "b \<in> set (qs_messages st)"
      | "a \<in> set (qs_messages st)" "b = f row" | "a \<in> set (qs_messages st)" "b \<in> set (qs_messages st)"
      using ab rows by blast
    then show "pq_id a = pq_id b"
    proof cases
      case 4
      then show ?thesis
        using ok same unfolding queue_ok_def positions_distinct_def by blast
    qed (use above same f in auto)
  qed
  have vis: "a \<in> set (qs_messages ?st) \<and> in_queue u a \<longleftrightarrow>
      a \<in> set (qs_messages st) \<and> in_queue u a \<and> pq_id a \<noteq> mid \<or> a = f row \<and> u = t" for a
    using rows [of a] f(2,3) by (auto simp: in_queue_def)
  have "queue_ids u ?st = remove1 mid (queue_ids u st) @ (if u = t then [mid] else [])" (is "_ = ?new")
  proof (rule queue_ids_eqI [OF ids(2) pos])
    have d: "distinct (queue_ids u st)" by (rule distinct_queue_ids [OF ids(1)])
    then show "distinct ?new" by auto
    show "set ?new = set (queue_ids u ?st)"
    proof -
      have "set (queue_ids u ?st) = pq_id ` ({a \<in> set (qs_messages st). in_queue u a \<and> pq_id a \<noteq> mid} \<union>
          (if u = t then {f row} else {}))"
        unfolding set_queue_ids vis by (rule arg_cong [where f = "image pq_id"]) auto
      also have "\<dots> = set (queue_ids u st) - {mid} \<union> (if u = t then {mid} else {})"
        using f(1) found by (auto simp: set_queue_ids)
      finally show ?thesis using d by (simp add: set_remove1_eq)
    qed
    have at: "position_of ?st x = position_of st x" if x: "x \<noteq> mid" "x \<in> set (queue_ids u st)" for x
    proof -
      obtain r where r: "r \<in> set (qs_messages st)" "pq_id r = x" using x(2) by (auto simp: set_queue_ids)
      then have "r \<in> set (qs_messages ?st)" using x rows by auto
      then show ?thesis using r ids position_of_row by metis
    qed
    have new: "position_of ?st mid = p"
      using position_of_row [OF ids(2), of "f row"] rows f found by auto
    have "map (position_of ?st) (remove1 mid (queue_ids u st)) =
        map (position_of st) (filter (\<lambda>x. x \<noteq> mid) (queue_ids u st))"
      using at d by (auto simp: distinct_remove1_removeAll removeAll_filter_not_eq eq_commute)
    moreover have "sorted (map (position_of st) (filter (\<lambda>x. x \<noteq> mid) (queue_ids u st)))"
      by (rule sorted_filter [OF positions_sorted [OF ids(1)]])
    moreover have "position_of st x < p" if "u = t" "x \<in> set (queue_ids u st)" for x
      using that above position_of_row [OF ids(1)] by (auto simp: set_queue_ids in_queue_def)
    ultimately show "sorted (map (position_of ?st) ?new)"
      using new at d by (auto simp: sorted_append less_imp_le)
  qed
  with ids pos show ?thesis by (simp add: queue_ok_def)
qed

lemma retarget_order:
  assumes ok: "queue_ok st" and rt: "retarget_message mid target now st = Inr (r, st')"
  shows "queue_ok st' \<and> queue_ids u st' =
    remove1 mid (queue_ids u st) @ (if u = qt_session target then [mid] else [])"
proof -
  obtain row where row: "find_message mid st = Some row" "pq_state row = Stranded"
    using rt by (auto simp: retarget_message_def on_message_def immutable_state_def split: option.splits if_splits)
  let ?p = "next_position (filter (\<lambda>r. pq_target r = qt_session target) (qs_messages st))"
  let ?f = "retarget_row target ?p (provenance row now) now"
  have f: "pq_id (?f r) = pq_id r" "pq_target (?f r) = qt_session target" "is_visible (?f r)"
    "pq_position (?f r) = ?p" for r
    by (simp_all add: retarget_row_def is_visible_def)
  have st': "st' = update_message mid ?f st"
    using rt row by (auto simp: retarget_message_def on_message_def Let_def)
  have "\<forall>s \<in> set (qs_messages st). pq_target s = qt_session target \<longrightarrow> pq_position s < ?p"
    using next_position_above by auto
  with tail_order [OF ok row(1) _ f, of u] row(2) show ?thesis
    unfolding st' by (simp add: is_visible_def)
qed

subsection \<open>Operations that leave the order alone\<close>

lemma update_order:
  assumes "\<And>r. r \<in> set (qs_messages st) \<Longrightarrow> pq_id r = mid \<Longrightarrow> row_key (f r) = row_key r"
  shows "queue_ids u (update_message mid f st) = queue_ids u st"
    "queue_ok (update_message mid f st) = queue_ok st"
  using same_keysD(1) [OF update_same_keys] same_keys_ok [OF update_same_keys] assms by blast+

lemma attempts_order [simp]:
  "queue_ids u (st\<lparr>qs_attempts := xs\<rparr>) = queue_ids u st"
  "queue_ok (st\<lparr>qs_attempts := xs\<rparr>) = queue_ok st"
  "queue_ids u (update_attempt did g st) = queue_ids u st"
  "queue_ok (update_attempt did g st) = queue_ok st"
  "queue_ids u (close_open_deliveries mid err now st) = queue_ids u st"
  "queue_ok (close_open_deliveries mid err now st) = queue_ok st"
  by (simp_all add: queue_ids_def visible_queue_def queue_ok_def ids_distinct_def positions_distinct_def)

lemma row_keyI:
  "pq_id s = pq_id r \<Longrightarrow> pq_target s = pq_target r \<Longrightarrow> pq_position s = pq_position r \<Longrightarrow>
     is_visible s = is_visible r \<Longrightarrow> row_key s = row_key r"
  by (simp add: row_key_def)

lemma found_unique:
  "queue_ok st \<Longrightarrow> find_message mid st = Some row \<Longrightarrow> r \<in> set (qs_messages st) \<Longrightarrow> pq_id r = mid \<Longrightarrow> r = row"
  using find_message_iff [of st mid] unfolding queue_ok_def by (metis option.inject)

lemma pending_visible: "is_pending r \<Longrightarrow> is_visible r" "is_unfinished r \<Longrightarrow> is_visible r"
  by (auto simp: is_pending_def is_unfinished_def active_states_def pending_states_def is_visible_def)

lemma update_found_order:
  assumes ok: "queue_ok st" and row: "find_message mid st = Some row" and "is_visible row"
    and f: "pq_id (f row) = pq_id row" "pq_target (f row) = pq_target row"
      "pq_position (f row) = pq_position row" "is_visible (f row)"
  shows "queue_ok (update_message mid f st) \<and> queue_ids u (update_message mid f st) = queue_ids u st"
proof -
  have "row_key (f r) = row_key r" if "r \<in> set (qs_messages st)" "pq_id r = mid" for r
  proof -
    have "r = row" by (rule found_unique [OF ok row that])
    then show ?thesis using f \<open>is_visible row\<close> by (simp only: row_key_def)
  qed
  with update_order [of st mid f] ok show ?thesis by simp
qed

text \<open>An operation of the shape \<open>on_message\<close> that only touches columns outside the key.\<close>

lemma on_message_order:
  assumes ok: "queue_ok st" and run: "on_message mid permitted act st = Inr (r, st')"
    and vis: "\<And>row. permitted row \<Longrightarrow> is_visible row"
    and act: "\<And>row r st'. permitted row \<Longrightarrow> is_visible row \<Longrightarrow> act row = Inr (r, st') \<Longrightarrow> \<exists>f. st' = update_message mid f st \<and>
      pq_id (f row) = pq_id row \<and> pq_target (f row) = pq_target row \<and>
      pq_position (f row) = pq_position row \<and> is_visible (f row)"
  shows "queue_ok st' \<and> queue_ids u st' = queue_ids u st"
proof -
  obtain row where row: "find_message mid st = Some row" "permitted row" "act row = Inr (r, st')"
    using run by (auto simp: on_message_def immutable_state_def split: option.splits if_splits)
  from act [OF row(2) vis [OF row(2)] row(3)] obtain f where "st' = update_message mid f st"
    "pq_id (f row) = pq_id row" "pq_target (f row) = pq_target row"
    "pq_position (f row) = pq_position row" "is_visible (f row)" by blast
  with update_found_order [OF ok row(1) vis [OF row(2)], of f u] show ?thesis by simp
qed

lemma edit_order:
  assumes "queue_ok st" "edit_body mid n body now st = Inr (r, st')"
  shows "queue_ok st' \<and> queue_ids u st' = queue_ids u st"
  by (rule on_message_order [OF assms(1) assms(2) [unfolded edit_body_def]], erule pending_visible)
    (auto simp: Let_def is_visible_def split: if_splits intro!: exI)

lemma arm_order:
  assumes "queue_ok st" "set_armed mid armed now st = Inr (r, st')"
  shows "queue_ok st' \<and> queue_ids u st' = queue_ids u st"
  by (rule on_message_order [OF assms(1) assms(2) [unfolded set_armed_def]], erule pending_visible)
    (auto simp: Let_def is_visible_def intro!: exI)

lemma cancel_order:
  assumes "queue_ok st" "cancel_message mid kind now st = Inr (r, st')"
  shows "queue_ok st' \<and> queue_ids u st' = queue_ids u st"
  by (rule on_message_order [OF assms(1) assms(2) [unfolded cancel_message_def]])
    (auto simp: Let_def is_visible_def pending_visible [unfolded is_visible_def] intro!: exI)

lemma constrain_order:
  assumes "queue_ok st" "set_constraints mid c now st = Inr (r, st')"
  shows "queue_ok st' \<and> queue_ids u st' = queue_ids u st"
  by (rule on_message_order [OF assms(1) assms(2) [unfolded set_constraints_def]], erule pending_visible)
    (auto simp: Let_def is_visible_def intro!: exI)

lemma bind_order:
  "queue_ok (bind_run mid run st) = queue_ok st" "queue_ids u (bind_run mid run st) = queue_ids u st"
  unfolding bind_run_def by (rule update_order, simp add: row_key_def is_visible_def)+

abbreviation opened_row :: "seconds \<Rightarrow> prompt_row \<Rightarrow> prompt_row" where
  "opened_row now r \<equiv> r\<lparr>pq_state := Delivering, pq_updated_at := now\<rparr>"

lemma claim_opened:
  assumes "claim_for_delivery mid n key ini did now st = Inr (Claim_Opened d row, st')"
  shows "d = did" "find_message mid st = Some row" "is_pending row" "pq_revision row = n"
    "line_blocker row st = None" "\<not> attempt_conflicts (new_attempt did row key ini now) st"
    "text_given key \<Longrightarrow> find (\<lambda>a. qd_key a = key) (qs_attempts st) = None"
    "st' = (update_message mid (opened_row now) st)
       \<lparr>qs_attempts := qs_attempts st @ [new_attempt did row key ini now]\<rparr>"
proof -
  let ?st = "(update_message mid (opened_row now) st)
    \<lparr>qs_attempts := qs_attempts st @ [new_attempt did row key ini now]\<rparr>"
  have "d = did \<and> find_message mid st = Some row \<and> is_pending row \<and> pq_revision row = n \<and>
    line_blocker row st = None \<and> \<not> attempt_conflicts (new_attempt did row key ini now) st \<and>
    (text_given key \<longrightarrow> find (\<lambda>a. qd_key a = key) (qs_attempts st) = None) \<and> ?st = st'"
    using assms unfolding claim_for_delivery_def Let_def
    by (simp split: option.splits if_splits) (elim conjE; simp)+
  then show "d = did" "find_message mid st = Some row" "is_pending row" "pq_revision row = n"
    "line_blocker row st = None" "\<not> attempt_conflicts (new_attempt did row key ini now) st"
    "text_given key \<Longrightarrow> find (\<lambda>a. qd_key a = key) (qs_attempts st) = None" "st' = ?st"
    by simp_all
qed

lemma claim_duplicate:
  assumes "claim_for_delivery mid n key ini did now st = Inr (Duplicate_Claim a, st')"
  shows "st' = st" "text_given key" "find (\<lambda>a. qd_key a = key) (qs_attempts st) = Some a"
proof -
  have "st' = st \<and> text_given key \<and> find (\<lambda>a. qd_key a = key) (qs_attempts st) = Some a"
    using assms unfolding claim_for_delivery_def Let_def
    by (auto split: option.splits if_splits)
  then show "st' = st" "text_given key" "find (\<lambda>a. qd_key a = key) (qs_attempts st) = Some a"
    by simp_all
qed

lemma claim_order:
  assumes ok: "queue_ok st" and cl: "claim_for_delivery mid n key ini did now st = Inr (c, st')"
  shows "queue_ok st' \<and> queue_ids u st' = queue_ids u st"
proof (cases c)
  case (Duplicate_Claim a)
  with claim_duplicate(1) [OF cl [unfolded Duplicate_Claim]] ok show ?thesis by simp
next
  case (Claim_Opened d row)
  note op = claim_opened [OF cl [unfolded Claim_Opened]]
  from update_found_order [OF ok op(2) pending_visible(1) [OF op(3)], of "opened_row now" u]
  show ?thesis unfolding op(8) by (simp add: is_visible_def)
qed

lemma finalize_order:
  assumes ok: "queue_ok st" and vis: "\<And>r. find_message mid st = Some r \<Longrightarrow> is_visible r"
    and "ar_state x \<noteq> Deleted"
  shows "queue_ok (snd (finalize_delivery did mid x now st)) \<and>
    queue_ids u (snd (finalize_delivery did mid x now st)) = queue_ids u st"
proof -
  have "row_key (settle_message x now r) = row_key r"
    if "r \<in> set (qs_messages st)" "pq_id r = mid" for r
  proof -
    have "find_message mid st = Some r"
      using ok that find_message_iff by (simp add: queue_ok_def)
    from vis [OF this] \<open>ar_state x \<noteq> Deleted\<close> show ?thesis
      by (simp add: row_key_def settle_message_def is_visible_def)
  qed
  then have "row_key (settle_message x now r) = row_key r"
    if "r \<in> set (qs_messages (update_attempt did (settle_attempt x now) st))" "pq_id r = mid" for r
    using that by simp
  from update_order [of "update_attempt did (settle_attempt x now) st" mid "settle_message x now", OF this] ok
  show ?thesis by (simp add: finalize_delivery_def Let_def)
qed

lemma fail_order:
  assumes "queue_ok st"
  shows "queue_ok (snd (fail_interrupted mid err now st)) \<and>
    queue_ids u (snd (fail_interrupted mid err now st)) = queue_ids u st"
proof (cases "find_message mid st")
  case (Some row)
  then show ?thesis
    using assms update_found_order [OF assms Some, of "fail_message err now" u]
    by (auto simp: fail_interrupted_def Let_def fail_message_def is_visible_def)
qed (use assms in \<open>simp add: fail_interrupted_def\<close>)

lemma strand_row_order:
  assumes ok: "queue_ok st" and row: "find_message (pq_id row) st = Some r" "is_visible r"
  shows "queue_ok (strand_row reason now row st) \<and>
    queue_ids u (strand_row reason now row st) = queue_ids u st"
  using update_found_order [OF ok row, of "fail_message (''delivery interrupted: '' @ reason) now" u]
    update_found_order [OF ok row, of "\<lambda>r. r\<lparr>pq_state := Stranded, pq_stranded_reason := Some reason,
      pq_updated_at := now\<rparr>" u]
  by (simp add: strand_row_def Let_def fail_message_def is_visible_def)


lemma find_update_same:
  assumes "\<And>r. pq_id (f r) = pq_id r"
  shows "find_message m (update_message m f st) = map_option f (find_message m st)"
proof -
  have "find (\<lambda>r. pq_id r = m) (map (\<lambda>r. if pq_id r = m then f r else r) rs) =
      map_option f (find (\<lambda>r. pq_id r = m) rs)" for rs
    using assms by (induction rs) auto
  then show ?thesis by (simp add: find_message_def)
qed

lemma find_update_other:
  assumes "\<And>r. pq_id (f r) = pq_id r" "x \<noteq> m"
  shows "find_message x (update_message m f st) = find_message x st"
proof -
  have "find (\<lambda>r. pq_id r = x) (map (\<lambda>r. if pq_id r = m then f r else r) rs) =
      find (\<lambda>r. pq_id r = x) rs" for rs
    using assms by (induction rs) auto
  then show ?thesis by (simp add: find_message_def)
qed

lemma find_close [simp]: "find_message x (close_open_deliveries m err now st) = find_message x st"
  by (simp add: find_message_def)

abbreviation shows_message :: "queue_store \<Rightarrow> string \<Rightarrow> bool" where
  "shows_message st x \<equiv> \<exists>r. find_message x st = Some r \<and> is_visible r"

lemma strand_row_shows:
  assumes "shows_message st x"
  shows "shows_message (strand_row reason now row st) x"
proof (cases "x = pq_id row")
  case True
  with assms show ?thesis
    by (auto simp: strand_row_def Let_def fail_message_def is_visible_def find_update_same)
next
  case False
  with assms show ?thesis
    by (auto simp: strand_row_def Let_def fail_message_def find_update_other)
qed

lemma strand_rows_order:
  assumes "queue_ok st" and "\<forall>row \<in> set rows. shows_message st (pq_id row)"
  shows "queue_ok (fold (strand_row reason now) rows st) \<and>
    queue_ids u (fold (strand_row reason now) rows st) = queue_ids u st"
  using assms
proof (induction rows arbitrary: st)
  case Nil
  then show ?case by simp
next
  case (Cons row rows)
  then obtain r where r: "find_message (pq_id row) st = Some r" "is_visible r" by auto
  let ?st = "strand_row reason now row st"
  have "queue_ok ?st" "queue_ids u ?st = queue_ids u st"
    using strand_row_order [OF Cons.prems(1) r] by auto
  moreover have "\<forall>row \<in> set rows. shows_message ?st (pq_id row)"
    using Cons.prems(2) strand_row_shows by auto
  ultimately show ?case using Cons.IH [of ?st] by simp
qed

lemma active_found:
  assumes "queue_ok st" "row \<in> set (qs_messages st)" "is_unfinished row"
  shows "shows_message st (pq_id row)"
  using assms find_message_iff [of st "pq_id row" row] pending_visible(2)
  by (auto simp: queue_ok_def)

lemma strand_order:
  assumes "queue_ok st"
  shows "queue_ok (snd (strand_pending t reason now st)) \<and>
    queue_ids u (snd (strand_pending t reason now st)) = queue_ids u st"
  unfolding strand_pending_def Let_def snd_conv
  by (rule strand_rows_order [OF assms]) (use active_found [OF assms] in auto)

definition pruned_ids :: "int \<Rightarrow> seconds \<Rightarrow> queue_store \<Rightarrow> string list" where
  "pruned_ids days now st =
     map pq_id (filter (prunable (now - of_int (max 1 days) * 86400)) (qs_messages st))"

lemma prune_order:
  assumes ok: "queue_ok st"
  shows "queue_ok (prune_queue days now st) \<and> queue_ids u (prune_queue days now st) =
    filter (\<lambda>x. x \<notin> set (pruned_ids days now st)) (queue_ids u st)"
proof
  let ?keep = "\<lambda>r. pq_id r \<notin> set (pruned_ids days now st)"
  have rows: "qs_messages (prune_queue days now st) = filter ?keep (qs_messages st)"
    by (simp add: prune_queue_def pruned_ids_def Let_def)
  have "positions_distinct (prune_queue days now st)"
    unfolding positions_distinct_def rows
    using ok unfolding queue_ok_def positions_distinct_def by (meson filter_is_subset subsetD)
  then show "queue_ok (prune_queue days now st)"
    using ok distinct_map_filter by (auto simp: queue_ok_def ids_distinct_def rows)
  have "filter (\<lambda>r. pq_target r = u \<and> is_visible r) (filter ?keep (qs_messages st)) =
      filter ?keep (filter (\<lambda>r. pq_target r = u \<and> is_visible r) (qs_messages st))"
    by (simp add: conj_commute conj_left_commute)
  then have "queue_ids u (prune_queue days now st) = map pq_id (filter ?keep (visible_queue u st))"
    by (simp only: queue_ids_def visible_queue_def rows filter_sort)
  then show "queue_ids u (prune_queue days now st) =
      filter (\<lambda>x. x \<notin> set (pruned_ids days now st)) (queue_ids u st)"
    by (simp add: queue_ids_def filter_map comp_def)
qed

subsection \<open>Every operation against its effect on the lists\<close>

datatype queue_op =
    Op_Create message_request seconds
  | Op_Edit string int string seconds
  | Op_Arm string bool seconds
  | Op_Move string "string option" seconds
  | Op_Cancel string string seconds
  | Op_Delete string seconds
  | Op_Retarget string queue_target seconds
  | Op_Bind string string
  | Op_Constrain string "pydict option" seconds
  | Op_Claim string int "string option" string string seconds
  | Op_Finalize string string attempt_result seconds
  | Op_Fail string string seconds
  | Op_Strand string string seconds
  | Op_Prune int seconds

definition after_op :: "queue_error + 'a \<times> queue_store \<Rightarrow> queue_store \<Rightarrow> queue_store" where
  "after_op res st = (case res of Inl e \<Rightarrow> st | Inr (x, st') \<Rightarrow> st')"

fun run_op :: "queue_op \<Rightarrow> queue_store \<Rightarrow> queue_store" where
  "run_op (Op_Create m now) st = after_op (create_message m now st) st"
| "run_op (Op_Edit mid n body now) st = after_op (edit_body mid n body now st) st"
| "run_op (Op_Arm mid b now) st = after_op (set_armed mid b now st) st"
| "run_op (Op_Move mid after now) st = after_op (move_message mid after now st) st"
| "run_op (Op_Cancel mid kind now) st = after_op (cancel_message mid kind now st) st"
| "run_op (Op_Delete mid now) st = after_op (delete_message mid now st) st"
| "run_op (Op_Retarget mid t now) st = after_op (retarget_message mid t now st) st"
| "run_op (Op_Bind mid run) st = bind_run mid run st"
| "run_op (Op_Constrain mid c now) st = after_op (set_constraints mid c now st) st"
| "run_op (Op_Claim mid n key ini did now) st = after_op (claim_for_delivery mid n key ini did now st) st"
| "run_op (Op_Finalize did mid x now) st = snd (finalize_delivery did mid x now st)"
| "run_op (Op_Fail mid err now) st = snd (fail_interrupted mid err now st)"
| "run_op (Op_Strand t reason now) st = snd (strand_pending t reason now st)"
| "run_op (Op_Prune days now) st = prune_queue days now st"

fun queue_effect :: "queue_op \<Rightarrow> queue_store \<Rightarrow> string \<Rightarrow> string list \<Rightarrow> string list" where
  "queue_effect (Op_Create m now) st u q =
     (case create_message m now st of
        Inr (Created r, _) \<Rightarrow>
          if u \<noteq> mr_target m then q
          else (case mr_insert_after m of None \<Rightarrow> q @ [mr_id m] | Some a \<Rightarrow> insert_behind a (mr_id m) q)
      | _ \<Rightarrow> q)"
| "queue_effect (Op_Move mid after now) st u q =
     (case (move_message mid after now st, find_message mid st) of
        (Inr _, Some row) \<Rightarrow>
          if u \<noteq> pq_target row then q
          else (case after of None \<Rightarrow> mid # remove1 mid q | Some a \<Rightarrow> insert_behind a mid (remove1 mid q))
      | _ \<Rightarrow> q)"
| "queue_effect (Op_Delete mid now) st u q =
     (case delete_message mid now st of Inr _ \<Rightarrow> remove1 mid q | Inl _ \<Rightarrow> q)"
| "queue_effect (Op_Retarget mid t now) st u q =
     (case retarget_message mid t now st of
        Inr _ \<Rightarrow> remove1 mid q @ (if u = qt_session t then [mid] else []) | Inl _ \<Rightarrow> q)"
| "queue_effect (Op_Prune days now) st u q = filter (\<lambda>x. x \<notin> set (pruned_ids days now st)) q"
| "queue_effect _ st u q = q"

text \<open>A settlement must find its message still visible: \<^verbatim>\<open>finalize_delivery\<close> does not check it.\<close>

fun settles_visible :: "queue_op \<Rightarrow> queue_store \<Rightarrow> bool" where
  "settles_visible (Op_Finalize did mid x now) st \<longleftrightarrow>
     ar_state x \<noteq> Deleted \<and> (case find_message mid st of None \<Rightarrow> True | Some r \<Rightarrow> is_visible r)"
| "settles_visible _ st \<longleftrightarrow> True"

lemma run_op_order:
  assumes ok: "queue_ok st" and "settles_visible op st"
  shows "queue_ok (run_op op st) \<and> queue_ids u (run_op op st) = queue_effect op st u (queue_ids u st)"
proof (cases op)
  case (Op_Create m now)
  show ?thesis
  proof (cases "create_message m now st")
    case (Inr p)
    obtain c st' where p: "p = (c, st')" by force
    show ?thesis
    proof (cases c)
      case (Created r)
      with create_order [OF ok, of m now r st' u] Inr p Op_Create show ?thesis
        by (auto simp: after_op_def split: option.splits)
    next
      case (Deduplicated r)
      then have "st' = st"
        using Inr p by (auto simp: create_message_def insert_message_def Let_def
          split: option.splits if_splits sum.splits)
      with Deduplicated Inr p Op_Create ok show ?thesis by (simp add: after_op_def)
    qed
  qed (use ok Op_Create in \<open>simp add: after_op_def\<close>)
next
  case (Op_Move mid after now)
  then show ?thesis
    using ok move_order [OF ok, of mid after now]
    by (cases "move_message mid after now st") (fastforce simp: after_op_def split: option.splits)+
next
  case (Op_Delete mid now)
  then show ?thesis
    using ok delete_order [OF ok, of mid now]
    by (cases "delete_message mid now st") (auto simp: after_op_def)
next
  case (Op_Retarget mid t now)
  then show ?thesis
    using ok retarget_order [OF ok, of mid t now]
    by (cases "retarget_message mid t now st") (auto simp: after_op_def)
next
  case (Op_Edit mid n body now)
  then show ?thesis
    using ok edit_order [OF ok, of mid n body now]
    by (cases "edit_body mid n body now st") (auto simp: after_op_def)
next
  case (Op_Arm mid b now)
  then show ?thesis
    using ok arm_order [OF ok, of mid b now]
    by (cases "set_armed mid b now st") (auto simp: after_op_def)
next
  case (Op_Cancel mid kind now)
  then show ?thesis
    using ok cancel_order [OF ok, of mid kind now]
    by (cases "cancel_message mid kind now st") (auto simp: after_op_def)
next
  case (Op_Constrain mid c now)
  then show ?thesis
    using ok constrain_order [OF ok, of mid c now]
    by (cases "set_constraints mid c now st") (auto simp: after_op_def)
next
  case (Op_Claim mid n key ini did now)
  then show ?thesis
    using ok claim_order [OF ok, of mid n key ini did now]
    by (cases "claim_for_delivery mid n key ini did now st") (auto simp: after_op_def)
next
  case (Op_Finalize did mid x now)
  with assms(2) have "ar_state x \<noteq> Deleted" "\<And>r. find_message mid st = Some r \<Longrightarrow> is_visible r" by auto
  with finalize_order [OF ok, of mid x did now u] Op_Finalize show ?thesis by simp
qed (use ok bind_order fail_order [OF ok] strand_order [OF ok] prune_order [OF ok] in auto)

subsection \<open>The head of the line\<close>

definition active_line :: "string \<Rightarrow> queue_store \<Rightarrow> prompt_row list" where
  "active_line t st = filter is_unfinished (visible_queue t st)"

lemma active_line_sort:
  "active_line t st = sort_key pq_position (filter (\<lambda>r. pq_target r = t \<and> is_unfinished r) (qs_messages st))"
proof -
  have "filter is_unfinished (filter (\<lambda>r. pq_target r = t \<and> is_visible r) rs) =
      filter (\<lambda>r. pq_target r = t \<and> is_unfinished r) rs" for rs
    using pending_visible(2) by (induction rs) auto
  then show ?thesis by (simp add: active_line_def visible_queue_def filter_sort)
qed

lemma set_active_line: "set (active_line t st) = {r \<in> set (qs_messages st). pq_target r = t \<and> is_unfinished r}"
  by (simp add: active_line_sort)

lemma sorted_active_line: "sorted (map pq_position (active_line t st))"
  by (simp add: active_line_sort)

lemma sorted_head: "sorted (map f (x # xs)) \<Longrightarrow> y \<in> set (x # xs) \<Longrightarrow> f x \<le> f y"
  by auto

lemma no_blocker_iff:
  assumes ok: "queue_ok st" and row: "row \<in> set (qs_messages st)" "is_unfinished row"
  shows "line_blocker row st = None \<longleftrightarrow> (\<exists>rest. active_line (pq_target row) st = row # rest)"
proof -
  let ?ahead = "filter (\<lambda>r. pq_target r = pq_target row \<and> pq_position r < pq_position row \<and> is_unfinished r) (qs_messages st)"
  have "line_blocker row st = None \<longleftrightarrow> ?ahead = []"
    by (cases "sort_key pq_position ?ahead") (auto simp: line_blocker_def dest: arg_cong [where f = set])
  also have "\<dots> \<longleftrightarrow> (\<forall>r \<in> set (active_line (pq_target row) st). pq_position row \<le> pq_position r)"
    by (auto simp: filter_empty_conv active_line_sort not_less)
  also have "\<dots> \<longleftrightarrow> (\<exists>rest. active_line (pq_target row) st = row # rest)"
  proof
    assume low: "\<forall>r \<in> set (active_line (pq_target row) st). pq_position row \<le> pq_position r"
    have mem: "row \<in> set (active_line (pq_target row) st)" using row by (simp add: active_line_sort)
    then obtain h rest where line: "active_line (pq_target row) st = h # rest"
      by (cases "active_line (pq_target row) st") auto
    then have h: "h \<in> set (qs_messages st)" "pq_target h = pq_target row" "is_unfinished h"
      using set_active_line [of "pq_target row" st] by auto
    have "sorted (map pq_position (h # rest))"
      using line sorted_active_line by metis
    then have "pq_position h \<le> pq_position row" using mem line by (metis sorted_head)
    with low line have "pq_position h = pq_position row" by fastforce
    then have "pq_id h = pq_id row"
      using ok h row pending_visible(2) unfolding queue_ok_def positions_distinct_def by blast
    then have "h = row" using ok h(1) row(1) find_message_iff unfolding queue_ok_def by (metis option.inject)
    with line show "\<exists>rest. active_line (pq_target row) st = row # rest" by blast
  next
    assume "\<exists>rest. active_line (pq_target row) st = row # rest"
    then obtain rest where "active_line (pq_target row) st = row # rest" by blast
    then show "\<forall>r \<in> set (active_line (pq_target row) st). pq_position row \<le> pq_position r"
      using sorted_head [of pq_position row rest] by (metis sorted_active_line)
  qed
  finally show ?thesis .
qed

definition key_recorded :: "string option \<Rightarrow> queue_store \<Rightarrow> bool" where
  "key_recorded key st \<longleftrightarrow> key \<noteq> None \<and> key \<in> qd_key ` set (qs_attempts st)"

lemma claim_opens_at_head:
  assumes ok: "queue_ok st" and fresh: "did \<notin> qd_id ` set (qs_attempts st)"
  shows "(\<exists>row st'. claim_for_delivery mid n key ini did now st = Inr (Claim_Opened did row, st')) \<longleftrightarrow>
    (\<exists>t row rest. active_line t st = row # rest \<and> pq_id row = mid \<and> is_pending row \<and>
       pq_revision row = n) \<and> \<not> key_recorded key st"
    (is "?l \<longleftrightarrow> ?r")
proof
  have nodup: "\<not> attempt_conflicts (new_attempt did row key ini now) st \<longleftrightarrow> \<not> key_recorded key st" for row
    using fresh by (auto simp: attempt_conflicts_def new_attempt_def key_recorded_def)
  assume ?l
  then obtain row st' where "claim_for_delivery mid n key ini did now st = Inr (Claim_Opened did row, st')"
    by blast
  note op = claim_opened [OF this]
  have row: "row \<in> set (qs_messages st)" "pq_id row = mid"
    using op(2) find_message_iff ok unfolding queue_ok_def by blast+
  have "is_unfinished row" using op(3) by (simp add: is_unfinished_def is_pending_def active_states_def)
  then show ?r
    using no_blocker_iff [OF ok row(1)] op row nodup by blast
next
  assume ?r
  then obtain t row rest where line: "active_line t st = row # rest" and row: "pq_id row = mid" "is_pending row"
      "pq_revision row = n" and key: "\<not> key_recorded key st" by blast
  have mem: "row \<in> set (qs_messages st)" "pq_target row = t" "is_unfinished row"
    using line set_active_line [of t st] by auto
  have "find_message mid st = Some row"
    using ok mem row find_message_iff unfolding queue_ok_def by blast
  moreover have "line_blocker row st = None" using no_blocker_iff [OF ok mem(1,3)] line mem(2) by blast
  moreover have "text_given key \<Longrightarrow> find (\<lambda>a. qd_key a = key) (qs_attempts st) = None"
    using key by (force simp: find_None_iff key_recorded_def text_given_def image_iff)
  moreover have "\<not> attempt_conflicts (new_attempt did row key ini now) st"
    using fresh key by (auto simp: attempt_conflicts_def new_attempt_def key_recorded_def)
  ultimately show ?l
    using row by (simp add: claim_for_delivery_def Let_def)
qed

lemma find_renumber: "find_message x (renumber_ids i ids st) = map_option (place i ids) (find_message x st)"
proof -
  have "find (\<lambda>r. pq_id r = x) (map (place i ids) rs) = map_option (place i ids) (find (\<lambda>r. pq_id r = x) rs)" for rs
    by (induction rs) auto
  then show ?thesis by (simp add: find_message_def renumber_ids_place)
qed

lemma find_message_attempts [simp]: "find_message x (st\<lparr>qs_attempts := as\<rparr>) = find_message x st"
  by (simp add: find_message_def)

subsection \<open>A concrete queue\<close>

definition demo_request :: "string \<Rightarrow> message_request" where
  "demo_request mid = \<lparr>
     mr_id = mid, mr_target = ''s'', mr_target_run = None, mr_target_backend = Some ''claude'',
     mr_target_label = None, mr_project = None, mr_body = ''hi'', mr_armed = True,
     mr_sender_kind = ''user'', mr_sender_id = None, mr_sender_label = None,
     mr_origin_session = None, mr_correlation = None, mr_thread = None, mr_chain_depth = 0,
     mr_solicited_by = None, mr_origin = None, mr_payload = None, mr_constraints = None,
     mr_insert_after = None\<rparr>"

definition demo_queue :: queue_store where
  "demo_queue = run_op (Op_Create (demo_request ''b'') 2) (run_op (Op_Create (demo_request ''a'') 1) empty_queue)"

lemma empty_queue_ok: "queue_ok empty_queue"
  by (simp add: queue_ok_def ids_distinct_def positions_distinct_def empty_queue_def)

lemma demo_queue_ok: "queue_ok demo_queue"
  unfolding demo_queue_def by (intro conjunct1 [OF run_op_order] empty_queue_ok) simp_all

text \<open>C18.
  The claim a delivery starts with opens exactly when the message is the first unfinished one of its
  target's queue, still waiting, at the revision the caller saw, and no attempt has recorded the
  idempotency key. It then answers that row, and leaves the store as it was but for two things: the row is
  being delivered, and one pending attempt with the caller's key and the row's revision and target is
  recorded behind the others. The identifier of the attempt is a fresh \<^verbatim>\<open>uuid4\<close>.
\<close>

theorem claim_opens_exactly_at_the_head:
  assumes ok: "queue_ok st" and fresh: "did \<notin> qd_id ` set (qs_attempts st)"
  shows "claim_for_delivery mid n key ini did now st = Inr (Claim_Opened did row, st') \<longleftrightarrow>
    (\<exists>t rest. active_line t st = row # rest) \<and> pq_id row = mid \<and> is_pending row \<and> pq_revision row = n \<and>
    (key = None \<or> key \<notin> qd_key ` set (qs_attempts st)) \<and>
    st' = st\<lparr>
      qs_messages := map (\<lambda>r. if pq_id r = mid then r\<lparr>pq_state := Delivering, pq_updated_at := now\<rparr> else r)
        (qs_messages st),
      qs_attempts := qs_attempts st @ [\<lparr>
        qd_id = did, qd_message = mid, qd_key = key, qd_revision = n, qd_target = pq_target row,
        qd_target_run = pq_target_run row, qd_delivery_state = None, qd_reasons = None, qd_confirmed = False,
        qd_interjected = False, qd_initiator = ini, qd_submitted = None, qd_outcome = Attempt_Pending,
        qd_error = None, qd_bytes = None, qd_created_at = now, qd_completed_at = None\<rparr>]\<rparr>"
    (is "?claim row st' \<longleftrightarrow> ?head row \<and> pq_id row = mid \<and> is_pending row \<and> pq_revision row = n \<and> ?key \<and> st' = ?opened row")
proof -
  have key: "?key = (\<not> key_recorded key st)" by (auto simp: key_recorded_def)
  note opens = claim_opens_at_head [OF assms, of mid n key ini now]
  have head: "?head r \<and> pq_id r = mid \<and> is_pending r \<and> pq_revision r = n \<and> s = ?opened r" if "?claim r s" for r s
  proof -
    note op = claim_opened [OF that]
    have r: "r \<in> set (qs_messages st)" "pq_id r = mid" using op(2) find_message_iff ok unfolding queue_ok_def by blast+
    moreover have "is_unfinished r" using op(3) by (simp add: is_unfinished_def is_pending_def active_states_def)
    ultimately show ?thesis
      using no_blocker_iff [OF ok r(1)] op r by (auto simp: update_message_def new_attempt_def)
  qed
  show ?thesis
  proof
    assume c: "?claim row st'"
    then have "\<exists>row st'. ?claim row st'" by (intro exI)
    with opens have "\<not> key_recorded key st" by simp
    with key have "?key" by simp
    with head [OF c] show "?head row \<and> pq_id row = mid \<and> is_pending row \<and> pq_revision row = n \<and> ?key \<and> st' = ?opened row"
      by blast
  next
    assume r: "?head row \<and> pq_id row = mid \<and> is_pending row \<and> pq_revision row = n \<and> ?key \<and> st' = ?opened row"
    then have "(\<exists>t row rest. active_line t st = row # rest \<and> pq_id row = mid \<and> is_pending row \<and> pq_revision row = n)
      \<and> \<not> key_recorded key st" using key by auto
    then have "\<exists>row2 s2. ?claim row2 s2" using opens by simp
    then obtain row2 s2 where c: "?claim row2 s2" by (elim exE)
    note c2 = head [OF c]
    have mem: "x \<in> set (qs_messages st)" if "?head x" for x
    proof -
      from that obtain t rest where "active_line t st = x # rest" by blast
      then have "x \<in> set (active_line t st)" by simp
      then show ?thesis by (simp add: set_active_line)
    qed
    have found: "find_message mid st = Some x" if "?head x" "pq_id x = mid" for x
      using mem [OF that(1)] that(2) ok find_message_iff unfolding queue_ok_def by blast
    from c2 have "?head row2" "pq_id row2 = mid" "s2 = ?opened row2" by simp_all
    moreover from r have "?head row" "pq_id row = mid" "st' = ?opened row" by simp_all
    ultimately have "row2 = row" "s2 = st'" using found [of row] found [of row2] by simp_all
    with c show "?claim row st'" by simp
  qed
qed

lemma demo_line: "map pq_id (active_line ''s'' demo_queue) = [''a'', ''b'']"
  "map pq_revision (active_line ''s'' demo_queue) = [1, 1]"
  "map is_pending (active_line ''s'' demo_queue) = [True, True]"
  by code_simp+

theorem claim_opens_exactly_at_the_head_witness:
  "\<exists>row st'. claim_for_delivery ''a'' 1 (Some ''k'') ''user'' ''d'' 3 demo_queue = Inr (Claim_Opened ''d'' row, st')
     \<and> map qd_outcome (qs_attempts st') = [Attempt_Pending] \<and> map qd_key (qs_attempts st') = [Some ''k'']"
proof -
  have f: "''d'' \<notin> qd_id ` set (qs_attempts demo_queue)" by code_simp
  have none: "qs_attempts demo_queue = []" by code_simp
  obtain row rest where r: "active_line ''s'' demo_queue = row # rest" "pq_id row = ''a''" "pq_revision row = 1"
    "is_pending row"
    using demo_line by (cases "active_line ''s'' demo_queue") auto
  define st' where "st' = demo_queue\<lparr>
      qs_messages := map (\<lambda>r. if pq_id r = ''a'' then r\<lparr>pq_state := Delivering, pq_updated_at := 3\<rparr> else r)
        (qs_messages demo_queue),
      qs_attempts := qs_attempts demo_queue @ [\<lparr>
        qd_id = ''d'', qd_message = ''a'', qd_key = Some ''k'', qd_revision = 1, qd_target = pq_target row,
        qd_target_run = pq_target_run row, qd_delivery_state = None, qd_reasons = None, qd_confirmed = False,
        qd_interjected = False, qd_initiator = ''user'', qd_submitted = None, qd_outcome = Attempt_Pending,
        qd_error = None, qd_bytes = None, qd_created_at = 3, qd_completed_at = None\<rparr>]\<rparr>"
  have "claim_for_delivery ''a'' 1 (Some ''k'') ''user'' ''d'' 3 demo_queue = Inr (Claim_Opened ''d'' row, st')"
    unfolding claim_opens_exactly_at_the_head [OF demo_queue_ok f] st'_def using r none by auto
  moreover have "map qd_outcome (qs_attempts st') = [Attempt_Pending]" "map qd_key (qs_attempts st') = [Some ''k'']"
    by (simp_all add: st'_def none)
  ultimately show ?thesis by (intro exI [of _ row] exI [of _ st'] conjI)
qed



text \<open>
  The line is not held by a delivery under way. Whatever of a target's queue is being delivered, moving
  a waiting message to the front succeeds and puts it ahead of the delivery; its claim then opens, and no
  other message changes state, so two deliveries to one terminal are under way at once.
\<close>

theorem front_move_overtakes_delivery:
  assumes ok: "queue_ok st" and row: "find_message mid st = Some row" "is_pending row"
    and fresh: "did \<notin> qd_id ` set (qs_attempts st)"
  shows "\<exists>r1 st1 r2 st2. move_message mid None now st = Inr (r1, st1) \<and>
    claim_for_delivery mid (pq_revision row) None ini did now st1 = Inr (Claim_Opened did r2, st2) \<and>
    (\<forall>x. x \<noteq> mid \<longrightarrow> map_option pq_state (find_message x st2) = map_option pq_state (find_message x st))"
proof -
  let ?t = "pq_target row"
  define ids where "ids = mid # remove1 mid (queue_ids ?t st)"
  let ?f = "\<lambda>r. r\<lparr>pq_updated_at := now\<rparr>"
  obtain r1 st1 where mv: "move_message mid None now st = Inr (r1, st1)"
    and st1: "st1 = update_message mid ?f (renumber_ids 0 ids st)"
    using row by (simp add: move_message_def on_message_def renumber_queue_def Let_def queue_ids_def ids_def)
  have keep: "find_message x (renumber_ids 0 ids st) = map_option (place 0 ids) (find_message x st)" for x
    by (rule find_renumber)
  have found: "find_message mid st1 = Some (?f (place 0 ids row))"
    unfolding st1 using row(1) by (simp add: find_update_same keep)
  let ?row = "?f (place 0 ids row)"
  have ok1: "queue_ok st1" and front: "queue_ids ?t st1 = ids"
    using move_order [OF ok mv] row(1) by (auto simp: ids_def)
  then obtain h rest where vis: "visible_queue ?t st1 = h # rest" "pq_id h = mid"
    by (auto simp: queue_ids_def ids_def)
  have "h \<in> set (visible_queue ?t st1)" using vis(1) by simp
  then have "h \<in> set (qs_messages st1)" by (simp add: visible_queue_def)
  then have "find_message mid st1 = Some h"
    using vis(2) ok1 find_message_iff unfolding queue_ok_def by blast
  then have h: "h = ?row" using found by simp
  have pend: "is_pending h" "pq_revision h = pq_revision row"
    using row(2) by (simp_all add: h is_pending_def)
  then have "active_line ?t st1 = h # filter is_unfinished rest"
    using vis(1) by (simp add: active_line_def is_unfinished_def is_pending_def active_states_def)
  moreover have "did \<notin> qd_id ` set (qs_attempts st1)"
    using fresh by (simp add: st1 renumber_ids_place)
  ultimately obtain r2 st2 where cl:
      "claim_for_delivery mid (pq_revision row) None ini did now st1 = Inr (Claim_Opened did r2, st2)"
    using claim_opens_at_head [OF ok1, of did mid "pq_revision row" None ini now] pend vis(2)
    unfolding key_recorded_def by blast
  have "map_option pq_state (find_message x st2) = map_option pq_state (find_message x st)" if "x \<noteq> mid" for x
  proof -
    have "find_message x st2 = find_message x st1"
      unfolding claim_opened(8) [OF cl] using that
      by (simp add: find_message_attempts find_update_other)
    also have "\<dots> = map_option (place 0 ids) (find_message x st)"
      unfolding st1 using that keep by (simp add: find_update_other)
    finally show ?thesis by (simp add: option.map_comp comp_def)
  qed
  with mv cl show ?thesis by blast
qed

definition demo_delivery :: queue_store where
  "demo_delivery = run_op (Op_Claim ''a'' 1 None ''user'' ''d1'' 3) demo_queue"

theorem front_move_overtakes_delivery_witness:
  "\<exists>st. map_option pq_state (find_message ''a'' st) = Some Delivering \<and>
    map_option pq_state (find_message ''b'' st) = Some Delivering"
proof -
  have ok: "queue_ok demo_delivery"
    unfolding demo_delivery_def using run_op_order [OF demo_queue_ok, of "Op_Claim ''a'' 1 None ''user'' ''d1'' 3"]
    by simp
  have a: "map_option pq_state (find_message ''a'' demo_delivery) = Some Delivering" by code_simp
  have b: "map_option is_pending (find_message ''b'' demo_delivery) = Some True" by code_simp
  then obtain row where row: "find_message ''b'' demo_delivery = Some row" "is_pending row" by auto
  have d: "''d2'' \<notin> qd_id ` set (qs_attempts demo_delivery)" by code_simp
  obtain r1 st1 r2 st2 where
    mv: "claim_for_delivery ''b'' (pq_revision row) None ''user'' ''d2'' 4 st1 = Inr (Claim_Opened ''d2'' r2, st2)"
    and rest: "\<forall>x. x \<noteq> ''b'' \<longrightarrow> map_option pq_state (find_message x st2) = map_option pq_state (find_message x demo_delivery)"
    using front_move_overtakes_delivery [OF ok row d, of 4 "''user''"] by blast
  have "map_option pq_state (find_message ''b'' st2) = Some Delivering"
    unfolding claim_opened(8) [OF mv] using claim_opened(2) [OF mv] by (simp add: find_update_same)
  with a rest show ?thesis by (intro exI [of _ st2]) simp
qed

end
