(* ===== verification/Harness_Rules.thy ===== *)
theory Harness_Rules
  imports Composer_Input
begin

text \<open>
  The rules of \<^verbatim>\<open>harness.py\<close> that deliveries use, over its registry. The registry itself, a table of
  descriptors per command-line agent, is an argument: a function from backend names to the traits the
  rules read.
\<close>

record harness =
  hn_submission :: string
  hn_root_completion :: string
  hn_screen :: string
  hn_clear_keys :: string
  hn_newline :: string
  hn_leading_newline_submits :: bool
  hn_settle :: seconds
  hn_settle_per_kib :: seconds

type_synonym harness_table = "string \<Rightarrow> harness option"

text \<open>A backend is a string or \<^verbatim>\<open>None\<close>.\<close>

definition harness_of :: "harness_table \<Rightarrow> string option \<Rightarrow> harness option" where
  "harness_of hs backend = Option.bind backend hs"

definition delivers_prompts_through_pty :: "harness_table \<Rightarrow> string option \<Rightarrow> bool" where
  "delivers_prompts_through_pty hs backend \<longleftrightarrow>
     (case harness_of hs backend of None \<Rightarrow> False | Some h \<Rightarrow> hn_submission h = ''terminal_line'')"

definition composer_insertion_rules :: "harness_table \<Rightarrow> string option \<Rightarrow> string \<times> bool" where
  "composer_insertion_rules hs backend =
     (case harness_of hs backend of
        None \<Rightarrow> (DEFAULT_NEWLINE_KEYS, False)
      | Some h \<Rightarrow> (hn_newline h, hn_leading_newline_submits h))"

definition default_paste_submit_settle :: "seconds \<times> seconds" where
  "default_paste_submit_settle = (18 / 100, 8 / 100)"

definition max_paste_submit_settle_seconds :: seconds where
  "max_paste_submit_settle_seconds = 4"

definition paste_submit_settle_rules :: "harness_table \<Rightarrow> string option \<Rightarrow> seconds \<times> seconds" where
  "paste_submit_settle_rules hs backend =
     (case harness_of hs backend of
        None \<Rightarrow> default_paste_submit_settle
      | Some h \<Rightarrow> (hn_settle h, hn_settle_per_kib h))"

definition paste_submit_settle_seconds ::
  "harness_table \<Rightarrow> string option \<Rightarrow> int \<Rightarrow> seconds \<Rightarrow> seconds" where
  "paste_submit_settle_seconds hs backend byte_count floor_s =
     (let (base, per_kib) = paste_submit_settle_rules hs backend; start = max base floor_s
      in min max_paste_submit_settle_seconds (start + of_int byte_count / 1024 * per_kib))"

definition delivery_etiquette :: "harness \<Rightarrow> (string \<times> string) list" where
  "delivery_etiquette h =
     [(''submission'', hn_submission h), (''root_completion'', hn_root_completion h),
      (''screen'', hn_screen h)]"

text \<open>
  The settle before a submit is at least what the harness measured and what the caller asked for, up
  to the ceiling, and grows with the paste.
\<close>

lemma settle_bounds:
  assumes "0 \<le> byte_count" "0 \<le> snd (paste_submit_settle_rules hs backend)"
  shows "paste_submit_settle_seconds hs backend byte_count floor_s \<le> max_paste_submit_settle_seconds"
    "min max_paste_submit_settle_seconds (max (fst (paste_submit_settle_rules hs backend)) floor_s)
       \<le> paste_submit_settle_seconds hs backend byte_count floor_s"
proof -
  obtain base per where r: "paste_submit_settle_rules hs backend = (base, per)" by force
  then have "0 \<le> rat_of_int byte_count / 1024 * per" using assms by simp
  then have "max base floor_s \<le> max base floor_s + rat_of_int byte_count / 1024 * per" by linarith
  then show "min max_paste_submit_settle_seconds (max (fst (paste_submit_settle_rules hs backend)) floor_s)
      \<le> paste_submit_settle_seconds hs backend byte_count floor_s"
    unfolding paste_submit_settle_seconds_def r Let_def prod.case fst_conv by (rule min.mono [OF order_refl])
  show "paste_submit_settle_seconds hs backend byte_count floor_s \<le> max_paste_submit_settle_seconds"
    by (simp add: paste_submit_settle_seconds_def r)
qed

end
