(* ===== verification/Delivery_Readiness.thy ===== *)
theory Delivery_Readiness
  imports Harness_Rules
begin

text \<open>
  \<^verbatim>\<open>delivery_readiness.py\<close>: whether a prompt may be delivered into a session now. The tracker keeps what
  the bus said about each session's root turn and combines it, when asked, with what the terminal and
  the composer show. A session is the record of what the tracker reads of it; the classification of its
  screen (\<^verbatim>\<open>session_screen_explanation\<close>) and the registry of harnesses are arguments. One operation reads
  the clock once. Diagnostic fields of the answer that only repeat an input are left out.
\<close>

subsection \<open>What is read and remembered\<close>

definition READINESS_DEBOUNCE_SECONDS :: seconds where "READINESS_DEBOUNCE_SECONDS = 2"
definition TERMINAL_EVIDENCE_MAX_AGE_SECONDS :: seconds where "TERMINAL_EVIDENCE_MAX_AGE_SECONDS = 10"
definition LIFECYCLE_EVIDENCE_MAX_AGE_SECONDS :: seconds where "LIFECYCLE_EVIDENCE_MAX_AGE_SECONDS = 300"
definition DISPLAY_SCREEN_MAX_AGE_SECONDS :: seconds where "DISPLAY_SCREEN_MAX_AGE_SECONDS = 2"
definition AGENT_FIRST_PROMPT_SETTLE_SECONDS :: seconds where "AGENT_FIRST_PROMPT_SETTLE_SECONDS = 8"

text \<open>What the observer's catch-up concluded (\<^verbatim>\<open>catchup_settled\<close> with records).\<close>

record catchup =
  cu_input_revision :: int
  cu_screen :: "string option"

record readiness_session =
  dr_id :: string
  dr_run :: "string option"
  dr_state :: string
  dr_backend :: string
  dr_boundary :: string
  dr_transcript_stale :: bool
  dr_parser_events :: int
  dr_catchup :: "catchup option"
  dr_session_start_seen :: bool
  dr_input_revision :: int
  dr_last_input_ts :: seconds
  dr_terminal_mode :: "string option"
  dr_terminal_mode_at :: seconds
  dr_screen_mode :: "string option"
  dr_pending_submit :: "pending_submit option"
  dr_composer :: "composer_state option"
  dr_reading :: "composer_reading option"
  dr_screen_outcome :: string

datatype root_phase =
    Phase_Unknown | Phase_Ready | Phase_Working | Phase_Awaiting
  | Phase_Rate_Limited | Phase_Aborted | Phase_Ended

record lifecycle_note =
  ln_phase :: root_phase
  ln_reason :: string
  ln_event :: string
  ln_source :: string
  ln_scope :: string

record readiness_memory =
  rm_run :: "string option"
  rm_phase :: root_phase
  rm_reason :: string
  rm_source :: string
  rm_observed_at :: seconds
  rm_phase_since :: seconds
  rm_completion_revision :: "int option"
  rm_completion_screen :: "string option"
  rm_turn_start_revision :: "int option"
  rm_observation_proven :: bool
  rm_transition_count :: nat
  rm_subagent_events :: nat
  rm_transitions :: "lifecycle_note list"

definition fresh_memory :: "string option \<Rightarrow> seconds \<Rightarrow> readiness_memory" where
  "fresh_memory run now =
     \<lparr>rm_run = run, rm_phase = Phase_Unknown, rm_reason = ''no_root_lifecycle_evidence'',
      rm_source = ''none'', rm_observed_at = now, rm_phase_since = now, rm_completion_revision = None,
      rm_completion_screen = None, rm_turn_start_revision = None, rm_observation_proven = False,
      rm_transition_count = 0, rm_subagent_events = 0, rm_transitions = []\<rparr>"

record readiness_tracker =
  rt_sessions :: "(string \<times> readiness_memory) list"
  rt_screens :: "(string \<times> (string option \<times> seconds \<times> string)) list"
  rt_evaluations :: "(string \<times> nat) list"
  rt_reasons :: "(string \<times> nat) list"

definition new_tracker :: readiness_tracker where
  "new_tracker = \<lparr>rt_sessions = [], rt_screens = [], rt_evaluations = [], rt_reasons = []\<rparr>"

definition forget_session :: "string \<Rightarrow> readiness_tracker \<Rightarrow> readiness_tracker" where
  "forget_session sid t =
     t\<lparr>rt_sessions := AList.delete sid (rt_sessions t), rt_screens := AList.delete sid (rt_screens t)\<rparr>"

definition memory_of :: "readiness_session \<Rightarrow> seconds \<Rightarrow> readiness_tracker \<Rightarrow> readiness_memory" where
  "memory_of s now t =
     (case map_of (rt_sessions t) (dr_id s) of
        Some m \<Rightarrow> if rm_run m = dr_run s then m else fresh_memory (dr_run s) now
      | None \<Rightarrow> fresh_memory (dr_run s) now)"

definition put_memory :: "readiness_session \<Rightarrow> readiness_memory \<Rightarrow> readiness_tracker \<Rightarrow> readiness_tracker" where
  "put_memory s m t = t\<lparr>rt_sessions := AList.update (dr_id s) m (rt_sessions t)\<rparr>"

text \<open>\<^verbatim>\<open>deque(maxlen=32)\<close>.\<close>

definition add_note :: "lifecycle_note \<Rightarrow> readiness_memory \<Rightarrow> readiness_memory" where
  "add_note n m = m\<lparr>rm_transitions := take_last 32 (rm_transitions m @ [n])\<rparr>"

subsection \<open>The screen\<close>

definition pty_state ::
  "readiness_session \<Rightarrow> seconds \<Rightarrow> seconds \<Rightarrow> readiness_tracker \<Rightarrow> string \<times> readiness_tracker" where
  "pty_state s max_age now t =
     (let measured = (dr_screen_outcome s,
            t\<lparr>rt_screens := AList.update (dr_id s) (dr_run s, now, dr_screen_outcome s) (rt_screens t)\<rparr>)
      in case map_of (rt_screens t) (dr_id s) of
           Some (run, seen, state) \<Rightarrow>
             if 0 < max_age \<and> run = dr_run s \<and> now - seen \<le> max_age then (state, t) else measured
         | None \<Rightarrow> measured)"

definition screen_state_now :: "readiness_session \<Rightarrow> seconds \<Rightarrow> readiness_tracker \<Rightarrow> string \<times> readiness_tracker" where
  "screen_state_now s now t = pty_state s 0 now t"

definition given :: "string option \<Rightarrow> bool" where
  "given s \<longleftrightarrow> s \<noteq> None \<and> s \<noteq> Some ''''"

definition screen_evidence :: "readiness_session \<Rightarrow> seconds \<Rightarrow> string option \<times> string" where
  "screen_evidence s now =
     (if given (dr_screen_mode s) then (dr_screen_mode s, ''daemon'')
      else if given (dr_terminal_mode s) \<and> 0 < dr_terminal_mode_at s \<and>
        now - dr_terminal_mode_at s \<le> TERMINAL_EVIDENCE_MAX_AGE_SECONDS
      then (dr_terminal_mode s, ''browser'')
      else (None, ''none''))"

definition expected_screen :: "harness_table \<Rightarrow> readiness_session \<Rightarrow> readiness_memory \<Rightarrow> string option" where
  "expected_screen hs s m =
     (if given (rm_completion_screen m) then rm_completion_screen m
      else map_option hn_screen (hs (dr_backend s)))"

definition screen_check ::
  "harness_table \<Rightarrow> readiness_session \<Rightarrow> readiness_memory \<Rightarrow> string option \<Rightarrow> string \<Rightarrow> string \<Rightarrow> bool" where
  "screen_check hs s m mode source pty =
     (if pty = ''uninformative'' then False
      else if source \<noteq> ''daemon'' \<or> mode = None \<or> expected_screen hs s m = None then True
      else mode = expected_screen hs s m)"

definition observation_check :: "readiness_session \<Rightarrow> readiness_memory \<Rightarrow> bool option" where
  "observation_check s m =
     (if rm_source m = ''hook'' \<or> rm_source m = ''transcript'' then Some True
      else if rm_observation_proven m then Some True
      else if 0 < dr_parser_events s then Some True
      else None)"

subsection \<open>What the bus says\<close>

record mux_event =
  me_type :: string
  me_session :: "string option"
  me_source :: string
  me_payload :: pydict

definition payload_text :: "(pyval \<Rightarrow> string) \<Rightarrow> mux_event \<Rightarrow> string \<Rightarrow> string \<Rightarrow> string" where
  "payload_text repr ev k dflt =
     (let v = py_get (me_payload ev) k in if truthy v then py_to_str repr v else dflt)"

definition transition ::
  "(pyval \<Rightarrow> string) \<Rightarrow> mux_event \<Rightarrow> root_phase \<Rightarrow> string \<Rightarrow> (int \<times> string option) option \<Rightarrow> seconds
    \<Rightarrow> readiness_memory \<Rightarrow> readiness_memory" where
  "transition repr ev phase reason boundary now m =
     (let changed = rm_phase m \<noteq> phase \<or> rm_reason m \<noteq> reason;
          m1 = (if changed
                then m\<lparr>rm_phase_since := now, rm_transition_count := Suc (rm_transition_count m)\<rparr> else m);
          m2 = m1\<lparr>rm_phase := phase, rm_reason := reason, rm_source := me_source ev, rm_observed_at := now\<rparr>;
          m3 = (case boundary of
                  Some (revision, screen) \<Rightarrow>
                    m2\<lparr>rm_completion_revision := Some revision, rm_completion_screen := screen\<rparr>
                | None \<Rightarrow>
                    if phase \<noteq> Phase_Ready
                    then m2\<lparr>rm_completion_revision := None, rm_completion_screen := None\<rparr> else m2)
      in add_note \<lparr>ln_phase = phase, ln_reason = reason, ln_event = me_type ev, ln_source = me_source ev,
           ln_scope = payload_text repr ev ''scope'' ''root''\<rparr> m3)"

text \<open>What one root event makes of the memory; \<open>None\<close> for an event that says nothing about the turn.\<close>

definition root_event ::
  "(pyval \<Rightarrow> string) \<Rightarrow> mux_event \<Rightarrow> readiness_session \<Rightarrow> seconds \<Rightarrow> readiness_memory \<Rightarrow> readiness_memory" where
  "root_event repr ev s now m =
     (let ty = me_type ev;
          go = (\<lambda>phase reason. transition repr ev phase reason None now m)
      in if ty \<in> {''backend_demoted'', ''session_exited'', ''session_crashed''} then go Phase_Ended ty
         else if ty = ''turn_started'' then go Phase_Working ''root_turn_started''
         else if ty = ''tool_use'' then go Phase_Working ''root_tool_active''
         else if ty \<in> {''approval_detected'', ''approval_needed''} then
           go Phase_Awaiting
             (if payload_text repr ev ''kind'' ''approval'' \<in> {''input'', ''question'', ''elicitation''}
              then ''awaiting_user_input'' else ''approval_required'')
         else if ty = ''rate_limited'' then go Phase_Rate_Limited ''provider_rate_limit''
         else if ty = ''stalled'' then go Phase_Working ''root_turn_stalled''
         else if ty = ''turn_aborted'' then
           go Phase_Aborted (''root_turn_'' @ payload_text repr ev ''outcome'' ''aborted'')
         else if ty = ''turn_ended'' then
           (let outcome = payload_text repr ev ''outcome'' ''completed''
            in if outcome = ''completed'' then
                 transition repr ev Phase_Ready ''root_turn_completed''
                   (Some (dr_input_revision s, dr_screen_mode s)) now m
               else if outcome = ''rate_limited'' then go Phase_Rate_Limited ''provider_rate_limit''
               else go Phase_Aborted (''root_turn_'' @ outcome))
         else m)"

definition mark_turn_start :: "readiness_session \<Rightarrow> root_phase \<Rightarrow> readiness_memory \<Rightarrow> readiness_memory" where
  "mark_turn_start s before m =
     (if rm_phase m = Phase_Working
      then (if before \<noteq> Phase_Working then m\<lparr>rm_turn_start_revision := Some (dr_input_revision s)\<rparr> else m)
      else m\<lparr>rm_turn_start_revision := None\<rparr>)"

definition observe_event ::
  "(pyval \<Rightarrow> string) \<Rightarrow> mux_event \<Rightarrow> readiness_session option \<Rightarrow> seconds \<Rightarrow> readiness_tracker \<Rightarrow> readiness_tracker" where
  "observe_event repr ev session now t =
     (case session of
        None \<Rightarrow> t
      | Some s \<Rightarrow>
          if \<not> given (me_session ev) then t
          else
            let m = memory_of s now t;
                scope = payload_text repr ev ''scope'' ''root''
            in if scope = ''subagent'' \<or> me_type ev = ''subagent_activity'' then
                 put_memory s
                   (add_note \<lparr>ln_phase = rm_phase m, ln_reason = ''subagent_event_ignored_for_root_readiness'',
                      ln_event = me_type ev, ln_source = me_source ev, ln_scope = ''subagent''\<rparr>
                     (m\<lparr>rm_subagent_events := Suc (rm_subagent_events m)\<rparr>)) t
               else if me_type ev \<in> {''backend_detected'', ''session_spawned''} then
                 put_memory s (fresh_memory (dr_run s) now)
                   (t\<lparr>rt_sessions := AList.delete (the (me_session ev)) (rt_sessions t)\<rparr>)
               else put_memory s (mark_turn_start s (rm_phase m) (root_event repr ev s now m)) t)"

subsection \<open>Filling gaps in the evidence\<close>

definition adopt_catchup_settle :: "readiness_session \<Rightarrow> seconds \<Rightarrow> readiness_memory \<Rightarrow> readiness_memory" where
  "adopt_catchup_settle s now m =
     (if rm_phase m \<noteq> Phase_Unknown \<or> dr_state s \<noteq> ''idle'' then m
      else
        (case dr_catchup s of
           None \<Rightarrow> m
         | Some c \<Rightarrow>
             add_note \<lparr>ln_phase = Phase_Ready, ln_reason = ''root_turn_settled_after_catchup'',
                 ln_event = ''catchup_settled'', ln_source = ''transcript'', ln_scope = ''root''\<rparr>
               (m\<lparr>rm_phase := Phase_Ready, rm_reason := ''root_turn_settled_after_catchup'',
                  rm_source := ''transcript'', rm_observed_at := now, rm_phase_since := now,
                  rm_transition_count := Suc (rm_transition_count m), rm_observation_proven := True,
                  rm_completion_revision := Some (cu_input_revision c),
                  rm_completion_screen := cu_screen c\<rparr>)))"

definition adopt_first_prompt_ready ::
  "readiness_session \<Rightarrow> bool option \<Rightarrow> seconds \<Rightarrow> readiness_memory \<Rightarrow> readiness_memory" where
  "adopt_first_prompt_ready s screen_empty now m =
     (if rm_phase m \<noteq> Phase_Unknown \<or> dr_state s \<noteq> ''idle'' then m
      else if dr_input_revision s \<noteq> 0 \<and> screen_empty \<noteq> Some True then m
      else if \<not> dr_session_start_seen s then m
      else if now - rm_phase_since m < AGENT_FIRST_PROMPT_SETTLE_SECONDS then m
      else
        add_note \<lparr>ln_phase = Phase_Ready, ln_reason = ''agent_started_awaiting_first_prompt'',
            ln_event = ''session_start'', ln_source = ''hook'', ln_scope = ''root''\<rparr>
          (m\<lparr>rm_phase := Phase_Ready, rm_reason := ''agent_started_awaiting_first_prompt'',
             rm_source := ''hook'', rm_observed_at := now, rm_phase_since := now,
             rm_transition_count := Suc (rm_transition_count m), rm_observation_proven := True,
             rm_completion_revision := Some (dr_input_revision s),
             rm_completion_screen := dr_screen_mode s\<rparr>))"

subsection \<open>The verdict\<close>

datatype delivery_verdict = Verdict_Safe | Verdict_Blocked | Verdict_Unknown

record readiness_checks =
  ck_local_boundary :: bool
  ck_live_agent_run :: bool
  ck_stable_identity :: bool
  ck_root_prompt_ready :: bool
  ck_root_completion_observed :: bool
  ck_lifecycle_fresh :: bool
  ck_observation_supported :: "bool option"
  ck_operator_quiet :: bool
  ck_partial_input_absent :: "bool option"
  ck_screen_at_prompt :: bool
  ck_etiquette_defined :: bool
  ck_debounce_elapsed :: bool

record evaluation =
  ev_session :: string
  ev_run :: "string option"
  ev_state :: delivery_verdict
  ev_reasons :: "string list"
  ev_checks :: readiness_checks
  ev_interject :: delivery_verdict
  ev_interject_reasons :: "string list"
  ev_memory :: readiness_memory
  ev_lifecycle_age :: seconds
  ev_screen_mode :: "string option"
  ev_screen_source :: string
  ev_pty_state :: string
  ev_expected_screen :: "string option"
  ev_input_revision :: int
  ev_unsubmitted :: "string option"
  ev_composer_screen :: "composer_reading option"
  ev_estimate_pending :: bool
  ev_screen_position :: "int option"

text \<open>\<^verbatim>\<open>list(dict.fromkeys(xs))\<close>.\<close>

definition first_of_each :: "'a list \<Rightarrow> 'a list" where
  "first_of_each xs = rev (remdups (rev xs))"

abbreviation reason_if :: "bool \<Rightarrow> string \<Rightarrow> string list" where
  "reason_if b r \<equiv> (if b then [r] else [])"

definition revision_untouched :: "readiness_session \<Rightarrow> readiness_memory \<Rightarrow> bool" where
  "revision_untouched s m \<longleftrightarrow> rm_completion_revision m = Some (dr_input_revision s)"

definition estimate_pending :: "readiness_session \<Rightarrow> bool" where
  "estimate_pending s \<longleftrightarrow> (case dr_composer s of None \<Rightarrow> False | Some c \<Rightarrow> pending c)"

definition screen_empty_of :: "readiness_session \<Rightarrow> bool option" where
  "screen_empty_of s = screen_composer_empty (dr_reading s) (dr_composer s)"

definition partial_input_absent :: "readiness_session \<Rightarrow> readiness_memory \<Rightarrow> bool option" where
  "partial_input_absent s m =
     (case screen_empty_of s of
        Some b \<Rightarrow> Some b
      | None \<Rightarrow>
          if rm_completion_revision m = None then None
          else Some (revision_untouched s m \<and> \<not> estimate_pending s))"

definition composer_holds_draft :: "readiness_session \<Rightarrow> bool" where
  "composer_holds_draft s \<longleftrightarrow>
     screen_empty_of s = Some False \<or> screen_empty_of s = None \<and> estimate_pending s"

definition screen_relied :: "readiness_session \<Rightarrow> readiness_memory \<Rightarrow> bool" where
  "screen_relied s m \<longleftrightarrow>
     screen_empty_of s = Some True \<and> \<not> (revision_untouched s m \<and> \<not> estimate_pending s)"

definition root_ready :: "readiness_session \<Rightarrow> readiness_memory \<Rightarrow> bool" where
  "root_ready s m \<longleftrightarrow> dr_state s = ''idle'' \<and> rm_phase m = Phase_Ready"

definition operator_quiet :: "readiness_session \<Rightarrow> seconds \<Rightarrow> bool" where
  "operator_quiet s now \<longleftrightarrow> READINESS_DEBOUNCE_SECONDS \<le> now - dr_last_input_ts s"

definition checks_of ::
  "harness_table \<Rightarrow> readiness_session \<Rightarrow> readiness_memory \<Rightarrow> string \<Rightarrow> seconds \<Rightarrow> readiness_checks" where
  "checks_of hs s m pty now = \<lparr>
     ck_local_boundary = (dr_boundary s = ''local''),
     ck_live_agent_run = (given (dr_run s) \<and> hs (dr_backend s) \<noteq> None),
     ck_stable_identity = (given (rm_run m) \<and> rm_run m = dr_run s),
     ck_root_prompt_ready = root_ready s m,
     ck_root_completion_observed = (rm_phase m = Phase_Ready),
     ck_lifecycle_fresh = (root_ready s m \<or>
       max 0 (now - rm_observed_at m) \<le> LIFECYCLE_EVIDENCE_MAX_AGE_SECONDS),
     ck_observation_supported = observation_check s m,
     ck_operator_quiet = operator_quiet s now,
     ck_partial_input_absent = partial_input_absent s m,
     ck_screen_at_prompt = (let (mode, source) = screen_evidence s now in screen_check hs s m mode source pty),
     ck_etiquette_defined = (hs (dr_backend s) \<noteq> None),
     ck_debounce_elapsed = (READINESS_DEBOUNCE_SECONDS \<le> now - rm_phase_since m)\<rparr>"

definition all_positive :: "readiness_checks \<Rightarrow> bool" where
  "all_positive c \<longleftrightarrow>
     ck_local_boundary c \<and> ck_live_agent_run c \<and> ck_stable_identity c \<and> ck_root_prompt_ready c \<and>
     ck_root_completion_observed c \<and> ck_lifecycle_fresh c \<and> ck_observation_supported c = Some True \<and>
     ck_operator_quiet c \<and> ck_partial_input_absent c = Some True \<and> ck_screen_at_prompt c \<and>
     ck_etiquette_defined c \<and> ck_debounce_elapsed c"

definition hard_block_reasons ::
  "readiness_session \<Rightarrow> readiness_memory \<Rightarrow> readiness_checks \<Rightarrow> string list" where
  "hard_block_reasons s m c =
     reason_if (\<not> ck_local_boundary c)
       (if dr_boundary s = ''remote'' then ''remote_terminal_boundary'' else ''terminal_boundary_unknown'') @
     reason_if (\<not> ck_live_agent_run c) ''not_live_agent_run'' @
     reason_if (dr_state s \<in> {''working'', ''starting'', ''running''} \<or> rm_phase m = Phase_Working)
       ''root_agent_working'' @
     reason_if (dr_state s = ''awaiting'' \<or> rm_phase m = Phase_Awaiting) (rm_reason m) @
     reason_if (rm_phase m = Phase_Rate_Limited) ''provider_rate_limit'' @
     reason_if (rm_phase m = Phase_Aborted) (rm_reason m) @
     reason_if (dr_state s \<in> {''exited'', ''crashed''} \<or> rm_phase m = Phase_Ended) ''session_ended'' @
     reason_if (\<not> ck_screen_at_prompt c) ''screen_not_at_agent_prompt'' @
     (if dr_pending_submit s = None \<and> composer_holds_draft s then [''composer_holds_draft'']
      else reason_if (dr_pending_submit s = None \<and> ck_partial_input_absent c = Some False)
        ''terminal_input_after_completion'') @
     reason_if (\<not> ck_operator_quiet c) ''operator_recently_typed'' @
     reason_if (dr_pending_submit s \<noteq> None) ''unsubmitted_delivery_in_composer'' @
     reason_if (dr_transcript_stale s) ''transcript_stale''"

definition unknown_reasons ::
  "readiness_session \<Rightarrow> readiness_memory \<Rightarrow> readiness_checks \<Rightarrow> string list" where
  "unknown_reasons s m c =
     reason_if (rm_phase m = Phase_Unknown) ''no_root_lifecycle_evidence'' @
     reason_if (ck_observation_supported c = None) ''observation_capability_unknown'' @
     reason_if (ck_partial_input_absent c = None) ''completion_input_boundary_unknown'' @
     reason_if (\<not> ck_lifecycle_fresh c) ''lifecycle_evidence_stale'' @
     reason_if (root_ready s m \<and> \<not> ck_debounce_elapsed c) ''readiness_debounce_pending''"

definition judge ::
  "readiness_checks \<Rightarrow> string list \<Rightarrow> string list \<Rightarrow> delivery_verdict \<times> string list" where
  "judge c hard unknown =
     (if hard \<noteq> [] then (Verdict_Blocked, first_of_each hard)
      else if unknown \<noteq> [] then (Verdict_Unknown, first_of_each unknown)
      else if all_positive c then (Verdict_Safe, [''all_required_evidence_positive''])
      else (Verdict_Unknown, [''incomplete_readiness_evidence'']))"

definition interject_check ::
  "delivery_verdict \<Rightarrow> string list \<Rightarrow> readiness_checks \<Rightarrow> string \<Rightarrow> readiness_memory \<Rightarrow> int
    \<Rightarrow> delivery_verdict \<times> string list" where
  "interject_check verdict hard c pty m revision =
     (if verdict = Verdict_Safe then (Verdict_Safe, [])
      else
        let blockers =
              filter (\<lambda>r. r \<noteq> ''root_agent_working'') hard @
              reason_if (''root_agent_working'' \<notin> set hard) ''not_a_running_turn'' @
              reason_if (pty \<noteq> ''working'') ''screen_does_not_show_a_running_turn'' @
              reason_if (\<not> ck_stable_identity c) ''unstable_run_identity'' @
              reason_if (\<not> ck_lifecycle_fresh c) ''lifecycle_evidence_stale'' @
              reason_if (ck_observation_supported c \<noteq> Some True) ''observation_capability_unknown'' @
              reason_if (\<not> ck_etiquette_defined c) ''adapter_etiquette_undefined'' @
              reason_if (\<not> ck_local_boundary c) ''non_local_terminal_boundary'' @
              reason_if (\<not> ck_live_agent_run c) ''not_live_agent_run'' @
              (case rm_turn_start_revision m of
                 None \<Rightarrow> [''turn_start_input_boundary_unknown'']
               | Some r \<Rightarrow> reason_if (revision \<noteq> r) ''composer_touched_since_turn_start'')
        in if blockers \<noteq> [] then (Verdict_Blocked, first_of_each blockers) else (Verdict_Safe, []))"

definition adopt_evidence :: "readiness_session \<Rightarrow> seconds \<Rightarrow> readiness_memory \<Rightarrow> readiness_memory" where
  "adopt_evidence s now m =
     adopt_first_prompt_ready s (screen_empty_of s) now (adopt_catchup_settle s now m)"

definition verdict_name :: "delivery_verdict \<Rightarrow> string" where
  "verdict_name v = (case v of Verdict_Safe \<Rightarrow> ''safe'' | Verdict_Blocked \<Rightarrow> ''blocked'' | Verdict_Unknown \<Rightarrow> ''unknown'')"

definition count_one :: "string \<Rightarrow> (string \<times> nat) list \<Rightarrow> (string \<times> nat) list" where
  "count_one k c = AList.update k (Suc (case map_of c k of None \<Rightarrow> 0 | Some n \<Rightarrow> n)) c"

definition evaluate ::
  "harness_table \<Rightarrow> bool \<Rightarrow> seconds \<Rightarrow> bool \<Rightarrow> readiness_session \<Rightarrow> seconds \<Rightarrow> readiness_tracker
    \<Rightarrow> evaluation \<times> readiness_tracker" where
  "evaluate hs record_metrics cache_seconds adopt s now t =
     (let m0 = memory_of s now t;
          m = (if adopt then adopt_evidence s now m0 else m0);
          (pty, t1) = pty_state s (max 0 cache_seconds) now (put_memory s m t);
          c = checks_of hs s m pty now;
          hard = hard_block_reasons s m c;
          (verdict, reasons) = judge c hard (unknown_reasons s m c);
          (interject, interject_reasons) = interject_check verdict hard c pty m (dr_input_revision s);
          (mode, source) = screen_evidence s now;
          t2 = (if record_metrics
                then t1\<lparr>rt_evaluations := count_one (verdict_name verdict) (rt_evaluations t1),
                  rt_reasons := fold count_one reasons (rt_reasons t1)\<rparr>
                else t1)
      in (\<lparr>ev_session = dr_id s, ev_run = dr_run s, ev_state = verdict, ev_reasons = reasons, ev_checks = c,
            ev_interject = interject, ev_interject_reasons = interject_reasons, ev_memory = m,
            ev_lifecycle_age = max 0 (now - rm_observed_at m), ev_screen_mode = mode,
            ev_screen_source = source, ev_pty_state = pty, ev_expected_screen = expected_screen hs s m,
            ev_input_revision = dr_input_revision s,
            ev_unsubmitted = map_option ps_message_id (dr_pending_submit s),
            ev_composer_screen = dr_reading s, ev_estimate_pending = estimate_pending s,
            ev_screen_position =
              (if screen_relied s m then map_option rg_position (dr_reading s) else None)\<rparr>, t2))"

record readiness_metrics =
  mx_evaluations :: "(string \<times> nat) list"
  mx_reasons :: "(string \<times> nat) list"
  mx_tracked :: nat
  mx_unknown_duration :: seconds
  mx_transitions :: nat

definition metrics :: "seconds \<Rightarrow> readiness_tracker \<Rightarrow> readiness_metrics" where
  "metrics now t =
     (let ms = map snd (rt_sessions t)
      in \<lparr>mx_evaluations = rt_evaluations t, mx_reasons = rt_reasons t, mx_tracked = length ms,
          mx_unknown_duration = sum_list (map (\<lambda>m. max 0 (now - rm_phase_since m))
            (filter (\<lambda>m. rm_phase m = Phase_Unknown) ms)),
          mx_transitions = sum_list (map rm_transition_count ms)\<rparr>)"

subsection \<open>What the verdicts mean\<close>

lemma first_of_each_set [simp]: "set (first_of_each xs) = set xs" "first_of_each xs = [] \<longleftrightarrow> xs = []"
  by (simp_all add: first_of_each_def)

lemma memory_of_run [simp]: "rm_run (memory_of s now t) = dr_run s"
  by (simp add: memory_of_def fresh_memory_def split: option.split)

lemma add_note_fields [simp]:
  "rm_run (add_note n m) = rm_run m" "rm_phase (add_note n m) = rm_phase m"
  "rm_reason (add_note n m) = rm_reason m" "rm_source (add_note n m) = rm_source m"
  "rm_observed_at (add_note n m) = rm_observed_at m" "rm_phase_since (add_note n m) = rm_phase_since m"
  "rm_completion_revision (add_note n m) = rm_completion_revision m"
  "rm_completion_screen (add_note n m) = rm_completion_screen m"
  "rm_turn_start_revision (add_note n m) = rm_turn_start_revision m"
  "rm_observation_proven (add_note n m) = rm_observation_proven m"
  by (simp_all add: add_note_def)

lemma adopt_evidence_run [simp]: "rm_run (adopt_evidence s now m) = rm_run m"
  by (simp add: adopt_evidence_def adopt_first_prompt_ready_def adopt_catchup_settle_def split: option.split)

lemma adopt_fills_gaps: "rm_phase m \<noteq> Phase_Unknown \<Longrightarrow> adopt_evidence s now m = m"
  by (simp add: adopt_evidence_def adopt_first_prompt_ready_def adopt_catchup_settle_def)

lemma adopt_only_idle: "dr_state s \<noteq> ''idle'' \<Longrightarrow> adopt_evidence s now m = m"
  by (simp add: adopt_evidence_def adopt_first_prompt_ready_def adopt_catchup_settle_def)

text \<open>The memory an evaluation judges with, and the screen verdict it uses.\<close>

definition judged_memory :: "bool \<Rightarrow> readiness_session \<Rightarrow> seconds \<Rightarrow> readiness_tracker \<Rightarrow> readiness_memory" where
  "judged_memory adopt s now t =
     (if adopt then adopt_evidence s now (memory_of s now t) else memory_of s now t)"

definition judged_screen :: "seconds \<Rightarrow> readiness_session \<Rightarrow> seconds \<Rightarrow> readiness_tracker \<Rightarrow> string" where
  "judged_screen cache s now t = fst (pty_state s (max 0 cache) now t)"

lemma pty_state_put [simp]: "fst (pty_state s a now (put_memory s m t)) = fst (pty_state s a now t)"
  by (auto simp: pty_state_def put_memory_def Let_def split: option.split)

lemma evaluate_parts:
  fixes hs rec cache adopt s now t
  defines "e \<equiv> fst (evaluate hs rec cache adopt s now t)"
    and "m \<equiv> judged_memory adopt s now t" and "pty \<equiv> judged_screen cache s now t"
  defines "c \<equiv> checks_of hs s m pty now"
  defines "hard \<equiv> hard_block_reasons s m c"
  shows "ev_memory e = m" "ev_pty_state e = pty" "ev_checks e = c"
    "(ev_state e, ev_reasons e) = judge c hard (unknown_reasons s m c)"
    "(ev_interject e, ev_interject_reasons e) =
       interject_check (ev_state e) hard c pty m (dr_input_revision s)"
    "ev_input_revision e = dr_input_revision s"
    "ev_screen_position e = (if screen_relied s m then map_option rg_position (dr_reading s) else None)"
  unfolding assms evaluate_def judged_memory_def judged_screen_def
  by (simp_all add: Let_def split: prod.split) (metis fst_conv pty_state_put)+

lemma quiet_composer_iff:
  "\<not> composer_holds_draft s \<and> partial_input_absent s m \<noteq> Some False \<and> partial_input_absent s m \<noteq> None \<longleftrightarrow>
     screen_empty_of s = Some True \<or>
     screen_empty_of s = None \<and> revision_untouched s m \<and> \<not> estimate_pending s"
  by (auto simp: composer_holds_draft_def partial_input_absent_def revision_untouched_def
      split: option.splits)

lemma safe_iff:
  assumes c: "c = checks_of hs s m pty now"
  shows "fst (judge c (hard_block_reasons s m c) (unknown_reasons s m c)) = Verdict_Safe \<longleftrightarrow>
    dr_boundary s = ''local'' \<and> given (dr_run s) \<and> rm_run m = dr_run s \<and> hs (dr_backend s) \<noteq> None \<and>
    dr_state s = ''idle'' \<and> rm_phase m = Phase_Ready \<and> observation_check s m = Some True \<and>
    operator_quiet s now \<and> READINESS_DEBOUNCE_SECONDS \<le> now - rm_phase_since m \<and>
    ck_screen_at_prompt c \<and> dr_pending_submit s = None \<and> \<not> dr_transcript_stale s \<and>
    (screen_empty_of s = Some True \<or>
     screen_empty_of s = None \<and> revision_untouched s m \<and> \<not> estimate_pending s)"
    (is "?l \<longleftrightarrow> ?r")
proof
  assume ?l
  then have h: "hard_block_reasons s m c = []" and u: "unknown_reasons s m c = []" and p: "all_positive c"
    by (auto simp: judge_def split: if_splits)
  from h have "dr_pending_submit s = None" "\<not> dr_transcript_stale s" "\<not> composer_holds_draft s"
    by (auto simp: hard_block_reasons_def split: if_splits)
  moreover from p have "partial_input_absent s m = Some True" by (simp add: all_positive_def c checks_of_def)
  ultimately show ?r
    using p quiet_composer_iff [of s m]
    by (auto simp: all_positive_def c checks_of_def root_ready_def given_def)
next
  assume r: ?r
  then have q: "\<not> composer_holds_draft s" "partial_input_absent s m = Some True"
    using quiet_composer_iff [of s m] by (cases "partial_input_absent s m"; auto)+
  with r have "all_positive c"
    by (auto simp: all_positive_def c checks_of_def root_ready_def given_def)
  moreover have "hard_block_reasons s m c = []"
    using r q by (simp add: hard_block_reasons_def) (simp add: c checks_of_def)
  moreover have "unknown_reasons s m c = []"
    using r q by (simp add: unknown_reasons_def) (simp add: c checks_of_def root_ready_def)
  ultimately show ?l by (simp add: judge_def)
qed

lemma judge_reasons: "snd (judge c hard unknown) \<noteq> []"
  by (simp add: judge_def)


lemma hard_boundary:
  "\<not> ck_local_boundary c \<Longrightarrow> ''remote_terminal_boundary'' \<in> set (hard_block_reasons s m c) \<or>
     ''terminal_boundary_unknown'' \<in> set (hard_block_reasons s m c)"
  unfolding hard_block_reasons_def set_append by simp

lemma hard_no_agent: "\<not> ck_live_agent_run c \<Longrightarrow> ''not_live_agent_run'' \<in> set (hard_block_reasons s m c)"
  unfolding hard_block_reasons_def set_append by simp

lemma not_or_left: "(a \<noteq> b \<and> (a = b \<or> p)) = (a \<noteq> b \<and> p)"
  by blast

lemma narrow_conditions:
  "(w \<Longrightarrow> n) \<Longrightarrow> (w \<Longrightarrow> l) \<Longrightarrow> (w \<Longrightarrow> a) \<Longrightarrow> i = g \<Longrightarrow> b = b' \<Longrightarrow> a \<longrightarrow> e \<Longrightarrow>
     (n \<and> w \<and> p \<and> i \<and> f \<and> b \<and> e \<and> l \<and> a \<and> t) = (w \<and> p \<and> g \<and> f \<and> b' \<and> t)"
  by blast

lemma interject_iff:
  "fst (interject_check v hard c pty m revision) = Verdict_Safe \<longleftrightarrow>
     v = Verdict_Safe \<or>
     filter (\<lambda>r. r \<noteq> ''root_agent_working'') hard = [] \<and> ''root_agent_working'' \<in> set hard \<and> pty = ''working'' \<and>
     ck_stable_identity c \<and> ck_lifecycle_fresh c \<and> ck_observation_supported c = Some True \<and>
     ck_etiquette_defined c \<and> ck_local_boundary c \<and> ck_live_agent_run c \<and>
     rm_turn_start_revision m = Some revision"
  by (cases "v = Verdict_Safe"; cases "rm_turn_start_revision m")
    (simp_all add: interject_check_def Let_def del: filter_False)

text \<open>C28.
  When a prompt may be written into a turn that is already running, although the session is not judged
  safe: exactly when the only thing in the way is that the agent is working, the screen shows the running
  turn too, the evidence is fresh, trusted and of this run, and the composer has not been touched since
  the turn began.
\<close>

theorem interject_only_into_a_running_turn:
  "ev_state (fst (evaluate hs rec cache adopt s now t)) \<noteq> Verdict_Safe \<and>
   ev_interject (fst (evaluate hs rec cache adopt s now t)) = Verdict_Safe \<longleftrightarrow>
    (let m = judged_memory adopt s now t; pty = judged_screen cache s now t; c = checks_of hs s m pty now
     in set (hard_block_reasons s m c) = {''root_agent_working''} \<and> pty = ''working'' \<and>
        given (dr_run s) \<and> ck_lifecycle_fresh c \<and> observation_check s m = Some True \<and>
        rm_turn_start_revision m = Some (dr_input_revision s))"
proof -
  let ?e = "fst (evaluate hs rec cache adopt s now t)"
  let ?m = "judged_memory adopt s now t" and ?pty = "judged_screen cache s now t"
  let ?c = "checks_of hs s ?m ?pty now"
  let ?hard = "hard_block_reasons s ?m ?c"
  have run: "rm_run ?m = dr_run s" by (simp add: judged_memory_def)
  have inter: "ev_interject ?e = fst (interject_check (ev_state ?e) ?hard ?c ?pty ?m (dr_input_revision s))"
    using evaluate_parts(5) [of hs rec cache adopt s now t] by (metis fst_conv)
  have verdict: "ev_state ?e = fst (judge ?c ?hard (unknown_reasons s ?m ?c))"
    using evaluate_parts(4) [of hs rec cache adopt s now t] by (metis fst_conv)
  have blocked: "ev_state ?e \<noteq> Verdict_Safe" if "?hard \<noteq> []"
    using that by (simp add: verdict judge_def)
  have local: "ck_local_boundary ?c" "ck_live_agent_run ?c" if "set ?hard = {''root_agent_working''}"
    using that hard_boundary [of ?c s ?m] hard_no_agent [of ?c s ?m] by auto
  have ident: "ck_stable_identity ?c \<longleftrightarrow> given (dr_run s)" "ck_observation_supported ?c = observation_check s ?m"
    "ck_live_agent_run ?c \<longrightarrow> ck_etiquette_defined ?c"
    using run by (simp_all add: checks_of_def)
  have hard: "(filter (\<lambda>r. r \<noteq> ''root_agent_working'') ?hard = [] \<and> ''root_agent_working'' \<in> set ?hard) \<longleftrightarrow>
      set ?hard = {''root_agent_working''}"
    by (auto simp: filter_empty_conv)
  have "ev_state ?e \<noteq> Verdict_Safe \<and> ev_interject ?e = Verdict_Safe \<longleftrightarrow>
      ev_state ?e \<noteq> Verdict_Safe \<and> set ?hard = {''root_agent_working''} \<and> ?pty = ''working'' \<and>
      ck_stable_identity ?c \<and> ck_lifecycle_fresh ?c \<and> ck_observation_supported ?c = Some True \<and>
      ck_etiquette_defined ?c \<and> ck_local_boundary ?c \<and> ck_live_agent_run ?c \<and>
      rm_turn_start_revision ?m = Some (dr_input_revision s)"
    unfolding inter interject_iff hard [symmetric] not_or_left conj_assoc by (rule refl)
  also have "\<dots> \<longleftrightarrow> set ?hard = {''root_agent_working''} \<and> ?pty = ''working'' \<and> given (dr_run s) \<and>
      ck_lifecycle_fresh ?c \<and> observation_check s ?m = Some True \<and>
      rm_turn_start_revision ?m = Some (dr_input_revision s)"
  proof (rule narrow_conditions)
    assume w: "set ?hard = {''root_agent_working''}"
    then have "?hard \<noteq> []" by (metis empty_set insert_not_empty)
    then show "ev_state ?e \<noteq> Verdict_Safe" by (rule blocked)
    from w show "ck_local_boundary ?c" "ck_live_agent_run ?c" by (rule local)+
  next
    show "ck_stable_identity ?c = given (dr_run s)" by (rule ident)
    show "(ck_observation_supported ?c = Some True) = (observation_check s ?m = Some True)" by (simp only: ident)
    show "ck_live_agent_run ?c \<longrightarrow> ck_etiquette_defined ?c" by (rule ident)
  qed
  finally show ?thesis by (simp only: Let_def)
qed

subsection \<open>Watching and subagents\<close>

lemma known_memory:
  "map_of (rt_sessions t) (dr_id s) = Some m \<Longrightarrow> rm_run m = dr_run s \<Longrightarrow> memory_of s now t = m"
  by (simp add: memory_of_def)

lemma pty_state_memories [simp]: "rt_sessions (snd (pty_state s a now t)) = rt_sessions t"
  by (simp add: pty_state_def Let_def split: option.split)

lemma evaluate_memories:
  "rt_sessions (snd (evaluate hs rec cache adopt s now t)) =
     AList.update (dr_id s) (judged_memory adopt s now t) (rt_sessions t)"
  by (simp add: evaluate_def Let_def case_prod_beta judged_memory_def put_memory_def)

lemma fresh_screen: "fst (pty_state s 0 now t) = dr_screen_outcome s"
  by (simp add: pty_state_def Let_def split: option.split)

lemma evaluation_depends:
  assumes "judged_memory adopt s now t = judged_memory adopt s now t'"
  shows "fst (evaluate hs rec 0 adopt s now t) = fst (evaluate hs rec' 0 adopt s now t')"
  unfolding evaluate_def Let_def case_prod_beta judged_memory_def [symmetric] fresh_screen max.idem assms
  by (simp only: fst_conv)

subsection \<open>A concrete session\<close>

definition demo_harness :: harness_table where
  "demo_harness = (\<lambda>b. if b = ''claude'' then Some
     \<lparr>hn_submission = ''terminal_line'', hn_root_completion = ''hook'', hn_screen = ''alternate'',
      hn_clear_keys = [CHR 0x15], hn_newline = [CHR 0x1B, CHR 0x0D], hn_leading_newline_submits = False,
      hn_settle = 18 / 100, hn_settle_per_kib = 8 / 100\<rparr> else None)"

definition demo_ready_session :: readiness_session where
  "demo_ready_session = \<lparr>
     dr_id = ''s'', dr_run = Some ''r'', dr_state = ''idle'', dr_backend = ''claude'',
     dr_boundary = ''local'', dr_transcript_stale = False, dr_parser_events = 1, dr_catchup = None,
     dr_session_start_seen = True, dr_input_revision = 4, dr_last_input_ts = 10,
     dr_terminal_mode = None, dr_terminal_mode_at = 0, dr_screen_mode = Some ''alternate'',
     dr_pending_submit = None, dr_composer = Some new_composer, dr_reading = None,
     dr_screen_outcome = ''idle''\<rparr>"

definition demo_turn_ended :: mux_event where
  "demo_turn_ended = \<lparr>me_type = ''turn_ended'', me_session = Some ''s'', me_source = ''hook'', me_payload = []\<rparr>"

definition demo_readiness :: readiness_tracker where
  "demo_readiness = observe_event (\<lambda>_. '''') demo_turn_ended (Some demo_ready_session) 15 new_tracker"

lemma demo_known:
  "\<exists>m. map_of (rt_sessions demo_readiness) (dr_id demo_ready_session) = Some m \<and> rm_run m = dr_run demo_ready_session"
proof -
  have "map_option rm_run (map_of (rt_sessions demo_readiness) (dr_id demo_ready_session)) =
      Some (dr_run demo_ready_session)" by code_simp
  then show ?thesis by auto
qed

lemma demo_verdict: "ev_state (fst (evaluate demo_harness True 0 True demo_ready_session 20 demo_readiness)) = Verdict_Safe"
  by code_simp

text \<open>A watcher evaluates on a timer, never adopts, and may read the screen cache.\<close>

definition watch ::
  "harness_table \<Rightarrow> readiness_tracker \<Rightarrow> seconds \<times> readiness_session \<times> seconds \<Rightarrow> readiness_tracker" where
  "watch hs t = (\<lambda>(cache, s, now). snd (evaluate hs False cache False s now t))"

lemma watch_keeps_memory:
  assumes "map_of (rt_sessions t) sid = Some m" and "dr_id s = sid \<Longrightarrow> dr_run s = rm_run m"
  shows "map_of (rt_sessions (watch hs t (cache, s, now))) sid = Some m"
proof (cases "dr_id s = sid")
  case True
  with assms have "memory_of s now t = m" by (intro known_memory) auto
  with True show ?thesis by (simp add: watch_def evaluate_memories judged_memory_def)
next
  case False
  with assms(1) show ?thesis by (simp add: watch_def evaluate_memories)
qed

lemma watches_keep_memory:
  assumes "map_of (rt_sessions t) sid = Some m"
    and "\<forall>(cache, s, now) \<in> set ws. dr_id s = sid \<longrightarrow> dr_run s = rm_run m"
  shows "map_of (rt_sessions (foldl (watch hs) t ws)) sid = Some m"
  using assms
proof (induction ws arbitrary: t)
  case Nil
  then show ?case by simp
next
  case (Cons w ws)
  obtain cache s now where w: "w = (cache, s, now)" by (metis prod_cases3)
  have "map_of (rt_sessions (watch hs t w)) sid = Some m"
    unfolding w by (rule watch_keeps_memory) (use Cons.prems w in auto)
  with Cons show ?case by simp
qed

text \<open>C39.
  Watching is passive. However often a surface evaluates readiness on its timer without adopting, whatever
  sessions it reads and whatever it takes from the screen cache, the next judgement a delivery is made on
  is the one it would have been, for a session the tracker already knows in its present run.
\<close>

theorem watching_does_not_change_the_verdict:
  assumes "map_of (rt_sessions t) (dr_id s) = Some m" and "rm_run m = dr_run s"
    and "\<forall>(cache, w, tick) \<in> set ws. dr_id w = dr_id s \<longrightarrow> dr_run w = dr_run s"
  shows "fst (evaluate hs rec 0 adopt s now (foldl (watch hs) t ws)) = fst (evaluate hs rec 0 adopt s now t)"
proof (rule evaluation_depends)
  have "map_of (rt_sessions (foldl (watch hs) t ws)) (dr_id s) = Some m"
    by (rule watches_keep_memory [OF assms(1)]) (use assms(2,3) in auto)
  with assms(1,2) show "judged_memory adopt s now (foldl (watch hs) t ws) = judged_memory adopt s now t"
    by (simp add: judged_memory_def known_memory)
qed

theorem watching_does_not_change_the_verdict_witness:
  "ev_state (fst (evaluate demo_harness True 0 True demo_ready_session 20
     (foldl (watch demo_harness) demo_readiness [(2, demo_ready_session, 16), (2, demo_ready_session, 17)]))) = Verdict_Safe"
proof -
  obtain m where m: "map_of (rt_sessions demo_readiness) (dr_id demo_ready_session) = Some m"
    "rm_run m = dr_run demo_ready_session" using demo_known by blast
  have "fst (evaluate demo_harness True 0 True demo_ready_session 20
      (foldl (watch demo_harness) demo_readiness [(2, demo_ready_session, 16), (2, demo_ready_session, 17)])) =
      fst (evaluate demo_harness True 0 True demo_ready_session 20 demo_readiness)"
    by (rule watching_does_not_change_the_verdict [OF m]) simp
  then show ?thesis using demo_verdict by simp
qed

subsection \<open>Subagents\<close>

text \<open>Two memories that differ only in their notes and counters.\<close>

definition same_evidence :: "readiness_memory \<Rightarrow> readiness_memory \<Rightarrow> bool" where
  "same_evidence m m' \<longleftrightarrow>
     rm_run m' = rm_run m \<and> rm_phase m' = rm_phase m \<and> rm_reason m' = rm_reason m \<and>
     rm_source m' = rm_source m \<and> rm_observed_at m' = rm_observed_at m \<and>
     rm_phase_since m' = rm_phase_since m \<and> rm_completion_revision m' = rm_completion_revision m \<and>
     rm_completion_screen m' = rm_completion_screen m \<and>
     rm_turn_start_revision m' = rm_turn_start_revision m \<and>
     rm_observation_proven m' = rm_observation_proven m"

lemma same_evidence_adopt:
  assumes "same_evidence m m'"
  shows "same_evidence (adopt_evidence s now m) (adopt_evidence s now m')"
proof -
  have catchup: "same_evidence (adopt_catchup_settle s now m) (adopt_catchup_settle s now m')"
  proof (cases "rm_phase m \<noteq> Phase_Unknown \<or> dr_state s \<noteq> ''idle''")
    case True
    with assms show ?thesis by (auto simp: adopt_catchup_settle_def same_evidence_def)
  next
    case False
    with assms show ?thesis
      by (cases "dr_catchup s") (simp_all add: adopt_catchup_settle_def same_evidence_def)
  qed
  have "same_evidence (adopt_first_prompt_ready s b now n) (adopt_first_prompt_ready s b now n')"
    if n: "same_evidence n n'" for b n n'
  proof -
    have "rm_phase n' = rm_phase n" "rm_phase_since n' = rm_phase_since n"
      using n by (simp_all add: same_evidence_def)
    then have "adopt_first_prompt_ready s b now n = n \<and> adopt_first_prompt_ready s b now n' = n' \<or>
        same_evidence (adopt_first_prompt_ready s b now n) (adopt_first_prompt_ready s b now n')"
      using n by (simp add: adopt_first_prompt_ready_def same_evidence_def)
    then show ?thesis using n by auto
  qed
  from this [OF catchup] show ?thesis by (simp add: adopt_evidence_def)
qed

lemma same_evidence_judged:
  assumes "same_evidence m m'"
  shows "checks_of hs s m' pty now = checks_of hs s m pty now"
    "hard_block_reasons s m' c = hard_block_reasons s m c"
    "unknown_reasons s m' c = unknown_reasons s m c"
    "interject_check v hard c pty m' r = interject_check v hard c pty m r"
    "screen_relied s m' = screen_relied s m"
proof -
  note fields = assms [unfolded same_evidence_def]
  have parts: "root_ready s m' = root_ready s m" "observation_check s m' = observation_check s m"
    "revision_untouched s m' = revision_untouched s m" "expected_screen hs s m' = expected_screen hs s m"
    using fields
    by (simp_all add: root_ready_def observation_check_def revision_untouched_def expected_screen_def)
  have more: "partial_input_absent s m' = partial_input_absent s m"
    "screen_check hs s m' mode source pty = screen_check hs s m mode source pty" for mode source
    unfolding partial_input_absent_def screen_check_def parts using fields
    by (cases "rm_completion_revision m"; simp)+
  show "checks_of hs s m' pty now = checks_of hs s m pty now"
    using fields by (simp add: checks_of_def parts more)
  show "hard_block_reasons s m' c = hard_block_reasons s m c"
    "unknown_reasons s m' c = unknown_reasons s m c"
    "screen_relied s m' = screen_relied s m"
    using fields by (simp_all only: hard_block_reasons_def unknown_reasons_def screen_relied_def parts)
  show "interject_check v hard c pty m' r = interject_check v hard c pty m r"
    using fields by (simp only: interject_check_def)
qed

lemma same_evidence_verdict:
  fixes hs rec adopt s now t t'
  assumes "same_evidence (memory_of s now t) (memory_of s now t')"
  defines "e \<equiv> fst (evaluate hs rec 0 adopt s now t)" and "e' \<equiv> fst (evaluate hs rec 0 adopt s now t')"
  shows "ev_state e' = ev_state e \<and> ev_reasons e' = ev_reasons e \<and> ev_interject e' = ev_interject e \<and>
    ev_interject_reasons e' = ev_interject_reasons e \<and> ev_screen_position e' = ev_screen_position e"
proof -
  have same: "same_evidence (judged_memory adopt s now t) (judged_memory adopt s now t')"
    using assms(1) by (simp add: judged_memory_def same_evidence_adopt)
  have pty: "judged_screen 0 s now t' = judged_screen 0 s now t"
    by (simp add: judged_screen_def fresh_screen)
  note eq = same_evidence_judged [OF same]
  have v: "(ev_state e', ev_reasons e') = (ev_state e, ev_reasons e)"
    using evaluate_parts(4) [of hs rec 0 adopt s now t] evaluate_parts(4) [of hs rec 0 adopt s now t']
    unfolding e_def e'_def eq pty by simp
  moreover have "(ev_interject e', ev_interject_reasons e') = (ev_interject e, ev_interject_reasons e)"
    using evaluate_parts(5) [of hs rec 0 adopt s now t] evaluate_parts(5) [of hs rec 0 adopt s now t'] v
    unfolding e_def e'_def eq pty by simp
  moreover have "ev_screen_position e' = ev_screen_position e"
    unfolding e_def e'_def evaluate_parts(7) eq by simp
  ultimately show ?thesis by simp
qed

text \<open>C40.
  What subagents do never moves the readiness of the session they work in: an event scoped to a subagent,
  whatever its type, leaves the verdict, its reasons and the interject verdict as they were, for a
  session the tracker already knows in its present run.
\<close>

theorem subagent_events_do_not_matter:
  assumes "map_of (rt_sessions t) (dr_id s) = Some m" and "rm_run m = dr_run s" and "dr_run s' = dr_run s"
    and "dr_id s' = dr_id s"
    and "payload_text repr ev ''scope'' ''root'' = ''subagent''"
  shows "let e = fst (evaluate hs rec 0 adopt s now t);
             e' = fst (evaluate hs rec 0 adopt s now (observe_event repr ev (Some s') tick t))
         in ev_state e' = ev_state e \<and> ev_reasons e' = ev_reasons e \<and> ev_interject e' = ev_interject e"
proof -
  let ?t = "observe_event repr ev (Some s') tick t"
  have "same_evidence (memory_of s now t) (memory_of s now ?t)"
  proof (cases "given (me_session ev)")
    case True
    have "memory_of s' tick t = m" using assms by (simp add: known_memory)
    with True assms have "map_of (rt_sessions ?t) (dr_id s) = Some
        (add_note \<lparr>ln_phase = rm_phase m, ln_reason = ''subagent_event_ignored_for_root_readiness'',
            ln_event = me_type ev, ln_source = me_source ev, ln_scope = ''subagent''\<rparr>
          (m\<lparr>rm_subagent_events := Suc (rm_subagent_events m)\<rparr>))"
      by (simp add: observe_event_def put_memory_def Let_def)
    then show ?thesis
      using assms(1,2) by (simp add: memory_of_def same_evidence_def)
  next
    case False
    then show ?thesis by (simp add: observe_event_def same_evidence_def)
  qed
  from same_evidence_verdict [OF this, of hs rec adopt] show ?thesis by (simp add: Let_def)
qed

definition demo_subagent :: mux_event where
  "demo_subagent = \<lparr>me_type = ''turn_started'', me_session = Some ''s'', me_source = ''hook'',
     me_payload = [(''scope'', PStr ''subagent'')]\<rparr>"

theorem subagent_events_do_not_matter_witness:
  "ev_state (fst (evaluate demo_harness True 0 True demo_ready_session 20
     (observe_event (\<lambda>_. '''') demo_subagent (Some demo_ready_session) 18 demo_readiness))) = Verdict_Safe"
proof -
  obtain m where m: "map_of (rt_sessions demo_readiness) (dr_id demo_ready_session) = Some m"
    "rm_run m = dr_run demo_ready_session" using demo_known by blast
  have "payload_text (\<lambda>_. '''') demo_subagent ''scope'' ''root'' = ''subagent''" by code_simp
  from subagent_events_do_not_matter [OF m refl refl this, of demo_harness True True 20 18] demo_verdict
  show ?thesis by (simp add: Let_def)
qed

end
