(* ===== verification/Prompt_Queue.thy ===== *)
theory Prompt_Queue
  imports Queue_Order Delivery_Readiness Terminal_Core
begin

text \<open>
  \<^verbatim>\<open>PromptQueueService\<close> of \<^verbatim>\<open>prompt_queue.py\<close>: what the queue's clients call, over the store and the
  readiness tracker. Requests that are one store operation are functions. A send waits many times, so it
  is a machine: one step is the code between two awaits, and what the rest of the daemon does meanwhile
  is whatever the next step finds in the store, the tracker and its environment. Times are exact
  rationals: \<^verbatim>\<open>nan\<close> and infinities are not among them.
\<close>

subsection \<open>Constants\<close>

definition delivery_judgement_attempts :: nat where "delivery_judgement_attempts = 3"
definition max_schedule_horizon_seconds :: seconds where "max_schedule_horizon_seconds = 30 * 86400"
definition submit_sequence :: string where "submit_sequence = [CHR 0x0D]"
definition submit_delay_seconds :: seconds where "submit_delay_seconds = 18 / 100"
definition submit_confirm_seconds :: seconds where "submit_confirm_seconds = 12 / 10"
definition submit_confirm_poll_seconds :: seconds where "submit_confirm_poll_seconds = 5 / 100"
definition submit_retry_delays :: "seconds list" where "submit_retry_delays = [8 / 10, 16 / 10, 32 / 10]"
definition turn_open_states :: "string list" where "turn_open_states = [''working'', ''running'']"
definition delivery_when_idle :: string where "delivery_when_idle = ''when_idle''"
definition delivery_now :: string where "delivery_now = ''now''"
definition delivery_modes :: "string list" where "delivery_modes = [delivery_when_idle, delivery_now]"

definition non_overridable_reasons :: "string list" where
  "non_overridable_reasons =
     [''session_ended'', ''not_live_agent_run'', ''approval_required'', ''awaiting_user_input'']"

definition protected_awaiting_reasons :: "string list" where
  "protected_awaiting_reasons = [''approval'', ''question'', ''elicitation'']"

subsection \<open>Targets\<close>

text \<open>What the queue reads of a session, beside what readiness reads.\<close>

record target_session =
  tg_ready :: readiness_session
  tg_backend :: "string option"
  tg_name :: "string option"
  tg_project :: "string option"
  tg_awaiting_reason :: "string option"
  tg_turn_epoch :: int
  tg_turn_started :: seconds

type_synonym session_table = "string \<Rightarrow> target_session option"

definition tg_state :: "target_session \<Rightarrow> string" where
  "tg_state s = dr_state (tg_ready s)"

definition has_ended :: "target_session \<Rightarrow> bool" where
  "has_ended s \<longleftrightarrow> tg_state s \<in> {''exited'', ''crashed''}"

definition live_target :: "harness_table \<Rightarrow> session_table \<Rightarrow> string \<Rightarrow> queue_error + target_session" where
  "live_target hs sessions t =
     (case sessions t of
        None \<Rightarrow> Inl (Queue_Error ''unknown_target'' 404 [])
      | Some s \<Rightarrow> if delivers_prompts_through_pty hs (tg_backend s) then Inr s else bad_request ''not_agent_target'')"

definition writable_target :: "harness_table \<Rightarrow> session_table \<Rightarrow> string \<Rightarrow> queue_error + target_session" where
  "writable_target hs sessions t =
     bind_err (live_target hs sessions t)
       (\<lambda>s. if has_ended s then queue_conflict ''target_ended'' [] else Inr s)"

subsection \<open>Constraints of a message\<close>

text \<open>
  A moment that is not a number passes the horizon test and is kept. It never compares, so it is neither
  reached nor to come, like a moment that is missing.
\<close>

definition constraint_moment :: "seconds \<Rightarrow> string \<Rightarrow> pyval \<Rightarrow> queue_error + pydict" where
  "constraint_moment now k v =
     (if v = PNone then Inr []
      else if v = PNaN then Inr [(k, PNaN)]
      else (case py_real v of
              None \<Rightarrow> bad_request ''invalid_constraints''
            | Some t \<Rightarrow>
                if now + max_schedule_horizon_seconds < t then bad_request ''invalid_constraints''
                else Inr [(k, PFloat t)]))"

definition asked_not_before :: "seconds \<Rightarrow> pydict \<Rightarrow> pyval" where
  "asked_not_before now c =
     (if py_get c ''not_before'' \<noteq> PNone then py_get c ''not_before''
      else if py_get c ''delay_seconds'' = PNaN then PNaN
      else (case py_real (py_get c ''delay_seconds'') of Some d \<Rightarrow> PFloat (now + d) | None \<Rightarrow> PNone))"

definition constraint_mode :: "pyval \<Rightarrow> queue_error + pydict" where
  "constraint_mode v =
     (if v = PNone then Inr []
      else if v \<notin> PStr ` set delivery_modes then bad_request ''invalid_constraints''
      else if v = PStr delivery_when_idle then Inr [] else Inr [(''delivery'', v)])"

definition window_is_empty :: "pydict \<Rightarrow> bool" where
  "window_is_empty c \<longleftrightarrow>
     (case (py_real (py_get c ''not_before''), py_real (py_get c ''expires_at'')) of
        (Some a, Some b) \<Rightarrow> b \<le> a
      | _ \<Rightarrow> False)"

definition normalize_constraints :: "pyval \<Rightarrow> seconds \<Rightarrow> queue_error + pydict option" where
  "normalize_constraints raw now =
     (if \<not> truthy raw then Inr None
      else (case raw of
              PDict c \<Rightarrow>
                bind_err (constraint_moment now ''not_before'' (asked_not_before now c)) (\<lambda>a.
                bind_err (constraint_moment now ''expires_at'' (py_get c ''expires_at'')) (\<lambda>b.
                if window_is_empty (a @ b) then bad_request ''invalid_constraints''
                else bind_err (constraint_mode (py_get c ''delivery'')) (\<lambda>m.
                  Inr (if a @ b @ m = [] then None else Some (a @ b @ m)))))
            | _ \<Rightarrow> bad_request ''invalid_constraints''))"

definition constraint_reached :: "string \<Rightarrow> pydict option \<Rightarrow> seconds \<Rightarrow> bool option" where
  "constraint_reached k c now =
     (case c of None \<Rightarrow> None | Some d \<Rightarrow> map_option (\<lambda>t. t \<le> now) (py_real (py_get d k)))"

definition item_schedule_status :: "pydict option \<Rightarrow> seconds \<Rightarrow> string" where
  "item_schedule_status c now =
     (if constraint_reached ''expires_at'' c now = Some True then ''expired''
      else if constraint_reached ''not_before'' c now = Some False then ''scheduled''
      else ''due'')"

definition delivery_mode :: "(pyval \<Rightarrow> string) \<Rightarrow> prompt_row \<Rightarrow> string" where
  "delivery_mode repr r =
     (let v = (case pq_constraints r of None \<Rightarrow> PNone | Some c \<Rightarrow> py_get c ''delivery'');
          mode = (if truthy v then py_to_str repr v else delivery_when_idle)
      in if mode \<in> set delivery_modes then mode else delivery_when_idle)"

subsection \<open>What a delivery says and what it relies on\<close>

definition delivery_payload :: "harness_table \<Rightarrow> string \<Rightarrow> string option \<Rightarrow> string" where
  "delivery_payload hs message bk =
     (let (newline_keys, lift) = composer_insertion_rules hs bk
      in composer_insertion (dropWhile (\<lambda>c. c \<in> {CHR 0x0D, CHR 0x0A}) message) newline_keys lift)"

definition paste_settle :: "harness_table \<Rightarrow> seconds \<Rightarrow> int \<Rightarrow> string option \<Rightarrow> seconds" where
  "paste_settle hs submit_delay byte_count bk =
     paste_submit_settle_seconds hs bk byte_count submit_delay"

definition protected_reasons :: "target_session \<Rightarrow> string list \<Rightarrow> string list" where
  "protected_reasons s reasons =
     sort (remdups (filter (\<lambda>r. r \<in> set non_overridable_reasons) reasons)) @
     (case tg_awaiting_reason s of
        None \<Rightarrow> []
      | Some a \<Rightarrow>
          if tg_state s = ''awaiting'' \<and> a \<in> set protected_awaiting_reasons then [''awaiting_'' @ a] else [])"

definition delivery_condition :: "evaluation \<Rightarrow> write_condition" where
  "delivery_condition ev =
     \<lparr>wc_input_revision = Some (ev_input_revision ev),
      operator_quiet_seconds = Some READINESS_DEBOUNCE_SECONDS, no_pending_submit = True,
      screen_position = ev_screen_position ev\<rparr>"

record delivery_digest =
  dd_state :: string
  dd_reason :: string
  dd_reasons :: "string list"
  dd_protected :: "string list"
  dd_interject :: string
  dd_observed_at :: seconds
  dd_authorized :: bool

definition delivery_summary :: "target_session \<Rightarrow> evaluation \<Rightarrow> seconds \<Rightarrow> delivery_digest" where
  "delivery_summary s ev observed_at =
     \<lparr>dd_state = verdict_name (ev_state ev),
      dd_reason = (case ev_reasons ev of [] \<Rightarrow> '''' | r # _ \<Rightarrow> r), dd_reasons = ev_reasons ev,
      dd_protected = protected_reasons s (ev_reasons ev), dd_interject = verdict_name (ev_interject ev),
      dd_observed_at = observed_at, dd_authorized = False\<rparr>"

subsection \<open>Requests that are one store operation\<close>

datatype service_effect =
    Queue_Updated string string message_state nat
  | Delivery_Reported string string string string bool bool "bool option" string int
  | Paste_Tried string string string "write_condition option"
  | Submit_Tried string string
  | Delivery_Marked string seconds bool
  | Held_Unsubmitted string string int seconds

text \<open>\<^verbatim>\<open>_emit_updated\<close>; the count is read by an operation of its own.\<close>

definition emit_updated :: "string \<Rightarrow> string \<Rightarrow> message_state \<Rightarrow> queue_store \<Rightarrow> service_effect" where
  "emit_updated mid t state st = Queue_Updated t mid state (snd (messages_for_target t st))"

definition body_ok :: "string \<Rightarrow> bool" where
  "body_ok body \<longleftrightarrow> body \<noteq> '''' \<and> length body \<le> max_body_chars"

text \<open>The request as it is stored: armed only on a human's or the receiver's authority.\<close>

definition may_arm :: "message_request \<Rightarrow> bool" where
  "may_arm m \<longleftrightarrow>
     mr_sender_kind m \<in> set human_sender_kinds \<or> mr_sender_kind m \<in> set self_arming_sender_kinds \<or>
     text_given (mr_solicited_by m)"

definition bound_request :: "message_request \<Rightarrow> target_session \<Rightarrow> pydict option \<Rightarrow> message_request" where
  "bound_request m s c = m\<lparr>
     mr_target_run := text_or_none (dr_run (tg_ready s)), mr_target_backend := tg_backend s,
     mr_target_label := tg_name s, mr_project := text_or_none (tg_project s),
     mr_armed := mr_armed m \<and> may_arm m, mr_constraints := c\<rparr>"

definition enqueue ::
  "harness_table \<Rightarrow> session_table \<Rightarrow> message_request \<Rightarrow> pyval \<Rightarrow> seconds \<Rightarrow> queue_store
    \<Rightarrow> queue_error + created \<times> service_effect list \<times> queue_store" where
  "enqueue hs sessions m raw now st =
     (if \<not> body_ok (mr_body m) then bad_request ''invalid_body''
      else if mr_sender_kind m \<notin> set sender_kinds then bad_request ''invalid_sender''
      else
        bind_err (normalize_constraints raw now) (\<lambda>c.
        bind_err (writable_target hs sessions (mr_target m)) (\<lambda>s.
        bind_err (create_message (bound_request m s c) now st) (\<lambda>(answer, st').
          Inr (answer,
            (case answer of
               Created r \<Rightarrow> [emit_updated (pq_id r) (mr_target m) (pq_state r) st']
             | Deduplicated _ \<Rightarrow> []), st')))))"

text \<open>The shape of edit, arm, move, cancel, schedule and retarget: one operation, then its announcement.\<close>

definition announced ::
  "queue_error + prompt_row \<times> queue_store \<Rightarrow> queue_error + prompt_row \<times> service_effect list \<times> queue_store" where
  "announced answer =
     bind_err answer (\<lambda>(r, st). Inr (r, [emit_updated (pq_id r) (pq_target r) (pq_state r) st], st))"

definition reschedule_item where
  "reschedule_item mid raw now st =
     bind_err (normalize_constraints raw now) (\<lambda>c. announced (set_constraints mid c now st))"

definition edit_item where
  "edit_item mid revision body now st =
     (if \<not> body_ok body then bad_request ''invalid_body''
      else announced (edit_body mid revision body now st))"

definition arm_item where
  "arm_item mid armed now st = announced (set_armed mid armed now st)"

definition move_item where
  "move_item mid after now st = announced (move_message mid after now st)"

definition cancel_item where
  "cancel_item mid kind now st =
     (if kind \<notin> set cancel_kinds then bad_request ''invalid_cancel_kind''
      else announced (cancel_message mid kind now st))"

definition retarget_item where
  "retarget_item hs sessions mid t now st =
     bind_err (writable_target hs sessions t) (\<lambda>s.
       announced (retarget_message mid \<lparr>qt_session = t, qt_run = text_or_none (dr_run (tg_ready s)),
         qt_backend = tg_backend s, qt_label = tg_name s,
         qt_project = text_or_none (tg_project s)\<rparr> now st))"

definition delete_item ::
  "string \<Rightarrow> seconds \<Rightarrow> queue_store \<Rightarrow> queue_error + deletion \<times> service_effect list \<times> queue_store" where
  "delete_item mid now st =
     bind_err (delete_message mid now st) (\<lambda>(d, st').
       Inr (d, (if dl_already_deleted d then [] else [emit_updated mid (dl_target d) Deleted st']), st'))"

text \<open>
  \<^verbatim>\<open>expire_due\<close> over the rows it read: the rows cancelled, the announcements and the error that ended the
  sweep, if one did. Between two items other operations may run.
\<close>

fun expire_items ::
  "seconds \<Rightarrow> prompt_row list \<Rightarrow> queue_store
    \<Rightarrow> (queue_error + prompt_row list) \<times> service_effect list \<times> queue_store" where
  "expire_items now [] st = (Inr [], [], st)"
| "expire_items now (r # rs) st =
     (case cancel_message (pq_id r) ''expired'' now st of
        Inl e \<Rightarrow> (Inl e, [], st)
      | Inr (r', st') \<Rightarrow>
          (case expire_items now rs st' of
             (answer, effects, st'') \<Rightarrow>
               (bind_err answer (\<lambda>xs. Inr (r' # xs)),
                emit_updated (pq_id r) (pq_target r) (pq_state r') st' # effects, st'')))"

definition expire_due where
  "expire_due now st = expire_items now (expired_pending now st) st"

subsection \<open>When a target ends\<close>

definition strand_target ::
  "string \<Rightarrow> string \<Rightarrow> seconds \<Rightarrow> queue_store \<Rightarrow> service_effect list \<times> queue_store" where
  "strand_target t reason now st =
     (let (changed, st') = strand_pending t reason now st
      in (map (\<lambda>r. emit_updated (pq_id r) t (pq_state r) st') changed, st'))"

definition stranding_event :: "string \<Rightarrow> string option" where
  "stranding_event ty =
     (if ty \<in> {''session_exited'', ''session_crashed''} then Some ''target session ended''
      else if ty = ''backend_demoted'' then Some ''target agent run ended (demoted to shell)''
      else if ty = ''agent_conversation_rolled'' then Some ''target agent conversation was replaced''
      else None)"

definition consume_event :: "mux_event \<Rightarrow> seconds \<Rightarrow> queue_store \<Rightarrow> service_effect list \<times> queue_store" where
  "consume_event ev now st =
     (case (stranding_event (me_type ev), text_or_none (me_session ev)) of
        (Some reason, Some t) \<Rightarrow> strand_target t reason now st
      | _ \<Rightarrow> ([], st))"

definition run_replaced :: "string option \<Rightarrow> string option \<Rightarrow> bool" where
  "run_replaced bound current \<longleftrightarrow> text_given bound \<and> text_given current \<and> bound \<noteq> current"

text \<open>The items of one live target, until one of them turns out to be bound to another run.\<close>

fun reconcile_items ::
  "string \<Rightarrow> string option \<Rightarrow> seconds \<Rightarrow> prompt_row list \<Rightarrow> queue_store \<Rightarrow> service_effect list \<times> queue_store" where
  "reconcile_items t current now [] st = ([], st)"
| "reconcile_items t current now (r # rs) st =
     (if run_replaced (pq_target_run r) current then strand_target t ''target agent run was replaced'' now st
      else if pq_state r = Delivering then
        (let st1 = snd (fail_interrupted (pq_id r)
               ''delivery interrupted by daemon restart; verify the terminal'' now st);
             (effects, st2) = reconcile_items t current now rs st1
         in (emit_updated (pq_id r) t Failed st1 # effects, st2))
      else reconcile_items t current now rs st)"

definition reconcile_target ::
  "session_table \<Rightarrow> seconds \<Rightarrow> prompt_row list \<Rightarrow> string \<Rightarrow> queue_store \<Rightarrow> service_effect list \<times> queue_store" where
  "reconcile_target sessions now rows t st =
     (case sessions t of
        None \<Rightarrow> strand_target t ''target session did not survive restart'' now st
      | Some s \<Rightarrow>
          if has_ended s then strand_target t ''target session ended'' now st
          else reconcile_items t (dr_run (tg_ready s)) now (filter (\<lambda>r. pq_target r = t) rows) st)"

fun reconcile_targets ::
  "session_table \<Rightarrow> seconds \<Rightarrow> prompt_row list \<Rightarrow> string list \<Rightarrow> queue_store
    \<Rightarrow> service_effect list \<times> queue_store" where
  "reconcile_targets sessions now rows [] st = ([], st)"
| "reconcile_targets sessions now rows (t # ts) st =
     (let (e1, st1) = reconcile_target sessions now rows t st;
          (e2, st2) = reconcile_targets sessions now rows ts st1
      in (e1 @ e2, st2))"

definition reconcile_startup ::
  "session_table \<Rightarrow> seconds \<Rightarrow> queue_store \<Rightarrow> service_effect list \<times> queue_store" where
  "reconcile_startup sessions now st =
     (let rows = pending_targets st
      in reconcile_targets sessions now rows (first_of_each (map pq_target rows)) st)"

subsection \<open>Reading\<close>

record target_panel =
  tp_messages :: "prompt_row list"
  tp_pending :: nat
  tp_live :: bool
  tp_run :: "string option"
  tp_label :: "string option"
  tp_state :: "string option"
  tp_readiness :: "delivery_digest option"

definition target_view ::
  "harness_table \<Rightarrow> session_table \<Rightarrow> string \<Rightarrow> seconds \<Rightarrow> seconds \<Rightarrow> readiness_tracker \<Rightarrow> queue_store
    \<Rightarrow> target_panel \<times> readiness_tracker" where
  "target_view hs sessions t clock now tr st =
     (let (rows, pend) = messages_for_target t st;
          (digest, tr') =
            (case sessions t of
               None \<Rightarrow> (None, tr)
             | Some s \<Rightarrow>
                 let (ev, tr') = evaluate hs False DISPLAY_SCREEN_MAX_AGE_SECONDS True (tg_ready s) clock tr
                 in (Some (delivery_summary s ev now), tr'))
      in (\<lparr>tp_messages = rows, tp_pending = pend,
           tp_live = (case sessions t of None \<Rightarrow> False | Some s \<Rightarrow> \<not> has_ended s),
           tp_run = Option.bind (sessions t) (\<lambda>s. dr_run (tg_ready s)),
           tp_label = Option.bind (sessions t) tg_name, tp_state = map_option tg_state (sessions t),
           tp_readiness = digest\<rparr>, tr'))"

definition summary_view :: "session_table \<Rightarrow> queue_store \<Rightarrow> (target_summary \<times> bool) list" where
  "summary_view sessions st =
     map (\<lambda>r. case sessions (ts_target r) of
            None \<Rightarrow> (r, False)
          | Some s \<Rightarrow> (r\<lparr>ts_label := tg_name s\<rparr>, \<not> has_ended s)) (queue_summary st)"

definition export_target :: "(string \<Rightarrow> bool) \<Rightarrow> string \<Rightarrow> bool \<Rightarrow> queue_store \<Rightarrow> (prompt_row \<times> bool) list" where
  "export_target looks_like_secret t redact st =
     map (\<lambda>r. if redact \<and> looks_like_secret (pq_body r)
              then (r\<lparr>pq_body := ''[redacted: credential-shaped content]''\<rparr>, True) else (r, False))
       (fst (messages_for_target t st))"

subsection \<open>Sending\<close>

record queue_config =
  qc_harnesses :: harness_table
  qc_repr :: "pyval \<Rightarrow> string"
  qc_submit_delay :: seconds
  qc_submit_confirm :: seconds
  qc_retry_delays :: "seconds list"

text \<open>How the terminal answered a write: a failed one may or may not have reached it.\<close>

datatype write_answer = Write_Done | Write_Refused string | Write_Failed string

text \<open>
  What one step finds: the clocks, the session the target's name stands for, the session object the send
  holds, the fresh identifier of a delivery and the answer to the write the step makes.
\<close>

record send_env =
  sv_now :: seconds
  sv_clock :: seconds
  sv_lookup :: "target_session option"
  sv_target :: target_session
  sv_fresh :: string
  sv_answer :: write_answer

record send_request =
  sq_message :: string
  sq_revision :: int
  sq_key :: "string option"
  sq_confirm :: bool
  sq_initiator :: string

record submit_baseline =
  sb_epoch :: int
  sb_state :: string
  sb_started :: seconds
  sb_screen :: string

record judgement =
  jd_state :: string
  jd_reasons :: "string list"
  jd_confirmed :: bool
  jd_interjected :: bool

record refused_delivery =
  rf_code :: string
  rf_error :: string
  rf_state :: message_state
  rf_delivery_state :: "string option"
  rf_reasons :: "string list option"
  rf_stranded_reason :: "string option"
  rf_cancel_kind :: "string option"
  rf_protected :: bool
  rf_payload :: pydict

datatype send_answer =
    Was_Duplicate attempt_row
  | Was_Sent prompt_row "bool option"
  | Was_Refused refused_delivery
  | Was_Failed string
  | Was_Rejected queue_error
  | Row_Vanished

datatype send_phase =
    Send_Claim
  | Send_Check
  | Send_Bind string
  | Send_Judge nat "string list"
  | Send_Paste "write_condition option" nat "string list"
  | Send_Settle
  | Send_Press submit_baseline "seconds list"
  | Send_Watch submit_baseline seconds "seconds list"
  | Send_Pause submit_baseline "seconds list"
  | Send_Refuse refused_delivery
  | Send_Fail string
  | Send_Close "bool option"
  | Send_Announce message_state send_answer
  | Send_Credit send_answer
  | Send_Ended send_answer

record send_task =
  sk_request :: send_request
  sk_phase :: send_phase
  sk_delivery :: string
  sk_message :: prompt_row
  sk_data :: string
  sk_bytes :: int
  sk_judgement :: judgement

record queue_world =
  qw_store :: queue_store
  qw_tracker :: readiness_tracker
  qw_effects :: "service_effect list"

definition log_effect :: "service_effect \<Rightarrow> queue_world \<Rightarrow> queue_world" where
  "log_effect x w = w\<lparr>qw_effects := qw_effects w @ [x]\<rparr>"

definition goto_phase :: "send_phase \<Rightarrow> send_task \<Rightarrow> send_task" where
  "goto_phase p k = k\<lparr>sk_phase := p\<rparr>"

text \<open>\<^verbatim>\<open>confirm_requires_user\<close>, and the claim.\<close>

definition claim_step :: "send_env \<Rightarrow> send_task \<Rightarrow> queue_world \<Rightarrow> send_task \<times> queue_world" where
  "claim_step e k w =
     (let q = sk_request k
      in if sq_initiator q \<noteq> ''user'' \<and> sq_confirm q
         then (goto_phase (Send_Ended (Was_Rejected (Queue_Error ''confirm_requires_user'' 400 []))) k, w)
         else
           (case claim_for_delivery (sq_message q) (sq_revision q) (sq_key q) (sq_initiator q) (sv_fresh e)
                   (sv_now e) (qw_store w) of
              Inl err \<Rightarrow> (goto_phase (Send_Ended (Was_Rejected err)) k, w)
            | Inr (Duplicate_Claim a, st) \<Rightarrow>
                (goto_phase (Send_Ended (Was_Duplicate a)) k, w\<lparr>qw_store := st\<rparr>)
            | Inr (Claim_Opened did row, st) \<Rightarrow>
                (k\<lparr>sk_phase := Send_Check, sk_delivery := did, sk_message := row\<rparr>, w\<lparr>qw_store := st\<rparr>)))"

definition plain_refusal :: "string \<Rightarrow> string \<Rightarrow> message_state \<Rightarrow> refused_delivery" where
  "plain_refusal c error state =
     \<lparr>rf_code = c, rf_error = error, rf_state = state, rf_delivery_state = None, rf_reasons = None,
      rf_stranded_reason = None, rf_cancel_kind = None, rf_protected = False, rf_payload = []\<rparr>"

definition strand_refusal :: "string \<Rightarrow> string \<Rightarrow> string \<Rightarrow> refused_delivery" where
  "strand_refusal c error reason =
     (plain_refusal c error Stranded)\<lparr>rf_stranded_reason := Some reason, rf_protected := True\<rparr>"

text \<open>Schedule, expiry, liveness and run identity; \<open>None\<close> when nothing stands in the way.\<close>

definition early_refusal :: "send_env \<Rightarrow> bool \<Rightarrow> prompt_row \<Rightarrow> refused_delivery option" where
  "early_refusal e confirm m =
     (if constraint_reached ''expires_at'' (pq_constraints m) (sv_now e) = Some True
      then Some ((plain_refusal ''delivery_expired'' ''this message expired before it was sent'' Cancelled)
        \<lparr>rf_cancel_kind := Some ''expired'', rf_protected := True\<rparr>)
      else if constraint_reached ''not_before'' (pq_constraints m) (sv_now e) = Some False \<and> \<not> confirm
      then Some ((plain_refusal ''delivery_not_due''
          ''this message is scheduled for later; send now to override'' (pq_state m))
        \<lparr>rf_payload := [(''not_before'', case constraint_time ''not_before'' m of
           None \<Rightarrow> PNone | Some t \<Rightarrow> PFloat t)]\<rparr>)
      else
        (case sv_lookup e of
           None \<Rightarrow> Some (strand_refusal ''target_ended''
             ''the target session has ended; the message is stranded'' ''target session ended'')
         | Some s \<Rightarrow>
             if has_ended s then Some (strand_refusal ''target_ended''
               ''the target session has ended; the message is stranded'' ''target session ended'')
             else if run_replaced (pq_target_run m) (dr_run (tg_ready s))
             then Some (strand_refusal ''target_run_replaced''
               ''the target agent run was replaced; the message is stranded'' ''target agent run was replaced'')
             else None))"

definition unjudged :: judgement where
  "unjudged = \<lparr>jd_state = ''unknown'', jd_reasons = [], jd_confirmed = False, jd_interjected = False\<rparr>"

definition prepare_send :: "queue_config \<Rightarrow> target_session \<Rightarrow> send_task \<Rightarrow> send_task" where
  "prepare_send cfg s k =
     (let data = delivery_payload (qc_harnesses cfg) (pq_body (sk_message k)) (tg_backend s)
      in k\<lparr>sk_phase := Send_Judge delivery_judgement_attempts [], sk_data := data,
           sk_bytes := int (utf8_length data) + int (length submit_sequence), sk_judgement := unjudged\<rparr>)"

definition check_step :: "queue_config \<Rightarrow> send_env \<Rightarrow> send_task \<Rightarrow> send_task" where
  "check_step cfg e k =
     (case early_refusal e (sq_confirm (sk_request k)) (sk_message k) of
        Some r \<Rightarrow> goto_phase (Send_Refuse r) k
      | None \<Rightarrow>
          (case sv_lookup e of
             None \<Rightarrow> k
           | Some s \<Rightarrow>
               if \<not> text_given (pq_target_run (sk_message k)) \<and> text_given (dr_run (tg_ready s))
               then goto_phase (Send_Bind (ifnull (dr_run (tg_ready s)))) k
               else prepare_send cfg s k))"

definition bind_step :: "queue_config \<Rightarrow> send_env \<Rightarrow> string \<Rightarrow> send_task \<Rightarrow> queue_world \<Rightarrow> send_task \<times> queue_world" where
  "bind_step cfg e run k w =
     (prepare_send cfg (sv_target e) k, w\<lparr>qw_store := bind_run (pq_id (sk_message k)) run (qw_store w)\<rparr>)"

subsection \<open>Judging, and writing with the judgement attached\<close>

definition verdict_refusal :: "evaluation \<Rightarrow> bool \<Rightarrow> refused_delivery" where
  "verdict_refusal ev wants_now =
     (plain_refusal ''delivery_not_safe''
        (''delivery readiness is '' @ verdict_name (ev_state ev) @ ''; confirm to send anyway'') Blocked)
     \<lparr>rf_delivery_state := Some (verdict_name (ev_state ev)),
      rf_reasons := Some (if wants_now \<and> ev_interject_reasons ev \<noteq> [] then ev_interject_reasons ev
        else ev_reasons ev)\<rparr>"

definition protected_refusal :: "evaluation \<Rightarrow> string list \<Rightarrow> refused_delivery" where
  "protected_refusal ev protections =
     (plain_refusal ''delivery_protected''
        ''delivery is blocked by a protection that cannot be overridden'' Blocked)
     \<lparr>rf_delivery_state := Some (verdict_name (ev_state ev)), rf_reasons := Some protections,
      rf_protected := True\<rparr>"

definition overtaken_refusal :: "judgement \<Rightarrow> string list \<Rightarrow> refused_delivery" where
  "overtaken_refusal j refusals =
     (plain_refusal ''delivery_not_safe'' (''input kept reaching the target between each readiness'' @
        '' verdict and its write; confirm to send anyway'') Blocked)
     \<lparr>rf_delivery_state := Some (jd_state j), rf_reasons := Some (first_of_each refusals)\<rparr>"

text \<open>One verdict: a refusal, or how the write may go ahead and what it carries.\<close>

definition decide ::
  "queue_config \<Rightarrow> bool \<Rightarrow> prompt_row \<Rightarrow> target_session \<Rightarrow> evaluation
    \<Rightarrow> refused_delivery + judgement \<times> write_condition option" where
  "decide cfg confirm m s ev =
     (let protections = protected_reasons s (ev_reasons ev);
          wants_now = (delivery_mode (qc_repr cfg) m = delivery_now);
          verdict = (\<lambda>confirmed interjected. \<lparr>jd_state = verdict_name (ev_state ev),
            jd_reasons = ev_reasons ev, jd_confirmed = confirmed, jd_interjected = interjected\<rparr>)
      in if protections \<noteq> [] then Inl (protected_refusal ev protections)
         else if ev_state ev = Verdict_Safe then Inr (verdict False False, Some (delivery_condition ev))
         else if wants_now \<and> ev_interject ev = Verdict_Safe
         then Inr (verdict False True, Some (delivery_condition ev))
         else if \<not> confirm then Inl (verdict_refusal ev wants_now)
         else Inr (verdict True False, None))"

definition judge_step ::
  "queue_config \<Rightarrow> send_env \<Rightarrow> nat \<Rightarrow> string list \<Rightarrow> send_task \<Rightarrow> queue_world \<Rightarrow> send_task \<times> queue_world" where
  "judge_step cfg e n refusals k w =
     (case n of
        0 \<Rightarrow> (goto_phase (Send_Refuse (overtaken_refusal (sk_judgement k) refusals)) k, w)
      | Suc n' \<Rightarrow>
          (let (ev, tr) = evaluate (qc_harnesses cfg) True 0 True (tg_ready (sv_target e)) (sv_clock e) (qw_tracker w)
           in (case decide cfg (sq_confirm (sk_request k)) (sk_message k) (sv_target e) ev of
                 Inl r \<Rightarrow> goto_phase (Send_Refuse r) k
               | Inr (j, cond) \<Rightarrow> k\<lparr>sk_phase := Send_Paste cond n' refusals, sk_judgement := j\<rparr>,
               w\<lparr>qw_tracker := tr\<rparr>)))"

definition target_of :: "send_task \<Rightarrow> string" where
  "target_of k = pq_target (sk_message k)"

definition message_of :: "send_task \<Rightarrow> string" where
  "message_of k = sq_message (sk_request k)"

definition paste_step ::
  "send_env \<Rightarrow> write_condition option \<Rightarrow> nat \<Rightarrow> string list \<Rightarrow> send_task \<Rightarrow> queue_world
    \<Rightarrow> send_task \<times> queue_world" where
  "paste_step e cond n refusals k w =
     (let tried = log_effect (Paste_Tried (target_of k) (message_of k) (sk_data k) cond) w
      in case sv_answer e of
           Write_Done \<Rightarrow> (goto_phase Send_Settle k, tried)
         | Write_Refused r \<Rightarrow> (goto_phase (Send_Judge n (refusals @ [r])) k, w)
         | Write_Failed err \<Rightarrow> (goto_phase (Send_Fail err) k, tried))"

subsection \<open>Submitting\<close>

definition ended_error :: string where
  "ended_error = ''the target session ended during delivery''"

definition submit_baseline_of :: "target_session \<Rightarrow> string \<Rightarrow> submit_baseline" where
  "submit_baseline_of s shown =
     \<lparr>sb_epoch = tg_turn_epoch s, sb_state = tg_state s, sb_started = tg_turn_started s, sb_screen = shown\<rparr>"

definition turn_began ::
  "target_session \<Rightarrow> submit_baseline \<Rightarrow> seconds \<Rightarrow> readiness_tracker \<Rightarrow> bool \<times> readiness_tracker" where
  "turn_began s b clock tr =
     (if sb_epoch b < tg_turn_epoch s then (True, tr)
      else if tg_state s \<in> set turn_open_states \<and> sb_state b \<notin> set turn_open_states then (True, tr)
      else if sb_started b < tg_turn_started s then (True, tr)
      else
        let (shown, tr') = screen_state_now (tg_ready s) clock tr
        in (shown = ''working'' \<and> sb_screen b \<noteq> ''working'', tr'))"

text \<open>The next thing to do once a window closed without a turn.\<close>

definition next_press :: "submit_baseline \<Rightarrow> seconds list \<Rightarrow> send_phase" where
  "next_press b rest = (if rest = [] then Send_Close (Some False) else Send_Pause b rest)"

definition watch_or_next :: "submit_baseline \<Rightarrow> seconds \<Rightarrow> seconds \<Rightarrow> seconds list \<Rightarrow> send_phase" where
  "watch_or_next b clock deadline rest =
     (if clock < deadline then Send_Watch b deadline rest else next_press b rest)"

definition settle_step :: "queue_config \<Rightarrow> send_env \<Rightarrow> send_task \<Rightarrow> queue_world \<Rightarrow> send_task \<times> queue_world" where
  "settle_step cfg e k w =
     (if has_ended (sv_target e) then (goto_phase (Send_Fail ended_error) k, w)
      else
        let (shown, tr) = screen_state_now (tg_ready (sv_target e)) (sv_clock e) (qw_tracker w)
        in (goto_phase (Send_Press (submit_baseline_of (sv_target e) shown) (qc_retry_delays cfg)) k,
            w\<lparr>qw_tracker := tr\<rparr>))"

text \<open>After \<^verbatim>\<open>_submit\<close> answered, the mark that names who asked is set before anything else runs.\<close>

definition submitted_step ::
  "send_env \<Rightarrow> bool option \<Rightarrow> send_task \<Rightarrow> queue_world \<Rightarrow> send_task \<times> queue_world" where
  "submitted_step e submitted k w =
     (let marked = log_effect (Delivery_Marked (target_of k) (sv_now e)
            (pq_sender_kind (sk_message k) \<in> set human_sender_kinds)) w;
          held = (if submitted = Some False
                  then log_effect (Held_Unsubmitted (target_of k) (message_of k) (sk_bytes k) (sv_now e)) marked
                  else marked)
      in (goto_phase (Send_Close submitted) k, held))"

definition go_on ::
  "send_env \<Rightarrow> send_phase \<Rightarrow> send_task \<Rightarrow> queue_world \<Rightarrow> send_task \<times> queue_world" where
  "go_on e p k w = (case p of Send_Close submitted \<Rightarrow> submitted_step e submitted k w | _ \<Rightarrow> (goto_phase p k, w))"

definition press_step ::
  "queue_config \<Rightarrow> send_env \<Rightarrow> submit_baseline \<Rightarrow> seconds list \<Rightarrow> send_task \<Rightarrow> queue_world
    \<Rightarrow> send_task \<times> queue_world" where
  "press_step cfg e b rest k w =
     (let tried = log_effect (Submit_Tried (target_of k) (message_of k)) w
      in case sv_answer e of
           Write_Refused r \<Rightarrow> (goto_phase (Send_Fail r) k, w)
         | Write_Failed err \<Rightarrow> (goto_phase (Send_Fail err) k, tried)
         | Write_Done \<Rightarrow>
             if sb_state b \<in> set turn_open_states then submitted_step e None k tried
             else go_on e (watch_or_next b (sv_clock e) (sv_clock e + qc_submit_confirm cfg) rest) k tried)"

definition watch_step ::
  "send_env \<Rightarrow> submit_baseline \<Rightarrow> seconds \<Rightarrow> seconds list \<Rightarrow> send_task \<Rightarrow> queue_world
    \<Rightarrow> send_task \<times> queue_world" where
  "watch_step e b deadline rest k w =
     (if has_ended (sv_target e) then (goto_phase (Send_Fail ended_error) k, w)
      else
        let (began, tr) = turn_began (sv_target e) b (sv_clock e) (qw_tracker w);
            w' = w\<lparr>qw_tracker := tr\<rparr>
        in if began then submitted_step e (Some True) k w'
           else go_on e (watch_or_next b (sv_clock e) deadline rest) k w')"

definition pause_step ::
  "send_env \<Rightarrow> submit_baseline \<Rightarrow> seconds list \<Rightarrow> send_task \<Rightarrow> queue_world \<Rightarrow> send_task \<times> queue_world" where
  "pause_step e b rest k w =
     (let (began, tr) = turn_began (sv_target e) b (sv_clock e) (qw_tracker w);
          w' = w\<lparr>qw_tracker := tr\<rparr>
      in if began then submitted_step e (Some True) k w'
         else if has_ended (sv_target e) then (goto_phase (Send_Fail ended_error) k, w')
         else (goto_phase (Send_Press b (tl rest)) k, w'))"

subsection \<open>Closing an attempt\<close>

definition refusal_result :: "refused_delivery \<Rightarrow> attempt_result" where
  "refusal_result r =
     \<lparr>ar_outcome = Attempt_Refused, ar_state = rf_state r, ar_delivery_state = rf_delivery_state r,
      ar_reasons = rf_reasons r, ar_confirmed = False, ar_interjected = False, ar_submitted = None,
      ar_error = Some (rf_error r), ar_bytes = None,
      ar_blocked_reasons = (if rf_state r = Blocked then rf_reasons r else None),
      ar_stranded_reason = rf_stranded_reason r, ar_cancel_kind = rf_cancel_kind r\<rparr>"

definition written_result ::
  "attempt_outcome \<Rightarrow> message_state \<Rightarrow> bool option \<Rightarrow> string option \<Rightarrow> send_task \<Rightarrow> attempt_result" where
  "written_result outcome state submitted error k =
     \<lparr>ar_outcome = outcome, ar_state = state, ar_delivery_state = Some (jd_state (sk_judgement k)),
      ar_reasons = Some (jd_reasons (sk_judgement k)), ar_confirmed = jd_confirmed (sk_judgement k),
      ar_interjected = jd_interjected (sk_judgement k), ar_submitted = submitted, ar_error = error,
      ar_bytes = Some (sk_bytes k), ar_blocked_reasons = None, ar_stranded_reason = None,
      ar_cancel_kind = None\<rparr>"

definition finalize_step ::
  "attempt_result \<Rightarrow> (prompt_row \<Rightarrow> send_answer) \<Rightarrow> send_env \<Rightarrow> send_task \<Rightarrow> queue_world
    \<Rightarrow> send_task \<times> queue_world" where
  "finalize_step x answer e k w =
     (let (row, st) = finalize_delivery (sk_delivery k) (message_of k) x (sv_now e) (qw_store w)
      in (goto_phase (case row of
             None \<Rightarrow> Send_Ended Row_Vanished
           | Some r \<Rightarrow> Send_Announce (ar_state x) (answer r)) k, w\<lparr>qw_store := st\<rparr>))"

definition delivery_reported :: "string \<Rightarrow> bool option \<Rightarrow> send_task \<Rightarrow> service_effect" where
  "delivery_reported outcome submitted k =
     Delivery_Reported (target_of k) (message_of k) outcome (jd_state (sk_judgement k))
       (jd_confirmed (sk_judgement k)) (jd_interjected (sk_judgement k)) submitted
       (sq_initiator (sk_request k)) (sk_bytes k)"

definition announce_step ::
  "message_state \<Rightarrow> send_answer \<Rightarrow> send_task \<Rightarrow> queue_world \<Rightarrow> send_task \<times> queue_world" where
  "announce_step state answer k w =
     (let w' = log_effect (emit_updated (message_of k) (target_of k) state (qw_store w)) w
      in case answer of
           Was_Sent row submitted \<Rightarrow>
             if sq_initiator (sk_request k) = ''user'' then (goto_phase (Send_Credit answer) k, w')
             else (goto_phase (Send_Ended answer) k, log_effect (delivery_reported ''sent'' submitted k) w')
         | Was_Failed err \<Rightarrow>
             (goto_phase (Send_Ended answer) k, log_effect (delivery_reported ''failed'' None k) w')
         | _ \<Rightarrow> (goto_phase (Send_Ended answer) k, w'))"

definition credit_step :: "send_env \<Rightarrow> send_answer \<Rightarrow> send_task \<Rightarrow> queue_world \<Rightarrow> send_task \<times> queue_world" where
  "credit_step e answer k w =
     (let (_, st) = credit_auto_attention (target_of k) ''manual-send'' (sv_now e) (qw_store w);
          submitted = (case answer of Was_Sent _ s \<Rightarrow> s | _ \<Rightarrow> None)
      in (goto_phase (Send_Ended answer) k,
          log_effect (delivery_reported ''sent'' submitted k) (w\<lparr>qw_store := st\<rparr>)))"

fun send_step_at ::
  "send_phase \<Rightarrow> queue_config \<Rightarrow> send_env \<Rightarrow> send_task \<Rightarrow> queue_world \<Rightarrow> send_task \<times> queue_world" where
  "send_step_at Send_Claim cfg e k w = claim_step e k w"
| "send_step_at Send_Check cfg e k w = (check_step cfg e k, w)"
| "send_step_at (Send_Bind run) cfg e k w = bind_step cfg e run k w"
| "send_step_at (Send_Judge n refusals) cfg e k w = judge_step cfg e n refusals k w"
| "send_step_at (Send_Paste cond n refusals) cfg e k w = paste_step e cond n refusals k w"
| "send_step_at Send_Settle cfg e k w = settle_step cfg e k w"
| "send_step_at (Send_Press b rest) cfg e k w = press_step cfg e b rest k w"
| "send_step_at (Send_Watch b deadline rest) cfg e k w = watch_step e b deadline rest k w"
| "send_step_at (Send_Pause b rest) cfg e k w = pause_step e b rest k w"
| "send_step_at (Send_Refuse r) cfg e k w = finalize_step (refusal_result r) (\<lambda>_. Was_Refused r) e k w"
| "send_step_at (Send_Fail err) cfg e k w =
     finalize_step (written_result Attempt_Failed Failed None (Some err) k) (\<lambda>_. Was_Failed err) e k w"
| "send_step_at (Send_Close submitted) cfg e k w =
     finalize_step (written_result Attempt_Sent Sent submitted None k) (\<lambda>r. Was_Sent r submitted) e k w"
| "send_step_at (Send_Announce state answer) cfg e k w = announce_step state answer k w"
| "send_step_at (Send_Credit answer) cfg e k w = credit_step e answer k w"
| "send_step_at (Send_Ended answer) cfg e k w = (k, w)"

definition send_step ::
  "queue_config \<Rightarrow> send_env \<Rightarrow> send_task \<Rightarrow> queue_world \<Rightarrow> send_task \<times> queue_world" where
  "send_step cfg e k w = send_step_at (sk_phase k) cfg e k w"

definition no_message :: prompt_row where
  "no_message = new_message \<lparr>mr_id = '''', mr_target = '''', mr_target_run = None, mr_target_backend = None,
     mr_target_label = None, mr_project = None, mr_body = '''', mr_armed = False, mr_sender_kind = '''',
     mr_sender_id = None, mr_sender_label = None, mr_origin_session = None, mr_correlation = None,
     mr_thread = None, mr_chain_depth = 0, mr_solicited_by = None, mr_origin = None, mr_payload = None,
     mr_constraints = None, mr_insert_after = None\<rparr> 0 0"

definition start_send :: "send_request \<Rightarrow> send_task" where
  "start_send q = \<lparr>sk_request = q, sk_phase = Send_Claim, sk_delivery = '''', sk_message = no_message,
     sk_data = '''', sk_bytes = 0, sk_judgement = unjudged\<rparr>"

text \<open>A send that nothing else runs beside.\<close>

fun run_send ::
  "queue_config \<Rightarrow> send_env list \<Rightarrow> send_task \<Rightarrow> queue_world \<Rightarrow> send_task \<times> queue_world" where
  "run_send cfg [] k w = (k, w)"
| "run_send cfg (e # es) k w = (let (k', w') = send_step cfg e k w in run_send cfg es k' w')"
end
