(* ===== verification/Queue_Sending.thy ===== *)
theory Queue_Sending
  imports Prompt_Queue
begin

text \<open>
  What the service of \<^verbatim>\<open>Prompt_Queue\<close> guarantees: what it lets into the queue, which constraints it accepts,
  and, for one send whose waits anything may interleave with, how often it writes, on what authority, and
  that it ends.
\<close>

subsection \<open>What enters the queue\<close>

lemma find_map_keeps: "(\<And>x. g (f x) = g x) \<Longrightarrow> find (\<lambda>x. g x = k) (map f xs) = map_option f (find (\<lambda>x. g x = k) xs)"
  by (induction xs) auto

lemma find_renumbered:
  "find_message mid (renumber_ids i ids st) = map_option (place i ids) (find_message mid st)"
  by (simp add: find_message_def renumber_ids_place find_map_keeps)

lemma find_snoc:
  "mid \<notin> pq_id ` set rs \<Longrightarrow> pq_id r = mid \<Longrightarrow> find (\<lambda>r. pq_id r = mid) (rs @ [r]) = Some r"
  by (induction rs) auto

lemma inserted_row:
  assumes "\<not> insert_conflicts (new_message m pos now) st"
    and st2: "st2 = (if ordered = [] then st\<lparr>qs_messages := qs_messages st @ [new_message m pos now]\<rparr>
      else renumber_queue t (Some ordered) (st\<lparr>qs_messages := qs_messages st @ [new_message m pos now]\<rparr>))"
  shows "\<exists>p. find_message (mr_id m) st2 = Some (new_message m p now) \<and>
    refetch (mr_id m) (new_message m pos now) st2 = new_message m p now"
proof -
  have "mr_id m \<notin> pq_id ` set (qs_messages st)"
    using assms(1) by (auto simp: insert_conflicts_def new_message_def)
  then have f: "find_message (mr_id m) (st\<lparr>qs_messages := qs_messages st @ [new_message m pos now]\<rparr>)
      = Some (new_message m pos now)"
    by (simp add: find_message_def find_snoc new_message_def)
  obtain q where "place 0 ordered (new_message m pos now) = (new_message m pos now)\<lparr>pq_position := q\<rparr>"
    using place_position by blast
  then have q: "place 0 ordered (new_message m pos now) = new_message m q now" by (simp add: new_message_def)
  have "find_message (mr_id m) st2 = Some (new_message m (if ordered = [] then pos else q) now)"
    using f q by (simp add: st2 renumber_queue_def find_renumbered)
  then show ?thesis by (auto simp: refetch_def)
qed

lemma created_row:
  assumes "create_message m now st = Inr (Created r, st')"
  shows "\<exists>p. r = new_message m p now" "find_message (mr_id m) st' = Some r"
proof -
  from assms have ins: "insert_message m now st = Inr (Created r, st')"
    by (auto simp: create_message_def split: option.splits if_splits)
  have "\<exists>p. find_message (mr_id m) st' = Some (new_message m p now) \<and> r = new_message m p now"
  proof (cases "mr_insert_after m")
    case None
    with ins inserted_row [of m _ now st _ "[]", OF _ refl] show ?thesis
      by (simp add: insert_message_def Let_def split: if_splits) metis
  next
    case (Some a)
    let ?o = "insert_behind a (mr_id m) (map pq_id (visible_queue (mr_target m) st))"
    let ?r = "new_message m (int (length (visible_queue (mr_target m) st))) now"
    from ins Some have "\<not> insert_conflicts ?r st"
      and "st' = (if ?o = [] then st\<lparr>qs_messages := qs_messages st @ [?r]\<rparr>
        else renumber_queue (mr_target m) (Some ?o) (st\<lparr>qs_messages := qs_messages st @ [?r]\<rparr>))"
      and "r = refetch (mr_id m) ?r st'"
      by (auto simp: insert_message_def Let_def split: if_splits)
    with inserted_row [OF this(1,2)] show ?thesis by metis
  qed
  then show "\<exists>p. r = new_message m p now" "find_message (mr_id m) st' = Some r" by auto
qed

lemma writable_targetD:
  assumes "writable_target hs sessions t = Inr s"
  shows "sessions t = Some s" "delivers_prompts_through_pty hs (tg_backend s)" "\<not> has_ended s"
  using assms by (auto simp: writable_target_def live_target_def bind_err_def split: option.splits if_splits sum.splits)

text \<open>
  C23. What \<^verbatim>\<open>enqueue\<close> stages is a draft, or armed on an authority the sender does not choose: a human
  wrote it, an agent wrote it under the target's standing grant, or it names the target's own request it
  answers. It is aimed at a live agent session and bound to the run that session has.
\<close>

theorem unsolicited_text_is_never_armed:
  assumes "enqueue hs sessions m raw now st = Inr (Created r, effects, st')"
  shows "find_message (mr_id m) st' = Some r \<and> body_ok (pq_body r)
    \<and> (pq_state r = Drafted \<or> pq_state r = Armed \<and> mr_armed m \<and>
         (pq_sender_kind r \<in> {''user'', ''remote_user'', ''agent''} \<or> (\<exists>q. pq_solicited_by r = Some q \<and> q \<noteq> '''')))
    \<and> (\<exists>s. sessions (pq_target r) = Some s \<and> \<not> has_ended s \<and>
         delivers_prompts_through_pty hs (tg_backend s) \<and>
         pq_target_run r = text_or_none (dr_run (tg_ready s)))"
proof -
  from assms obtain c s where ok: "body_ok (mr_body m)" "mr_sender_kind m \<in> set sender_kinds"
    and s: "writable_target hs sessions (mr_target m) = Inr s"
    and new: "create_message (bound_request m s c) now st = Inr (Created r, st')"
    by (auto simp: enqueue_def bind_err_def split: if_splits sum.splits prod.splits)
  from created_row [OF new] obtain p where r: "r = new_message (bound_request m s c) p now"
    and f: "find_message (mr_id m) st' = Some r" by (auto simp: bound_request_def)
  from writable_targetD [OF s] ok f show ?thesis
    by (auto simp: r new_message_def bound_request_def may_arm_def human_sender_kinds_def
      self_arming_sender_kinds_def text_given_def)
qed

subsection \<open>Accepted constraints\<close>

definition moment_entry :: "string \<Rightarrow> seconds option \<Rightarrow> pydict" where
  "moment_entry k t = (case t of None \<Rightarrow> [] | Some x \<Rightarrow> [(k, PFloat x)])"

definition settled_constraints :: "seconds option \<Rightarrow> seconds option \<Rightarrow> bool \<Rightarrow> pydict" where
  "settled_constraints a b at_once = moment_entry ''not_before'' a @ moment_entry ''expires_at'' b @
     (if at_once then [(''delivery'', PStr delivery_now)] else [])"

definition moment_value :: "seconds option \<Rightarrow> pyval" where
  "moment_value t = (case t of None \<Rightarrow> PNone | Some x \<Rightarrow> PFloat x)"

lemma settled_get:
  "py_get (settled_constraints a b m) ''not_before'' = moment_value a"
  "py_get (settled_constraints a b m) ''expires_at'' = moment_value b"
  "py_get (settled_constraints a b m) ''delivery'' = (if m then PStr delivery_now else PNone)"
  "py_get (settled_constraints a b m) ''delay_seconds'' = PNone"
  by (simp_all add: settled_constraints_def moment_entry_def moment_value_def py_get_def split: option.split)

lemma moment_value_real [simp]: "py_real (moment_value t) = t" "moment_value t = PNone \<longleftrightarrow> t = None"
  "moment_value None = PNone"
  by (simp_all add: moment_value_def split: option.split)

lemma constraint_momentD:
  assumes "constraint_moment now k v = Inr a" "v \<noteq> PNaN"
  shows "\<exists>t. a = moment_entry k t \<and> (\<forall>x. t = Some x \<longrightarrow> x \<le> now + max_schedule_horizon_seconds)"
proof (cases "v = PNone")
  case True
  with assms(1) show ?thesis by (intro exI [of _ None]) (simp add: constraint_moment_def moment_entry_def)
next
  case False
  with assms obtain t where "py_real v = Some t" "t \<le> now + max_schedule_horizon_seconds" "a = [(k, PFloat t)]"
    by (auto simp: constraint_moment_def split: if_splits option.splits)
  then show ?thesis by (intro exI [of _ "Some t"]) (simp add: moment_entry_def)
qed

lemma moment_kept:
  "(\<And>x. t = Some x \<Longrightarrow> x \<le> later + max_schedule_horizon_seconds) \<Longrightarrow>
     constraint_moment later k (moment_value t) = Inr (moment_entry k t)"
  by (cases t) (auto simp: constraint_moment_def moment_value_def moment_entry_def)

lemma constraint_modeD:
  assumes "constraint_mode v = Inr m"
  shows "m = [] \<or> m = [(''delivery'', PStr delivery_now)]"
  using assms by (auto simp: constraint_mode_def delivery_modes_def split: if_splits)

lemma window_settled:
  "window_is_empty (moment_entry ''not_before'' a @ moment_entry ''expires_at'' b) \<longleftrightarrow>
     (\<exists>x y. a = Some x \<and> b = Some y \<and> y \<le> x)"
proof -
  have "moment_entry ''not_before'' a @ moment_entry ''expires_at'' b = settled_constraints a b False"
    by (simp add: settled_constraints_def)
  then show ?thesis by (simp add: window_is_empty_def settled_get split: option.split)
qed

lemma moment_nan: "constraint_moment now k PNaN = Inr [(k, PNaN)]"
  by (simp add: constraint_moment_def)

lemma normalizeD:
  assumes "normalize_constraints raw now = Inr (Some c)" "PNaN \<notin> snd ` set c"
  shows "\<exists>a b m. c = settled_constraints a b m \<and> c \<noteq> [] \<and> \<not> (\<exists>x y. a = Some x \<and> b = Some y \<and> y \<le> x)
    \<and> (\<forall>x. a = Some x \<or> b = Some x \<longrightarrow> x \<le> now + max_schedule_horizon_seconds)"
proof -
  from assms(1) obtain c0 a b m where
    a: "constraint_moment now ''not_before'' (asked_not_before now c0) = Inr a"
    and b: "constraint_moment now ''expires_at'' (py_get c0 ''expires_at'') = Inr b"
    and m: "constraint_mode (py_get c0 ''delivery'') = Inr m"
    and c: "c = a @ b @ m" "c \<noteq> []" "\<not> window_is_empty (a @ b)"
    by (auto simp: normalize_constraints_def bind_err_def split: if_splits sum.splits pyval.splits)
  have "asked_not_before now c0 \<noteq> PNaN" using a c(1) assms(2) by (auto simp: moment_nan)
  moreover have "py_get c0 ''expires_at'' \<noteq> PNaN" using b c(1) assms(2) by (auto simp: moment_nan)
  ultimately obtain x y
    where "a = moment_entry ''not_before'' x" "b = moment_entry ''expires_at'' y"
      "\<forall>t. x = Some t \<or> y = Some t \<longrightarrow> t \<le> now + max_schedule_horizon_seconds"
    using constraint_momentD [OF a] constraint_momentD [OF b] by blast
  with c constraint_modeD [OF m] show ?thesis
    by (intro exI [of _ x] exI [of _ y] exI [of _ "m \<noteq> []"]) (auto simp: settled_constraints_def window_settled)
qed

lemma normalize_settled:
  assumes "settled_constraints a b m \<noteq> []" "\<not> (\<exists>x y. a = Some x \<and> b = Some y \<and> y \<le> x)"
    and "\<And>x. a = Some x \<or> b = Some x \<Longrightarrow> x \<le> later + max_schedule_horizon_seconds"
  shows "normalize_constraints (PDict (settled_constraints a b m)) later = Inr (Some (settled_constraints a b m))"
proof -
  have "asked_not_before later (settled_constraints a b m) = moment_value a"
    by (simp add: asked_not_before_def settled_get split: pyval.split)
  moreover have "constraint_mode (if m then PStr delivery_now else PNone) =
      Inr (if m then [(''delivery'', PStr delivery_now)] else [])"
    by (simp add: constraint_mode_def delivery_modes_def delivery_now_def delivery_when_idle_def)
  ultimately show ?thesis
    using assms by (simp add: normalize_constraints_def settled_get moment_kept bind_err_def window_settled)
      (auto simp: settled_constraints_def split: if_splits)
qed

lemma settled_due: "(\<nexists>x y. a = Some x \<and> b = Some y \<and> y \<le> x) \<Longrightarrow>
    \<exists>t. item_schedule_status (Some (settled_constraints a b m)) t = ''due''"
  by (rule exI [of _ "case a of Some x \<Rightarrow> x | None \<Rightarrow> (case b of Some y \<Rightarrow> y - 1 | None \<Rightarrow> 0)"])
    (auto simp: item_schedule_status_def constraint_reached_def settled_get split: option.split)

text \<open>
  Constraints the queue accepts, none of them not-a-number, lie within the scheduling horizon, leave a
  moment at which the item is due, and are kept as they are when they are sent back at any later time.
\<close>

theorem accepted_constraints_are_settled:
  assumes "normalize_constraints raw now = Inr (Some c)" "PNaN \<notin> snd ` set c"
  shows "(\<forall>k t. k \<in> {''not_before'', ''expires_at''} \<and> py_get c k = PFloat t \<longrightarrow>
           t \<le> now + max_schedule_horizon_seconds)
    \<and> (\<exists>t. item_schedule_status (Some c) t = ''due'')
    \<and> (now \<le> later \<longrightarrow> normalize_constraints (PDict c) later = Inr (Some c))"
proof -
  from normalizeD [OF assms] obtain a b m where c: "c = settled_constraints a b m" "c \<noteq> []"
    and w: "\<not> (\<exists>x y. a = Some x \<and> b = Some y \<and> y \<le> x)"
    and h: "\<forall>x. a = Some x \<or> b = Some x \<longrightarrow> x \<le> now + max_schedule_horizon_seconds" by blast
  from normalize_settled [of a b m later] h w c
  have "now \<le> later \<longrightarrow> normalize_constraints (PDict c) later = Inr (Some c)" by force
  moreover have "\<forall>k t. k \<in> {''not_before'', ''expires_at''} \<and> py_get c k = PFloat t \<longrightarrow>
      t \<le> now + max_schedule_horizon_seconds"
    using h by (auto simp: c settled_get moment_value_def split: option.splits)
  ultimately show ?thesis using settled_due [OF w] c by blast
qed

theorem accepted_constraints_are_settled_witness:
  "normalize_constraints (PDict [(''delay_seconds'', PInt 60), (''expires_at'', PFloat 700), (''delivery'', PStr ''now'')]) 500
     = Inr (Some [(''not_before'', PFloat 560), (''expires_at'', PFloat 700), (''delivery'', PStr ''now'')])
   \<and> normalize_constraints (PDict [(''not_before'', PFloat 560), (''expires_at'', PFloat 700), (''delivery'', PStr ''now'')]) 600
     = Inr (Some [(''not_before'', PFloat 560), (''expires_at'', PFloat 700), (''delivery'', PStr ''now'')])"
proof -
  have "normalize_constraints (PDict [(''delay_seconds'', PInt 60), (''expires_at'', PFloat 700), (''delivery'', PStr ''now'')]) 500
     = Inr (Some [(''not_before'', PFloat 560), (''expires_at'', PFloat 700), (''delivery'', PStr ''now'')])" by code_simp
  from accepted_constraints_are_settled [OF this, of 600] this show ?thesis by simp
qed

subsection \<open>One send, whatever runs beside it\<close>

text \<open>
  The steps of one send in their order, each in a world that anything may have changed since the last:
  the environments they ran in, the effects they had and where the send stands.
\<close>

inductive send_path ::
  "queue_config \<Rightarrow> send_env list \<Rightarrow> send_task \<Rightarrow> service_effect list \<Rightarrow> send_task \<Rightarrow> bool" for cfg where
  send_here: "send_path cfg [] k [] k"
| send_on: "send_step cfg e k w = (k1, w1) \<Longrightarrow> qw_effects w1 = qw_effects w @ xs \<Longrightarrow>
    send_path cfg es k1 ys k2 \<Longrightarrow> send_path cfg (e # es) k (xs @ ys) k2"

lemma log_effect_fields [simp]:
  "qw_effects (log_effect x w) = qw_effects w @ [x]" "qw_store (log_effect x w) = qw_store w"
  "qw_tracker (log_effect x w) = qw_tracker w"
  by (simp_all add: log_effect_def)

lemma goto_phase_fields [simp]:
  "sk_phase (goto_phase p k) = p" "sk_request (goto_phase p k) = sk_request k"
  "sk_message (goto_phase p k) = sk_message k" "sk_data (goto_phase p k) = sk_data k"
  "sk_delivery (goto_phase p k) = sk_delivery k" "sk_judgement (goto_phase p k) = sk_judgement k"
  "sk_bytes (goto_phase p k) = sk_bytes k"
  by (simp_all add: goto_phase_def)

lemma prepare_send_fields [simp]:
  "sk_phase (prepare_send cfg s k) = Send_Judge delivery_judgement_attempts []"
  "sk_request (prepare_send cfg s k) = sk_request k" "sk_message (prepare_send cfg s k) = sk_message k"
  "sk_data (prepare_send cfg s k) = delivery_payload (qc_harnesses cfg) (pq_body (sk_message k)) (tg_backend s)"
  "sk_delivery (prepare_send cfg s k) = sk_delivery k"
  by (simp_all add: prepare_send_def Let_def)

fun is_paste :: "service_effect \<Rightarrow> bool" where
  "is_paste (Paste_Tried t mid d cond) = True"
| "is_paste _ = False"

fun is_press :: "service_effect \<Rightarrow> bool" where
  "is_press (Submit_Tried t mid) = True"
| "is_press _ = False"

text \<open>How many pastes and presses may still come.\<close>

fun pastes_left :: "send_phase \<Rightarrow> nat" where
  "pastes_left Send_Claim = 1"
| "pastes_left Send_Check = 1"
| "pastes_left (Send_Bind r) = 1"
| "pastes_left (Send_Judge n refs) = 1"
| "pastes_left (Send_Paste c n refs) = 1"
| "pastes_left _ = 0"

fun presses_left :: "queue_config \<Rightarrow> send_phase \<Rightarrow> nat" where
  "presses_left cfg (Send_Press b rest) = Suc (length rest)"
| "presses_left cfg (Send_Watch b d rest) = length rest"
| "presses_left cfg (Send_Pause b rest) = length rest"
| "presses_left cfg Send_Settle = Suc (length (qc_retry_delays cfg))"
| "presses_left cfg p = (if pastes_left p = 0 then 0 else Suc (length (qc_retry_delays cfg)))"

fun pauses_ok :: "send_phase \<Rightarrow> bool" where
  "pauses_ok (Send_Pause b rest) = (rest \<noteq> [])"
| "pauses_ok _ = True"

lemmas step_defs = send_step_def claim_step_def check_step_def bind_step_def judge_step_def paste_step_def
  settle_step_def submitted_step_def go_on_def press_step_def watch_step_def pause_step_def
  finalize_step_def announce_step_def credit_step_def watch_or_next_def next_press_def Let_def

lemma step_counts:
  assumes "send_step cfg e k w = (k1, w1)" "qw_effects w1 = qw_effects w @ xs" "pauses_ok (sk_phase k)"
  shows "length (filter is_paste xs) + pastes_left (sk_phase k1) \<le> pastes_left (sk_phase k)
    \<and> length (filter is_press xs) + presses_left cfg (sk_phase k1) \<le> presses_left cfg (sk_phase k)
    \<and> pauses_ok (sk_phase k1)"
proof (cases "sk_phase k")
  case Send_Claim
  with assms show ?thesis by (auto simp: step_defs split: if_splits sum.splits claim_answer.splits)
next
  case Send_Check
  with assms show ?thesis by (auto simp: step_defs split: option.splits if_splits)
next
  case (Send_Bind r)
  with assms show ?thesis by (auto simp: step_defs)
next
  case (Send_Judge n refs)
  with assms show ?thesis by (auto simp: step_defs split: nat.splits prod.splits sum.splits)
next
  case (Send_Paste c n refs)
  with assms show ?thesis by (auto simp: step_defs split: write_answer.splits)
next
  case Send_Settle
  with assms show ?thesis by (auto simp: step_defs split: if_splits prod.splits)
next
  case (Send_Press b rest)
  with assms show ?thesis by (auto simp: step_defs split: write_answer.splits if_splits)
next
  case (Send_Watch b d rest)
  with assms show ?thesis by (auto simp: step_defs split: if_splits prod.splits)
next
  case (Send_Pause b rest)
  with assms show ?thesis by (auto simp: step_defs split: if_splits prod.splits)
next
  case (Send_Refuse r)
  with assms show ?thesis by (auto simp: step_defs split: prod.splits option.splits)
next
  case (Send_Fail err)
  with assms show ?thesis by (auto simp: step_defs split: prod.splits option.splits)
next
  case (Send_Close s)
  with assms show ?thesis by (auto simp: step_defs split: prod.splits option.splits)
next
  case (Send_Announce s a)
  with assms show ?thesis
    by (cases a) (auto simp: step_defs emit_updated_def delivery_reported_def split: if_splits)
next
  case (Send_Credit a)
  with assms show ?thesis by (auto simp: step_defs delivery_reported_def split: prod.splits)
next
  case (Send_Ended a)
  with assms show ?thesis by (auto simp: step_defs)
qed

lemma path_counts:
  assumes "send_path cfg es k xs k1" "pauses_ok (sk_phase k)"
  shows "length (filter is_paste xs) + pastes_left (sk_phase k1) \<le> pastes_left (sk_phase k)
    \<and> length (filter is_press xs) + presses_left cfg (sk_phase k1) \<le> presses_left cfg (sk_phase k)"
  using assms
proof (induction rule: send_path.induct)
  case (send_here k)
  then show ?case by simp
next
  case (send_on e k w k1 w1 xs es ys k2)
  from step_counts [OF send_on.hyps(1,2) send_on.prems] send_on.IH show ?case by auto
qed

lemma step_opens:
  assumes "send_step cfg e k w = (k1, w1)" "qw_effects w1 = qw_effects w @ xs" "pastes_left (sk_phase k) = 1"
  shows "filter is_press xs = []
    \<and> (0 < presses_left cfg (sk_phase k1) \<longrightarrow> length (filter is_paste xs) + pastes_left (sk_phase k1) = 1)"
proof (cases "sk_phase k")
  case Send_Claim
  with assms show ?thesis by (auto simp: step_defs split: if_splits sum.splits claim_answer.splits)
next
  case Send_Check
  with assms show ?thesis by (auto simp: step_defs split: option.splits if_splits)
next
  case (Send_Bind r)
  with assms show ?thesis by (auto simp: step_defs)
next
  case (Send_Judge n refs)
  with assms show ?thesis by (auto simp: step_defs split: nat.splits prod.splits sum.splits)
next
  case (Send_Paste c n refs)
  with assms show ?thesis by (auto simp: step_defs split: write_answer.splits)
qed (use assms in simp_all)

lemma press_after_paste:
  assumes "send_path cfg es k xs k2" "pauses_ok (sk_phase k)" "xs = as @ x # bs" "is_press x"
  shows "length (filter is_paste as) = pastes_left (sk_phase k)"
  using assms
proof (induction arbitrary: as rule: send_path.induct)
  case (send_here k)
  then show ?case by simp
next
  case (send_on e k w k1 w1 xs es ys k2)
  note counts = step_counts [OF send_on.hyps(1,2) send_on.prems(1)]
  have le1: "pastes_left (sk_phase k) \<le> 1" by (cases "sk_phase k") simp_all
  from send_on.prems(2) consider us where "xs = as @ x # us" | us where "as = xs @ us" "ys = us @ x # bs"
    by (auto simp: append_eq_append_conv2 append_eq_Cons_conv Cons_eq_append_conv)
  then show ?case
  proof cases
    case 1
    with send_on.prems(3) have "filter is_press xs \<noteq> []" by simp
    with step_opens [OF send_on.hyps(1,2)] le1 have "pastes_left (sk_phase k) = 0" by linarith
    with counts 1 show ?thesis by simp
  next
    case 2
    have IH: "length (filter is_paste us) = pastes_left (sk_phase k1)"
      using send_on.IH [OF _ 2(2) send_on.prems(3)] counts by simp
    have "0 < length (filter is_press ys)" using 2(2) send_on.prems(3) by simp
    with path_counts [OF send_on.hyps(3)] counts have "0 < presses_left cfg (sk_phase k1)" by linarith
    with step_opens [OF send_on.hyps(1,2)] counts le1 IH 2(1) show ?thesis
      by (cases "pastes_left (sk_phase k) = 1") auto
  qed
qed

text \<open>
  However other requests interleave with its waits, one send pastes its text at most once, presses
  submit at most once plus once per retry delay, and presses only after its one paste.
\<close>

theorem one_paste_per_send:
  assumes "send_path cfg es (start_send q) xs k"
  shows "length (filter is_paste xs) \<le> 1
    \<and> length (filter is_press xs) \<le> Suc (length (qc_retry_delays cfg))
    \<and> (\<forall>as t mid bs. xs = as @ Submit_Tried t mid # bs \<longrightarrow> length (filter is_paste as) = 1)"
proof -
  have s: "sk_phase (start_send q) = Send_Claim" by (simp add: start_send_def)
  from path_counts [OF assms] press_after_paste [OF assms] show ?thesis by (simp add: s)
qed

subsection \<open>What a paste rests on\<close>

text \<open>
  A verdict that allows a write: nothing protected stands in the way, and the write carries
  the verdict as its condition unless a person overrode a verdict that was not safe.
\<close>

definition allowed_by :: "queue_config \<Rightarrow> send_request \<Rightarrow> prompt_row \<Rightarrow> write_condition option
    \<Rightarrow> target_session \<Rightarrow> evaluation \<Rightarrow> bool" where
  "allowed_by cfg q m cond s ev \<longleftrightarrow> protected_reasons s (ev_reasons ev) = [] \<and>
     (case cond of
        Some c \<Rightarrow> c = delivery_condition ev \<and>
          (ev_state ev = Verdict_Safe \<or>
           delivery_mode (qc_repr cfg) m = delivery_now \<and> ev_interject ev = Verdict_Safe)
      | None \<Rightarrow> ev_state ev \<noteq> Verdict_Safe \<and> sq_confirm q \<and> sq_initiator q = ''user'')"

definition payload_of :: "queue_config \<Rightarrow> send_env set \<Rightarrow> prompt_row \<Rightarrow> string \<Rightarrow> bool" where
  "payload_of cfg E m d \<longleftrightarrow> (\<exists>e \<in> E. \<exists>s \<in> insert (sv_target e) (set_option (sv_lookup e)).
     d = delivery_payload (qc_harnesses cfg) (pq_body m) (tg_backend s))"

lemma payload_lookupI:
  "e \<in> E \<Longrightarrow> sv_lookup e = Some s \<Longrightarrow>
     payload_of cfg E m (delivery_payload (qc_harnesses cfg) (pq_body m) (tg_backend s))"
  unfolding payload_of_def by (rule bexI [of _ e]) auto

lemma payload_targetI:
  "e \<in> E \<Longrightarrow> payload_of cfg E m (delivery_payload (qc_harnesses cfg) (pq_body m) (tg_backend (sv_target e)))"
  unfolding payload_of_def by (rule bexI [of _ e]) auto

lemma decide_allowed:
  assumes "decide cfg (sq_confirm q) m s ev = Inr (j, cond)"
    and "sq_initiator q = ''user'' \<or> \<not> sq_confirm q"
  shows "allowed_by cfg q m cond s ev"
  using assms by (auto simp: decide_def allowed_by_def Let_def split: if_splits)

subsection \<open>Every send ends\<close>

text \<open>
  A send under its clock: time does not go back, and a watch sleeps for its polling interval. What the
  rest of the daemon, the terminal and the agent do is arbitrary.
\<close>

inductive timed_path ::
  "queue_config \<Rightarrow> seconds \<Rightarrow> send_env list \<Rightarrow> send_task \<Rightarrow> seconds \<Rightarrow> send_task \<Rightarrow> bool" for cfg where
  timed_here: "timed_path cfg t [] k t k"
| timed_on: "t \<le> sv_clock e \<Longrightarrow>
    (\<And>b d rest. sk_phase k = Send_Watch b d rest \<Longrightarrow> t + submit_confirm_poll_seconds \<le> sv_clock e) \<Longrightarrow>
    send_step cfg e k w = (k1, w1) \<Longrightarrow> timed_path cfg (sv_clock e) es k1 t2 k2 \<Longrightarrow>
    timed_path cfg t (e # es) k t2 k2"

definition polls :: "seconds \<Rightarrow> nat" where
  "polls s = nat \<lceil>s / submit_confirm_poll_seconds\<rceil>"

lemma polls_less:
  assumes "t + submit_confirm_poll_seconds \<le> c" "t < d"
  shows "polls (d - c) < polls (d - t)"
proof -
  let ?p = "submit_confirm_poll_seconds"
  have p: "0 < ?p" by (simp add: submit_confirm_poll_seconds_def)
  have "(d - c) / ?p \<le> (d - t - ?p) / ?p" using assms(1) p by (intro divide_right_mono) auto
  also have "\<dots> = (d - t) / ?p - 1" using p by (simp add: diff_divide_distrib)
  finally have "\<lceil>(d - c) / ?p\<rceil> \<le> \<lceil>(d - t) / ?p\<rceil> - 1" by linarith
  moreover have "0 < \<lceil>(d - t) / ?p\<rceil>" using assms(2) p by simp
  ultimately show ?thesis by (simp add: polls_def)
qed

lemma polls_mono: "x \<le> y \<Longrightarrow> polls x \<le> polls y"
  by (simp add: polls_def submit_confirm_poll_seconds_def nat_mono ceiling_mono)

text \<open>How many steps one further press costs, and how many a send has left.\<close>

definition press_cost :: "queue_config \<Rightarrow> nat" where
  "press_cost cfg = polls (qc_submit_confirm cfg) + 2"

definition ladder_cost :: "queue_config \<Rightarrow> nat" where
  "ladder_cost cfg = polls (qc_submit_confirm cfg) + length (qc_retry_delays cfg) * press_cost cfg"

fun steps_left :: "queue_config \<Rightarrow> seconds \<Rightarrow> send_phase \<Rightarrow> nat" where
  "steps_left cfg t (Send_Ended a) = 0"
| "steps_left cfg t (Send_Credit a) = 1"
| "steps_left cfg t (Send_Announce s a) = 2"
| "steps_left cfg t (Send_Refuse r) = 3"
| "steps_left cfg t (Send_Fail err) = 3"
| "steps_left cfg t (Send_Close s) = 3"
| "steps_left cfg t (Send_Watch b d rest) = 3 + polls (d - t) + length rest * press_cost cfg"
| "steps_left cfg t (Send_Pause b rest) = 3 + length rest * press_cost cfg"
| "steps_left cfg t (Send_Press b rest) = 4 + polls (qc_submit_confirm cfg) + length rest * press_cost cfg"
| "steps_left cfg t Send_Settle = 5 + ladder_cost cfg"
| "steps_left cfg t (Send_Judge n refs) = 6 + ladder_cost cfg + 2 * n"
| "steps_left cfg t (Send_Paste c n refs) = 7 + ladder_cost cfg + 2 * n"
| "steps_left cfg t (Send_Bind r) = 13 + ladder_cost cfg"
| "steps_left cfg t Send_Check = 14 + ladder_cost cfg"
| "steps_left cfg t Send_Claim = 15 + ladder_cost cfg"

fun ladder_ok :: "seconds \<Rightarrow> send_phase \<Rightarrow> bool" where
  "ladder_ok t (Send_Watch b d rest) = (t < d)"
| "ladder_ok t (Send_Pause b rest) = (rest \<noteq> [])"
| "ladder_ok t p = True"

lemma press_cost_pos [simp]: "0 < press_cost cfg"
  by (simp add: press_cost_def)

lemma pause_cost: "rest \<noteq> [] \<Longrightarrow> 4 + polls (qc_submit_confirm cfg) + length (tl rest) * press_cost cfg
    < 3 + length rest * press_cost cfg"
  by (cases rest) (simp_all add: press_cost_def)

lemma early_refusal_live: "early_refusal e confirm m = None \<Longrightarrow> sv_lookup e \<noteq> None"
  by (auto simp: early_refusal_def split: if_splits option.splits)

lemma step_shortens:
  assumes st: "send_step cfg e k w = (k1, w1)" and t: "t \<le> sv_clock e" and ok: "ladder_ok t (sk_phase k)"
    and poll: "\<And>b d rest. sk_phase k = Send_Watch b d rest \<Longrightarrow> t + submit_confirm_poll_seconds \<le> sv_clock e"
    and "\<nexists>a. sk_phase k = Send_Ended a"
  shows "steps_left cfg (sv_clock e) (sk_phase k1) < steps_left cfg t (sk_phase k)
    \<and> ladder_ok (sv_clock e) (sk_phase k1)"
proof (cases "sk_phase k")
  case Send_Claim
  with st show ?thesis by (auto simp: step_defs split: if_splits sum.splits claim_answer.splits)
next
  case Send_Check
  with st show ?thesis
    by (auto simp: step_defs delivery_judgement_attempts_def split: option.splits if_splits dest: early_refusal_live)
next
  case (Send_Bind r)
  with st show ?thesis by (auto simp: step_defs delivery_judgement_attempts_def)
next
  case (Send_Judge n refs)
  with st show ?thesis by (auto simp: step_defs split: nat.splits prod.splits sum.splits)
next
  case (Send_Paste c n refs)
  with st show ?thesis by (auto simp: step_defs split: write_answer.splits)
next
  case Send_Settle
  with st show ?thesis by (auto simp: step_defs ladder_cost_def split: if_splits prod.splits)
next
  case (Send_Press b rest)
  with st show ?thesis by (auto simp: step_defs split: write_answer.splits if_splits)
next
  case (Send_Watch b d rest)
  with ok have "t < d" by simp
  with polls_less [OF poll [OF Send_Watch] this] have "polls (d - sv_clock e) < polls (d - t)" by simp
  with Send_Watch st show ?thesis by (auto simp: step_defs split: if_splits prod.splits)
next
  case (Send_Pause b rest)
  with ok pause_cost [of rest cfg] st show ?thesis by (auto simp: step_defs split: if_splits prod.splits)
next
  case (Send_Refuse r)
  with st show ?thesis by (auto simp: step_defs split: prod.splits option.splits)
next
  case (Send_Fail err)
  with st show ?thesis by (auto simp: step_defs split: prod.splits option.splits)
next
  case (Send_Close s)
  with st show ?thesis by (auto simp: step_defs split: prod.splits option.splits)
next
  case (Send_Announce s a)
  with st show ?thesis by (cases a) (auto simp: step_defs split: if_splits)
next
  case (Send_Credit a)
  with st show ?thesis by (auto simp: step_defs split: prod.splits)
qed (use assms(5) in simp)

lemma ended_stays:
  assumes "timed_path cfg t es k t2 k2" "sk_phase k = Send_Ended a"
  shows "sk_phase k2 = Send_Ended a"
  using assms by (induction rule: timed_path.induct) (auto simp: send_step_def)

lemma path_shortens:
  assumes "timed_path cfg t es k t2 k2" "ladder_ok t (sk_phase k)"
  shows "(\<exists>a. sk_phase k2 = Send_Ended a) \<or>
    steps_left cfg t2 (sk_phase k2) + length es \<le> steps_left cfg t (sk_phase k)"
  using assms
proof (induction rule: timed_path.induct)
  case (timed_here t k)
  then show ?case by simp
next
  case (timed_on t e k w k1 w1 es t2 k2)
  show ?case
  proof (cases "\<exists>a. sk_phase k = Send_Ended a")
    case True
    then obtain a where "sk_phase k = Send_Ended a" by blast
    moreover have "timed_path cfg t (e # es) k t2 k2"
      by (rule timed_path.timed_on [OF timed_on.hyps(1) _ timed_on.hyps(3,4)]) (rule timed_on.hyps(2))
    ultimately show ?thesis using ended_stays by blast
  next
    case False
    have "steps_left cfg (sv_clock e) (sk_phase k1) < steps_left cfg t (sk_phase k)"
      and "ladder_ok (sv_clock e) (sk_phase k1)"
      using step_shortens [OF timed_on.hyps(3,1) timed_on.prems _ False] timed_on.hyps(2) by blast+
    with timed_on.IH show ?thesis by auto
  qed
qed

text \<open>
  C20. A send ends, whatever the terminal, the agent and the other requests do: it takes at most fifteen
  steps, the polls of one confirmation window and, per retry delay, those polls and two steps more.
\<close>

theorem every_send_ends:
  assumes "timed_path cfg t es (start_send q) t2 k" and "15 + ladder_cost cfg \<le> length es"
  shows "\<exists>a. sk_phase k = Send_Ended a"
proof (rule ccontr)
  assume no: "\<nexists>a. sk_phase k = Send_Ended a"
  have s: "sk_phase (start_send q) = Send_Claim" by (simp add: start_send_def)
  from path_shortens [OF assms(1)] no s assms(2) have "steps_left cfg t2 (sk_phase k) = 0" by simp
  with no show False by (cases "sk_phase k") auto
qed
subsection \<open>A send that goes through\<close>

definition demo_target :: "string \<Rightarrow> int \<Rightarrow> target_session" where
  "demo_target state turn = \<lparr>tg_ready = demo_ready_session\<lparr>dr_state := state\<rparr>, tg_backend = Some ''claude'',
     tg_name = Some ''a'', tg_project = None, tg_awaiting_reason = None, tg_turn_epoch = turn,
     tg_turn_started = 0\<rparr>"

definition demo_config :: queue_config where
  "demo_config = \<lparr>qc_harnesses = demo_harness, qc_repr = (\<lambda>_. ''''), qc_submit_delay = submit_delay_seconds,
     qc_submit_confirm = submit_confirm_seconds, qc_retry_delays = submit_retry_delays\<rparr>"

definition demo_moment :: "seconds \<Rightarrow> target_session \<Rightarrow> send_env" where
  "demo_moment t s = \<lparr>sv_now = t, sv_clock = t, sv_lookup = Some s, sv_target = s, sv_fresh = ''d'',
     sv_answer = Write_Done\<rparr>"

definition demo_send :: send_request where
  "demo_send = \<lparr>sq_message = ''a'', sq_revision = 1, sq_key = Some ''k'', sq_confirm = False, sq_initiator = ''user''\<rparr>"

definition demo_world :: queue_world where
  "demo_world = \<lparr>qw_store = demo_queue, qw_tracker = demo_readiness, qw_effects = []\<rparr>"

text \<open>Up to the press the session is idle; the first poll finds it working.\<close>

definition demo_moments :: "send_env list" where
  "demo_moments = map (\<lambda>t. demo_moment t (demo_target ''idle'' 3)) [20, 20, 20, 20, 20, 21, 21] @
     map (\<lambda>t. demo_moment t (demo_target ''working'' 4)) [22, 22, 22, 22]"

lemma step_effects: "\<exists>xs. qw_effects (snd (send_step cfg e k w)) = qw_effects w @ xs"
  by (cases "sk_phase k")
    (auto simp: step_defs split: if_splits sum.splits claim_answer.splits option.splits nat.splits
      prod.splits write_answer.splits send_answer.splits)

lemma run_is_path: "\<exists>xs. send_path cfg es k xs (fst (run_send cfg es k w)) \<and>
    qw_effects (snd (run_send cfg es k w)) = qw_effects w @ xs"
proof (induction es arbitrary: k w)
  case Nil
  then show ?case by (auto intro: send_here)
next
  case (Cons e es)
  obtain k1 w1 where st: "send_step cfg e k w = (k1, w1)" by force
  with step_effects [of cfg e k w] obtain xs where xs: "qw_effects w1 = qw_effects w @ xs" by auto
  from Cons [of k1 w1] obtain ys where "send_path cfg es k1 ys (fst (run_send cfg es k1 w1))"
    "qw_effects (snd (run_send cfg es k1 w1)) = qw_effects w1 @ ys" by blast
  with send_on [OF st xs] xs st show ?case by auto
qed

lemma demo_path: "\<exists>k. send_path demo_config demo_moments (start_send demo_send)
    (qw_effects (snd (run_send demo_config demo_moments (start_send demo_send) demo_world))) k"
  using run_is_path [of demo_config demo_moments "start_send demo_send" demo_world]
  by (auto simp: demo_world_def)

lemma demo_effects:
  "map is_paste (qw_effects (snd (run_send demo_config demo_moments (start_send demo_send) demo_world)))
     = [True, False, False, False, False]"
  "map is_press (qw_effects (snd (run_send demo_config demo_moments (start_send demo_send) demo_world)))
     = [False, True, False, False, False]"
  by code_simp+

lemma demo_send_path:
  "\<exists>t mid d cond xs k. send_path demo_config demo_moments (start_send demo_send) (Paste_Tried t mid d cond # xs) k
     \<and> map is_press xs = [True, False, False, False]"
proof -
  obtain x xs where e: "qw_effects (snd (run_send demo_config demo_moments (start_send demo_send) demo_world)) = x # xs"
    and x: "is_paste x" and xs: "map is_press xs = [True, False, False, False]"
    using demo_effects by (auto simp: map_eq_Cons_conv)
  from demo_path obtain k where "send_path demo_config demo_moments (start_send demo_send) (x # xs) k"
    unfolding e by blast
  moreover from x obtain t mid d cond where "x = Paste_Tried t mid d cond" by (cases x) auto
  ultimately show ?thesis using xs by metis
qed

theorem one_paste_per_send_witness:
  "\<exists>xs k. send_path demo_config demo_moments (start_send demo_send) xs k \<and>
     length (filter is_paste xs) = 1 \<and> length (filter is_press xs) \<le> 4"
proof -
  from demo_send_path obtain t mid d cond xs k
    where p: "send_path demo_config demo_moments (start_send demo_send) (Paste_Tried t mid d cond # xs) k"
    by blast
  from one_paste_per_send [OF p] p show ?thesis
    by (intro exI [of _ "Paste_Tried t mid d cond # xs"] exI [of _ k])
      (simp add: demo_config_def submit_retry_delays_def)
qed

subsection \<open>What a paste rests on\<close>

text \<open>
  The steps of one send paired with the environment each ran in and the world it found: anything may have
  changed between the steps, so the worlds are arbitrary.
\<close>

inductive send_trace ::
  "queue_config \<Rightarrow> (send_env \<times> queue_world) list \<Rightarrow> send_task \<Rightarrow> service_effect list \<Rightarrow> send_task \<Rightarrow> bool" for cfg where
  trace_here: "send_trace cfg [] k [] k"
| trace_on: "send_step cfg e k w = (k1, w1) \<Longrightarrow> qw_effects w1 = qw_effects w @ xs \<Longrightarrow>
    send_trace cfg ews k1 ys k2 \<Longrightarrow> send_trace cfg ((e, w) # ews) k (xs @ ys) k2"

lemma trace_is_path: "send_trace cfg ews k xs k2 \<Longrightarrow> send_path cfg (map fst ews) k xs k2"
  by (induction rule: send_trace.induct) (auto intro: send_path.intros)

text \<open>The row the claim found in its world, at the head of its line and at the revision the sender saw.\<close>

definition claimed_in :: "send_request \<Rightarrow> prompt_row \<Rightarrow> queue_world \<Rightarrow> bool" where
  "claimed_in q m w \<longleftrightarrow> find_message (sq_message q) (qw_store w) = Some m \<and> is_pending m \<and>
     pq_revision m = sq_revision q \<and> line_blocker m (qw_store w) = None \<and>
     (sq_initiator q = ''user'' \<or> \<not> sq_confirm q)"

text \<open>Unexpired, due unless a person waives the schedule, and of the run a live session has.\<close>

definition due_and_alive :: "bool \<Rightarrow> prompt_row \<Rightarrow> send_env \<Rightarrow> bool" where
  "due_and_alive confirm m e \<longleftrightarrow> constraint_reached ''expires_at'' (pq_constraints m) (sv_now e) \<noteq> Some True \<and>
     (constraint_reached ''not_before'' (pq_constraints m) (sv_now e) \<noteq> Some False \<or> confirm) \<and>
     (\<exists>s. sv_lookup e = Some s \<and> \<not> has_ended s \<and> \<not> run_replaced (pq_target_run m) (dr_run (tg_ready s)))"

definition verdict_in :: "queue_config \<Rightarrow> send_env \<Rightarrow> queue_world \<Rightarrow> evaluation" where
  "verdict_in cfg e w =
     fst (evaluate (qc_harnesses cfg) True 0 True (tg_ready (sv_target e)) (sv_clock e) (qw_tracker w))"

text \<open>What the steps so far have established, by where the send stands.\<close>

definition trace_ok ::
  "queue_config \<Rightarrow> send_request \<Rightarrow> (send_env \<times> queue_world) list \<Rightarrow> send_task \<Rightarrow> bool" where
  "trace_ok cfg q hs k \<longleftrightarrow> sk_request k = q \<and>
     (case sk_phase k of
        Send_Claim \<Rightarrow> hs = []
      | Send_Check \<Rightarrow> (\<exists>e w. hs = [(e, w)] \<and> claimed_in q (sk_message k) w)
      | Send_Bind r \<Rightarrow> (\<exists>e w e1 w1. hs = [(e, w), (e1, w1)] \<and> claimed_in q (sk_message k) w \<and>
          due_and_alive (sq_confirm q) (sk_message k) e1)
      | Send_Judge n refs \<Rightarrow> (\<exists>e w e1 w1 as. hs = (e, w) # (e1, w1) # as \<and> claimed_in q (sk_message k) w \<and>
          due_and_alive (sq_confirm q) (sk_message k) e1 \<and>
          payload_of cfg (insert e1 (fst ` set as)) (sk_message k) (sk_data k))
      | Send_Paste cond n refs \<Rightarrow> (\<exists>e w e1 w1 as ej wj. hs = (e, w) # (e1, w1) # as @ [(ej, wj)] \<and>
          claimed_in q (sk_message k) w \<and> due_and_alive (sq_confirm q) (sk_message k) e1 \<and>
          payload_of cfg (insert e1 (fst ` set as)) (sk_message k) (sk_data k) \<and>
          allowed_by cfg q (sk_message k) cond (sv_target ej) (verdict_in cfg ej wj))
      | _ \<Rightarrow> True)"

lemma claim_opened_in:
  assumes "claim_for_delivery (sq_message q) (sq_revision q) key ini did now (qw_store w) = Inr (Claim_Opened d row, st')"
  shows "sq_initiator q = ''user'' \<Longrightarrow> claimed_in q row w" "\<not> sq_confirm q \<Longrightarrow> claimed_in q row w"
  using claim_opened [OF assms(1)] by (simp_all add: claimed_in_def)

lemma early_refusal_due: "early_refusal e confirm m = None \<Longrightarrow> due_and_alive confirm m e"
  by (auto simp: early_refusal_def due_and_alive_def split: if_splits option.splits)

lemma decide_in:
  assumes "decide cfg (sq_confirm q) m (sv_target e) (verdict_in cfg e w) = Inr (j, cond)" "claimed_in q m w0"
  shows "allowed_by cfg q m cond (sv_target e) (verdict_in cfg e w)"
  by (rule decide_allowed [OF assms(1)]) (use assms(2) in \<open>simp add: claimed_in_def\<close>)

lemma check_traced:
  assumes "check_step cfg e k = k1" "sk_phase k = Send_Check" "trace_ok cfg q hs k"
  shows "trace_ok cfg q (hs @ [(e, w)]) k1"
proof (cases "early_refusal e (sq_confirm q) (sk_message k)")
  case None
  with early_refusal_live [OF None] obtain s where s: "sv_lookup e = Some s" by auto
  from payload_lookupI [OF insertI1 s] have
    "payload_of cfg (insert e {}) (sk_message k) (delivery_payload (qc_harnesses cfg) (pq_body (sk_message k)) (tg_backend s))"
    by blast
  with None s assms early_refusal_due [OF None] show ?thesis
    by (auto simp: check_step_def trace_ok_def Let_def split: if_splits)
qed (use assms in \<open>auto simp: check_step_def trace_ok_def\<close>)

lemma bind_traced:
  assumes "bind_step cfg e r k w = (k1, w1)" "sk_phase k = Send_Bind r" "trace_ok cfg q hs k"
  shows "trace_ok cfg q (hs @ [(e, w)]) k1"
proof -
  have "payload_of cfg {e1, e} (sk_message k) (delivery_payload (qc_harnesses cfg) (pq_body (sk_message k)) (tg_backend (sv_target e)))"
    for e1 by (rule payload_targetI) simp
  with assms show ?thesis by (auto simp: bind_step_def trace_ok_def)
qed

lemma payload_mono: "payload_of cfg E m d \<Longrightarrow> E \<subseteq> E' \<Longrightarrow> payload_of cfg E' m d"
  by (auto simp: payload_of_def)

lemma judge_traced:
  assumes "judge_step cfg e n refs k w = (k1, w1)" "sk_phase k = Send_Judge n refs" "trace_ok cfg q hs k"
  shows "trace_ok cfg q (hs @ [(e, w)]) k1"
proof -
  obtain ev tr where ev: "evaluate (qc_harnesses cfg) True 0 True (tg_ready (sv_target e)) (sv_clock e) (qw_tracker w) = (ev, tr)"
    by force
  then have "ev = verdict_in cfg e w" by (simp add: verdict_in_def)
  with assms ev show ?thesis
    by (auto simp: judge_step_def trace_ok_def Let_def split: nat.splits sum.splits dest: decide_in)
qed

definition paste_from ::
  "queue_config \<Rightarrow> send_request \<Rightarrow> (send_env \<times> queue_world) list \<Rightarrow> send_env \<Rightarrow> service_effect \<Rightarrow> bool" where
  "paste_from cfg q hs ep x \<longleftrightarrow> (\<forall>t mid d cond. x = Paste_Tried t mid d cond \<longrightarrow>
     mid = sq_message q \<and> (\<forall>r. sv_answer ep \<noteq> Write_Refused r) \<and>
     (\<exists>e0 w0 e1 w1 as ej wj m. hs = (e0, w0) # (e1, w1) # as @ [(ej, wj)] \<and> t = pq_target m \<and>
        claimed_in q m w0 \<and> due_and_alive (sq_confirm q) m e1 \<and>
        payload_of cfg (insert e1 (fst ` set as)) m d \<and>
        allowed_by cfg q m cond (sv_target ej) (verdict_in cfg ej wj)))"

lemma paste_traced:
  assumes "paste_step e cond n refs k w = (k1, w1)" "sk_phase k = Send_Paste cond n refs" "trace_ok cfg q hs k"
    and "qw_effects w1 = qw_effects w @ xs"
  shows "trace_ok cfg q (hs @ [(e, w)]) k1 \<and> (\<forall>x \<in> set xs. paste_from cfg q hs e x)"
proof -
  from assms(2,3) obtain e0 w0 e1 w1' as ej wj where hs: "hs = (e0, w0) # (e1, w1') # as @ [(ej, wj)]"
    and ok: "claimed_in q (sk_message k) w0" "due_and_alive (sq_confirm q) (sk_message k) e1"
      "payload_of cfg (insert e1 (fst ` set as)) (sk_message k) (sk_data k)"
      "allowed_by cfg q (sk_message k) cond (sv_target ej) (verdict_in cfg ej wj)"
    and q: "sk_request k = q" by (auto simp: trace_ok_def)
  show ?thesis
  proof (cases "sv_answer e")
    case (Write_Refused r)
    have "payload_of cfg (insert e1 (fst ` set (as @ [(ej, wj)] @ [(e, w)]))) (sk_message k) (sk_data k)"
      by (rule payload_mono [OF ok(3)]) auto
    with Write_Refused assms(1,4) q ok(1,2) hs show ?thesis
      by (auto simp: paste_step_def trace_ok_def Let_def)
  next
    case Write_Done
    then have "k1 = goto_phase Send_Settle k" "xs = [Paste_Tried (target_of k) (message_of k) (sk_data k) cond]"
      using assms(1,4) by (auto simp: paste_step_def)
    with Write_Done q ok hs show ?thesis
      by (auto simp: trace_ok_def paste_from_def target_of_def message_of_def)
  next
    case (Write_Failed err)
    then have "k1 = goto_phase (Send_Fail err) k" "xs = [Paste_Tried (target_of k) (message_of k) (sk_data k) cond]"
      using assms(1,4) by (auto simp: paste_step_def)
    with Write_Failed q ok hs show ?thesis
      by (auto simp: trace_ok_def paste_from_def target_of_def message_of_def)
  qed
qed

lemma later_traced:
  assumes "send_step cfg e k w = (k1, w1)" "qw_effects w1 = qw_effects w @ xs" "sk_request k = q"
    and "pastes_left (sk_phase k) = 0"
  shows "trace_ok cfg q hs k1 \<and> (\<forall>x \<in> set xs. paste_from cfg q hs' e x)"
proof (cases "sk_phase k")
  case Send_Settle
  with assms show ?thesis by (auto simp: step_defs trace_ok_def paste_from_def split: if_splits prod.splits)
next
  case (Send_Press b rest)
  with assms show ?thesis by (auto simp: step_defs trace_ok_def paste_from_def split: write_answer.splits if_splits)
next
  case (Send_Watch b d rest)
  with assms show ?thesis by (auto simp: step_defs trace_ok_def paste_from_def split: if_splits prod.splits)
next
  case (Send_Pause b rest)
  with assms show ?thesis by (auto simp: step_defs trace_ok_def paste_from_def split: if_splits prod.splits)
next
  case (Send_Refuse r)
  with assms show ?thesis by (auto simp: step_defs trace_ok_def paste_from_def split: prod.splits option.splits)
next
  case (Send_Fail err)
  with assms show ?thesis by (auto simp: step_defs trace_ok_def paste_from_def split: prod.splits option.splits)
next
  case (Send_Close s)
  with assms show ?thesis by (auto simp: step_defs trace_ok_def paste_from_def split: prod.splits option.splits)
next
  case (Send_Announce s a)
  with assms show ?thesis
    by (cases a) (auto simp: step_defs emit_updated_def delivery_reported_def trace_ok_def paste_from_def split: if_splits)
next
  case (Send_Credit a)
  with assms show ?thesis by (auto simp: step_defs delivery_reported_def trace_ok_def paste_from_def split: prod.splits)
qed (use assms in \<open>auto simp: step_defs trace_ok_def paste_from_def\<close>)

lemma step_traced:
  assumes st: "send_step cfg e k w = (k1, w1)" and xs: "qw_effects w1 = qw_effects w @ xs"
    and ok: "trace_ok cfg q hs k"
  shows "trace_ok cfg q (hs @ [(e, w)]) k1 \<and> (\<forall>x \<in> set xs. paste_from cfg q hs e x)"
proof (cases "pastes_left (sk_phase k) = 0")
  case True
  from ok have "sk_request k = q" by (simp add: trace_ok_def)
  from later_traced [OF st xs this True] show ?thesis .
next
  case False
  then show ?thesis
  proof (cases "sk_phase k")
    case Send_Claim
    have claim: "claimed_in q row w"
      if "claim_for_delivery (sq_message q) (sq_revision q) (sq_key q) (sq_initiator q) (sv_fresh e) (sv_now e) (qw_store w)
        = Inr (Claim_Opened d row, st')" "sq_initiator q = ''user'' \<or> \<not> sq_confirm q" for d row st'
      using claim_opened_in [OF that(1)] that(2) by blast
    from Send_Claim ok have "sk_request k = q" "hs = []" by (simp_all add: trace_ok_def)
    with Send_Claim st xs claim show ?thesis
      by (auto simp: step_defs trace_ok_def paste_from_def split: if_splits sum.splits claim_answer.splits)
  next
    case Send_Check
    then have "check_step cfg e k = k1" "xs = []" using st xs by (auto simp: send_step_def)
    with check_traced [OF _ Send_Check ok] show ?thesis by simp
  next
    case (Send_Bind r)
    then have "bind_step cfg e r k w = (k1, w1)" "xs = []" using st xs by (auto simp: send_step_def bind_step_def)
    with bind_traced [OF _ Send_Bind ok] show ?thesis by simp
  next
    case (Send_Judge n refs)
    then have "judge_step cfg e n refs k w = (k1, w1)" using st by (simp add: send_step_def)
    moreover from this xs have "xs = []" by (auto simp: judge_step_def Let_def split: nat.splits prod.splits)
    ultimately show ?thesis using judge_traced [OF _ Send_Judge ok] by simp
  next
    case (Send_Paste c n refs)
    then have "paste_step e c n refs k w = (k1, w1)" using st by (simp add: send_step_def)
    from paste_traced [OF this Send_Paste ok xs] show ?thesis .
  qed simp_all
qed

lemma trace_pastes:
  assumes "send_trace cfg ews k xs k2" "trace_ok cfg q hs k" "x \<in> set xs"
  shows "\<exists>as ep wp bs. ews = as @ (ep, wp) # bs \<and> paste_from cfg q (hs @ as) ep x"
  using assms
proof (induction arbitrary: hs rule: send_trace.induct)
  case (trace_here k)
  then show ?case by simp
next
  case (trace_on e k w k1 w1 xs ews ys k2)
  note st = step_traced [OF trace_on.hyps(1,2) trace_on.prems(1)]
  show ?case
  proof (cases "x \<in> set xs")
    case True
    with st show ?thesis by (intro exI [of _ "[]"]) auto
  next
    case False
    with trace_on.prems(2) trace_on.IH [of "hs @ [(e, w)]"] st obtain as ep wp bs
      where "ews = as @ (ep, wp) # bs" "paste_from cfg q (hs @ (e, w) # as) ep x" by auto
    then show ?thesis by (intro exI [of _ "(e, w) # as"]) auto
  qed
qed

text \<open>
  C7. A paste carries the composed text of the row the send claimed: in the world its first step found,
  that row was pending, at the revision the sender saw and at the head of its line. In its second step the
  row was unexpired, due unless a person waived the schedule, and of the run its live session has. And the
  verdict of the step right before the write, on the target and the tracker that step found, allowed it:
  nothing protected stands in the way, and the write carries that verdict as its condition, safe or safe
  to interject for a message sent now, unless a person overrode a verdict that was not safe.
\<close>

theorem paste_needs_a_verdict:
  assumes "send_trace cfg ews (start_send q) xs k" and "Paste_Tried t mid d cond \<in> set xs"
  shows "\<exists>m e0 w0 e1 w1 as ej wj ep wp bs ev.
    ews = (e0, w0) # (e1, w1) # as @ (ej, wj) # (ep, wp) # bs
    \<and> mid = sq_message q \<and> t = pq_target m \<and> payload_of cfg (insert e1 (fst ` set as)) m d
    \<and> find_message (sq_message q) (qw_store w0) = Some m \<and> is_pending m \<and> pq_revision m = sq_revision q
    \<and> line_blocker m (qw_store w0) = None \<and> (sq_initiator q = ''user'' \<or> \<not> sq_confirm q)
    \<and> constraint_reached ''expires_at'' (pq_constraints m) (sv_now e1) \<noteq> Some True
    \<and> (constraint_reached ''not_before'' (pq_constraints m) (sv_now e1) \<noteq> Some False \<or> sq_confirm q)
    \<and> (\<exists>s. sv_lookup e1 = Some s \<and> \<not> has_ended s \<and> \<not> run_replaced (pq_target_run m) (dr_run (tg_ready s)))
    \<and> ev = fst (evaluate (qc_harnesses cfg) True 0 True (tg_ready (sv_target ej)) (sv_clock ej) (qw_tracker wj))
    \<and> protected_reasons (sv_target ej) (ev_reasons ev) = []
    \<and> (case cond of
         Some c \<Rightarrow> c = delivery_condition ev \<and> (ev_state ev = Verdict_Safe
           \<or> delivery_mode (qc_repr cfg) m = delivery_now \<and> ev_interject ev = Verdict_Safe)
       | None \<Rightarrow> ev_state ev \<noteq> Verdict_Safe \<and> sq_confirm q \<and> sq_initiator q = ''user'')"
proof -
  have "trace_ok cfg q [] (start_send q)" by (simp add: trace_ok_def start_send_def)
  from trace_pastes [OF assms(1) this assms(2)] obtain hs ep wp bs
    where ews: "ews = hs @ (ep, wp) # bs" and p: "paste_from cfg q hs ep (Paste_Tried t mid d cond)" by auto
  then obtain e0 w0 e1 w1 as ej wj m where hs: "hs = (e0, w0) # (e1, w1) # as @ [(ej, wj)]"
    and m: "mid = sq_message q" "t = pq_target m" "claimed_in q m w0" "due_and_alive (sq_confirm q) m e1"
      "payload_of cfg (insert e1 (fst ` set as)) m d"
      "allowed_by cfg q m cond (sv_target ej) (verdict_in cfg ej wj)"
    by (auto simp: paste_from_def)
  from ews hs have "ews = (e0, w0) # (e1, w1) # as @ (ej, wj) # (ep, wp) # bs" by simp
  with m show ?thesis
    unfolding claimed_in_def due_and_alive_def allowed_by_def
    by - (rule exI [of _ m], rule exI [of _ e0], rule exI [of _ w0], rule exI [of _ e1],
      rule exI [of _ w1], rule exI [of _ as], rule exI [of _ ej], rule exI [of _ wj],
      rule exI [of _ ep], rule exI [of _ wp], rule exI [of _ bs], rule exI [of _ "verdict_in cfg ej wj"],
      elim conjE, intro conjI; (assumption | simp only: verdict_in_def))
qed

lemma run_is_trace: "\<exists>ews xs. map fst ews = es \<and> send_trace cfg ews k xs (fst (run_send cfg es k w)) \<and>
    qw_effects (snd (run_send cfg es k w)) = qw_effects w @ xs"
proof (induction es arbitrary: k w)
  case Nil
  then show ?case by (auto intro: trace_here)
next
  case (Cons e es)
  obtain k1 w1 where st: "send_step cfg e k w = (k1, w1)" by force
  with step_effects [of cfg e k w] obtain xs where xs: "qw_effects w1 = qw_effects w @ xs" by auto
  from Cons [of k1 w1] obtain ews ys where "map fst ews = es" "send_trace cfg ews k1 ys (fst (run_send cfg es k1 w1))"
    "qw_effects (snd (run_send cfg es k1 w1)) = qw_effects w1 @ ys" by blast
  with trace_on [OF st xs] xs st show ?case by (intro exI [of _ "(e, w) # ews"] exI [of _ "xs @ ys"]) auto
qed

theorem paste_needs_a_verdict_witness:
  "\<exists>m (w :: queue_world) c ej (wj :: queue_world). find_message ''a'' (qw_store w) = Some m \<and> is_pending m \<and> pq_revision m = 1
    \<and> ej \<in> set demo_moments \<and> c = delivery_condition (fst (evaluate demo_harness True 0 True
        (tg_ready (sv_target ej)) (sv_clock ej) (qw_tracker wj)))"
proof -
  obtain x xs where e: "qw_effects (snd (run_send demo_config demo_moments (start_send demo_send) demo_world)) = x # xs"
    and x: "is_paste x"
    using demo_effects by (auto simp: map_eq_Cons_conv)
  with run_is_trace [of demo_moments demo_config "start_send demo_send" demo_world] obtain ews k
    where ews: "map fst ews = demo_moments" and tr: "send_trace demo_config ews (start_send demo_send) (x # xs) k"
    by (auto simp: demo_world_def)
  from x obtain t mid d cond where "x = Paste_Tried t mid d cond" by (cases x) auto
  then have "Paste_Tried t mid d cond \<in> set (x # xs)" by simp
  from paste_needs_a_verdict [OF tr this] obtain m e0 w0 e1 w1 as ej wj ep wp bs ev where
    w: "ews = (e0, w0) # (e1, w1) # as @ (ej, wj) # (ep, wp) # bs" "mid = ''a''"
      "find_message ''a'' (qw_store w0) = Some m" "is_pending m" "pq_revision m = 1"
      "ev = fst (evaluate demo_harness True 0 True (tg_ready (sv_target ej)) (sv_clock ej) (qw_tracker wj))"
      "cond = Some (delivery_condition ev)"
    by (auto simp: demo_send_def demo_config_def split: option.splits)
  have "fst (ej, wj) \<in> set (map fst ews)" unfolding w(1) by simp
  then have "ej \<in> set demo_moments" by (simp add: ews)
  with w(2-6) show ?thesis
    by - (rule exI [of _ m], rule exI [of _ w0], rule exI [of _ "delivery_condition ev"], rule exI [of _ ej],
      rule exI [of _ wj], simp)
qed

text \<open>A run that keeps to its clock.\<close>

fun is_watch :: "send_phase \<Rightarrow> bool" where
  "is_watch (Send_Watch b d rest) = True"
| "is_watch _ = False"

fun on_time :: "queue_config \<Rightarrow> seconds \<Rightarrow> send_env list \<Rightarrow> send_task \<Rightarrow> queue_world \<Rightarrow> bool" where
  "on_time cfg t [] k w = True"
| "on_time cfg t (e # es) k w =
     (t + (if is_watch (sk_phase k) then submit_confirm_poll_seconds else 0) \<le> sv_clock e \<and>
      (let (k', w') = send_step cfg e k w in on_time cfg (sv_clock e) es k' w'))"

lemma on_time_path:
  "on_time cfg t es k w \<Longrightarrow> \<exists>t2. timed_path cfg t es k t2 (fst (run_send cfg es k w))"
proof (induction es arbitrary: t k w)
  case Nil
  then show ?case by (auto intro: timed_here)
next
  case (Cons e es)
  obtain k1 w1 where st: "send_step cfg e k w = (k1, w1)" by force
  with Cons.IH [of "sv_clock e" k1 w1] Cons.prems
  obtain t2 where "timed_path cfg (sv_clock e) es k1 t2 (fst (run_send cfg es k1 w1))" by auto
  moreover have "t \<le> sv_clock e"
    using Cons.prems by (auto simp: submit_confirm_poll_seconds_def split: if_splits)
  moreover have "t + submit_confirm_poll_seconds \<le> sv_clock e" if "sk_phase k = Send_Watch b d rest" for b d rest
    using Cons.prems that by simp
  ultimately have "timed_path cfg t (e # es) k t2 (fst (run_send cfg es k1 w1))"
    using timed_on [of t e k cfg w k1 w1 es t2] st by metis
  with st show ?case by auto
qed

theorem every_send_ends_witness:
  "\<exists>a. sk_phase (fst (run_send demo_config (demo_moments @ replicate 106 (demo_moment 22 (demo_target ''working'' 4)))
     (start_send demo_send) demo_world)) = Send_Ended a"
proof -
  let ?es = "demo_moments @ replicate 106 (demo_moment 22 (demo_target ''working'' 4))"
  have "on_time demo_config 20 ?es (start_send demo_send) demo_world" by code_simp
  then obtain t2 where "timed_path demo_config 20 ?es (start_send demo_send) t2
      (fst (run_send demo_config ?es (start_send demo_send) demo_world))" using on_time_path by blast
  moreover have "15 + ladder_cost demo_config \<le> length ?es"
    by (simp add: ladder_cost_def press_cost_def polls_def demo_config_def submit_retry_delays_def
      submit_confirm_seconds_def submit_confirm_poll_seconds_def demo_moments_def)
  ultimately show ?thesis using every_send_ends by blast
qed


definition demo_sessions :: session_table where
  "demo_sessions = (\<lambda>t. if t = ''s'' then Some (demo_target ''idle'' 3) else None)"

theorem unsolicited_text_is_never_armed_witness:
  "\<exists>r effects st'. enqueue demo_harness demo_sessions (demo_request ''c''\<lparr>mr_sender_kind := ''rule''\<rparr>) PNone 5 demo_queue
     = Inr (Created r, effects, st') \<and> pq_state r = Drafted"
proof -
  let ?m = "demo_request ''c''\<lparr>mr_sender_kind := ''rule''\<rparr>"
  have w: "writable_target demo_harness demo_sessions ''s'' = Inr (demo_target ''idle'' 3)" by code_simp
  have "case create_message (bound_request ?m (demo_target ''idle'' 3) None) 5 demo_queue of
      Inr (Created r, st') \<Rightarrow> pq_sender_kind r = ''rule'' \<and> pq_solicited_by r = None | _ \<Rightarrow> False" by code_simp
  then obtain r st' where c: "create_message (bound_request ?m (demo_target ''idle'' 3) None) 5 demo_queue = Inr (Created r, st')"
    and r: "pq_sender_kind r = ''rule''" "pq_solicited_by r = None"
    by (auto split: sum.splits prod.splits created.splits)
  have "enqueue demo_harness demo_sessions ?m PNone 5 demo_queue
      = Inr (Created r, [emit_updated (pq_id r) ''s'' (pq_state r) st'], st')"
    using w c by (simp add: enqueue_def body_ok_def max_body_chars_def sender_kinds_def
      normalize_constraints_def bind_err_def demo_request_def)
  with unsolicited_text_is_never_armed [OF this] r show ?thesis by auto
qed

end
