(* ===== verification/Queue_Endings.thy ===== *)
theory Queue_Endings
  imports Queue_Sending
begin

text \<open>
  What happens to the queue of a session that ends: stranding when its events arrive, the reconciliation
  of a daemon that starts, and a settlement that arrives after both.
\<close>

subsection \<open>Stranding\<close>

definition ended_row :: "string \<Rightarrow> string \<Rightarrow> seconds \<Rightarrow> prompt_row \<Rightarrow> prompt_row" where
  "ended_row t reason now r =
     (if pq_target r = t \<and> is_unfinished r
      then if pq_state r = Delivering then fail_message (''delivery interrupted: '' @ reason) now r
           else r\<lparr>pq_state := Stranded, pq_stranded_reason := Some reason, pq_updated_at := now\<rparr>
      else r)"

lemma close_open_messages [simp]: "qs_messages (close_open_deliveries mid err now st) = qs_messages st"
  by (simp add: close_open_deliveries_def)

lemma strand_row_map:
  "qs_messages (strand_row reason now row st) =
     map (\<lambda>r. if pq_id r = pq_id row
       then if pq_state row = Delivering then fail_message (''delivery interrupted: '' @ reason) now r
            else r\<lparr>pq_state := Stranded, pq_stranded_reason := Some reason, pq_updated_at := now\<rparr>
       else r) (qs_messages st)"
  by (auto simp: strand_row_def Let_def)

lemma fold_strand:
  assumes "distinct (map pq_id rows)" "distinct (map pq_id (qs_messages st))"
    and "set rows \<subseteq> set (qs_messages st)" "\<forall>r \<in> set rows. pq_target r = t \<and> is_unfinished r"
  shows "qs_messages (fold (strand_row reason now) rows st) =
    map (\<lambda>r. if r \<in> set rows then ended_row t reason now r else r) (qs_messages st)"
  using assms
proof (induction rows arbitrary: st)
  case Nil
  then show ?case by simp
next
  case (Cons row rows)
  let ?h = "\<lambda>r. if r = row then ended_row t reason now r else r"
  have same: "r = row" if "r \<in> set (qs_messages st)" "pq_id r = pq_id row" for r
    using Cons.prems(2,3) that by (auto simp: distinct_map inj_on_def)
  have ms: "qs_messages (strand_row reason now row st) = map ?h (qs_messages st)"
    unfolding strand_row_map
  proof (rule map_cong [OF refl])
    fix r assume "r \<in> set (qs_messages st)"
    with same Cons.prems(4) show "(if pq_id r = pq_id row
       then if pq_state row = Delivering then fail_message (''delivery interrupted: '' @ reason) now r
            else r\<lparr>pq_state := Stranded, pq_stranded_reason := Some reason, pq_updated_at := now\<rparr>
       else r) = ?h r"
      by (auto simp: ended_row_def)
  qed
  have id: "pq_id (?h r) = pq_id r" for r by (simp add: ended_row_def fail_message_def)
  have "distinct (map pq_id (qs_messages (strand_row reason now row st)))"
    unfolding ms using Cons.prems(2) id by (simp add: comp_def)
  moreover have "set rows \<subseteq> set (qs_messages (strand_row reason now row st))"
  proof
    fix r assume "r \<in> set rows"
    with Cons.prems(1,3) have "r \<in> set (qs_messages st)" "r \<noteq> row" by auto
    then show "r \<in> set (qs_messages (strand_row reason now row st))" unfolding ms by force
  qed
  ultimately have "qs_messages (fold (strand_row reason now) (row # rows) st) =
      map (\<lambda>r. if r \<in> set rows then ended_row t reason now r else r) (map ?h (qs_messages st))"
    using Cons.IH [of "strand_row reason now row st"] Cons.prems(1,4) by (simp add: ms)
  also have "\<dots> = map (\<lambda>r. if r \<in> set (row # rows) then ended_row t reason now r else r) (qs_messages st)"
  proof -
    have "?h row \<notin> set rows"
    proof
      assume "?h row \<in> set rows"
      then have "pq_id row \<in> pq_id ` set rows" using id [of row] by (metis image_eqI)
      with Cons.prems(1) show False by simp
    qed
    moreover have "row \<notin> set rows" using Cons.prems(1) by auto
    ultimately show ?thesis by auto
  qed
  finally show ?case .
qed

lemma stranded_messages:
  assumes "ids_distinct st"
  shows "qs_messages (snd (strand_pending t reason now st)) = map (ended_row t reason now) (qs_messages st)"
proof -
  let ?rows = "filter (\<lambda>r. pq_target r = t \<and> is_unfinished r) (qs_messages st)"
  have d: "distinct (map pq_id (qs_messages st))" using assms by (simp only: ids_distinct_def)
  then have "distinct (map pq_id ?rows)" by (rule distinct_map_filter)
  then have "qs_messages (fold (strand_row reason now) ?rows st) =
      map (\<lambda>r. if r \<in> set ?rows then ended_row t reason now r else r) (qs_messages st)"
    using d by (rule fold_strand) auto
  then have "qs_messages (snd (strand_pending t reason now st)) =
      map (\<lambda>r. if r \<in> set ?rows then ended_row t reason now r else r) (qs_messages st)"
    by (simp only: strand_pending_def Let_def snd_conv)
  also have "\<dots> = map (ended_row t reason now) (qs_messages st)"
    by (rule map_cong [OF refl]) (auto simp: ended_row_def)
  finally show ?thesis .
qed

lemma strand_target_store: "snd (strand_target t reason now st) = snd (strand_pending t reason now st)"
  by (simp add: strand_target_def split: prod.split)

lemma ended_row_keeps [simp]: "pq_id (ended_row t reason now r) = pq_id r" "pq_target (ended_row t reason now r) = pq_target r"
  "pq_body (ended_row t reason now r) = pq_body r"
  by (simp_all add: ended_row_def fail_message_def)

lemma ended_row_finished: "pq_target r = t \<Longrightarrow> \<not> is_unfinished (ended_row t reason now r)"
  by (simp add: ended_row_def fail_message_def is_unfinished_def active_states_def pending_states_def)

text \<open>
  C22. When a session ends, its agent leaves or its conversation is replaced, nothing stays open for it: what
  waited is stranded, what was being delivered has failed, since whether it was written is unknown, and
  nothing else in the queue changes.
\<close>

theorem endings_leave_nothing_open:
  assumes "ids_distinct st" "stranding_event (me_type ev) = Some reason" "me_session ev = Some t" "t \<noteq> ''''"
  shows "qs_messages (snd (consume_event ev now st)) = map (ended_row t reason now) (qs_messages st)
    \<and> (\<forall>r \<in> set (qs_messages (snd (consume_event ev now st))). pq_target r = t \<longrightarrow> \<not> is_unfinished r)"
proof -
  have "snd (consume_event ev now st) = snd (strand_pending t reason now st)"
    using assms(2,3,4) by (simp add: consume_event_def text_or_none_def text_given_def strand_target_store)
  with stranded_messages [OF assms(1)]
  have "qs_messages (snd (consume_event ev now st)) = map (ended_row t reason now) (qs_messages st)" by simp
  then show ?thesis using ended_row_finished by auto
qed

theorem endings_leave_nothing_open_witness:
  "map (\<lambda>r. (pq_id r, pq_state r)) (qs_messages (snd (consume_event
      \<lparr>me_type = ''session_exited'', me_session = Some ''s'', me_source = ''hook'', me_payload = []\<rparr> 9 demo_queue)))
    = [(''a'', Stranded), (''b'', Stranded)]"
proof -
  have ok: "ids_distinct demo_queue" using demo_queue_ok by (simp add: queue_ok_def)
  have "map (\<lambda>r. (pq_id r, pq_state r)) (map (ended_row ''s'' ''target session ended'' 9) (qs_messages demo_queue))
    = [(''a'', Stranded), (''b'', Stranded)]" by code_simp
  with endings_leave_nothing_open [OF ok, of "\<lparr>me_type = ''session_exited'', me_session = Some ''s'', me_source = ''hook'', me_payload = []\<rparr>"
      "''target session ended''" "''s''" 9]
  show ?thesis by (simp add: stranding_event_def)
qed

subsection \<open>After a restart\<close>

text \<open>A row that may stay as it is: finished, or waiting for a live session of its run.\<close>

definition row_settled :: "session_table \<Rightarrow> prompt_row \<Rightarrow> bool" where
  "row_settled sessions r \<longleftrightarrow> (is_unfinished r \<longrightarrow>
     pq_state r \<noteq> Delivering \<and> (\<exists>s. sessions (pq_target r) = Some s \<and> \<not> has_ended s \<and>
       \<not> run_replaced (pq_target_run r) (dr_run (tg_ready s))))"

definition keeps_others :: "string \<Rightarrow> queue_store \<Rightarrow> queue_store \<Rightarrow> bool" where
  "keeps_others t st st' \<longleftrightarrow>
     map (\<lambda>r. (pq_id r, pq_target r)) (qs_messages st') = map (\<lambda>r. (pq_id r, pq_target r)) (qs_messages st) \<and>
     (\<forall>r. pq_target r \<noteq> t \<longrightarrow> (r \<in> set (qs_messages st') \<longleftrightarrow> r \<in> set (qs_messages st)))"

lemma keeps_others_refl: "keeps_others t st st"
  by (simp add: keeps_others_def)

lemma keeps_others_trans: "keeps_others t a b \<Longrightarrow> keeps_others t b c \<Longrightarrow> keeps_others t a c"
  by (simp add: keeps_others_def)

lemma keeps_others_ids:
  assumes "keeps_others t st st'" "ids_distinct st"
  shows "ids_distinct st'"
proof -
  have "map fst (map (\<lambda>r. (pq_id r, pq_target r)) (qs_messages st')) = map fst (map (\<lambda>r. (pq_id r, pq_target r)) (qs_messages st))"
    using assms(1) by (simp only: keeps_others_def)
  with assms(2) show ?thesis by (simp add: ids_distinct_def comp_def)
qed

lemma keeps_others_row:
  assumes "keeps_others t st st'" "x \<in> set (qs_messages st')"
  shows "\<exists>y \<in> set (qs_messages st). pq_id y = pq_id x \<and> pq_target y = pq_target x"
proof -
  have "set (map (\<lambda>r. (pq_id r, pq_target r)) (qs_messages st')) = set (map (\<lambda>r. (pq_id r, pq_target r)) (qs_messages st))"
    using assms(1) by (simp only: keeps_others_def)
  then have "(pq_id x, pq_target x) \<in> (\<lambda>r. (pq_id r, pq_target r)) ` set (qs_messages st)" using assms(2) by auto
  then show ?thesis by auto
qed

lemma map_keeps_others:
  assumes "qs_messages st' = map f (qs_messages st)" "\<And>r. pq_id (f r) = pq_id r" "\<And>r. pq_target (f r) = pq_target r"
    and "\<And>r. r \<in> set (qs_messages st) \<Longrightarrow> pq_target r \<noteq> t \<Longrightarrow> f r = r"
  shows "keeps_others t st st'"
proof -
  have "r \<in> f ` set (qs_messages st) \<longleftrightarrow> r \<in> set (qs_messages st)" if "pq_target r \<noteq> t" for r
  proof
    assume "r \<in> f ` set (qs_messages st)"
    then obtain y where y: "y \<in> set (qs_messages st)" "r = f y" by auto
    with that assms(3) [of y] assms(4) [OF y(1)] show "r \<in> set (qs_messages st)" by simp
  next
    assume "r \<in> set (qs_messages st)"
    with assms(4) [OF this that] show "r \<in> f ` set (qs_messages st)" by (metis imageI)
  qed
  then have "\<forall>r. pq_target r \<noteq> t \<longrightarrow> (r \<in> set (qs_messages st') \<longleftrightarrow> r \<in> set (qs_messages st))"
    unfolding assms(1) by simp
  moreover have "map (\<lambda>r. (pq_id r, pq_target r)) (qs_messages st') = map (\<lambda>r. (pq_id r, pq_target r)) (qs_messages st)"
    unfolding assms(1) using assms(2,3) by simp
  ultimately show ?thesis unfolding keeps_others_def by simp
qed

lemma strand_settles:
  assumes "ids_distinct st"
  shows "keeps_others t st (snd (strand_target t reason now st))"
    "\<forall>r \<in> set (qs_messages (snd (strand_target t reason now st))). pq_target r = t \<longrightarrow> \<not> is_unfinished r"
proof -
  note ms = stranded_messages [OF assms, of t reason now, folded strand_target_store]
  show "keeps_others t st (snd (strand_target t reason now st))"
    by (rule map_keeps_others [OF ms]) (simp_all add: ended_row_def fail_message_def)
  show "\<forall>r \<in> set (qs_messages (snd (strand_target t reason now st))). pq_target r = t \<longrightarrow> \<not> is_unfinished r"
    unfolding ms using ended_row_finished by auto
qed

lemma if_map_same: "(if b then map (\<lambda>x. if P x then g x else x) xs else xs) = map (\<lambda>x. if b \<and> P x then g x else x) xs"
  by (cases b) simp_all

lemma fail_interrupted_messages:
  "qs_messages (snd (fail_interrupted mid err now st)) =
     (if \<exists>r. find_message mid st = Some r \<and> pq_state r = Delivering
      then map (\<lambda>r. if pq_id r = mid then fail_message err now r else r) (qs_messages st) else qs_messages st)"
  by (auto simp: fail_interrupted_def Let_def split: option.split)

lemma fail_message_settled: "row_settled sessions (fail_message err now r)"
  by (simp add: row_settled_def fail_message_def is_unfinished_def active_states_def pending_states_def)

lemma finished_settled: "\<not> is_unfinished r \<Longrightarrow> row_settled sessions r"
  by (simp add: row_settled_def)

lemma reconcile_items_settles:
  assumes "ids_distinct st" and live: "sessions t = Some s" "\<not> has_ended s" "current = dr_run (tg_ready s)"
    and "\<forall>r \<in> set rows. pq_target r = t"
    and "\<forall>x \<in> set (qs_messages st). pq_id x \<in> pq_id ` set rows \<longrightarrow> pq_target x = t"
    and "\<forall>x \<in> set (qs_messages st). pq_target x = t \<and> \<not> row_settled sessions x \<longrightarrow> x \<in> set rows"
  shows "keeps_others t st (snd (reconcile_items t current now rows st)) \<and>
    (\<forall>r \<in> set (qs_messages (snd (reconcile_items t current now rows st))). pq_target r = t \<longrightarrow> row_settled sessions r)"
  using assms(1,5,6,7)
proof (induction rows arbitrary: st)
  case Nil
  then show ?case by (auto simp: keeps_others_refl)
next
  case (Cons r rows)
  show ?case
  proof (cases "run_replaced (pq_target_run r) current")
    case True
    with strand_settles [OF Cons.prems(1)] show ?thesis by (auto intro: finished_settled)
  next
    case same: False
    show ?thesis
    proof (cases "pq_state r = Delivering")
      case True
      let ?err = "''delivery interrupted by daemon restart; verify the terminal''"
      define st1 where "st1 = snd (fail_interrupted (pq_id r) ?err now st)"
      define f where "f = (\<lambda>x. if (\<exists>y. find_message (pq_id r) st = Some y \<and> pq_state y = Delivering) \<and>
        pq_id x = pq_id r then fail_message ?err now x else x)"
      have ms: "qs_messages st1 = map f (qs_messages st)"
        unfolding st1_def f_def fail_interrupted_messages by (rule if_map_same)
      have f [simp]: "pq_id (f x) = pq_id x" "pq_target (f x) = pq_target x" for x
        by (simp_all add: f_def fail_message_def)
      have keeps: "keeps_others t st st1"
        by (rule map_keeps_others [OF ms f]) (use Cons.prems(3) in \<open>auto simp: f_def\<close>)
      have left: "x \<in> set rows" if x: "x \<in> set (qs_messages st1)" "pq_target x = t" "\<not> row_settled sessions x" for x
      proof -
        from x(1) obtain y where y: "y \<in> set (qs_messages st)" "x = f y" unfolding ms by auto
        with x(3) fail_message_settled have "x = y" by (auto simp: f_def split: if_splits)
        moreover have "y \<noteq> r"
        proof
          assume "y = r"
          with y(1) Cons.prems(1) have "find_message (pq_id r) st = Some r" by (simp add: find_message_iff)
          with True y x(3) fail_message_settled show False by (auto simp: f_def \<open>y = r\<close>)
        qed
        ultimately show ?thesis using Cons.prems(4) y(1) x(2,3) by auto
      qed
      have ids: "\<forall>x \<in> set (qs_messages st1). pq_id x \<in> pq_id ` set rows \<longrightarrow> pq_target x = t"
        unfolding ms using Cons.prems(3) by auto
      have "keeps_others t st1 (snd (reconcile_items t current now rows st1)) \<and>
        (\<forall>r \<in> set (qs_messages (snd (reconcile_items t current now rows st1))). pq_target r = t \<longrightarrow> row_settled sessions r)"
      proof (rule Cons.IH [OF keeps_others_ids [OF keeps Cons.prems(1)] _ ids])
        show "\<forall>r \<in> set rows. pq_target r = t" using Cons.prems(2) by simp
        show "\<forall>x \<in> set (qs_messages st1). pq_target x = t \<and> \<not> row_settled sessions x \<longrightarrow> x \<in> set rows"
          using left by blast
      qed
      moreover have "snd (reconcile_items t current now (r # rows) st) = snd (reconcile_items t current now rows st1)"
        using same True by (simp add: st1_def Let_def split: prod.split)
      ultimately show ?thesis using keeps_others_trans [OF keeps] by auto
    next
      case False
      have "row_settled sessions r"
        using False same live Cons.prems(2) by (simp add: row_settled_def)
      then have "\<forall>x \<in> set (qs_messages st). pq_target x = t \<and> \<not> row_settled sessions x \<longrightarrow> x \<in> set rows"
        using Cons.prems(4) by auto
      moreover have "\<forall>r \<in> set rows. pq_target r = t"
        "\<forall>x \<in> set (qs_messages st). pq_id x \<in> pq_id ` set rows \<longrightarrow> pq_target x = t"
        using Cons.prems(2,3) by simp_all
      ultimately have "keeps_others t st (snd (reconcile_items t current now rows st)) \<and>
        (\<forall>r \<in> set (qs_messages (snd (reconcile_items t current now rows st))). pq_target r = t \<longrightarrow> row_settled sessions r)"
        by (intro Cons.IH [OF Cons.prems(1)])
      then show ?thesis using same False by (simp only: reconcile_items.simps if_False) blast
    qed
  qed
qed

lemma reconcile_target_settles:
  assumes "ids_distinct st" "\<forall>x \<in> set (qs_messages st). pq_target x = t \<and> \<not> row_settled sessions x \<longrightarrow> x \<in> set rows"
    and "\<forall>r \<in> set rows. \<forall>x \<in> set (qs_messages st). pq_id x = pq_id r \<longrightarrow> pq_target x = pq_target r"
  shows "keeps_others t st (snd (reconcile_target sessions now rows t st)) \<and>
    (\<forall>r \<in> set (qs_messages (snd (reconcile_target sessions now rows t st))). pq_target r = t \<longrightarrow> row_settled sessions r)"
proof (cases "\<exists>s. sessions t = Some s \<and> \<not> has_ended s")
  case True
  then obtain s where s: "sessions t = Some s" "\<not> has_ended s" by blast
  have ids: "\<forall>x \<in> set (qs_messages st). pq_id x \<in> pq_id ` set (filter (\<lambda>r. pq_target r = t) rows) \<longrightarrow> pq_target x = t"
    using assms(3) by auto
  have left: "\<forall>x \<in> set (qs_messages st). pq_target x = t \<and> \<not> row_settled sessions x
      \<longrightarrow> x \<in> set (filter (\<lambda>r. pq_target r = t) rows)" using assms(2) by simp
  from reconcile_items_settles [OF assms(1) s refl _ ids left, of now] s show ?thesis
    by (simp add: reconcile_target_def)
next
  case False
  have "\<exists>reason. reconcile_target sessions now rows t st = strand_target t reason now st"
  proof (cases "sessions t")
    case None
    then show ?thesis unfolding reconcile_target_def by auto
  next
    case (Some s)
    with False show ?thesis unfolding reconcile_target_def by auto
  qed
  then obtain reason where "reconcile_target sessions now rows t st = strand_target t reason now st" ..
  with strand_settles [OF assms(1), of t reason now] show ?thesis by (auto intro: finished_settled)
qed

lemma reconcile_targets_settle:
  assumes "ids_distinct st" "distinct ts"
    and "\<forall>x \<in> set (qs_messages st). \<not> row_settled sessions x \<longrightarrow> x \<in> set rows \<and> pq_target x \<in> set ts"
    and "\<forall>r \<in> set rows. \<forall>x \<in> set (qs_messages st). pq_id x = pq_id r \<longrightarrow> pq_target x = pq_target r"
  shows "\<forall>r \<in> set (qs_messages (snd (reconcile_targets sessions now rows ts st))). row_settled sessions r"
  using assms
proof (induction ts arbitrary: st)
  case Nil
  then show ?case by auto
next
  case (Cons t ts)
  define st1 where "st1 = snd (reconcile_target sessions now rows t st)"
  from reconcile_target_settles [OF Cons.prems(1), of t sessions rows now] Cons.prems(3,4)
  have k: "keeps_others t st st1" and ok: "\<forall>r \<in> set (qs_messages st1). pq_target r = t \<longrightarrow> row_settled sessions r"
    unfolding st1_def by blast+
  have "\<forall>r \<in> set (qs_messages (snd (reconcile_targets sessions now rows ts st1))). row_settled sessions r"
  proof (rule Cons.IH)
    show d: "ids_distinct st1" by (rule keeps_others_ids [OF k Cons.prems(1)])
    show "distinct ts" using Cons.prems(2) by simp
    show "\<forall>x \<in> set (qs_messages st1). \<not> row_settled sessions x \<longrightarrow> x \<in> set rows \<and> pq_target x \<in> set ts"
      using k ok Cons.prems(3) by (auto simp: keeps_others_def)
    show "\<forall>r \<in> set rows. \<forall>x \<in> set (qs_messages st1). pq_id x = pq_id r \<longrightarrow> pq_target x = pq_target r"
      using keeps_others_row [OF k] Cons.prems(4) by metis
  qed
  then show ?case by (simp add: st1_def split: prod.split)
qed


definition interrupted_queue :: queue_store where
  "interrupted_queue = (case claim_for_delivery ''a'' 1 None ''user'' ''d'' 3 demo_queue of
     Inr (_, st) \<Rightarrow> st | Inl _ \<Rightarrow> demo_queue)"


subsection \<open>A settlement that comes too late\<close>

text \<open>
  The settlement of a delivery does not look at the row it settles. When the target ended during the
  delivery, its message has failed and may be deleted; the settlement then brings it back: sent, visible in
  its queue again and without its text.
\<close>

theorem late_settlement_revives_deleted:
  assumes "ids_distinct st" "find_message mid st = Some r" "pq_state r = Delivering"
    and "delete_message mid now (snd (strand_pending (pq_target r) reason now st)) = Inr (x, st1)"
    and "sk_phase k = Send_Close submitted" "message_of k = mid"
    and "send_step cfg e k (w\<lparr>qw_store := st1\<rparr>) = (k', w')"
  shows "(\<exists>r1. find_message mid st1 = Some r1 \<and> pq_state r1 = Deleted) \<and>
    (\<exists>r2. find_message mid (qw_store w') = Some r2 \<and> pq_state r2 = Sent \<and> is_visible r2 \<and> pq_body r2 = '''' \<and>
       pq_deleted_at r2 = Some now)"
proof -
  let ?err = "''delivery interrupted: '' @ reason"
  have row: "pq_id r = mid" using assms(2) by (auto simp: find_message_def find_Some_iff)
  define st2 where "st2 = snd (strand_pending (pq_target r) reason now st)"
  have "find_message mid st2 = Some (ended_row (pq_target r) reason now r)"
    using assms(2) stranded_messages [OF assms(1), of "pq_target r" reason now]
    by (simp add: find_message_def st2_def find_map_keeps)
  moreover have "ended_row (pq_target r) reason now r = fail_message ?err now r"
    using assms(3) by (simp add: ended_row_def is_unfinished_def active_states_def)
  ultimately have f2: "find_message mid st2 = Some (fail_message ?err now r)" by simp
  have "st1 = renumber_queue (pq_target r) None (update_message mid (erase_row now) st2)"
    using assms(4) f2 unfolding st2_def [symmetric]
    by (auto simp: delete_message_def Let_def fail_message_def split: if_splits)
  moreover have "find_message mid (update_message mid (erase_row now) st2) = Some (erase_row now (fail_message ?err now r))"
    using find_update_same [of "erase_row now" mid st2] f2 by (simp add: erase_row_def)
  ultimately obtain ids where "find_message mid st1 = Some (place 0 ids (erase_row now (fail_message ?err now r)))"
    by (simp add: renumber_queue_def find_renumbered)
  moreover obtain p where "place 0 ids (erase_row now (fail_message ?err now r)) =
      (erase_row now (fail_message ?err now r))\<lparr>pq_position := p\<rparr>" using place_position by blast
  ultimately have f1: "find_message mid st1 = Some ((erase_row now (fail_message ?err now r))\<lparr>pq_position := p\<rparr>)" by simp
  let ?x = "written_result Attempt_Sent Sent submitted None k"
  have "qw_store w' = snd (finalize_delivery (sk_delivery k) mid ?x (sv_now e) st1)"
    using assms(5-7) by (auto simp: send_step_def finalize_step_def case_prod_beta Let_def)
  moreover have "find_message mid (snd (finalize_delivery (sk_delivery k) mid ?x (sv_now e) st1))
      = map_option (settle_message ?x (sv_now e)) (find_message mid (update_attempt (sk_delivery k) (settle_attempt ?x (sv_now e)) st1))"
    unfolding finalize_delivery_def Let_def snd_conv by (rule find_update_same) (simp add: settle_message_def)
  moreover have "find_message mid (update_attempt did g st1) = find_message mid st1" for did g
    by (simp add: find_message_def update_attempt_def)
  ultimately show ?thesis
    using f1 by (simp add: settle_message_def written_result_def erase_row_def is_visible_def)
qed

theorem late_settlement_revives_deleted_witness:
  "\<exists>st1 k w. (\<exists>r1. find_message ''a'' st1 = Some r1 \<and> pq_state r1 = Deleted) \<and>
     (\<exists>r2. find_message ''a'' (qw_store (snd (send_step demo_config (hd demo_moments) k (w\<lparr>qw_store := st1\<rparr>)))) = Some r2
       \<and> pq_state r2 = Sent \<and> is_visible r2)"
proof -
  let ?k = "goto_phase (Send_Close (Some True)) (start_send demo_send)"
  have ok: "ids_distinct interrupted_queue"
  proof -
    have "map pq_id (qs_messages interrupted_queue) = [''a'', ''b'']" by code_simp
    then show ?thesis by (simp add: ids_distinct_def)
  qed
  have "map_option (\<lambda>r. (pq_state r, pq_target r)) (find_message ''a'' interrupted_queue) = Some (Delivering, ''s'')" by code_simp
  then obtain r where r: "find_message ''a'' interrupted_queue = Some r" "pq_state r = Delivering" "pq_target r = ''s''" by auto
  have "\<not> isl (delete_message ''a'' 9 (snd (strand_pending ''s'' ''gone'' 9 interrupted_queue)))" by code_simp
  then obtain x st1 where d: "delete_message ''a'' 9 (snd (strand_pending (pq_target r) ''gone'' 9 interrupted_queue)) = Inr (x, st1)"
    unfolding r(3) by (metis isl_def sum.exhaust_sel surj_pair)
  have k: "sk_phase ?k = Send_Close (Some True)" "message_of ?k = ''a''"
    by (simp_all add: message_of_def start_send_def demo_send_def)
  from late_settlement_revives_deleted [OF ok r(1,2) d k, of demo_config "hd demo_moments" demo_world]
  show ?thesis by (metis surjective_pairing)
qed

end
