(* ===== verification/Queue_Daemon.thy ===== *)
theory Queue_Daemon
  imports Queue_Endings
begin

text \<open>
  The queue under the daemon: any number of sends in flight, the other clients of the store, dropped
  requests and restarts, in any order. The invariant says which messages are spoken for and which have
  been written.
\<close>

subsection \<open>Messages that may not be delivered again\<close>

definition spent_state :: "message_state \<Rightarrow> bool" where
  "spent_state s \<longleftrightarrow> s \<in> {Delivering, Sent, Failed, Deleted}"

definition spent :: "string \<Rightarrow> queue_store \<Rightarrow> bool" where
  "spent mid st \<longleftrightarrow> (\<forall>r \<in> set (qs_messages st). pq_id r = mid \<longrightarrow> spent_state (pq_state r))"

lemma spent_state_simps [simp]:
  "spent_state Delivering" "spent_state Sent" "spent_state Failed" "spent_state Deleted"
  "\<not> spent_state Drafted" "\<not> spent_state Armed" "\<not> spent_state Blocked" "\<not> spent_state Stranded"
  "\<not> spent_state Cancelled"
  by (simp_all add: spent_state_def)

lemma pending_not_spent: "is_pending r \<Longrightarrow> \<not> spent_state (pq_state r)"
  by (auto simp: is_pending_def pending_states_def)

lemma spent_messages: "qs_messages st' = qs_messages st \<Longrightarrow> spent mid st' = spent mid st"
  by (simp add: spent_def)

lemma spent_map:
  assumes "spent mid st" "qs_messages st' = map f (qs_messages st)" "\<And>r. pq_id (f r) = pq_id r"
    and "\<And>r. pq_id r = mid \<Longrightarrow> spent_state (pq_state r) \<Longrightarrow> spent_state (pq_state (f r))"
  shows "spent mid st'"
  using assms by (auto simp: spent_def)

lemma spent_update:
  assumes "spent mid st" "\<And>r. pq_id (f r) = pq_id r"
    and "\<And>r. x = mid \<Longrightarrow> spent_state (pq_state r) \<Longrightarrow> spent_state (pq_state (f r))"
  shows "spent mid (update_message x f st)"
  using assms by (auto simp: spent_def)

lemma spent_renumber [simp]: "spent mid (renumber_ids i ids st) = spent mid st"
  by (auto simp: spent_def renumber_ids_place)

lemma spent_found: "spent mid st \<Longrightarrow> find_message mid st = Some r \<Longrightarrow> spent_state (pq_state r)"
  by (auto simp: spent_def find_message_def find_Some_iff)

lemma spent_on_message:
  assumes "spent mid st" "on_message x p act st = Inr (a, st')"
    and "\<And>r. p r \<Longrightarrow> \<not> spent_state (pq_state r)"
    and "\<And>r. p r \<Longrightarrow> x \<noteq> mid \<Longrightarrow> act r = Inr (a, st') \<Longrightarrow> spent mid st'"
  shows "spent mid st'"
  using assms spent_found [of x st] by (auto simp: on_message_def immutable_state_def split: option.splits if_splits)

lemma spent_create:
  assumes sp: "spent mid st" and new: "create_message m now st = Inr (c, st')" and "mr_id m \<noteq> mid"
  shows "spent mid st'"
proof -
  have app: "spent mid (st\<lparr>qs_messages := qs_messages st @ [new_message m p now]\<rparr>)" for p
    using sp assms(3) by (auto simp: spent_def new_message_def)
  from new sp show ?thesis
    by (auto simp: create_message_def insert_message_def renumber_queue_def Let_def app
        split: option.splits if_splits)
qed

lemma spent_edit: "spent mid st \<Longrightarrow> edit_body x n body now st = Inr (r, st') \<Longrightarrow> spent mid st'"
  unfolding edit_body_def
  by (rule spent_on_message, assumption, assumption, erule pending_not_spent)
    (auto simp: Let_def split: if_splits intro!: spent_update)

lemma spent_arm: "spent mid st \<Longrightarrow> set_armed x b now st = Inr (r, st') \<Longrightarrow> spent mid st'"
  unfolding set_armed_def
  by (rule spent_on_message, assumption, assumption, erule pending_not_spent)
    (auto simp: Let_def split: if_splits intro!: spent_update)

lemma spent_constrain: "spent mid st \<Longrightarrow> set_constraints x c now st = Inr (r, st') \<Longrightarrow> spent mid st'"
  unfolding set_constraints_def
  by (rule spent_on_message, assumption, assumption, erule pending_not_spent)
    (auto simp: Let_def split: if_splits intro!: spent_update)

lemma spent_move: "spent mid st \<Longrightarrow> move_message x after now st = Inr (r, st') \<Longrightarrow> spent mid st'"
  unfolding move_message_def
  by (rule spent_on_message, assumption, assumption, erule pending_not_spent)
    (auto simp: Let_def renumber_queue_def split: if_splits option.splits intro!: spent_update)

lemma spent_cancel: "spent mid st \<Longrightarrow> cancel_message x kind now st = Inr (r, st') \<Longrightarrow> spent mid st'"
  unfolding cancel_message_def
  by (rule spent_on_message, assumption, assumption)
    (auto simp: Let_def dest: pending_not_spent split: if_splits intro!: spent_update)

lemma spent_retarget: "spent mid st \<Longrightarrow> retarget_message x t now st = Inr (r, st') \<Longrightarrow> spent mid st'"
  unfolding retarget_message_def
  by (rule spent_on_message, assumption, assumption)
    (auto simp: Let_def retarget_row_def split: if_splits intro!: spent_update)

lemma spent_delete: "spent mid st \<Longrightarrow> delete_message x now st = Inr (r, st') \<Longrightarrow> spent mid st'"
  by (auto simp: delete_message_def Let_def renumber_queue_def erase_row_def split: option.splits if_splits
      intro!: spent_update)

lemma spent_bind: "spent mid st \<Longrightarrow> spent mid (bind_run x run st)"
  unfolding bind_run_def by (rule spent_update) auto

lemma spent_fail: "spent mid st \<Longrightarrow> spent mid (snd (fail_interrupted x err now st))"
  unfolding fail_interrupted_def
  by (auto simp: Let_def fail_message_def close_open_deliveries_def spent_messages split: option.split
      intro!: spent_update [unfolded update_message_def] simp: update_message_def spent_def)

lemma spent_strand_row:
  assumes "spent mid st" "pq_id row = mid \<Longrightarrow> spent_state (pq_state row)" "is_unfinished row"
  shows "spent mid (strand_row reason now row st)"
proof -
  have "pq_state row = Delivering" if "pq_id row = mid"
    using assms(2,3) that by (auto simp: is_unfinished_def active_states_def pending_states_def)
  with assms(1) show ?thesis
    by (auto simp: strand_row_def Let_def spent_def close_open_deliveries_def update_message_def fail_message_def)
qed

lemma spent_strand_rows:
  assumes "spent mid st" "\<forall>row \<in> set rows. (pq_id row = mid \<longrightarrow> spent_state (pq_state row)) \<and> is_unfinished row"
  shows "spent mid (fold (strand_row reason now) rows st)"
  using assms by (induction rows arbitrary: st) (auto intro: spent_strand_row)

lemma spent_strand:
  assumes "spent mid st"
  shows "spent mid (snd (strand_pending t reason now st))"
  unfolding strand_pending_def Let_def snd_conv
  by (rule spent_strand_rows [OF assms]) (use assms in \<open>auto simp: spent_def\<close>)

lemma spent_prune: "spent mid st \<Longrightarrow> spent mid (prune_queue days now st)"
  by (simp add: spent_def prune_queue_def Let_def)

subsection \<open>What the other clients of the queue do\<close>

fun client_op :: "queue_op \<Rightarrow> bool" where
  "client_op (Op_Claim mid n key ini did now) = False"
| "client_op (Op_Finalize did mid x now) = False"
| "client_op _ = True"

fun fresh_ids :: "queue_op \<Rightarrow> string list" where
  "fresh_ids (Op_Create m now) = [mr_id m]"
| "fresh_ids _ = []"

lemma spent_client:
  assumes "client_op op" "spent mid st" "mid \<notin> set (fresh_ids op)"
  shows "spent mid (run_op op st)"
  using assms
  by (cases op)
    (auto simp: after_op_def split: sum.split intro: spent_create spent_edit spent_arm spent_move spent_cancel
      spent_delete spent_retarget spent_bind spent_constrain spent_fail spent_strand spent_prune)

lemma spent_reconcile_items: "spent mid st \<Longrightarrow> spent mid (snd (reconcile_items t current now rows st))"
  by (induction rows arbitrary: st)
    (simp_all add: Let_def strand_target_def spent_strand spent_fail case_prod_beta)

lemma spent_reconcile: "spent mid st \<Longrightarrow> spent mid (snd (reconcile_startup sessions now st))"
proof -
  have "spent mid st \<Longrightarrow> spent mid (snd (reconcile_target sessions now rows t st))" for rows t st
    by (simp add: reconcile_target_def strand_target_def spent_reconcile_items spent_strand case_prod_beta split: option.split)
  then have "spent mid st \<Longrightarrow> spent mid (snd (reconcile_targets sessions now rows ts st))" for rows ts st
    by (induction ts arbitrary: st) (simp_all add: Let_def case_prod_beta)
  then show "spent mid st \<Longrightarrow> spent mid (snd (reconcile_startup sessions now st))"
    by (simp add: reconcile_startup_def Let_def)
qed

subsection \<open>Sends in flight\<close>

record queue_daemon =
  dq_world :: queue_world
  dq_sends :: "send_task list"
  dq_created :: "string list"

definition fresh_queue_daemon :: queue_daemon where
  "fresh_queue_daemon = \<lparr>dq_world = \<lparr>qw_store = empty_queue, qw_tracker = new_tracker, qw_effects = []\<rparr>,
     dq_sends = [], dq_created = []\<rparr>"

definition on_queue :: "(queue_store \<Rightarrow> queue_store) \<Rightarrow> queue_world \<Rightarrow> queue_world" where
  "on_queue f w = w\<lparr>qw_store := f (qw_store w)\<rparr>"

text \<open>
  What happens next: another client's operation on the store, with identifiers of new messages that were
  never used; a send that starts, goes on, or is dropped with its request; a change of the tracker; or a
  restart, after which no send is in flight and the queue has been reconciled.
\<close>

inductive queue_step :: "queue_config \<Rightarrow> queue_daemon \<Rightarrow> queue_daemon \<Rightarrow> bool" for cfg where
  client_acts: "client_op op \<Longrightarrow> set (fresh_ids op) \<inter> set (dq_created d) = {} \<Longrightarrow>
    queue_step cfg d (d\<lparr>dq_world := on_queue (run_op op) (dq_world d), dq_created := fresh_ids op @ dq_created d\<rparr>)"
| send_starts: "queue_step cfg d (d\<lparr>dq_sends := dq_sends d @ [start_send q]\<rparr>)"
| send_goes_on: "dq_sends d = as @ k # bs \<Longrightarrow> send_step cfg e k (dq_world d) = (k', w') \<Longrightarrow>
    queue_step cfg d (d\<lparr>dq_world := w', dq_sends := as @ k' # bs\<rparr>)"
| send_dropped: "dq_sends d = as @ k # bs \<Longrightarrow> queue_step cfg d (d\<lparr>dq_sends := as @ bs\<rparr>)"
| tracker_learns: "queue_step cfg d (d\<lparr>dq_world := (dq_world d)\<lparr>qw_tracker := tr\<rparr>\<rparr>)"
| daemon_restarts: "queue_step cfg d (d\<lparr>dq_sends := [],
    dq_world := (on_queue (\<lambda>st. snd (reconcile_startup sessions now st)) (dq_world d))\<lparr>qw_tracker := new_tracker\<rparr>\<rparr>)"

inductive queue_reachable :: "queue_config \<Rightarrow> queue_daemon \<Rightarrow> bool" for cfg where
  reachable_fresh: "queue_reachable cfg fresh_queue_daemon"
| reachable_step: "queue_reachable cfg d \<Longrightarrow> queue_step cfg d d' \<Longrightarrow> queue_reachable cfg d'"

text \<open>A send holds its message from its claim until its settlement.\<close>

fun holding :: "send_phase \<Rightarrow> bool" where
  "holding Send_Claim = False"
| "holding (Send_Announce s a) = False"
| "holding (Send_Credit a) = False"
| "holding (Send_Ended a) = False"
| "holding p = True"

fun has_pasted :: "send_phase \<Rightarrow> bool" where
  "has_pasted Send_Settle = True"
| "has_pasted (Send_Press b rest) = True"
| "has_pasted (Send_Watch b d rest) = True"
| "has_pasted (Send_Pause b rest) = True"
| "has_pasted (Send_Fail err) = True"
| "has_pasted (Send_Close s) = True"
| "has_pasted p = False"

fun pastes_of :: "string \<Rightarrow> service_effect \<Rightarrow> bool" where
  "pastes_of mid (Paste_Tried t x d cond) = (x = mid)"
| "pastes_of mid _ = False"

definition paste_count :: "string \<Rightarrow> queue_world \<Rightarrow> nat" where
  "paste_count mid w = length (filter (pastes_of mid) (qw_effects w))"

definition holders :: "queue_daemon \<Rightarrow> string list" where
  "holders d = map message_of (filter (\<lambda>k. holding (sk_phase k)) (dq_sends d))"

definition queue_inv :: "queue_daemon \<Rightarrow> bool" where
  "queue_inv d \<longleftrightarrow>
     distinct (holders d) \<and>
     (\<forall>mid \<in> set (holders d). spent mid (qw_store (dq_world d))) \<and>
     (\<forall>k \<in> set (dq_sends d). holding (sk_phase k) \<and> \<not> has_pasted (sk_phase k) \<longrightarrow>
        paste_count (message_of k) (dq_world d) = 0) \<and>
     (\<forall>mid. paste_count mid (dq_world d) \<le> 1 \<and>
        (0 < paste_count mid (dq_world d) \<longrightarrow> spent mid (qw_store (dq_world d)) \<and> mid \<in> set (dq_created d))) \<and>
     set (holders d) \<subseteq> set (dq_created d) \<and>
     pq_id ` set (qs_messages (qw_store (dq_world d))) \<subseteq> set (dq_created d)"

text \<open>What one step of a send does to the messages, as far as the invariant sees it.\<close>

lemma message_of_simps [simp]:
  "message_of (goto_phase p k) = message_of k" "message_of (prepare_send cfg s k) = message_of k"
  "message_of (k\<lparr>sk_phase := p, sk_judgement := j\<rparr>) = message_of k"
  "message_of (k\<lparr>sk_phase := p, sk_delivery := did, sk_message := m\<rparr>) = message_of k"
  by (simp_all add: message_of_def)

lemma spent_mapped:
  assumes ms: "qs_messages st' = map (\<lambda>r. if pq_id r = m then f r else r) (qs_messages st)"
    and id: "\<And>r. pq_id (f r) = pq_id r"
  shows "x \<noteq> m \<Longrightarrow> spent x st' = spent x st" "(\<And>r. spent_state (pq_state (f r))) \<Longrightarrow> spent m st'"
    "pq_id ` set (qs_messages st') = pq_id ` set (qs_messages st)"
proof -
  assume "x \<noteq> m"
  then show "spent x st' = spent x st"
    unfolding spent_def ms set_map Set.ball_simps(9) by (intro ball_cong refl) (simp add: id)
next
  assume "\<And>r. spent_state (pq_state (f r))"
  then show "spent m st'" by (auto simp: spent_def ms)
next
  have "map pq_id (qs_messages st') = map pq_id (qs_messages st)" using id by (simp add: ms)
  then show "pq_id ` set (qs_messages st') = pq_id ` set (qs_messages st)" by (metis list.set_map)
qed

lemma claim_spends:
  assumes "claim_for_delivery mid n key ini did now st = Inr (Claim_Opened d row, st')"
  shows "\<not> spent mid st" "spent mid st'" "x \<noteq> mid \<Longrightarrow> spent x st' = spent x st"
    "pq_id ` set (qs_messages st') = pq_id ` set (qs_messages st)" "mid \<in> pq_id ` set (qs_messages st)"
proof -
  note c = claim_opened [OF assms]
  have "row \<in> set (qs_messages st)" "pq_id row = mid"
    using c(2) by (auto simp: find_message_def find_Some_iff)
  with c(3) pending_not_spent show "\<not> spent mid st" "mid \<in> pq_id ` set (qs_messages st)"
    by (auto simp: spent_def)
  have ms: "qs_messages st' = map (\<lambda>r. if pq_id r = mid then r\<lparr>pq_state := Delivering, pq_updated_at := now\<rparr> else r) (qs_messages st)"
    using assms by (auto simp: claim_for_delivery_def Let_def split: option.splits if_splits)
  show "spent mid st'" "x \<noteq> mid \<Longrightarrow> spent x st' = spent x st"
    "pq_id ` set (qs_messages st') = pq_id ` set (qs_messages st)"
    using spent_mapped [OF ms] by simp_all
qed

lemma claim_duplicate_same:
  "claim_for_delivery mid n key ini did now st = Inr (Duplicate_Claim a, st') \<Longrightarrow> st' = st"
  by (rule claim_duplicate(1))

lemma finalize_messages:
  "qs_messages (snd (finalize_delivery did mid x now st)) =
     map (\<lambda>r. if pq_id r = mid then settle_message x now r else r) (qs_messages st)"
  by (simp add: finalize_delivery_def Let_def)

lemma settle_message_id: "pq_id (settle_message res now r) = pq_id r" "pq_state (settle_message res now r) = ar_state res"
  by (simp_all add: settle_message_def)

lemmas finalize_spent = spent_mapped [OF finalize_messages settle_message_id(1)]

definition send_moves :: "send_task \<Rightarrow> queue_world \<Rightarrow> send_task \<Rightarrow> queue_world \<Rightarrow> bool" where
  "send_moves k w k' w' \<longleftrightarrow>
     message_of k' = message_of k \<and>
     pq_id ` set (qs_messages (qw_store w')) = pq_id ` set (qs_messages (qw_store w)) \<and>
     (\<forall>x. x \<noteq> message_of k \<longrightarrow> spent x (qw_store w') = spent x (qw_store w) \<and> paste_count x w' = paste_count x w) \<and>
     (holding (sk_phase k') \<longrightarrow>
        (if holding (sk_phase k) then spent (message_of k) (qw_store w) \<longrightarrow> spent (message_of k) (qw_store w')
         else \<not> spent (message_of k) (qw_store w) \<and> spent (message_of k) (qw_store w') \<and>
           \<not> has_pasted (sk_phase k') \<and> message_of k \<in> pq_id ` set (qs_messages (qw_store w)))) \<and>
     (has_pasted (sk_phase k) \<or> \<not> holding (sk_phase k) \<longrightarrow>
        paste_count (message_of k) w' = paste_count (message_of k) w \<and>
        (spent (message_of k) (qw_store w) \<longrightarrow> spent (message_of k) (qw_store w'))) \<and>
     (holding (sk_phase k) \<and> \<not> has_pasted (sk_phase k) \<longrightarrow>
        (if has_pasted (sk_phase k') then paste_count (message_of k) w' = Suc (paste_count (message_of k) w)
         else paste_count (message_of k) w' = paste_count (message_of k) w)) \<and>
     (has_pasted (sk_phase k) \<and> holding (sk_phase k') \<longrightarrow> has_pasted (sk_phase k'))"

lemma paste_count_log [simp]:
  "paste_count mid (log_effect x w) = paste_count mid w + (if pastes_of mid x then 1 else 0)"
  "paste_count mid (w\<lparr>qw_store := st\<rparr>) = paste_count mid w"
  "paste_count mid (w\<lparr>qw_tracker := tr\<rparr>) = paste_count mid w"
  by (simp_all add: paste_count_def log_effect_def)

lemma log_effect_world [simp]:
  "qw_store (log_effect x w) = qw_store w" "qw_store (w\<lparr>qw_tracker := tr\<rparr>) = qw_store w"
  by (simp_all add: log_effect_def)

lemma spent_same:
  assumes "map (\<lambda>x. (pq_id x, pq_state x)) (qs_messages st') = map (\<lambda>x. (pq_id x, pq_state x)) (qs_messages st)"
  shows "spent x st' = spent x st" "pq_id ` set (qs_messages st') = pq_id ` set (qs_messages st)"
proof -
  have e: "spent x s \<longleftrightarrow> (\<forall>(i, q) \<in> set (map (\<lambda>x. (pq_id x, pq_state x)) (qs_messages s)). i = x \<longrightarrow> spent_state q)" for s
    by (simp add: spent_def)
  show "spent x st' = spent x st" by (simp only: e assms)
  have "set (map fst (map (\<lambda>x. (pq_id x, pq_state x)) (qs_messages st'))) = set (map fst (map (\<lambda>x. (pq_id x, pq_state x)) (qs_messages st)))"
    unfolding assms ..
  then show "pq_id ` set (qs_messages st') = pq_id ` set (qs_messages st)" by (simp add: comp_def)
qed

lemma move_unseen:
  assumes "message_of k' = message_of k" "qw_store w' = qw_store w" "\<And>x. paste_count x w' = paste_count x w"
    and "holding (sk_phase k') \<longrightarrow> holding (sk_phase k)" "has_pasted (sk_phase k') \<longrightarrow> has_pasted (sk_phase k)"
    and "has_pasted (sk_phase k) \<and> holding (sk_phase k') \<longrightarrow> has_pasted (sk_phase k')"
  shows "send_moves k w k' w'"
  unfolding send_moves_def using assms by simp

lemma move_finalized:
  assumes k: "message_of k' = message_of k" "\<not> holding (sk_phase k')" "\<not> has_pasted (sk_phase k')" "holding (sk_phase k)"
    and w: "qw_store w' = snd (finalize_delivery did (message_of k) res now (qw_store w))"
    and c: "\<And>x. paste_count x w' = paste_count x w" and s: "has_pasted (sk_phase k) \<longrightarrow> spent_state (ar_state res)"
  shows "send_moves k w k' w'"
proof -
  have "\<forall>x. x \<noteq> message_of k \<longrightarrow> spent x (qw_store w') = spent x (qw_store w) \<and> paste_count x w' = paste_count x w"
    by (simp add: c w finalize_spent(1))
  moreover have "has_pasted (sk_phase k) \<longrightarrow> spent (message_of k) (qw_store w')"
    using s by (simp add: w finalize_spent(2) settle_message_id)
  moreover have "pq_id ` set (qs_messages (qw_store w')) = pq_id ` set (qs_messages (qw_store w))"
    unfolding w by (rule finalize_spent(3))
  ultimately show ?thesis unfolding send_moves_def using k c by simp
qed

lemma send_moves_step:
  assumes "send_step cfg e k w = (k', w')"
  shows "send_moves k w k' w'"
proof (cases "sk_phase k")
  case Send_Claim
  show ?thesis
  proof (cases "holding (sk_phase k')")
    case True
    let ?q = "sk_request k"
    let ?c = "claim_for_delivery (message_of k) (sq_revision ?q) (sq_key ?q) (sq_initiator ?q) (sv_fresh e)
        (sv_now e) (qw_store w)"
    have st: "claim_step e k w = (k', w')" using assms Send_Claim by (simp add: send_step_def)
    have "\<exists>did row st. ?c = Inr (Claim_Opened did row, st) \<and>
        k' = k\<lparr>sk_phase := Send_Check, sk_delivery := did, sk_message := row\<rparr> \<and> w' = w\<lparr>qw_store := st\<rparr>"
      using st True unfolding claim_step_def Let_def message_of_def
      by (auto split: if_splits sum.splits claim_answer.splits)
    then obtain did row st where c: "?c = Inr (Claim_Opened did row, st)"
      and k': "k' = k\<lparr>sk_phase := Send_Check, sk_delivery := did, sk_message := row\<rparr>"
      and w': "w' = w\<lparr>qw_store := st\<rparr>" by blast
    show ?thesis unfolding send_moves_def
      using claim_spends(1,2,4,5) [OF c] Send_Claim by (simp add: k' w' claim_spends(3) [OF c])
  next
    case False
    with assms Send_Claim have "message_of k' = message_of k" "qw_store w' = qw_store w"
      "\<And>x. paste_count x w' = paste_count x w" "\<not> has_pasted (sk_phase k')"
      by (auto simp: step_defs split: if_splits sum.splits claim_answer.splits)
        (drule claim_duplicate_same, simp)+
    with False show ?thesis by (intro move_unseen) auto
  qed
next
  case Send_Check
  with assms show ?thesis by (intro move_unseen) (auto simp: step_defs split: option.splits if_splits)
next
  case (Send_Bind r)
  with assms have "k' = prepare_send cfg (sv_target e) k"
    "w' = w\<lparr>qw_store := bind_run (pq_id (sk_message k)) r (qw_store w)\<rparr>" by (auto simp: step_defs)
  moreover have "qs_messages (bind_run m r st) = map (\<lambda>x. if pq_id x = m
      then (if pq_target_run x = None then x\<lparr>pq_target_run := Some r\<rparr> else x) else x) (qs_messages st)" for m st
    by (simp add: bind_run_def)
  then have "map (\<lambda>x. (pq_id x, pq_state x)) (qs_messages (bind_run m r st)) =
      map (\<lambda>x. (pq_id x, pq_state x)) (qs_messages st)" for m st by simp
  then have same: "spent x (bind_run m r st) = spent x st"
    "pq_id ` set (qs_messages (bind_run m r st)) = pq_id ` set (qs_messages st)" for x m st
    using spent_same by blast+
  ultimately show ?thesis using Send_Bind same by (simp add: send_moves_def)
next
  case (Send_Judge n refs)
  with assms show ?thesis by (intro move_unseen) (auto simp: step_defs split: nat.splits prod.splits sum.splits)
next
  case (Send_Paste c n refs)
  show ?thesis
  proof (cases "has_pasted (sk_phase k')")
    case True
    with Send_Paste assms have "w' = log_effect (Paste_Tried (target_of k) (message_of k) (sk_data k) c) w"
      "message_of k' = message_of k" "holding (sk_phase k')"
      by (auto simp: step_defs split: write_answer.splits)
    with True Send_Paste show ?thesis by (auto simp: send_moves_def)
  next
    case False
    with Send_Paste assms show ?thesis by (intro move_unseen) (auto simp: step_defs split: write_answer.splits)
  qed
next
  case Send_Settle
  with assms show ?thesis by (intro move_unseen) (auto simp: step_defs split: if_splits prod.splits)
next
  case (Send_Press b rest)
  with assms show ?thesis by (intro move_unseen) (auto simp: step_defs split: write_answer.splits if_splits)
next
  case (Send_Watch b d rest)
  with assms show ?thesis by (intro move_unseen) (auto simp: step_defs split: if_splits prod.splits)
next
  case (Send_Pause b rest)
  with assms show ?thesis by (intro move_unseen) (auto simp: step_defs split: if_splits prod.splits)
next
  case (Send_Refuse r)
  with assms show ?thesis
    by (intro move_finalized [where did = "sk_delivery k" and res = "refusal_result r" and now = "sv_now e"])
      (auto simp: step_defs split: prod.splits option.splits)
next
  case (Send_Fail err)
  with assms show ?thesis
    by (intro move_finalized [where did = "sk_delivery k" and now = "sv_now e"
          and res = "written_result Attempt_Failed Failed None (Some err) k"])
      (auto simp: step_defs written_result_def split: prod.splits option.splits)
next
  case (Send_Close s)
  with assms show ?thesis
    by (intro move_finalized [where did = "sk_delivery k" and now = "sv_now e"
          and res = "written_result Attempt_Sent Sent s None k"])
      (auto simp: step_defs written_result_def split: prod.splits option.splits)
next
  case (Send_Announce s a)
  with assms show ?thesis
    by (intro move_unseen; cases a) (auto simp: step_defs emit_updated_def delivery_reported_def split: if_splits)
next
  case (Send_Credit a)
  let ?st = "snd (credit_auto_attention (target_of k) ''manual-send'' (sv_now e) (qw_store w))"
  have ms: "qs_messages ?st = qs_messages (qw_store w)"
    by (simp add: credit_auto_attention_def update_policy_def Let_def split: option.split)
  from Send_Credit assms obtain x where w': "w' = log_effect (delivery_reported ''sent'' x k) (w\<lparr>qw_store := ?st\<rparr>)"
    and k': "k' = goto_phase (Send_Ended a) k"
    by (auto simp: send_step_def credit_step_def Let_def case_prod_beta)
  show ?thesis
    unfolding send_moves_def using Send_Credit ms by (simp add: w' k' delivery_reported_def spent_messages [OF ms])
next
  case (Send_Ended a)
  with assms show ?thesis by (intro move_unseen) (auto simp: step_defs)
qed

lemma pasted_holds: "has_pasted p \<Longrightarrow> holding p"
  by (cases p) simp_all

definition held :: "send_task \<Rightarrow> string list" where
  "held k = (if holding (sk_phase k) then [message_of k] else [])"

lemma holders_split:
  "holders (d\<lparr>dq_world := w, dq_sends := as @ k # bs\<rparr>) =
     map message_of (filter (\<lambda>k. holding (sk_phase k)) as) @ held k @ map message_of (filter (\<lambda>k. holding (sk_phase k)) bs)"
  by (simp add: holders_def held_def)

lemma inv_send:
  assumes inv: "queue_inv d" and d: "dq_sends d = as @ k # bs" and st: "send_step cfg e k (dq_world d) = (k', w')"
  shows "queue_inv (d\<lparr>dq_world := w', dq_sends := as @ k' # bs\<rparr>)"
proof -
  define m where "m = message_of k"
  define L where "L = map message_of (filter (\<lambda>k. holding (sk_phase k)) as)"
  define R where "R = map message_of (filter (\<lambda>k. holding (sk_phase k)) bs)"
  let ?w = "dq_world d"
  have mv: "send_moves k ?w k' w'" by (rule send_moves_step [OF st])
  have m': "message_of k' = m" and ids: "pq_id ` set (qs_messages (qw_store w')) = pq_id ` set (qs_messages (qw_store ?w))"
    and other: "\<And>x. x \<noteq> m \<Longrightarrow> spent x (qw_store w') = spent x (qw_store ?w) \<and> paste_count x w' = paste_count x ?w"
    and hold: "holding (sk_phase k') \<Longrightarrow> holding (sk_phase k) \<Longrightarrow> spent m (qw_store ?w) \<Longrightarrow> spent m (qw_store w')"
    and opened: "holding (sk_phase k') \<Longrightarrow> \<not> holding (sk_phase k) \<Longrightarrow> \<not> spent m (qw_store ?w) \<and> spent m (qw_store w') \<and>
        \<not> has_pasted (sk_phase k') \<and> m \<in> pq_id ` set (qs_messages (qw_store ?w))"
    and quiet: "has_pasted (sk_phase k) \<or> \<not> holding (sk_phase k) \<Longrightarrow> paste_count m w' = paste_count m ?w \<and>
        (spent m (qw_store ?w) \<longrightarrow> spent m (qw_store w'))"
    and paste: "holding (sk_phase k) \<Longrightarrow> \<not> has_pasted (sk_phase k) \<Longrightarrow>
        paste_count m w' = (if has_pasted (sk_phase k') then Suc (paste_count m ?w) else paste_count m ?w)"
    and stays: "has_pasted (sk_phase k) \<Longrightarrow> holding (sk_phase k') \<Longrightarrow> has_pasted (sk_phase k')"
    using mv unfolding send_moves_def m_def by (auto split: if_splits)
  have h: "holders d = L @ held k @ R" using d by (simp add: holders_def held_def L_def R_def)
  from inv have i1: "distinct (L @ held k @ R)" and i2: "\<And>x. x \<in> set (L @ held k @ R) \<Longrightarrow> spent x (qw_store ?w)"
    and i3: "\<And>j. j \<in> set (as @ k # bs) \<Longrightarrow> holding (sk_phase j) \<Longrightarrow> \<not> has_pasted (sk_phase j) \<Longrightarrow> paste_count (message_of j) ?w = 0"
    and i4: "\<And>x. paste_count x ?w \<le> 1" "\<And>x. 0 < paste_count x ?w \<Longrightarrow> spent x (qw_store ?w) \<and> x \<in> set (dq_created d)"
    and i5: "set (L @ held k @ R) \<subseteq> set (dq_created d)"
    and i6: "pq_id ` set (qs_messages (qw_store ?w)) \<subseteq> set (dq_created d)"
    unfolding queue_inv_def h using d by auto
  have free: "m \<notin> set (L @ R)" if "holding (sk_phase k)" using i1 that by (auto simp: held_def m_def)
  have free': "m \<notin> set (L @ R)" if "holding (sk_phase k')" using free opened that i2 by (cases "holding (sk_phase k)") auto
  have c0: "paste_count m ?w = 0" if "holding (sk_phase k')" "\<not> holding (sk_phase k)"
    using opened [OF that] i4(2) [of m] by auto
  have spent': "spent m (qw_store w')" if "holding (sk_phase k')"
  proof (cases "holding (sk_phase k)")
    case True
    with i2 have "spent m (qw_store ?w)" by (auto simp: held_def m_def)
    with hold that True show ?thesis by blast
  qed (use opened that in blast)
  have "distinct (L @ held k' @ R)"
    using i1 free' m' by (auto simp: held_def)
  moreover have "\<forall>x \<in> set (L @ held k' @ R). spent x (qw_store w')"
  proof
    fix x assume x: "x \<in> set (L @ held k' @ R)"
    show "spent x (qw_store w')"
    proof (cases "x = m")
      case False
      with x m' have "x \<in> set (L @ R)" by (auto simp: held_def split: if_splits)
      with i2 [of x] other [OF False] show ?thesis by auto
    next
      case True
      show ?thesis
      proof (cases "holding (sk_phase k')")
        case True
        with spent' \<open>x = m\<close> show ?thesis by simp
      next
        case False
        with x True have "m \<in> set (L @ R)" by (auto simp: held_def)
        with free i2 [of m] quiet True show ?thesis by auto
      qed
    qed
  qed
  moreover have "\<forall>j \<in> set (as @ k' # bs). holding (sk_phase j) \<and> \<not> has_pasted (sk_phase j) \<longrightarrow> paste_count (message_of j) w' = 0"
  proof (intro ballI impI)
    fix j assume j: "j \<in> set (as @ k' # bs)" "holding (sk_phase j) \<and> \<not> has_pasted (sk_phase j)"
    show "paste_count (message_of j) w' = 0"
    proof (cases "j = k'")
      case True
      show ?thesis
      proof (cases "holding (sk_phase k)")
        case h: True
        with stays j(2) True have "\<not> has_pasted (sk_phase k)" by auto
        with paste h j(2) True m' i3 [of k] show ?thesis by (auto simp: m_def)
      next
        case False
        with c0 quiet True j(2) m' show ?thesis by auto
      qed
    next
      case False
      with j have j': "j \<in> set (as @ k # bs)" "message_of j \<in> set (L @ R)" by (auto simp: L_def R_def)
      with i3 j(2) have z: "paste_count (message_of j) ?w = 0" by blast
      show ?thesis
      proof (cases "message_of j = m")
        case True
        with j'(2) free have "\<not> holding (sk_phase k)" by auto
        with quiet z True show ?thesis by auto
      next
        case False
        with other z show ?thesis by auto
      qed
    qed
  qed
  moreover have "\<forall>x. paste_count x w' \<le> 1 \<and> (0 < paste_count x w' \<longrightarrow> spent x (qw_store w') \<and> x \<in> set (dq_created d))"
  proof
    fix x
    show "paste_count x w' \<le> 1 \<and> (0 < paste_count x w' \<longrightarrow> spent x (qw_store w') \<and> x \<in> set (dq_created d))"
    proof (cases "x = m")
      case False
      with other [OF False] i4 [of x] show ?thesis by auto
    next
      case True
      show ?thesis
      proof (cases "holding (sk_phase k) \<and> \<not> has_pasted (sk_phase k)")
        case h: True
        then have z: "paste_count m ?w = 0" and "m \<in> set (dq_created d)"
          using i3 [of k] i5 by (auto simp: m_def held_def)
        with paste h spent' pasted_holds True show ?thesis by (cases "has_pasted (sk_phase k')") auto
      next
        case False
        with quiet i4 [of m] True show ?thesis by auto
      qed
    qed
  qed
  moreover have "set (L @ held k' @ R) \<subseteq> set (dq_created d)"
  proof (cases "holding (sk_phase k') \<and> \<not> holding (sk_phase k)")
    case True
    with opened i6 have "m \<in> set (dq_created d)" by blast
    with i5 m' show ?thesis by (auto simp: held_def)
  next
    case False
    with i5 m' show ?thesis by (auto simp: held_def m_def split: if_splits)
  qed
  ultimately show ?thesis
    using ids i6 unfolding queue_inv_def holders_split L_def [symmetric] R_def [symmetric] by simp
qed


definition message_ids :: "queue_store \<Rightarrow> string set" where
  "message_ids st = pq_id ` set (qs_messages st)"

lemma message_ids_map: "map pq_id (qs_messages st') = map pq_id (qs_messages st) \<Longrightarrow> message_ids st' = message_ids st"
  unfolding message_ids_def by (metis list.set_map)

lemma message_ids_same: "qs_messages st' = qs_messages st \<Longrightarrow> message_ids st' = message_ids st"
  by (simp add: message_ids_def)

lemma ids_update:
  assumes "\<And>r. pq_id (f r) = pq_id r"
  shows "message_ids (update_message m f st) = message_ids st"
  by (rule message_ids_map) (simp add: assms)

lemma ids_renumber: "message_ids (renumber_ids i ms st) = message_ids st"
  by (rule message_ids_map) (simp add: renumber_ids_place)

lemma ids_strand: "message_ids (snd (strand_pending t reason now st)) = message_ids st"
proof -
  have "message_ids (strand_row reason now row st) = message_ids st" for row st
    by (rule message_ids_map) (auto simp: strand_row_def Let_def close_open_deliveries_def fail_message_def)
  then have "message_ids (fold (strand_row reason now) rows st) = message_ids st" for rows
    by (induction rows arbitrary: st) simp_all
  then show ?thesis by (simp add: strand_pending_def Let_def)
qed

lemma ids_fail: "message_ids (snd (fail_interrupted m err now st)) = message_ids st"
  by (rule message_ids_map) (auto simp: fail_interrupted_def Let_def close_open_deliveries_def fail_message_def
      split: option.split)

lemma ids_on_message:
  assumes "on_message x p act st = Inr (a, st')" "\<And>r. act r = Inr (a, st') \<Longrightarrow> message_ids st' = message_ids st"
  shows "message_ids st' = message_ids st"
  using assms by (auto simp: on_message_def immutable_state_def split: option.splits if_splits)

lemma ids_edit: "edit_body x n body now st = Inr (r, st') \<Longrightarrow> message_ids st' = message_ids st"
  unfolding edit_body_def
  by (erule ids_on_message) (auto simp: Let_def ids_update simp del: store_fields split: if_splits)

lemma ids_arm: "set_armed x b now st = Inr (r, st') \<Longrightarrow> message_ids st' = message_ids st"
  unfolding set_armed_def by (erule ids_on_message) (auto simp: Let_def ids_update simp del: store_fields)

lemma ids_constrain: "set_constraints x c now st = Inr (r, st') \<Longrightarrow> message_ids st' = message_ids st"
  unfolding set_constraints_def by (erule ids_on_message) (auto simp: Let_def ids_update simp del: store_fields)

lemma ids_cancel: "cancel_message x kind now st = Inr (r, st') \<Longrightarrow> message_ids st' = message_ids st"
  unfolding cancel_message_def by (erule ids_on_message) (auto simp: Let_def ids_update simp del: store_fields)

lemma ids_retarget: "retarget_message x t now st = Inr (r, st') \<Longrightarrow> message_ids st' = message_ids st"
  unfolding retarget_message_def
  by (erule ids_on_message) (auto simp: Let_def ids_update retarget_row_def simp del: store_fields)

lemma ids_move: "move_message x after now st = Inr (r, st') \<Longrightarrow> message_ids st' = message_ids st"
  unfolding move_message_def
  by (erule ids_on_message)
    (auto simp: Let_def renumber_queue_def ids_update ids_renumber simp del: store_fields split: if_splits option.splits)

lemma ids_delete: "delete_message x now st = Inr (r, st') \<Longrightarrow> message_ids st' = message_ids st"
  by (auto simp: delete_message_def Let_def renumber_queue_def erase_row_def ids_update ids_renumber
      simp del: store_fields split: option.splits if_splits)

lemma message_ids_appended:
  "message_ids (st\<lparr>qs_messages := qs_messages st @ [new_message m p now]\<rparr>) = insert (mr_id m) (message_ids st)"
  by (simp add: message_ids_def new_message_def)

lemma ids_create: "create_message m now st = Inr (c, st') \<Longrightarrow> message_ids st' \<subseteq> message_ids st \<union> {mr_id m}"
  by (auto simp: create_message_def insert_message_def renumber_queue_def Let_def ids_renumber message_ids_appended
      split: option.splits if_splits)

lemma ids_after:
  "(\<And>a st'. res = Inr (a, st') \<Longrightarrow> message_ids st' = message_ids st) \<Longrightarrow> message_ids (after_op res st) = message_ids st"
  by (simp add: after_op_def split: sum.split)

lemma client_ids: "client_op op \<Longrightarrow> message_ids (run_op op st) \<subseteq> message_ids st \<union> set (fresh_ids op)"
proof (cases op)
  case (Op_Create m now)
  then show ?thesis using ids_create [of m now st] by (cases "create_message m now st") (auto simp: after_op_def)
next
  case (Op_Bind mid run)
  then show ?thesis by (simp add: bind_run_def ids_update del: store_fields)
next
  case (Op_Prune days now)
  then show ?thesis by (auto simp: message_ids_def prune_queue_def Let_def)
qed (simp_all add: ids_after ids_edit ids_arm ids_move ids_cancel ids_delete ids_retarget ids_constrain
    ids_fail ids_strand)

lemma reconcile_ids: "message_ids (snd (reconcile_startup sessions now st)) = message_ids st"
proof -
  have items: "message_ids (snd (reconcile_items t current now rows st)) = message_ids st" for t current rows st
    by (induction rows arbitrary: st) (simp_all add: Let_def strand_target_def ids_strand ids_fail case_prod_beta)
  have "message_ids (snd (reconcile_target sessions now rows t st)) = message_ids st" for rows t st
    by (simp add: reconcile_target_def strand_target_def items ids_strand case_prod_beta split: option.split)
  then have "message_ids (snd (reconcile_targets sessions now rows ts st)) = message_ids st" for rows ts st
    by (induction ts arbitrary: st) (simp_all add: Let_def case_prod_beta)
  then show ?thesis by (simp add: reconcile_startup_def Let_def)
qed

lemma inv_client:
  assumes inv: "queue_inv d" and op: "client_op op" and fresh: "set (fresh_ids op) \<inter> set (dq_created d) = {}"
  shows "queue_inv (d\<lparr>dq_world := on_queue (run_op op) (dq_world d), dq_created := fresh_ids op @ dq_created d\<rparr>)"
proof -
  have c: "paste_count x (on_queue f (dq_world d)) = paste_count x (dq_world d)" for x f
    by (simp add: on_queue_def)
  have "spent x (qw_store (dq_world d)) \<Longrightarrow> x \<in> set (dq_created d) \<Longrightarrow>
      spent x (qw_store (on_queue (run_op op) (dq_world d)))" for x
    using spent_client [OF op, of x "qw_store (dq_world d)"] fresh by (auto simp: on_queue_def)
  moreover have "pq_id ` set (qs_messages (qw_store (on_queue (run_op op) (dq_world d)))) \<subseteq> set (fresh_ids op @ dq_created d)"
  proof -
    have "message_ids (qw_store (dq_world d)) \<subseteq> set (dq_created d)" using inv by (simp add: queue_inv_def message_ids_def)
    with client_ids [OF op, of "qw_store (dq_world d)"]
    have "message_ids (run_op op (qw_store (dq_world d))) \<subseteq> set (dq_created d) \<union> set (fresh_ids op)" by blast
    then show ?thesis by (simp add: on_queue_def message_ids_def Un_commute)
  qed
  ultimately show ?thesis
    using inv unfolding queue_inv_def holders_def by (simp add: c) blast
qed

lemma inv_restart:
  assumes "queue_inv d"
  shows "queue_inv (d\<lparr>dq_sends := [], dq_world :=
    (on_queue (\<lambda>st. snd (reconcile_startup sessions now st)) (dq_world d))\<lparr>qw_tracker := new_tracker\<rparr>\<rparr>)"
proof -
  have "spent x (qw_store (dq_world d)) \<Longrightarrow>
      spent x (snd (reconcile_startup sessions now (qw_store (dq_world d))))" for x by (rule spent_reconcile)
  then show ?thesis
    using assms unfolding queue_inv_def by (simp add: on_queue_def holders_def reconcile_ids [unfolded message_ids_def])
qed

lemma inv_step:
  assumes "queue_inv d" "queue_step cfg d d'"
  shows "queue_inv d'"
  using assms(2)
proof cases
  case (client_acts op)
  with inv_client [OF assms(1)] show ?thesis by simp
next
  case (send_starts q)
  with assms(1) show ?thesis
    by (auto simp: queue_inv_def holders_def start_send_def)
next
  case (send_goes_on as k bs e k' w')
  with inv_send [OF assms(1)] show ?thesis by blast
next
  case (send_dropped as k bs)
  with assms(1) show ?thesis
    by (cases "holding (sk_phase k)") (auto simp: queue_inv_def holders_def)
next
  case (tracker_learns tr)
  with assms(1) show ?thesis by (simp add: queue_inv_def holders_def)
next
  case (daemon_restarts sessions now)
  with inv_restart [OF assms(1)] show ?thesis by simp
qed

text \<open>
  C5. A message's text is pasted into a terminal at most once, however requests, deliveries, stranding,
  dropped requests and restarts interleave, and once it has been pasted it can never be waiting again:
  its row is being delivered, sent, failed, deleted or gone.
\<close>

theorem delivered_at_most_once:
  assumes "queue_reachable cfg d"
  shows "paste_count mid (dq_world d) \<le> 1 \<and> (0 < paste_count mid (dq_world d) \<longrightarrow>
    (\<forall>r \<in> set (qs_messages (qw_store (dq_world d))). pq_id r = mid \<longrightarrow>
       pq_state r \<in> {Delivering, Sent, Failed, Deleted}))"
proof -
  have "queue_inv d"
    using assms
  proof induction
    case reachable_fresh
    then show ?case by (simp add: queue_inv_def fresh_queue_daemon_def holders_def paste_count_def empty_queue_def)
  next
    case (reachable_step d d')
    then show ?case using inv_step by blast
  qed
  then show ?thesis unfolding queue_inv_def spent_def spent_state_def by blast
qed


lemma run_send_reachable:
  "queue_reachable cfg d \<Longrightarrow> dq_sends d = [k] \<Longrightarrow>
     queue_reachable cfg (d\<lparr>dq_world := snd (run_send cfg es k (dq_world d)), dq_sends := [fst (run_send cfg es k (dq_world d))]\<rparr>)"
proof (induction es arbitrary: d k)
  case Nil
  have "d\<lparr>dq_world := dq_world d, dq_sends := [k]\<rparr> = d" using Nil.prems(2) by (cases d) simp
  with Nil.prems(1) show ?case by simp
next
  case (Cons e es)
  obtain k1 w1 where st: "send_step cfg e k (dq_world d) = (k1, w1)" by force
  have "queue_step cfg d (d\<lparr>dq_world := w1, dq_sends := [] @ k1 # []\<rparr>)"
    by (rule send_goes_on [OF _ st]) (simp add: Cons.prems(2))
  with Cons.prems(1) have "queue_reachable cfg (d\<lparr>dq_world := w1, dq_sends := [k1]\<rparr>)"
    by (simp add: reachable_step)
  from Cons.IH [OF this, of k1] st show ?case by simp
qed

definition daemon_with_message :: queue_daemon where
  "daemon_with_message = \<lparr>dq_world = \<lparr>qw_store = run_op (Op_Create (demo_request ''a'') 1) empty_queue,
     qw_tracker = demo_readiness, qw_effects = []\<rparr>, dq_sends = [start_send demo_send], dq_created = [''a'']\<rparr>"

lemma daemon_with_message_reachable: "queue_reachable cfg daemon_with_message"
proof -
  let ?d1 = "fresh_queue_daemon\<lparr>dq_world := on_queue (run_op (Op_Create (demo_request ''a'') 1)) (dq_world fresh_queue_daemon),
     dq_created := [''a'']\<rparr>"
  have "queue_step cfg fresh_queue_daemon ?d1"
    using client_acts [of "Op_Create (demo_request ''a'') 1" fresh_queue_daemon cfg]
    by (simp add: demo_request_def fresh_queue_daemon_def)
  then have "queue_reachable cfg ?d1" using reachable_fresh reachable_step by blast
  then have "queue_reachable cfg (?d1\<lparr>dq_world := (dq_world ?d1)\<lparr>qw_tracker := demo_readiness\<rparr>\<rparr>)"
    using tracker_learns reachable_step by blast
  then have "queue_reachable cfg (?d1\<lparr>dq_world := (dq_world ?d1)\<lparr>qw_tracker := demo_readiness\<rparr>,
      dq_sends := dq_sends ?d1 @ [start_send demo_send]\<rparr>)"
    using send_starts [of cfg "?d1\<lparr>dq_world := (dq_world ?d1)\<lparr>qw_tracker := demo_readiness\<rparr>\<rparr>" demo_send]
      reachable_step by simp
  moreover have "?d1\<lparr>dq_world := (dq_world ?d1)\<lparr>qw_tracker := demo_readiness\<rparr>,
      dq_sends := dq_sends ?d1 @ [start_send demo_send]\<rparr> = daemon_with_message"
    by (simp add: daemon_with_message_def fresh_queue_daemon_def on_queue_def)
  ultimately show ?thesis by simp
qed

theorem delivered_at_most_once_witness:
  "\<exists>d. queue_reachable demo_config d \<and> paste_count ''a'' (dq_world d) = 1"
proof -
  let ?w = "dq_world daemon_with_message"
  let ?r = "run_send demo_config demo_moments (start_send demo_send) ?w"
  let ?d = "daemon_with_message\<lparr>dq_world := snd ?r, dq_sends := [fst ?r]\<rparr>"
  have r: "queue_reachable demo_config ?d"
    by (rule run_send_reachable [OF daemon_with_message_reachable]) (simp add: daemon_with_message_def)
  have "list_ex (pastes_of ''a'') (qw_effects (snd ?r))" by code_simp
  then have "filter (pastes_of ''a'') (qw_effects (snd ?r)) \<noteq> []" by (auto simp: list_ex_iff filter_empty_conv)
  then have "0 < paste_count ''a'' (dq_world ?d)" by (simp add: paste_count_def)
  with delivered_at_most_once [OF r, of "''a''"] have "paste_count ''a'' (dq_world ?d) = 1" by linarith
  with r show ?thesis by blast
qed

end
