(* ===== verification/Delivery_Writing.thy ===== *)
theory Delivery_Writing
  imports Queue_Sending Core_Safety
begin

text \<open>
  A delivery meets the terminal and the observer: the conditional write of a verdict against the terminal
  core it was given about, and the mark that names the author of a delivered prompt.
\<close>

subsection \<open>Who is recorded as the author\<close>

text \<open>
  \<^verbatim>\<open>_note_prompt_authorship\<close> of \<^verbatim>\<open>observation.py\<close>, run for every root submit hook: the delivery mark of the
  session and the time of the last prompt a human wrote.
\<close>

definition queue_delivery_attribution_seconds :: seconds where
  "queue_delivery_attribution_seconds = 30"

definition note_prompt_authorship ::
  "(seconds \<times> bool) option \<Rightarrow> seconds option \<Rightarrow> seconds \<Rightarrow> (seconds \<times> bool) option \<times> seconds option" where
  "note_prompt_authorship mark last_human now =
     (case mark of
        None \<Rightarrow> (None, Some now)
      | Some (delivered_at, human) \<Rightarrow>
          if now - delivered_at \<le> queue_delivery_attribution_seconds
          then (None, if human then Some now else last_human)
          else (mark, Some now))"

fun is_mark :: "service_effect \<Rightarrow> bool" where
  "is_mark (Delivery_Marked t at_time human) = True"
| "is_mark _ = False"

fun before_press :: "send_phase \<Rightarrow> bool" where
  "before_press (Send_Watch b d rest) = False"
| "before_press (Send_Pause b rest) = False"
| "before_press (Send_Press b rest) = True"
| "before_press Send_Settle = True"
| "before_press p = (pastes_left p = 1)"

fun may_mark :: "send_phase \<Rightarrow> bool" where
  "may_mark (Send_Watch b d rest) = True"
| "may_mark (Send_Pause b rest) = True"
| "may_mark p = before_press p"

lemma may_press: "presses_left cfg p \<noteq> 0 \<Longrightarrow> may_mark p"
  by (cases p) (auto split: if_splits)

lemma step_marks:
  assumes "send_step cfg e k w = (k1, w1)" "qw_effects w1 = qw_effects w @ xs"
  shows "(may_mark (sk_phase k1) \<longrightarrow> may_mark (sk_phase k) \<and> filter is_mark xs = [] \<and>
      (before_press (sk_phase k) \<longrightarrow> before_press (sk_phase k1) \<or> filter is_press xs \<noteq> []))
    \<and> (\<forall>as x bs. xs = as @ x # bs \<and> is_mark x \<longrightarrow> may_mark (sk_phase k) \<and> \<not> may_mark (sk_phase k1)
      \<and> filter is_press bs = [] \<and> (before_press (sk_phase k) \<longrightarrow> filter is_press as \<noteq> []))"
proof (cases "sk_phase k")
  case Send_Claim
  with assms show ?thesis by (auto simp: step_defs split: if_splits sum.splits claim_answer.splits)
next
  case Send_Check
  with assms show ?thesis by (auto simp: step_defs split: option.splits if_splits)
next
  case (Send_Bind r)
  with assms show ?thesis by (auto simp: step_defs)
next
  case (Send_Judge n refs)
  with assms show ?thesis by (auto simp: step_defs split: nat.splits prod.splits sum.splits)
next
  case (Send_Paste c n refs)
  with assms show ?thesis by (auto simp: step_defs Cons_eq_append_conv split: write_answer.splits)
next
  case Send_Settle
  with assms show ?thesis by (auto simp: step_defs split: if_splits prod.splits)
next
  case (Send_Press b rest)
  with assms show ?thesis by (auto simp: step_defs Cons_eq_append_conv split: write_answer.splits if_splits)
next
  case (Send_Watch b d rest)
  with assms show ?thesis by (auto simp: step_defs Cons_eq_append_conv split: if_splits prod.splits)
next
  case (Send_Pause b rest)
  with assms show ?thesis by (auto simp: step_defs Cons_eq_append_conv split: if_splits prod.splits)
next
  case (Send_Refuse r)
  with assms show ?thesis by (auto simp: step_defs split: prod.splits option.splits)
next
  case (Send_Fail err)
  with assms show ?thesis by (auto simp: step_defs split: prod.splits option.splits)
next
  case (Send_Close s)
  with assms show ?thesis by (auto simp: step_defs split: prod.splits option.splits)
next
  case (Send_Announce s a)
  with assms show ?thesis
    by (cases a) (auto simp: step_defs emit_updated_def delivery_reported_def Cons_eq_append_conv split: if_splits)
next
  case (Send_Credit a)
  with assms show ?thesis
    by (auto simp: step_defs delivery_reported_def Cons_eq_append_conv split: prod.splits)
next
  case (Send_Ended a)
  with assms show ?thesis by (auto simp: step_defs)
qed

lemma unmarked_path:
  assumes "send_path cfg es k xs k2" "\<not> may_mark (sk_phase k)"
  shows "filter is_mark xs = [] \<and> filter is_press xs = []"
  using assms
proof (induction rule: send_path.induct)
  case (send_here k)
  then show ?case by simp
next
  case (send_on e k w k1 w1 xs es ys k2)
  have no: "\<not> is_mark x" if "x \<in> set xs" for x
    using step_marks [OF send_on.hyps(1,2)] send_on.prems that by (metis split_list)
  have "pauses_ok (sk_phase k)" using send_on.prems by (cases "sk_phase k") simp_all
  with step_counts [OF send_on.hyps(1,2)] may_press [of cfg "sk_phase k"] send_on.prems
  have "length (filter is_press xs) = 0" by force
  with no step_marks [OF send_on.hyps(1,2)] send_on.IH send_on.prems show ?case by auto
qed

lemma mark_after_press:
  assumes "send_path cfg es k xs k2" "xs = as @ x # bs" "is_mark x"
  shows "filter is_press bs = [] \<and> (before_press (sk_phase k) \<longrightarrow> filter is_press as \<noteq> [])"
  using assms
proof (induction arbitrary: as rule: send_path.induct)
  case (send_here k)
  then show ?case by simp
next
  case (send_on e k w k1 w1 xs es ys k2)
  note marks = step_marks [OF send_on.hyps(1,2)]
  from send_on.prems(1) consider us where "xs = as @ x # us" "bs = us @ ys" | us where "as = xs @ us" "ys = us @ x # bs"
    by (auto simp: append_eq_append_conv2 append_eq_Cons_conv Cons_eq_append_conv)
  then show ?case
  proof cases
    case 1
    with marks send_on.prems(2) have "\<not> may_mark (sk_phase k1)" "filter is_press us = []"
      "before_press (sk_phase k) \<longrightarrow> filter is_press as \<noteq> []" by blast+
    with unmarked_path [OF send_on.hyps(3)] 1 show ?thesis by simp
  next
    case 2
    then have "may_mark (sk_phase k1)" using unmarked_path [OF send_on.hyps(3)] send_on.prems(2) by auto
    with marks send_on.IH [OF 2(2) send_on.prems(2)] 2(1) show ?thesis by auto
  qed
qed

lemma step_one_mark:
  assumes "send_step cfg e k w = (k1, w1)" "qw_effects w1 = qw_effects w @ xs"
  shows "length (filter is_mark xs) \<le> 1"
proof (cases "sk_phase k")
  case (Send_Announce s a)
  with assms show ?thesis
    by (cases a) (auto simp: step_defs emit_updated_def delivery_reported_def split: if_splits)
next
  case (Send_Credit a)
  with assms show ?thesis by (auto simp: step_defs delivery_reported_def split: prod.splits)
qed (use assms in \<open>auto simp: step_defs delivery_reported_def split: if_splits sum.splits claim_answer.splits
    option.splits nat.splits prod.splits write_answer.splits\<close>)

lemma one_mark:
  assumes "send_path cfg es k xs k2"
  shows "length (filter is_mark xs) \<le> 1"
  using assms
proof (induction rule: send_path.induct)
  case (send_here k)
  then show ?case by simp
next
  case (send_on e k w k1 w1 xs es ys k2)
  show ?case
  proof (cases "filter is_mark xs = []")
    case True
    with send_on.IH show ?thesis by simp
  next
    case False
    then have "\<not> may_mark (sk_phase k1)" using step_marks [OF send_on.hyps(1,2)] by blast
    from unmarked_path [OF send_on.hyps(3) this] step_one_mark [OF send_on.hyps(1,2)] show ?thesis by simp
  qed
qed

text \<open>
  What happens to one session while one delivery to it runs, in the order it happens: the effects of the
  send, and the root prompts whose submit hook the observer gets. The authorship state is the standing
  mark and the time of the last prompt counted as a human's.
\<close>

datatype author_event =
    Sent_Effect service_effect
  | Prompt_Submitted seconds

fun author_step ::
  "(seconds \<times> bool) option \<times> seconds option \<Rightarrow> author_event \<Rightarrow> (seconds \<times> bool) option \<times> seconds option" where
  "author_step st (Sent_Effect (Delivery_Marked t marked_at human)) = (Some (marked_at, human), snd st)"
| "author_step st (Sent_Effect x) = st"
| "author_step st (Prompt_Submitted now) = note_prompt_authorship (fst st) (snd st) now"

definition authorship :: "author_event list \<Rightarrow> seconds option \<Rightarrow> (seconds \<times> bool) option \<times> seconds option" where
  "authorship evs last_human = foldl author_step (None, last_human) evs"

fun sent_effects :: "author_event list \<Rightarrow> service_effect list" where
  "sent_effects [] = []"
| "sent_effects (Sent_Effect x # evs) = x # sent_effects evs"
| "sent_effects (Prompt_Submitted t # evs) = sent_effects evs"

lemma sent_effects_append [simp]: "sent_effects (as @ bs) = sent_effects as @ sent_effects bs"
  by (induction as rule: sent_effects.induct) simp_all

lemma no_mark_step: "\<not> is_mark x \<Longrightarrow> author_step st (Sent_Effect x) = st"
  by (cases x) simp_all

lemma unmarked_authorship:
  "filter is_mark (sent_effects evs) = [] \<Longrightarrow> fst (foldl author_step (None, l) evs) = None"
proof (induction evs arbitrary: l rule: sent_effects.induct)
  case (2 x evs)
  then show ?case by (simp add: no_mark_step split: if_splits)
next
  case (3 t evs)
  then show ?case by (simp add: note_prompt_authorship_def)
qed simp

lemma effects_only:
  "list_all (\<lambda>x. \<exists>y. x = Sent_Effect y) evs \<Longrightarrow> filter is_mark (sent_effects evs) = [] \<Longrightarrow> foldl author_step st evs = st"
  by (induction evs) (auto simp: no_mark_step split: if_splits)


text \<open>The delivery of an agent's message: pressed at 21, the turn seen and the mark set at 22.\<close>

definition agent_queue :: queue_store where
  "agent_queue = run_op (Op_Create (demo_request ''a''\<lparr>mr_sender_kind := ''agent''\<rparr>) 1) empty_queue"

definition agent_effects :: "service_effect list" where
  "agent_effects = qw_effects (snd (run_send demo_config demo_moments (start_send demo_send)
     \<lparr>qw_store = agent_queue, qw_tracker = demo_readiness, qw_effects = []\<rparr>))"

lemma sent_effects_map [simp]: "sent_effects (map Sent_Effect xs) = xs"
  by (induction xs) simp_all


subsection \<open>The composer a verdict saw is the composer it writes into\<close>

lemma screen_position_read:
  assumes "ev_screen_position (fst (evaluate hs rec cache adopt s now tr)) = Some p"
  shows "\<exists>r. dr_reading s = Some r \<and> rg_position r = p"
  using assms unfolding evaluate_parts(7) by (auto split: if_splits)

text \<open>
  C6. A delivery whose verdict leaned on the screen is written only into the composer the verdict saw: if
  the session is what the terminal core shows, and the conditional write goes through after any further
  events, then nothing disturbed the screen or the composer in between, no unsubmitted delivery stands in
  it, and the paste is exactly what the terminal gets.
\<close>

theorem judged_paste_lands_undisturbed:
  assumes "fst (evaluate hs rec cache adopt s now tr) = ev" "ev_screen_position ev = Some p"
    and "dr_input_revision s = input_revision c0" "dr_reading s = composer_screen e0 c0"
    and "forward dumps ops c0"
    and "core_write e1 data (Some (delivery_condition ev)) (core_run dumps ops c0) = Inr c2"
  shows "\<not> disturbed dumps ops c0 \<and> unsubmitted (core_run dumps ops c0) = None
    \<and> pty_log c2 = pty_log (core_run dumps ops c0) @ [Pty_Write data]"
proof -
  from screen_position_read [of hs rec cache adopt s now tr p] assms(1,2)
  obtain r where r: "dr_reading s = Some r" "rg_position r = p" by auto
  have "ev_input_revision ev = input_revision c0"
    using evaluate_parts(6) [of hs rec cache adopt s now tr] assms(1,3) by simp
  with assms(2,6) r have w: "core_write e1 data
      (Some \<lparr>wc_input_revision = Some (input_revision c0), operator_quiet_seconds = Some READINESS_DEBOUNCE_SECONDS,
             no_pending_submit = True, screen_position = Some (rg_position r)\<rparr>) (core_run dumps ops c0) = Inr c2"
    by (simp add: delivery_condition_def)
  have "composer_screen e0 c0 = Some r" using assms(4) r(1) by simp
  from delivery_is_not_overtaken [OF this assms(5) w] show ?thesis .
qed

definition judged_session :: readiness_session where
  "judged_session = demo_ready_session\<lparr>dr_input_revision := input_revision judged_core,
     dr_reading := composer_screen (demo_env 5) judged_core\<rparr>"

theorem judged_paste_lands_undisturbed_witness:
  "\<exists>c2. core_write (demo_env 20) ''go''
      (Some (delivery_condition (fst (evaluate demo_harness True 0 True judged_session 20 demo_readiness))))
      (core_run (\<lambda>_. []) quiet_ops judged_core) = Inr c2
    \<and> \<not> disturbed (\<lambda>_. []) quiet_ops judged_core
    \<and> pty_log c2 = pty_log (core_run (\<lambda>_. []) quiet_ops judged_core) @ [Pty_Write ''go'']"
proof -
  let ?ev = "fst (evaluate demo_harness True 0 True judged_session 20 demo_readiness)"
  have p: "ev_screen_position ?ev = Some 7" and f: "forward (\<lambda>_. []) quiet_ops judged_core"
    and w: "\<not> isl (core_write (demo_env 20) ''go'' (Some (delivery_condition ?ev)) (core_run (\<lambda>_. []) quiet_ops judged_core))"
    by code_simp+
  have s: "dr_input_revision judged_session = input_revision judged_core"
    "dr_reading judged_session = composer_screen (demo_env 5) judged_core"
    by (simp_all add: judged_session_def)
  from w obtain c2 where c2: "core_write (demo_env 20) ''go'' (Some (delivery_condition ?ev))
      (core_run (\<lambda>_. []) quiet_ops judged_core) = Inr c2" by (metis isl_def sum.exhaust_sel)
  from judged_paste_lands_undisturbed [OF refl p s f c2] c2 show ?thesis by blast
qed

end
