(* ===== verification/Auto_Delivery.thy ===== *)
theory Auto_Delivery
  imports Queue_Sending
begin

text \<open>
  \<^verbatim>\<open>AutoDeliveryController\<close> of \<^verbatim>\<open>auto_delivery.py\<close>: when a waiting message is sent without a person
  pressing send. The grants live in the policy table of the queue's store; the controller itself keeps,
  per session, since when the head message was seen deliverable and until when it backs off. Requests
  are functions over both. A pass over the sessions waits for the store and for each send, so it is a
  machine: one step is one of the stretches named below, and between two steps the rest of the daemon
  may do anything to the queue. The store calls of one request, and of one lapse, run as one stretch.
\<close>

subsection \<open>Constants\<close>

definition expiry_sweep_ticks :: int where "expiry_sweep_ticks = 30"
definition proving_min_sends :: int where "proving_min_sends = 50"
definition proving_min_days :: seconds where "proving_min_days = 14"

definition counter_sent :: string where "counter_sent = ''auto_sent''"
definition counter_refused :: string where "counter_refused = ''auto_refused''"
definition counter_failed :: string where "counter_failed = ''auto_failed''"
definition counter_unsafe :: string where "counter_unsafe = ''unsafe_reported''"
definition counter_proving_since :: string where "counter_proving_since = ''proving_since''"
definition counter_lapsed :: string where "counter_lapsed = ''auto_lapsed''"

definition default_policy_by :: string where "default_policy_by = ''conversation-default''"

definition failed_delivery_reason :: string where
  "failed_delivery_reason = ''a delivery failed mid-send; verify the terminal before re-enabling''"

definition lapsed_reason :: string where
  "lapsed_reason = ''auto-delivery grant lapsed while the conversation was idle''"

definition legacy_expired_reason :: string where
  "legacy_expired_reason = ''auto-delivery grant expired''"

definition session_ended_reason :: string where "session_ended_reason = ''target session ended''"
definition run_replaced_reason :: string where "run_replaced_reason = ''target agent run was replaced''"

definition is_lapse_reason :: "string option \<Rightarrow> bool" where
  "is_lapse_reason reason \<longleftrightarrow> ifnull reason \<in> {lapsed_reason, legacy_expired_reason}"

lemma reasons_differ [simp]:
  "failed_delivery_reason \<noteq> lapsed_reason" "failed_delivery_reason \<noteq> legacy_expired_reason"
  "failed_delivery_reason \<noteq> send_cap_reason" "lapsed_reason \<noteq> failed_delivery_reason"
  "legacy_expired_reason \<noteq> failed_delivery_reason" "send_cap_reason \<noteq> failed_delivery_reason"
  "failed_delivery_reason \<noteq> ''''"
  by (simp_all add: failed_delivery_reason_def lapsed_reason_def legacy_expired_reason_def send_cap_reason_def)

subsection \<open>Quiet hours\<close>

text \<open>\<^verbatim>\<open>HH:MM\<close> in minutes; the host's local time is an argument, as hour and minute.\<close>

definition clock_minutes :: "string \<Rightarrow> int option" where
  "clock_minutes v =
     (if length v = 5 \<and> v ! 2 = CHR '':'' \<and> is_decimal (take 2 v) \<and> is_decimal (drop 3 v)
      then Some (dec_value (take 2 v) * 60 + dec_value (drop 3 v)) else None)"

definition in_quiet_window :: "string \<Rightarrow> string \<Rightarrow> int \<times> int \<Rightarrow> bool" where
  "in_quiet_window start stop moment =
     (case (clock_minutes start, clock_minutes stop) of
        (Some a, Some b) \<Rightarrow>
          if a = b then False
          else
            let current = fst moment * 60 + snd moment
            in if a < b then a \<le> current \<and> current < b else a \<le> current \<or> current < b
      | _ \<Rightarrow> False)"

subsection \<open>Settings\<close>

record message_bounds =
  mb_limits :: bool
  mb_hourly :: int
  mb_pending :: int
  mb_chain_depth :: int
  mb_thread_turns :: int
  mb_interject_hourly :: int
  mb_interject_interval :: seconds

definition unlimited_bounds :: message_bounds where
  "unlimited_bounds = \<lparr>mb_limits = False, mb_hourly = 500, mb_pending = 50, mb_chain_depth = 10,
     mb_thread_turns = 1000, mb_interject_hourly = 120, mb_interject_interval = 5\<rparr>"

text \<open>The configured bounds, or the fixed ceilings when the limits are switched off.\<close>

definition agent_message_bounds :: "message_bounds \<Rightarrow> message_bounds" where
  "agent_message_bounds configured = (if mb_limits configured then configured else unlimited_bounds)"

record auto_config =
  ac_queue :: queue_config
  ac_enabled :: bool
  ac_ttl_minutes :: int
  ac_max_consecutive :: int
  ac_reply_minutes :: int
  ac_quiet_start :: string
  ac_quiet_end :: string
  ac_stable :: seconds
  ac_refusal_backoff :: seconds
  ac_interject :: bool
  ac_bounds :: message_bounds

text \<open>A session as the controller sees it: what the queue reads of it, and its last activity.\<close>

record auto_session =
  as_target :: target_session
  as_last_activity :: seconds

type_synonym auto_sessions = "(string \<times> auto_session) list"

definition session_run :: "auto_session \<Rightarrow> string option" where
  "session_run s = dr_run (tg_ready (as_target s))"

record lapse_audit =
  la_at :: "seconds option"
  la_idle :: "seconds option"
  la_window :: "seconds option"
  la_pending :: "int option"

text \<open>\<^verbatim>\<open>queue_auto_policy\<close> events: session, enabled, reason and the audit of a lapse.\<close>

datatype policy_event = Policy_Changed string bool string "lapse_audit option"

record auto_world =
  aw_queue :: queue_world
  aw_stability :: "(string \<times> string \<times> int \<times> seconds) list"
  aw_backoff :: "(string \<times> seconds) list"
  aw_ticks :: int
  aw_last_error :: string
  aw_delivered :: "string list"
  aw_events :: "policy_event list"

abbreviation auto_store :: "auto_world \<Rightarrow> queue_store" where
  "auto_store w \<equiv> qw_store (aw_queue w)"

definition with_store :: "queue_store \<Rightarrow> auto_world \<Rightarrow> auto_world" where
  "with_store st w = w\<lparr>aw_queue := (aw_queue w)\<lparr>qw_store := st\<rparr>\<rparr>"

lemma with_store_simps [simp]:
  "auto_store (with_store st w) = st" "aw_stability (with_store st w) = aw_stability w"
  "aw_backoff (with_store st w) = aw_backoff w" "aw_ticks (with_store st w) = aw_ticks w"
  "aw_last_error (with_store st w) = aw_last_error w" "aw_delivered (with_store st w) = aw_delivered w"
  "aw_events (with_store st w) = aw_events w" "qw_tracker (aw_queue (with_store st w)) = qw_tracker (aw_queue w)"
  "qw_effects (aw_queue (with_store st w)) = qw_effects (aw_queue w)"
  by (simp_all add: with_store_def)

definition drop_stability :: "string \<Rightarrow> auto_world \<Rightarrow> auto_world" where
  "drop_stability sid w = w\<lparr>aw_stability := AList.delete sid (aw_stability w)\<rparr>"

definition drop_backoff :: "string \<Rightarrow> auto_world \<Rightarrow> auto_world" where
  "drop_backoff sid w = w\<lparr>aw_backoff := AList.delete sid (aw_backoff w)\<rparr>"

definition tell_policy :: "policy_event \<Rightarrow> auto_world \<Rightarrow> auto_world" where
  "tell_policy x w = w\<lparr>aw_events := aw_events w @ [x]\<rparr>"

definition count_auto :: "string \<Rightarrow> seconds \<Rightarrow> auto_world \<Rightarrow> auto_world" where
  "count_auto name now w = with_store (bump_counter name 1 now (auto_store w)) w"

subsection \<open>Grants\<close>

text \<open>A write of known columns of a policy row; \<^verbatim>\<open>set_auto_policy\<close> refuses only unknown ones.\<close>

definition put_policy ::
  "string \<Rightarrow> policy_field list \<Rightarrow> seconds \<Rightarrow> auto_world \<Rightarrow> auto_policy \<times> auto_world" where
  "put_policy sid columns now w =
     (case set_auto_policy sid columns now (auto_store w) of
        Inl e \<Rightarrow> (new_policy sid now, w)
      | Inr (p, st) \<Rightarrow> (p, with_store st w))"

definition auto_paused :: "auto_world \<Rightarrow> bool" where
  "auto_paused w = (case find_policy auto_policy_global (auto_store w) of None \<Rightarrow> False | Some p \<Rightarrow> ap_paused p)"

definition set_paused :: "bool \<Rightarrow> string \<Rightarrow> seconds \<Rightarrow> auto_world \<Rightarrow> auto_policy \<times> auto_world" where
  "set_paused b who now w = put_policy auto_policy_global [Set_Paused b, Set_Updated_By (Some who)] now w"

text \<open>\<^verbatim>\<open>max(1, int(asked or configured))\<close>.\<close>

definition at_least_one :: "int option \<Rightarrow> int \<Rightarrow> int" where
  "at_least_one asked configured =
     max 1 (case asked of Some n \<Rightarrow> if n = 0 then configured else n | None \<Rightarrow> configured)"

definition accept_columns :: "bool option \<Rightarrow> bool option \<Rightarrow> policy_field list" where
  "accept_columns messages interjections =
     (case messages of None \<Rightarrow> [] | Some b \<Rightarrow> [Set_Accept_Messages b]) @
     (case interjections of None \<Rightarrow> [] | Some b \<Rightarrow> [Set_Accept_Interjections b])"

definition grant_columns :: "string option \<Rightarrow> int \<Rightarrow> int \<Rightarrow> string \<Rightarrow> seconds \<Rightarrow> policy_field list" where
  "grant_columns run ttl cap who now =
     [Set_Enabled True, Set_Run run, Set_Expires (Some (now + of_int (ttl * 60))), Set_Max_Sends cap,
      Set_Sends_Used 0, Set_Disabled_Reason None, Set_Enabled_At (Some now), Set_Disabled_At None,
      Set_Lapse_Idle None, Set_Lapse_Window None, Set_Lapse_Pending None, Set_Updated_By (Some who)]"

text \<open>A proving period starts when the capability is first armed.\<close>

definition begin_proving :: "seconds \<Rightarrow> auto_world \<Rightarrow> auto_world" where
  "begin_proving now w =
     (if map_of (queue_counters (auto_store w)) counter_proving_since \<in> {None, Some 0}
      then with_store (set_counter counter_proving_since now now (auto_store w)) w else w)"

definition drop_windows :: "string \<Rightarrow> auto_world \<Rightarrow> auto_world" where
  "drop_windows sid w = drop_backoff sid (drop_stability sid w)"

definition enable_session ::
  "auto_config \<Rightarrow> auto_sessions \<Rightarrow> string \<Rightarrow> int option \<Rightarrow> int option \<Rightarrow> string \<Rightarrow> bool option \<Rightarrow> bool option
    \<Rightarrow> seconds \<Rightarrow> auto_world \<Rightarrow> queue_error + auto_policy \<times> auto_world" where
  "enable_session cfg sessions sid ttl cap who messages interjections now w =
     (case map_of sessions sid of
        None \<Rightarrow> Inl (Queue_Error ''unknown_target'' 404 [])
      | Some s \<Rightarrow>
          if \<not> delivers_prompts_through_pty (qc_harnesses (ac_queue cfg)) (tg_backend (as_target s))
          then bad_request ''not_agent_target''
          else if has_ended (as_target s) then queue_conflict ''target_ended'' []
          else
            let (p, w1) = put_policy sid
                  (grant_columns (text_or_none (session_run s)) (at_least_one ttl (ac_ttl_minutes cfg))
                     (at_least_one cap (ac_max_consecutive cfg)) who now @ accept_columns messages interjections)
                  now w
            in Inr (p, tell_policy (Policy_Changed sid True ''enabled'' None)
                 (drop_windows sid (begin_proving now w1))))"

definition disable_columns ::
  "string option \<Rightarrow> string \<Rightarrow> string \<Rightarrow> lapse_audit option \<Rightarrow> seconds \<Rightarrow> policy_field list" where
  "disable_columns run reason who audit now =
     [Set_Enabled False, Set_Run run, Set_Disabled_Reason (Some reason), Set_Disabled_At (Some now),
      Set_Lapse_Idle (Option.bind audit la_idle), Set_Lapse_Window (Option.bind audit la_window),
      Set_Lapse_Pending (Option.bind audit la_pending), Set_Updated_By (Some who)]"

definition run_known :: "auto_sessions \<Rightarrow> string \<Rightarrow> string option" where
  "run_known sessions sid = Option.bind (map_of sessions sid) (\<lambda>s. text_or_none (session_run s))"

definition disable_session ::
  "auto_sessions \<Rightarrow> string \<Rightarrow> string \<Rightarrow> string \<Rightarrow> lapse_audit option \<Rightarrow> seconds \<Rightarrow> auto_world
    \<Rightarrow> auto_policy \<times> auto_world" where
  "disable_session sessions sid reason who audit now w =
     (let (p, w1) = put_policy sid (disable_columns (run_known sessions sid) reason who audit now) now w
      in (p, tell_policy (Policy_Changed sid False reason audit) (drop_windows sid w1)))"

definition idle_seconds :: "auto_session \<Rightarrow> auto_policy \<Rightarrow> seconds \<Rightarrow> seconds option" where
  "idle_seconds s p now =
     (let seen = max (as_last_activity s) (case ap_enabled_at p of None \<Rightarrow> 0 | Some t \<Rightarrow> t)
      in if seen = 0 then None else Some (max 0 (now - seen)))"

text \<open>Closing a grant for idleness, with what explains it later.\<close>

definition lapse_session ::
  "auto_config \<Rightarrow> auto_sessions \<Rightarrow> string \<Rightarrow> auto_session \<Rightarrow> auto_policy \<Rightarrow> seconds \<Rightarrow> auto_world
    \<Rightarrow> auto_policy \<times> auto_world" where
  "lapse_session cfg sessions sid s p now w =
     (let audit = \<lparr>la_at = Some now, la_idle = idle_seconds s p now,
            la_window = Some (of_int (max 1 (ac_ttl_minutes cfg))),
            la_pending = Some (int (pending_message_count sid (auto_store w)))\<rparr>
      in disable_session sessions sid lapsed_reason ''controller'' (Some audit) now (count_auto counter_lapsed now w))"

definition lapse_record :: "auto_policy option \<Rightarrow> lapse_audit option" where
  "lapse_record row =
     (case row of
        None \<Rightarrow> None
      | Some p \<Rightarrow>
          if ap_enabled p \<or> \<not> is_lapse_reason (ap_disabled_reason p) then None
          else Some \<lparr>la_at = ap_disabled_at p, la_idle = ap_lapse_idle p, la_window = ap_lapse_window p,
            la_pending = ap_lapse_pending p\<rparr>)"

definition accepts_agent_messages :: "string \<Rightarrow> auto_world \<Rightarrow> bool" where
  "accepts_agent_messages sid w =
     (case find_policy sid (auto_store w) of None \<Rightarrow> False | Some p \<Rightarrow> ap_accept_messages p)"

definition accepts_agent_interjections :: "string \<Rightarrow> auto_world \<Rightarrow> bool" where
  "accepts_agent_interjections sid w =
     (case find_policy sid (auto_store w) of None \<Rightarrow> False | Some p \<Rightarrow> ap_accept_interjections p)"

definition put_acceptance ::
  "auto_sessions \<Rightarrow> string \<Rightarrow> policy_field \<Rightarrow> string \<Rightarrow> seconds \<Rightarrow> auto_world
    \<Rightarrow> queue_error + auto_policy \<times> auto_world" where
  "put_acceptance sessions sid column who now w =
     (case map_of sessions sid of
        None \<Rightarrow> Inl (Queue_Error ''unknown_target'' 404 [])
      | Some s \<Rightarrow> Inr (put_policy sid [column, Set_Updated_By (Some who)] now w))"

definition set_accept_agent_messages where
  "set_accept_agent_messages sessions sid accept = put_acceptance sessions sid (Set_Accept_Messages accept)"

definition set_accept_agent_interjections where
  "set_accept_agent_interjections sessions sid accept = put_acceptance sessions sid (Set_Accept_Interjections accept)"

subsection \<open>Open exchanges\<close>

text \<open>
  What a source of open requests says of a session. The sources are other services (the land queue, the
  session watch): a source is a function from session ids and a floor time to its entries, and \<open>None\<close>
  when reading it raised.
\<close>

record solicited_entry =
  se_kind :: "string option"
  se_updated_at :: "seconds option"
  se_expires_at :: "seconds option"
  se_facts :: pydict

type_synonym solicited_source = "string list \<Rightarrow> seconds \<Rightarrow> (string \<times> solicited_entry) list option"

definition dict_update :: "(string \<times> 'a) list \<Rightarrow> (string \<times> 'a) list \<Rightarrow> (string \<times> 'a) list" where
  "dict_update d entries = foldl (\<lambda>acc (k, v). AList.update k v acc) d entries"

definition merge_solicited_sources :: "solicited_source list \<Rightarrow> solicited_source" where
  "merge_solicited_sources sources ids since =
     foldl (\<lambda>acc source. Option.bind acc (\<lambda>d. map_option (dict_update d) (source ids since))) (Some []) sources"

record exchange_window =
  xw_kind :: string
  xw_thread :: "string option"
  xw_peer :: "string option"
  xw_sent_at :: seconds
  xw_expires_at :: seconds
  xw_minutes :: int
  xw_used :: int
  xw_limit :: int
  xw_facts :: pydict

definition window_facts :: "string list" where
  "window_facts = [''request_id'', ''branch'', ''request_kind'', ''state'', ''watch_id'',
     ''target_session_id'', ''target_name'', ''timeout_minutes'']"

definition moment_or_zero :: "seconds option \<Rightarrow> seconds" where
  "moment_or_zero t = (case t of None \<Rightarrow> 0 | Some x \<Rightarrow> x)"

definition solicited_window :: "int \<Rightarrow> seconds \<Rightarrow> solicited_entry \<Rightarrow> exchange_window" where
  "solicited_window minutes reach x =
     (let updated = moment_or_zero (se_updated_at x); ends = moment_or_zero (se_expires_at x)
      in \<lparr>xw_kind = (if text_given (se_kind x) then ifnull (se_kind x) else ''land''), xw_thread = None,
          xw_peer = None, xw_sent_at = updated, xw_expires_at = (if ends \<noteq> 0 then ends else updated + reach),
          xw_minutes = minutes, xw_used = 0, xw_limit = 0,
          xw_facts = List.map_filter (\<lambda>k. map_option (Pair k) (map_of (se_facts x) k)) window_facts\<rparr>)"

definition message_window :: "int \<Rightarrow> seconds \<Rightarrow> int \<Rightarrow> int \<Rightarrow> reply_window \<Rightarrow> exchange_window" where
  "message_window minutes reach used limit x =
     \<lparr>xw_kind = ''message'', xw_thread = rw_thread x, xw_peer = rw_peer x, xw_sent_at = rw_sent_at x,
      xw_expires_at = rw_sent_at x + reach, xw_minutes = minutes, xw_used = used, xw_limit = limit, xw_facts = []\<rparr>"

text \<open>A thread that has spent its budget, and a row without a thread, opens no window.\<close>

definition open_message_window ::
  "int \<Rightarrow> seconds \<Rightarrow> int \<Rightarrow> queue_store \<Rightarrow> reply_window \<Rightarrow> exchange_window option" where
  "open_message_window minutes reach limit st x =
     (if \<not> text_given (rw_thread x) then None
      else
        let used = int (thread_message_count (ifnull (rw_thread x)) st)
        in if limit \<le> used then None else Some (message_window minutes reach used limit x))"

definition reply_windows ::
  "auto_config \<Rightarrow> solicited_source option \<Rightarrow> string list \<Rightarrow> seconds \<Rightarrow> queue_store
    \<Rightarrow> (string \<times> exchange_window) list" where
  "reply_windows cfg source ids now st =
     (let minutes = ac_reply_minutes cfg; reach = of_int (minutes * 60);
          asked = (case source of None \<Rightarrow> [] | Some f \<Rightarrow> (case f ids (now - reach) of None \<Rightarrow> [] | Some xs \<Rightarrow> xs));
          solicited = dict_update [] (map (\<lambda>(k, x). (k, solicited_window minutes reach x)) asked);
          limit = mb_thread_turns (agent_message_bounds (ac_bounds cfg));
          messages = List.map_filter (\<lambda>(k, x). map_option (Pair k) (open_message_window minutes reach limit st x))
                       (open_reply_windows ids (now - reach) st)
      in if minutes \<le> 0 \<or> ids = [] then [] else dict_update solicited messages)"

subsection \<open>What a sender and an operator are told\<close>

text \<open>Why nothing will press send at this session, if nothing will, and the sends its grant has left.\<close>

definition outlook_blocker ::
  "auto_config \<Rightarrow> int \<times> int \<Rightarrow> string \<Rightarrow> auto_world \<Rightarrow> string option" where
  "outlook_blocker cfg local sid w =
     (let row = find_policy sid (auto_store w)
      in if \<not> ac_enabled cfg then Some ''auto-delivery is switched off for this install''
         else if auto_paused w then Some ''auto-delivery is paused install-wide''
         else if in_quiet_window (ac_quiet_start cfg) (ac_quiet_end cfg) local then Some ''quiet hours are active''
         else (case row of
                 None \<Rightarrow> Some ''the target has no auto-delivery grant yet''
               | Some p \<Rightarrow>
                   if \<not> ap_enabled p
                   then Some (if text_given (ap_disabled_reason p) then ifnull (ap_disabled_reason p)
                     else ''the target's grant is off'')
                   else if \<not> ap_accept_messages p
                   then Some ''the target is not accepting agent-authored messages armed'' else None))"

record auto_outlook =
  ol_delivers :: bool
  ol_blocked_by :: "string option"
  ol_remaining :: int
  ol_lapse :: "lapse_audit option"

definition sends_remaining :: "auto_policy option \<Rightarrow> int" where
  "sends_remaining row = (case row of None \<Rightarrow> 0 | Some p \<Rightarrow> max 0 (ap_max_sends p - ap_sends_used p))"

definition outlook :: "auto_config \<Rightarrow> int \<times> int \<Rightarrow> string \<Rightarrow> auto_world \<Rightarrow> auto_outlook" where
  "outlook cfg local sid w =
     (let why = outlook_blocker cfg local sid w; row = find_policy sid (auto_store w)
      in \<lparr>ol_delivers = (why = None), ol_blocked_by = why, ol_remaining = sends_remaining row,
          ol_lapse = lapse_record row\<rparr>)"

text \<open>One report of an unsafe delivery restarts the proving period and pauses everything.\<close>

definition report_unsafe :: "seconds \<Rightarrow> auto_world \<Rightarrow> (string \<times> rat) list \<times> auto_world" where
  "report_unsafe now w =
     (let w1 = count_auto counter_unsafe now w;
          w2 = with_store (set_counter counter_proving_since now now (auto_store w1)) w1;
          w3 = snd (set_paused True ''unsafe-report'' now w2)
      in (queue_counters (auto_store w3), w3))"

record promotion_report =
  pr_no_false_safe :: bool
  pr_min_sends :: bool
  pr_min_days :: bool
  pr_met :: bool
  pr_sends :: int
  pr_unsafe :: int
  pr_since :: "seconds option"
  pr_days :: seconds
  pr_required :: "int \<times> seconds"

definition counter_value :: "(string \<times> rat) list \<Rightarrow> string \<Rightarrow> rat" where
  "counter_value counters name = (case map_of counters name of None \<Rightarrow> 0 | Some v \<Rightarrow> v)"

text \<open>\<^verbatim>\<open>int(x)\<close> of a float, towards zero.\<close>

definition whole :: "rat \<Rightarrow> int" where
  "whole x = (if x < 0 then - \<lfloor>- x\<rfloor> else \<lfloor>x\<rfloor>)"

text \<open>The report shows the days rounded to two places; here they are exact.\<close>

definition promotion_status :: "(string \<times> rat) list \<Rightarrow> seconds \<Rightarrow> promotion_report" where
  "promotion_status counters now =
     (let since = counter_value counters counter_proving_since;
          days = (if since \<noteq> 0 then (now - since) / 86400 else 0);
          sends = whole (counter_value counters counter_sent);
          unsafe = whole (counter_value counters counter_unsafe);
          a = (unsafe = 0); b = (proving_min_sends \<le> sends); c = (proving_min_days \<le> days)
      in \<lparr>pr_no_false_safe = a, pr_min_sends = b, pr_min_days = c, pr_met = (a \<and> b \<and> c), pr_sends = sends,
          pr_unsafe = unsafe, pr_since = (if since \<noteq> 0 then Some since else None), pr_days = days,
          pr_required = (proving_min_sends, proving_min_days)\<rparr>)"


subsection \<open>The conversation default\<close>

text \<open>When a grant lapses if its conversation stays untouched.\<close>

definition idle_deadline :: "auto_config \<Rightarrow> auto_session \<Rightarrow> seconds option \<Rightarrow> seconds" where
  "idle_deadline cfg s enabled_at =
     max (as_last_activity s) (moment_or_zero enabled_at) + of_int (max 1 (ac_ttl_minutes cfg) * 60)"

definition restorable :: "auto_config \<Rightarrow> auto_session \<Rightarrow> seconds \<Rightarrow> exchange_window option \<Rightarrow> auto_policy \<Rightarrow> bool" where
  "restorable cfg s now window p \<longleftrightarrow>
     \<not> ap_enabled p \<and> is_lapse_reason (ap_disabled_reason p) \<and>
     (window \<noteq> None \<or> now < idle_deadline cfg s None)"

text \<open>
  What the default pass does about one session: nothing, or a grant; the flag says that the row is bound
  to the run the session has, so its acceptance switches stay as they are.
\<close>

definition default_action ::
  "auto_config \<Rightarrow> auto_session \<Rightarrow> seconds \<Rightarrow> exchange_window option \<Rightarrow> auto_policy option \<Rightarrow> bool option" where
  "default_action cfg s now window row =
     (let run = ifnull (session_run s);
          same_run = (case row of None \<Rightarrow> False | Some p \<Rightarrow> ifnull (ap_run p) = run)
      in if \<not> delivers_prompts_through_pty (qc_harnesses (ac_queue cfg)) (tg_backend (as_target s))
            \<or> has_ended (as_target s) \<or> run = '''' then None
         else (case row of
                 None \<Rightarrow> Some False
               | Some p \<Rightarrow>
                   if same_run then (if restorable cfg s now window p then Some True else None)
                   else if ap_disabled_reason p = Some failed_delivery_reason then None
                   else if \<not> text_given (ap_run p) \<and> text_given (ap_disabled_reason p) then None
                   else Some False))"

definition fresh_run_default :: "bool \<Rightarrow> bool option" where
  "fresh_run_default same_run = (if same_run then None else Some True)"

text \<open>
  The loop over the live sessions; the rows are those read before it. Each grant it writes waits for the
  store. \<open>resized sid\<close> says that sessions came or went while the grant of \<open>sid\<close> was written, so that the
  table has another size when the loop asks it for its next entry: Python then raises \<^verbatim>\<open>RuntimeError\<close>, after
  the last entry too. What was written until then stays.
\<close>

datatype grants_error =
    Grants_Refused queue_error
  | Sessions_Resized

fun grant_defaults ::
  "auto_config \<Rightarrow> auto_sessions \<Rightarrow> (string \<times> exchange_window) list \<Rightarrow> auto_policy list \<Rightarrow> seconds
    \<Rightarrow> (string \<Rightarrow> bool) \<Rightarrow> auto_sessions \<Rightarrow> bool \<Rightarrow> auto_world \<Rightarrow> (grants_error + bool) \<times> auto_world" where
  "grant_defaults cfg sessions windows rows now resized [] altered w = (Inr altered, w)"
| "grant_defaults cfg sessions windows rows now resized ((sid, s) # rest) altered w =
     (case default_action cfg s now (map_of windows sid) (find (\<lambda>p. ap_session p = sid) rows) of
        None \<Rightarrow> grant_defaults cfg sessions windows rows now resized rest altered w
      | Some same_run \<Rightarrow>
          (case enable_session cfg sessions sid None None default_policy_by (fresh_run_default same_run)
                  (fresh_run_default same_run) now w of
             Inl err \<Rightarrow> (Inl (Grants_Refused err), w)
           | Inr (p, w') \<Rightarrow>
               if resized sid then (Inl Sessions_Resized, w')
               else grant_defaults cfg sessions windows rows now resized rest True w'))"

definition lapsed_ids :: "auto_policy list \<Rightarrow> string list" where
  "lapsed_ids rows =
     map ap_session (filter (\<lambda>p. \<not> ap_enabled p \<and> is_lapse_reason (ap_disabled_reason p)) rows)"

definition conversation_grants ::
  "auto_config \<Rightarrow> auto_sessions \<Rightarrow> (string \<Rightarrow> bool) \<Rightarrow> solicited_source option \<Rightarrow> seconds \<Rightarrow> auto_world
    \<Rightarrow> (grants_error + auto_policy list) \<times> auto_world" where
  "conversation_grants cfg sessions resized source now w =
     (let live = map fst sessions; rows = auto_policies (Some live) (auto_store w);
          windows = (if lapsed_ids rows = [] then []
                     else reply_windows cfg source (lapsed_ids rows) now (auto_store w))
      in case grant_defaults cfg sessions windows rows now resized sessions False w of
           (Inl err, w') \<Rightarrow> (Inl err, w')
         | (Inr altered, w') \<Rightarrow> (Inr (if altered then auto_policies (Some live) (auto_store w') else rows), w'))"

record policy_view =
  pv_policy :: auto_policy
  pv_lapse :: "lapse_audit option"
  pv_window :: "exchange_window option"
  pv_live :: bool
  pv_label :: "string option"
  pv_run_matches :: bool
  pv_expires_in :: "seconds option"
  pv_remaining :: int

definition view_policy ::
  "auto_sessions \<Rightarrow> (string \<times> exchange_window) list \<Rightarrow> seconds \<Rightarrow> auto_policy \<Rightarrow> policy_view" where
  "view_policy sessions windows now p =
     (let s = map_of sessions (ap_session p)
      in \<lparr>pv_policy = p, pv_lapse = lapse_record (Some p), pv_window = map_of windows (ap_session p),
          pv_live = (case s of None \<Rightarrow> False | Some x \<Rightarrow> \<not> has_ended (as_target x)),
          pv_label = Option.bind s (\<lambda>x. tg_name (as_target x)),
          pv_run_matches = (case s of None \<Rightarrow> False
            | Some x \<Rightarrow> \<not> text_given (ap_run p) \<or> ap_run p = session_run x),
          pv_expires_in = (if moment_or_zero (ap_expires_at p) = 0 then None
            else Some (max 0 (moment_or_zero (ap_expires_at p) - now))),
          pv_remaining = sends_remaining (Some p)\<rparr>)"

record auto_status =
  ast_master :: bool
  ast_paused :: bool
  ast_quiet :: bool
  ast_quiet_hours :: "string \<times> string"
  ast_stable :: seconds
  ast_max_consecutive :: int
  ast_ttl_minutes :: int
  ast_reply_minutes :: int
  ast_sessions :: "policy_view list"
  ast_counters :: "(string \<times> rat) list"
  ast_promotion :: promotion_report
  ast_last_error :: string

definition auto_delivery_status ::
  "auto_config \<Rightarrow> auto_sessions \<Rightarrow> (string \<Rightarrow> bool) \<Rightarrow> solicited_source option \<Rightarrow> seconds \<Rightarrow> int \<times> int
    \<Rightarrow> auto_world \<Rightarrow> (grants_error + auto_status) \<times> auto_world" where
  "auto_delivery_status cfg sessions resized source now local w =
     (case conversation_grants cfg sessions resized source now w of
        (Inl err, w') \<Rightarrow> (Inl err, w')
      | (Inr rows, w') \<Rightarrow>
          let windows = reply_windows cfg source (map ap_session (filter ap_enabled rows)) now (auto_store w')
          in (Inr \<lparr>ast_master = ac_enabled cfg, ast_paused = auto_paused w',
               ast_quiet = in_quiet_window (ac_quiet_start cfg) (ac_quiet_end cfg) local,
               ast_quiet_hours = (ac_quiet_start cfg, ac_quiet_end cfg), ast_stable = ac_stable cfg,
               ast_max_consecutive = ac_max_consecutive cfg, ast_ttl_minutes = ac_ttl_minutes cfg,
               ast_reply_minutes = ac_reply_minutes cfg,
               ast_sessions = map (view_policy sessions windows now) rows,
               ast_counters = queue_counters (auto_store w'),
               ast_promotion = promotion_status (queue_counters (auto_store w')) now,
               ast_last_error = aw_last_error w'\<rparr>, w'))"

subsection \<open>One pass\<close>

text \<open>
  What a stretch of the pass finds: the clocks, the local time, the sessions, after which grants their
  table has another size, the session object the pass holds, the source of open requests, and what one
  step of a send finds.
\<close>

record auto_moment =
  am_now :: seconds
  am_clock :: seconds
  am_local :: "int \<times> int"
  am_sessions :: auto_sessions
  am_resized :: "string \<Rightarrow> bool"
  am_held :: auto_session
  am_source :: "solicited_source option"
  am_send :: send_env

definition renew_grant :: "string \<Rightarrow> seconds \<Rightarrow> seconds \<Rightarrow> auto_policy \<Rightarrow> auto_world \<Rightarrow> auto_world" where
  "renew_grant sid deadline now p w =
     (if moment_or_zero (ap_expires_at p) \<noteq> 0 \<and> moment_or_zero (ap_expires_at p) \<le> now
      then snd (put_policy sid [Set_Expires (Some deadline), Set_Updated_By (Some ''controller'')] now w) else w)"

definition cap_reached :: "auto_policy \<Rightarrow> bool" where
  "cap_reached p \<longleftrightarrow> ap_max_sends p \<noteq> 0 \<and> ap_max_sends p \<le> ap_sends_used p"

definition backoff_gate :: "string \<Rightarrow> seconds \<Rightarrow> auto_world \<Rightarrow> bool \<times> auto_world" where
  "backoff_gate sid clock w =
     (case map_of (aw_backoff w) sid of
        None \<Rightarrow> (True, w)
      | Some until \<Rightarrow> if clock < until then (False, w) else (True, drop_backoff sid w))"

text \<open>\<^verbatim>\<open>_consider\<close> up to the read of the head: is the grant good for a send at all?\<close>

definition consider_grant ::
  "auto_config \<Rightarrow> auto_moment \<Rightarrow> bool \<Rightarrow> auto_policy \<Rightarrow> auto_world \<Rightarrow> bool \<times> auto_world" where
  "consider_grant cfg e quiet p w =
     (let sid = ap_session p; now = am_now e; sessions = am_sessions e;
          switch_off = (\<lambda>reason w. (False, snd (disable_session sessions sid reason ''controller'' None now w)))
      in case map_of sessions sid of
           None \<Rightarrow> switch_off session_ended_reason w
         | Some s \<Rightarrow>
             if has_ended (as_target s) then switch_off session_ended_reason w
             else if run_replaced (ap_run p) (session_run s) then switch_off run_replaced_reason w
             else
               let deadline = idle_deadline cfg s (ap_enabled_at p);
                   window = (if deadline \<le> now
                     then map_of (reply_windows cfg (am_source e) [sid] now (auto_store w)) sid else None);
                   held_to = (case window of None \<Rightarrow> deadline | Some x \<Rightarrow> max deadline (xw_expires_at x))
               in if deadline \<le> now \<and> window = None
                  then (False, snd (lapse_session cfg sessions sid s p now w))
                  else
                    let w1 = renew_grant sid held_to now p w
                    in if cap_reached p then switch_off send_cap_reason w1
                       else if quiet then (False, w1) else backoff_gate sid (am_clock e) w1)"

text \<open>
  From the read of the head to the decision nothing waits. A message no person sent goes on the target's
  standing acceptance of agents, or as the answer to a request of its own.
\<close>

definition authorised :: "auto_policy \<Rightarrow> prompt_row \<Rightarrow> bool" where
  "authorised p m \<longleftrightarrow>
     pq_sender_kind m \<in> set human_sender_kinds \<or> pq_sender_kind m = '''' \<or> text_given (pq_solicited_by m) \<or>
     pq_sender_kind m = ''agent'' \<and> ap_accept_messages p"

definition head_waits :: "auto_policy \<Rightarrow> seconds \<Rightarrow> auto_session \<Rightarrow> prompt_row \<Rightarrow> bool" where
  "head_waits p now s m \<longleftrightarrow>
     pq_state m = Armed \<and> authorised p m \<and> item_schedule_status (pq_constraints m) now = ''due'' \<and>
     \<not> run_replaced (pq_target_run m) (session_run s)"

definition may_interject :: "auto_config \<Rightarrow> auto_policy \<Rightarrow> prompt_row \<Rightarrow> evaluation \<Rightarrow> bool" where
  "may_interject cfg p m ev \<longleftrightarrow>
     ac_interject cfg \<and> ap_accept_interjections p \<and> delivery_mode (qc_repr (ac_queue cfg)) m = delivery_now \<and>
     ev_interject ev = Verdict_Safe"

definition head_ready ::
  "auto_config \<Rightarrow> auto_moment \<Rightarrow> auto_policy \<Rightarrow> seconds \<Rightarrow> queue_world \<Rightarrow> prompt_row option \<times> queue_world" where
  "head_ready cfg e p now q =
     (case pending_head (ap_session p) (qw_store q) of
        None \<Rightarrow> (None, q)
      | Some m \<Rightarrow>
          if \<not> head_waits p now (am_held e) m then (None, q)
          else
            let (ev, tr) = evaluate (qc_harnesses (ac_queue cfg)) True 0 True
                  (tg_ready (as_target (am_held e))) (am_clock e) (qw_tracker q)
            in (if ev_state ev = Verdict_Safe \<or> may_interject cfg p m ev then Some m else None,
                q\<lparr>qw_tracker := tr\<rparr>))"

text \<open>The head must have been ready at every look since the window began; the clock is the one the pass
  read first.\<close>

definition consider_head ::
  "auto_config \<Rightarrow> auto_moment \<Rightarrow> auto_policy \<Rightarrow> seconds \<Rightarrow> seconds \<Rightarrow> auto_world
    \<Rightarrow> prompt_row option \<times> auto_world" where
  "consider_head cfg e p now clock w =
     (let (ready, q) = head_ready cfg e p now (aw_queue w); sid = ap_session p; w1 = w\<lparr>aw_queue := q\<rparr>
      in case ready of
           None \<Rightarrow> (None, drop_stability sid w1)
         | Some m \<Rightarrow>
             (case map_of (aw_stability w1) sid of
                Some (mid, n, since) \<Rightarrow>
                  if mid = pq_id m \<and> n = pq_revision m
                  then (if clock - since < ac_stable cfg then None else Some m, w1)
                  else (None, w1\<lparr>aw_stability := AList.update sid (pq_id m, pq_revision m, clock) (aw_stability w1)\<rparr>)
              | None \<Rightarrow> (None, w1\<lparr>aw_stability := AList.update sid (pq_id m, pq_revision m, clock) (aw_stability w1)\<rparr>)))"

definition take_slot :: "auto_moment \<Rightarrow> auto_policy \<Rightarrow> auto_world \<Rightarrow> bool \<times> auto_world" where
  "take_slot e p w =
     (let (taken, st) = consume_auto_send (ap_session p) (ap_max_sends p) (am_now e) (auto_store w);
          w1 = with_store st w
      in if taken then (True, drop_stability (ap_session p) w1)
         else (False, snd (disable_session (am_sessions e) (ap_session p) send_cap_reason ''controller'' None
                (am_now e) w1)))"

definition auto_request :: "prompt_row \<Rightarrow> send_request" where
  "auto_request m =
     \<lparr>sq_message = pq_id m, sq_revision = pq_revision m,
      sq_key = Some (''auto:'' @ pq_id m @ '':'' @ signed_decimal (pq_revision m)), sq_confirm = False,
      sq_initiator = ''auto''\<rparr>"

definition send_refused ::
  "auto_config \<Rightarrow> auto_moment \<Rightarrow> string \<Rightarrow> seconds \<Rightarrow> string \<Rightarrow> auto_world \<Rightarrow> auto_world" where
  "send_refused cfg e sid clock code_name w =
     (let w1 = with_store (release_auto_send sid (am_now e) (auto_store w)) w
      in if code_name = ''delivery_failed''
         then snd (disable_session (am_sessions e) sid failed_delivery_reason ''controller'' None (am_now e)
                (count_auto counter_failed (am_now e) w1))
         else (count_auto counter_refused (am_now e) w1)
           \<lparr>aw_backoff := AList.update sid (clock + ac_refusal_backoff cfg) (aw_backoff w1),
            aw_last_error := sid @ '': '' @ code_name\<rparr>)"

text \<open>How a send ended. What is not a \<^verbatim>\<open>QueueError\<close> leaves \<^verbatim>\<open>_consider\<close> and is noted by the pass.\<close>

definition settle_auto_send ::
  "auto_config \<Rightarrow> auto_moment \<Rightarrow> auto_policy \<Rightarrow> prompt_row \<Rightarrow> seconds \<Rightarrow> send_answer \<Rightarrow> auto_world \<Rightarrow> auto_world" where
  "settle_auto_send cfg e p m clock answer w =
     (let sid = ap_session p; broken = (\<lambda>w. w\<lparr>aw_last_error := sid @ '': ''\<rparr>);
          sent = (\<lambda>w. (count_auto counter_sent (am_now e) w)\<lparr>aw_delivered := aw_delivered w @ [pq_id m]\<rparr>)
      in case answer of
           Was_Sent r submitted \<Rightarrow> sent w
         | Was_Duplicate a \<Rightarrow> sent w
         | Was_Refused r \<Rightarrow> send_refused cfg e sid clock (rf_code r) w
         | Was_Failed err \<Rightarrow> send_refused cfg e sid clock ''delivery_failed'' w
         | Was_Rejected (Queue_Error c status payload) \<Rightarrow> send_refused cfg e sid clock c w
         | Was_Rejected Integrity_Error \<Rightarrow> broken w
         | Row_Vanished \<Rightarrow> broken w)"

datatype auto_phase =
    Auto_Rest
  | Auto_Pass "auto_policy list" bool
  | Auto_Head auto_policy seconds seconds "auto_policy list" bool
  | Auto_Take auto_policy prompt_row seconds "auto_policy list" bool
  | Auto_Sending auto_policy prompt_row seconds send_task "auto_policy list" bool
  | Auto_Settle auto_policy prompt_row seconds send_answer "auto_policy list" bool

definition sweep_expired :: "seconds \<Rightarrow> auto_world \<Rightarrow> auto_world" where
  "sweep_expired now w =
     (let (answer, effects, st) = expire_due now (auto_store w)
      in with_store st (w\<lparr>aw_queue := (aw_queue w)\<lparr>qw_effects := qw_effects (aw_queue w) @ effects\<rparr>\<rparr>))"

text \<open>\<^verbatim>\<open>tick\<close> up to its loop; an exception ends the pass with what it had written.\<close>

definition begin_tick :: "auto_config \<Rightarrow> auto_moment \<Rightarrow> auto_world \<Rightarrow> auto_phase \<times> auto_world" where
  "begin_tick cfg e w0 =
     (let w1 = w0\<lparr>aw_ticks := aw_ticks w0 + 1, aw_delivered := []\<rparr>;
          w2 = (if aw_ticks w1 mod expiry_sweep_ticks = 1 then sweep_expired (am_now e) w1 else w1)
      in case conversation_grants cfg (am_sessions e) (am_resized e) (am_source e) (am_now e) w2 of
           (Inl err, w3) \<Rightarrow> (Auto_Rest, w3)
         | (Inr rows, w3) \<Rightarrow>
             if \<not> ac_enabled cfg \<or> auto_paused w3 then (Auto_Rest, w3\<lparr>aw_stability := []\<rparr>)
             else (Auto_Pass rows (in_quiet_window (ac_quiet_start cfg) (ac_quiet_end cfg) (am_local e)), w3))"

definition sending_step ::
  "auto_config \<Rightarrow> auto_moment \<Rightarrow> auto_policy \<Rightarrow> prompt_row \<Rightarrow> seconds \<Rightarrow> send_task \<Rightarrow> auto_policy list \<Rightarrow> bool
    \<Rightarrow> auto_world \<Rightarrow> auto_phase \<times> auto_world" where
  "sending_step cfg e p m clock k rest quiet w =
     (let (k', q) = send_step (ac_queue cfg) (am_send e) k (aw_queue w)
      in (case sk_phase k' of
            Send_Ended answer \<Rightarrow> Auto_Settle p m clock answer rest quiet
          | _ \<Rightarrow> Auto_Sending p m clock k' rest quiet, w\<lparr>aw_queue := q\<rparr>))"

fun auto_step :: "auto_config \<Rightarrow> auto_moment \<Rightarrow> auto_phase \<Rightarrow> auto_world \<Rightarrow> auto_phase \<times> auto_world" where
  "auto_step cfg e Auto_Rest w = begin_tick cfg e w"
| "auto_step cfg e (Auto_Pass [] quiet) w = (Auto_Rest, w)"
| "auto_step cfg e (Auto_Pass (p # rest) quiet) w =
     (if \<not> ap_enabled p then (Auto_Pass rest quiet, w)
      else (case consider_grant cfg e quiet p w of
              (False, w') \<Rightarrow> (Auto_Pass rest quiet, w')
            | (True, w') \<Rightarrow> (Auto_Head p (am_now e) (am_clock e) rest quiet, w')))"
| "auto_step cfg e (Auto_Head p now clock rest quiet) w =
     (case consider_head cfg e p now clock w of
        (None, w') \<Rightarrow> (Auto_Pass rest quiet, w')
      | (Some m, w') \<Rightarrow> (Auto_Take p m clock rest quiet, w'))"
| "auto_step cfg e (Auto_Take p m clock rest quiet) w =
     (case take_slot e p w of
        (False, w') \<Rightarrow> (Auto_Pass rest quiet, w')
      | (True, w') \<Rightarrow> (Auto_Sending p m clock (start_send (auto_request m)) rest quiet, w'))"
| "auto_step cfg e (Auto_Sending p m clock k rest quiet) w = sending_step cfg e p m clock k rest quiet w"
| "auto_step cfg e (Auto_Settle p m clock answer rest quiet) w =
     (Auto_Pass rest quiet, settle_auto_send cfg e p m clock answer w)"

definition fresh_controller :: "queue_world \<Rightarrow> auto_world" where
  "fresh_controller q = \<lparr>aw_queue = q, aw_stability = [], aw_backoff = [], aw_ticks = 0, aw_last_error = '''',
     aw_delivered = [], aw_events = []\<rparr>"


end
