(* ===== verification/Auto_Looks.thy ===== *)
theory Auto_Looks
  imports Auto_Delivery
begin

text \<open>
  Runs of the controller of \<^verbatim>\<open>auto_delivery.py\<close>: its passes interleaved with whatever else the daemon
  does to the queue. What an automatic send rests on, that a failed delivery switches its session off for
  good, what the conversation default grants, and where the controller's copy of the grants is too old.
\<close>

subsection \<open>What each stretch keeps\<close>

text \<open>The windows of stability a stretch leaves are among those it found.\<close>

definition forgets :: "auto_world \<Rightarrow> auto_world \<Rightarrow> bool" where
  "forgets w w' \<longleftrightarrow> (\<forall>sid v. map_of (aw_stability w') sid = Some v \<longrightarrow> map_of (aw_stability w) sid = Some v)"

lemma forgets_refl [simp]: "forgets w w" by (simp add: forgets_def)

lemma forgets_trans [trans]: "forgets w w' \<Longrightarrow> forgets w' w'' \<Longrightarrow> forgets w w''" by (auto simp: forgets_def)

lemma forgets_same: "aw_stability w' = aw_stability w \<Longrightarrow> forgets w w'" by (simp add: forgets_def)

lemma map_of_delete_Some: "map_of (AList.delete k xs) j = Some v \<Longrightarrow> j \<noteq> k \<and> map_of xs j = Some v"
  by (cases "j = k") (simp_all add: delete_conv')

lemma stability_kept [simp]:
  "aw_stability (snd (put_policy sid cols now w)) = aw_stability w"
  "aw_stability (count_auto name now w) = aw_stability w"
  "aw_stability (begin_proving now w) = aw_stability w"
  "aw_stability (tell_policy x w) = aw_stability w"
  "aw_stability (drop_backoff sid w) = aw_stability w"
  "aw_stability (renew_grant sid d now p w) = aw_stability w"
  "aw_stability (sweep_expired now w) = aw_stability w"
  "aw_stability (drop_stability sid w) = AList.delete sid (aw_stability w)"
  "aw_stability (drop_windows sid w) = AList.delete sid (aw_stability w)"
  by (simp_all add: put_policy_def count_auto_def begin_proving_def tell_policy_def drop_backoff_def
      renew_grant_def sweep_expired_def drop_stability_def drop_windows_def split: sum.splits prod.splits)

lemma forgets_delete: "aw_stability w' = AList.delete sid (aw_stability w) \<Longrightarrow> forgets w w'"
  by (auto simp: forgets_def dest: map_of_delete_Some)

lemma stability_disabled [simp]:
  "aw_stability (snd (disable_session sessions sid reason who audit now w)) = AList.delete sid (aw_stability w)"
  "aw_stability (snd (lapse_session cfg sessions sid s p now w)) = AList.delete sid (aw_stability w)"
  by (simp_all add: disable_session_def lapse_session_def case_prod_beta Let_def)

lemma forgets_disable: "forgets w (snd (disable_session sessions sid reason who audit now w))"
  by (rule forgets_delete) simp

lemma enable_stability:
  "enable_session cfg sessions sid ttl cap who a b now w = Inr (p, w') \<Longrightarrow>
     aw_stability w' = AList.delete sid (aw_stability w)"
  by (auto simp: enable_session_def case_prod_beta split: option.splits if_splits)

lemma forgets_defaults:
  "grant_defaults cfg sessions windows rows now resized rest b w = (r, w') \<Longrightarrow> forgets w w'"
proof (induction rest arbitrary: b w)
  case Nil
  then show ?case by simp
next
  case (Cons x rest)
  obtain sid s where x: "x = (sid, s)" by force
  show ?case
  proof (cases "default_action cfg s now (map_of windows sid) (find (\<lambda>p. ap_session p = sid) rows)")
    case None
    with Cons x show ?thesis by simp
  next
    case (Some same)
    show ?thesis
    proof (cases "enable_session cfg sessions sid None None default_policy_by (fresh_run_default same) (fresh_run_default same) now w")
      case (Inl err)
      with Cons.prems x Some show ?thesis by simp
    next
      case (Inr pw)
      then obtain p w1 where e: "enable_session cfg sessions sid None None default_policy_by (fresh_run_default same)
          (fresh_run_default same) now w = Inr (p, w1)" by (cases pw) simp
      from forgets_delete [OF enable_stability [OF e]] have "forgets w w1" .
      moreover have "forgets w1 w'"
        using Cons.prems Cons.IH [of True w1] x Some e by (simp split: if_splits)
      ultimately show ?thesis by (rule forgets_trans)
    qed
  qed
qed

lemma forgets_grants:
  "conversation_grants cfg sessions resized source now w = (r, w') \<Longrightarrow> forgets w w'"
  by (auto simp: conversation_grants_def Let_def split: prod.splits sum.splits dest!: forgets_defaults)

lemma forgets_consider: "consider_grant cfg e quiet p w = (b, w') \<Longrightarrow> forgets w w'"
  by (auto simp: consider_grant_def Let_def backoff_gate_def forgets_def
      split: option.splits if_splits dest: map_of_delete_Some)

lemma forgets_slot: "take_slot e p w = (b, w') \<Longrightarrow> forgets w w'"
  by (auto simp: take_slot_def case_prod_beta Let_def forgets_def split: if_splits dest: map_of_delete_Some)

lemma forgets_refused: "forgets w (send_refused cfg e sid clock c w)"
  by (auto simp: send_refused_def Let_def forgets_def dest: map_of_delete_Some)

lemma forgets_settle: "forgets w (settle_auto_send cfg e p m clock a w)"
  by (auto simp: settle_auto_send_def Let_def forgets_refused intro!: forgets_same split: send_answer.split queue_error.split)

lemma forgets_begin: "begin_tick cfg e w = (ph, w') \<Longrightarrow> forgets w w'"
proof -
  assume b: "begin_tick cfg e w = (ph, w')"
  let ?w2 = "if (aw_ticks w + 1) mod expiry_sweep_ticks = 1
       then sweep_expired (am_now e) (w\<lparr>aw_ticks := aw_ticks w + 1, aw_delivered := []\<rparr>)
       else w\<lparr>aw_ticks := aw_ticks w + 1, aw_delivered := []\<rparr>"
  obtain r w3 where g: "conversation_grants cfg (am_sessions e) (am_resized e) (am_source e) (am_now e) ?w2 = (r, w3)"
    by force
  have "forgets w ?w2" by (simp add: forgets_same)
  from forgets_trans [OF this forgets_grants [OF g]] have "forgets w w3" .
  with b g show ?thesis by (auto simp: begin_tick_def Let_def forgets_def split: sum.splits if_splits)
qed

subsection \<open>What an automatic send rests on\<close>

text \<open>
  A look at the head of a session: when, and the message it found ready with its revision. A run keeps
  the looks it made. Between two stretches the queue may become any other, and a person may switch a
  grant, which drops the session's window and back-off.
\<close>

type_synonym head_look = "string \<times> seconds \<times> (string \<times> int) option"

definition looks_of :: "auto_config \<Rightarrow> auto_moment \<Rightarrow> auto_phase \<Rightarrow> auto_world \<Rightarrow> head_look list" where
  "looks_of cfg e ph w = (case ph of
     Auto_Head p now clock rest quiet \<Rightarrow>
       [(ap_session p, clock, map_option (\<lambda>m. (pq_id m, pq_revision m)) (fst (head_ready cfg e p now (aw_queue w))))]
   | _ \<Rightarrow> [])"

inductive auto_run :: "auto_config \<Rightarrow> head_look list \<Rightarrow> auto_phase \<Rightarrow> auto_world \<Rightarrow> bool" for cfg where
  auto_fresh: "auto_run cfg [] Auto_Rest (fresh_controller q)"
| auto_on: "auto_run cfg xs ph w \<Longrightarrow> auto_step cfg e ph w = (ph', w') \<Longrightarrow>
    auto_run cfg (xs @ looks_of cfg e ph w) ph' w'"
| auto_queue_moves: "auto_run cfg xs ph w \<Longrightarrow> auto_run cfg xs ph (w\<lparr>aw_queue := q\<rparr>)"
| auto_switched: "auto_run cfg xs ph w \<Longrightarrow> auto_run cfg xs ph (drop_windows sid w)"

text \<open>Ready at \<open>t\<close>, and at every later look at the session.\<close>

definition ready_since :: "head_look list \<Rightarrow> string \<Rightarrow> string \<times> int \<Rightarrow> seconds \<Rightarrow> bool" where
  "ready_since xs sid k t \<longleftrightarrow>
     (\<exists>as bs. xs = as @ (sid, t, Some k) # bs \<and> (\<forall>y \<in> set bs. fst y = sid \<longrightarrow> snd (snd y) = Some k))"

lemma ready_since_here: "ready_since (xs @ [(sid, t, Some k)]) sid k t"
  unfolding ready_since_def by (intro exI [of _ xs] exI [of _ "[]"]) simp

lemma ready_since_append:
  assumes "ready_since xs sid k t" "\<forall>y \<in> set ys. fst y = sid \<longrightarrow> snd (snd y) = Some k"
  shows "ready_since (xs @ ys) sid k t"
proof -
  from assms(1) obtain as bs where "xs = as @ (sid, t, Some k) # bs"
    "\<forall>y \<in> set bs. fst y = sid \<longrightarrow> snd (snd y) = Some k" unfolding ready_since_def by blast
  with assms(2) show ?thesis unfolding ready_since_def by (intro exI [of _ as] exI [of _ "bs @ ys"]) auto
qed

text \<open>The window: a first look at least the configured time before the last one, ready at all of them.\<close>

definition window_held :: "auto_config \<Rightarrow> head_look list \<Rightarrow> string \<Rightarrow> prompt_row \<Rightarrow> seconds \<Rightarrow> bool" where
  "window_held cfg xs sid m clock \<longleftrightarrow>
     (\<exists>ys t. xs = ys @ [(sid, clock, Some (pq_id m, pq_revision m))] \<and>
        ready_since ys sid (pq_id m, pq_revision m) t \<and> ac_stable cfg \<le> clock - t)"

definition phase_ok :: "auto_config \<Rightarrow> head_look list \<Rightarrow> auto_phase \<Rightarrow> bool" where
  "phase_ok cfg xs ph = (case ph of
     Auto_Take p m clock rest quiet \<Rightarrow> window_held cfg xs (ap_session p) m clock
   | Auto_Sending p m clock k rest quiet \<Rightarrow> window_held cfg xs (ap_session p) m clock
   | _ \<Rightarrow> True)"

definition windows_ok :: "head_look list \<Rightarrow> auto_world \<Rightarrow> bool" where
  "windows_ok xs w \<longleftrightarrow> (\<forall>sid mid n t. map_of (aw_stability w) sid = Some (mid, n, t) \<longrightarrow> ready_since xs sid (mid, n) t)"

lemma windows_ok_forgets: "windows_ok xs w \<Longrightarrow> forgets w w' \<Longrightarrow> windows_ok xs w'"
  unfolding windows_ok_def forgets_def by blast

text \<open>A look that finds nothing ready drops the session's window; one that finds another message begins a new one.\<close>

lemma windows_ok_head:
  assumes "windows_ok xs w" "consider_head cfg e p now clock w = (r, w')"
  shows "windows_ok (xs @ looks_of cfg e (Auto_Head p now clock rest quiet) w) w'"
proof -
  let ?sid = "ap_session p"
  obtain ready q where h: "head_ready cfg e p now (aw_queue w) = (ready, q)" by force
  have old: "ready_since (xs @ [(?sid, clock, z)]) s (mid, n) t"
    if "map_of (aw_stability w) s = Some (mid, n, t)" "s = ?sid \<longrightarrow> z = Some (mid, n)" for s mid n t z
    using that assms(1) by (intro ready_since_append) (auto simp: windows_ok_def)
  have st: "aw_stability w' = (case ready of None \<Rightarrow> AList.delete ?sid (aw_stability w)
      | Some m \<Rightarrow> (case map_of (aw_stability w) ?sid of
          Some (mid, n, since) \<Rightarrow> if mid = pq_id m \<and> n = pq_revision m then aw_stability w
             else AList.update ?sid (pq_id m, pq_revision m, clock) (aw_stability w)
        | None \<Rightarrow> AList.update ?sid (pq_id m, pq_revision m, clock) (aw_stability w)))"
    using assms(2) h by (auto simp: consider_head_def Let_def drop_stability_def split: option.splits if_splits)
  show ?thesis
    unfolding windows_ok_def looks_of_def auto_phase.case h fst_conv
  proof (intro allI impI)
    fix s mid n t
    assume v: "map_of (aw_stability w') s = Some (mid, n, t)"
    show "ready_since (xs @ [(?sid, clock, map_option (\<lambda>m. (pq_id m, pq_revision m)) ready)]) s (mid, n) t"
    proof (cases "s = ?sid")
      case False
      then have "map_of (aw_stability w) s = Some (mid, n, t)"
        using v st by (auto simp: update_conv' dest: map_of_delete_Some split: option.splits if_splits)
      then show ?thesis by (rule old) (simp add: False)
    next
      case True
      then obtain m where m: "ready = Some m" using v st by (cases ready) (auto dest: map_of_delete_Some)
      show ?thesis
      proof (cases "map_of (aw_stability w) s = Some (mid, n, t) \<and> mid = pq_id m \<and> n = pq_revision m")
        case True
        then show ?thesis by (intro old) (simp_all add: m)
      next
        case False
        then have "(mid, n, t) = (pq_id m, pq_revision m, clock)"
          using v st m True by (auto simp: update_conv' split: option.splits if_splits)
        then show ?thesis using True by (simp add: m ready_since_here)
      qed
    qed
  qed
qed

lemma head_step_window:
  assumes "windows_ok xs w" "consider_head cfg e p now clock w = (Some m, w')"
  shows "window_held cfg (xs @ looks_of cfg e (Auto_Head p now clock rest quiet) w) (ap_session p) m clock"
proof -
  obtain q where h: "head_ready cfg e p now (aw_queue w) = (Some m, q)"
    and t: "\<exists>t. map_of (aw_stability w) (ap_session p) = Some (pq_id m, pq_revision m, t) \<and> \<not> clock - t < ac_stable cfg"
    using assms(2) by (auto simp: consider_head_def Let_def split: prod.splits option.splits if_splits)
  then obtain t where "ready_since xs (ap_session p) (pq_id m, pq_revision m) t" "ac_stable cfg \<le> clock - t"
    using assms(1) unfolding windows_ok_def not_less by blast
  with h show ?thesis
    by (auto simp: window_held_def looks_of_def)
qed

lemma auto_step_ok:
  assumes w: "windows_ok xs w" and ok: "phase_ok cfg xs ph" and s: "auto_step cfg e ph w = (ph', w')"
  shows "windows_ok (xs @ looks_of cfg e ph w) w' \<and> phase_ok cfg (xs @ looks_of cfg e ph w) ph'"
proof (cases ph)
  case Auto_Rest
  with s have b: "begin_tick cfg e w = (ph', w')" by simp
  then have "phase_ok cfg xs ph'"
    by (auto simp: begin_tick_def Let_def phase_ok_def split: prod.splits sum.splits if_splits)
  with windows_ok_forgets [OF w forgets_begin [OF b]] show ?thesis by (simp add: Auto_Rest looks_of_def)
next
  case (Auto_Pass rows quiet)
  show ?thesis
  proof (cases rows)
    case Nil
    with s w Auto_Pass show ?thesis by (auto simp: looks_of_def phase_ok_def)
  next
    case (Cons p rest)
    show ?thesis
    proof (cases "ap_enabled p")
      case False
      with s w Auto_Pass Cons show ?thesis by (auto simp: looks_of_def phase_ok_def)
    next
      case True
      obtain b w1 where c: "consider_grant cfg e quiet p w = (b, w1)" by force
      with s True Auto_Pass Cons have "w' = w1" "phase_ok cfg xs ph'"
        by (auto simp: phase_ok_def split: bool.splits)
      with windows_ok_forgets [OF w forgets_consider [OF c]] show ?thesis by (simp add: Auto_Pass looks_of_def)
    qed
  qed
next
  case (Auto_Head p now clock rest quiet)
  obtain r w1 where c: "consider_head cfg e p now clock w = (r, w1)" by force
  show ?thesis
  proof (cases r)
    case None
    with s c Auto_Head windows_ok_head [OF w c] show ?thesis by (auto simp: phase_ok_def)
  next
    case (Some m)
    with s c Auto_Head windows_ok_head [OF w c] head_step_window [OF w c [unfolded Some]] ok show ?thesis
      by (auto simp: phase_ok_def)
  qed
next
  case (Auto_Take p m clock rest quiet)
  obtain b w1 where c: "take_slot e p w = (b, w1)" by force
  with s Auto_Take ok have "w' = w1" "phase_ok cfg xs ph'"
    by (auto simp: phase_ok_def start_send_def split: bool.splits)
  with windows_ok_forgets [OF w forgets_slot [OF c]] show ?thesis by (simp add: Auto_Take looks_of_def)
next
  case (Auto_Sending p m clock k rest quiet)
  obtain k1 q where k: "send_step (ac_queue cfg) (am_send e) k (aw_queue w) = (k1, q)" by force
  with s k Auto_Sending ok have "aw_stability w' = aw_stability w" "phase_ok cfg xs ph'"
    by (auto simp: phase_ok_def sending_step_def split: send_phase.splits)
  with windows_ok_forgets [OF w forgets_same] show ?thesis by (simp add: Auto_Sending looks_of_def)
next
  case (Auto_Settle p m clock a rest quiet)
  with s windows_ok_forgets [OF w forgets_settle] show ?thesis by (auto simp: looks_of_def phase_ok_def)
qed

lemma auto_run_ok: "auto_run cfg xs ph w \<Longrightarrow> windows_ok xs w \<and> phase_ok cfg xs ph"
proof (induction rule: auto_run.induct)
  case (auto_fresh q)
  then show ?case by (simp add: windows_ok_def phase_ok_def fresh_controller_def)
next
  case (auto_on xs ph w e ph' w')
  then show ?case using auto_step_ok by blast
next
  case (auto_queue_moves xs ph w q)
  then show ?case by (simp add: windows_ok_def)
next
  case (auto_switched xs ph w sid)
  moreover have "forgets w (drop_windows sid w)" by (rule forgets_delete) simp
  ultimately show ?case using windows_ok_forgets by blast
qed


text \<open>
  A run that keeps, of every stretch, the moment, the phase and the world it found.
\<close>

type_synonym auto_look = "auto_moment \<times> auto_phase \<times> auto_world"

inductive auto_trail :: "auto_config \<Rightarrow> auto_look list \<Rightarrow> auto_phase \<Rightarrow> auto_world \<Rightarrow> bool" for cfg where
  trail_fresh: "auto_trail cfg [] Auto_Rest (fresh_controller q)"
| trail_on: "auto_trail cfg hs ph w \<Longrightarrow> auto_step cfg e ph w = (ph', w') \<Longrightarrow>
    auto_trail cfg (hs @ [(e, ph, w)]) ph' w'"
| trail_queue_moves: "auto_trail cfg hs ph w \<Longrightarrow> auto_trail cfg hs ph (w\<lparr>aw_queue := q\<rparr>)"
| trail_switched: "auto_trail cfg hs ph w \<Longrightarrow> auto_trail cfg hs ph (drop_windows sid w)"

definition all_looks :: "auto_config \<Rightarrow> auto_look list \<Rightarrow> head_look list" where
  "all_looks cfg hs = concat (map (\<lambda>(e, ph, w). looks_of cfg e ph w) hs)"

lemma all_looks_snoc [simp]: "all_looks cfg (hs @ [(e, ph, w)]) = all_looks cfg hs @ looks_of cfg e ph w"
  by (simp add: all_looks_def)

lemma trail_runs: "auto_trail cfg hs ph w \<Longrightarrow> auto_run cfg (all_looks cfg hs) ph w"
proof (induction rule: auto_trail.induct)
  case (trail_fresh q)
  then show ?case by (simp add: all_looks_def auto_fresh)
qed (simp_all add: auto_on auto_queue_moves auto_switched)

text \<open>The pass began in a stretch before, with the master switch on, nothing paused, outside quiet hours.\<close>

definition pass_began :: "auto_config \<Rightarrow> auto_look list \<Rightarrow> auto_policy list \<Rightarrow> bool \<Rightarrow> bool" where
  "pass_began cfg hs left quiet \<longleftrightarrow> (\<exists>as e w bs rows w'. hs = as @ (e, Auto_Rest, w) # bs \<and>
     Auto_Rest \<notin> (fst \<circ> snd) ` set bs \<and> begin_tick cfg e w = (Auto_Pass rows quiet, w') \<and> set left \<subseteq> set rows)"

lemma pass_beganI:
  "hs = as @ (e, Auto_Rest, w) # bs \<Longrightarrow> Auto_Rest \<notin> (fst \<circ> snd) ` set bs \<Longrightarrow>
     begin_tick cfg e w = (Auto_Pass rows quiet, w') \<Longrightarrow> set left \<subseteq> set rows \<Longrightarrow> pass_began cfg hs left quiet"
  unfolding pass_began_def by blast

lemma pass_began_on:
  assumes "pass_began cfg hs left quiet" "ph \<noteq> Auto_Rest" "set left' \<subseteq> set left"
  shows "pass_began cfg (hs @ [(e, ph, w)]) left' quiet"
proof -
  from assms(1) obtain as e0 w0 bs rows w' where "hs = as @ (e0, Auto_Rest, w0) # bs"
    "Auto_Rest \<notin> (fst \<circ> snd) ` set bs" "begin_tick cfg e0 w0 = (Auto_Pass rows quiet, w')" "set left \<subseteq> set rows"
    unfolding pass_began_def by blast
  with assms(2,3) show ?thesis
    by (intro pass_beganI [of _ as e0 w0 "bs @ [(e, ph, w)]" cfg rows quiet w']) auto
qed

text \<open>The stretches that led from the row of a session to the send of its head.\<close>

definition grant_seen ::
  "auto_config \<Rightarrow> auto_look list \<Rightarrow> auto_policy \<Rightarrow> seconds \<Rightarrow> seconds \<Rightarrow> auto_policy list \<Rightarrow> bool \<Rightarrow> bool" where
  "grant_seen cfg hs p now clock rest quiet \<longleftrightarrow> (\<exists>gs e w w'. hs = gs @ [(e, Auto_Pass (p # rest) quiet, w)] \<and>
     pass_began cfg gs (p # rest) quiet \<and> now = am_now e \<and> clock = am_clock e \<and> ap_enabled p \<and>
     consider_grant cfg e quiet p w = (True, w'))"

definition head_seen ::
  "auto_config \<Rightarrow> auto_look list \<Rightarrow> auto_policy \<Rightarrow> prompt_row \<Rightarrow> seconds \<Rightarrow> auto_policy list \<Rightarrow> bool \<Rightarrow> bool" where
  "head_seen cfg hs p m clock rest quiet \<longleftrightarrow> (\<exists>gs e w w' now. hs = gs @ [(e, Auto_Head p now clock rest quiet, w)] \<and>
     grant_seen cfg gs p now clock rest quiet \<and> consider_head cfg e p now clock w = (Some m, w'))"

definition slot_taken ::
  "auto_config \<Rightarrow> auto_look list \<Rightarrow> auto_policy \<Rightarrow> prompt_row \<Rightarrow> seconds \<Rightarrow> auto_policy list \<Rightarrow> bool \<Rightarrow> bool" where
  "slot_taken cfg hs p m clock rest quiet \<longleftrightarrow> (\<exists>gs e w w' cs. hs = gs @ (e, Auto_Take p m clock rest quiet, w) # cs \<and>
     head_seen cfg gs p m clock rest quiet \<and> take_slot e p w = (True, w') \<and>
     (\<forall>x \<in> set cs. \<exists>k. fst (snd x) = Auto_Sending p m clock k rest quiet))"

definition trail_ok :: "auto_config \<Rightarrow> auto_look list \<Rightarrow> auto_phase \<Rightarrow> bool" where
  "trail_ok cfg hs ph = (case ph of
     Auto_Rest \<Rightarrow> True
   | Auto_Pass rows quiet \<Rightarrow> pass_began cfg hs rows quiet
   | Auto_Head p now clock rest quiet \<Rightarrow> pass_began cfg hs rest quiet \<and> grant_seen cfg hs p now clock rest quiet
   | Auto_Take p m clock rest quiet \<Rightarrow> pass_began cfg hs rest quiet \<and> head_seen cfg hs p m clock rest quiet
   | Auto_Sending p m clock k rest quiet \<Rightarrow>
       pass_began cfg hs rest quiet \<and> slot_taken cfg hs p m clock rest quiet \<and> sk_request k = auto_request m
   | Auto_Settle p m clock a rest quiet \<Rightarrow> pass_began cfg hs rest quiet)"

lemma slot_takenI:
  "hs = gs @ (e, Auto_Take p m clock rest quiet, w) # cs \<Longrightarrow> head_seen cfg gs p m clock rest quiet \<Longrightarrow>
     take_slot e p w = (True, w') \<Longrightarrow> \<forall>x \<in> set cs. \<exists>k. fst (snd x) = Auto_Sending p m clock k rest quiet \<Longrightarrow>
     slot_taken cfg hs p m clock rest quiet"
  unfolding slot_taken_def by blast

lemma step_keeps_request: "sk_request (fst (send_step cfg e k w)) = sk_request k"
  by (cases "sk_phase k")
    (auto simp: step_defs split: if_splits sum.splits claim_answer.splits option.splits nat.splits
      prod.splits write_answer.splits send_answer.splits)

lemma trail_step:
  assumes ok: "trail_ok cfg hs ph" and s: "auto_step cfg e ph w = (ph', w')"
  shows "trail_ok cfg (hs @ [(e, ph, w)]) ph'"
proof (cases ph)
  case Auto_Rest
  with s have b: "begin_tick cfg e w = (ph', w')" by simp
  then consider "ph' = Auto_Rest" | rows quiet where "ph' = Auto_Pass rows quiet"
    by (auto simp: begin_tick_def Let_def split: prod.splits sum.splits if_splits)
  then show ?thesis
  proof cases
    case 2
    with b Auto_Rest have "pass_began cfg (hs @ [(e, ph, w)]) rows quiet"
      by (intro pass_beganI [of _ hs e w "[]" cfg rows quiet w']) simp_all
    with 2 show ?thesis by (simp add: trail_ok_def)
  qed (simp add: trail_ok_def)
next
  case (Auto_Pass rows quiet)
  with ok have began: "pass_began cfg hs rows quiet" by (simp add: trail_ok_def)
  have on: "pass_began cfg (hs @ [(e, ph, w)]) rest quiet" if "set rest \<subseteq> set rows" for rest
    by (rule pass_began_on [OF began _ that]) (simp add: Auto_Pass)
  show ?thesis
  proof (cases rows)
    case Nil
    with s Auto_Pass show ?thesis by (simp add: trail_ok_def)
  next
    case (Cons p rest)
    with on have rest: "pass_began cfg (hs @ [(e, ph, w)]) rest quiet" by auto
    show ?thesis
    proof (cases "ap_enabled p")
      case False
      with s Auto_Pass Cons have "ph' = Auto_Pass rest quiet" by simp
      with rest show ?thesis by (simp add: trail_ok_def)
    next
      case True
      obtain b w1 where c: "consider_grant cfg e quiet p w = (b, w1)" by force
      show ?thesis
      proof (cases b)
        case False
        with s True c Auto_Pass Cons rest show ?thesis by (auto simp: trail_ok_def)
      next
        case b: True
        with c began Cons True have "grant_seen cfg (hs @ [(e, ph, w)]) p (am_now e) (am_clock e) rest quiet"
          unfolding grant_seen_def Auto_Pass by auto
        with s True c b Auto_Pass Cons rest show ?thesis by (auto simp: trail_ok_def)
      qed
    qed
  qed
next
  case (Auto_Head p now clock rest quiet)
  with ok have on: "pass_began cfg (hs @ [(e, ph, w)]) rest quiet" by (auto simp: trail_ok_def intro: pass_began_on)
  obtain r w1 where c: "consider_head cfg e p now clock w = (r, w1)" by force
  show ?thesis
  proof (cases r)
    case None
    with s c Auto_Head on show ?thesis by (auto simp: trail_ok_def)
  next
    case (Some m)
    with c ok Auto_Head have "head_seen cfg (hs @ [(e, ph, w)]) p m clock rest quiet"
      by (auto simp: head_seen_def trail_ok_def)
    with s c Some Auto_Head on show ?thesis by (auto simp: trail_ok_def)
  qed
next
  case (Auto_Take p m clock rest quiet)
  with ok have on: "pass_began cfg (hs @ [(e, ph, w)]) rest quiet" by (auto simp: trail_ok_def intro: pass_began_on)
  obtain b w1 where c: "take_slot e p w = (b, w1)" by force
  show ?thesis
  proof (cases b)
    case False
    with s c Auto_Take on show ?thesis by (auto simp: trail_ok_def)
  next
    case True
    with c ok Auto_Take have "slot_taken cfg (hs @ [(e, ph, w)]) p m clock rest quiet"
      by (intro slot_takenI [of _ hs e p m clock rest quiet w "[]" cfg w1]) (simp_all add: trail_ok_def)
    with s c True Auto_Take on show ?thesis by (auto simp: trail_ok_def start_send_def)
  qed
next
  case (Auto_Sending p m clock k rest quiet)
  with ok have on: "pass_began cfg (hs @ [(e, ph, w)]) rest quiet" by (auto simp: trail_ok_def intro: pass_began_on)
  from ok Auto_Sending have "slot_taken cfg hs p m clock rest quiet" by (simp add: trail_ok_def)
  then obtain gs e0 w0 w1 cs where "hs = gs @ (e0, Auto_Take p m clock rest quiet, w0) # cs"
    "head_seen cfg gs p m clock rest quiet" "take_slot e0 p w0 = (True, w1)"
    "\<forall>x \<in> set cs. \<exists>k. fst (snd x) = Auto_Sending p m clock k rest quiet" unfolding slot_taken_def by blast
  then have slot: "slot_taken cfg (hs @ [(e, ph, w)]) p m clock rest quiet"
    by (intro slot_takenI [of _ gs e0 p m clock rest quiet w0 "cs @ [(e, ph, w)]" cfg w1]) (auto simp: Auto_Sending)
  obtain k1 q where k: "send_step (ac_queue cfg) (am_send e) k (aw_queue w) = (k1, q)" by force
  then have "sk_request k1 = sk_request k"
    using step_keeps_request [of "ac_queue cfg" "am_send e" k "aw_queue w"] by simp
  with s k Auto_Sending ok on slot show ?thesis
    by (auto simp: trail_ok_def sending_step_def split: send_phase.splits)
next
  case (Auto_Settle p m clock a rest quiet)
  with ok s show ?thesis by (auto simp: trail_ok_def intro: pass_began_on)
qed

lemma trail_invariant: "auto_trail cfg hs ph w \<Longrightarrow> trail_ok cfg hs ph"
proof (induction rule: auto_trail.induct)
  case (trail_fresh q)
  then show ?case by (simp add: trail_ok_def)
next
  case (trail_on hs ph w e ph' w')
  then show ?case using trail_step by blast
qed

text \<open>What the stretches established, in the words of the code's guards.\<close>

lemma began_facts:
  assumes "begin_tick cfg e w = (Auto_Pass rows quiet, w')"
  shows "ac_enabled cfg \<and> \<not> auto_paused w' \<and> quiet = in_quiet_window (ac_quiet_start cfg) (ac_quiet_end cfg) (am_local e)"
  using assms by (auto simp: begin_tick_def Let_def split: prod.splits sum.splits if_splits)

lemma renew_keeps: "aw_backoff (renew_grant sid d now p w) = aw_backoff w"
  by (simp add: renew_grant_def put_policy_def split: sum.split prod.split)

lemma grant_facts:
  assumes "consider_grant cfg e quiet p w = (True, w')"
  shows "\<not> quiet \<and> \<not> (ap_max_sends p \<noteq> 0 \<and> ap_max_sends p \<le> ap_sends_used p) \<and>
    (\<forall>t. map_of (aw_backoff w) (ap_session p) = Some t \<longrightarrow> t \<le> am_clock e) \<and>
    (\<exists>s. map_of (am_sessions e) (ap_session p) = Some s \<and> \<not> has_ended (as_target s) \<and>
       \<not> run_replaced (ap_run p) (session_run s) \<and>
       (am_now e < idle_deadline cfg s (ap_enabled_at p) \<or>
        map_of (reply_windows cfg (am_source e) [ap_session p] (am_now e) (auto_store w)) (ap_session p) \<noteq> None))"
  using assms
  by (auto simp: consider_grant_def Let_def backoff_gate_def cap_reached_def renew_keeps
      split: option.splits if_splits)

lemma head_facts:
  assumes "consider_head cfg e p now clock w = (Some m, w')"
  shows "pending_head (ap_session p) (auto_store w) = Some m \<and> head_waits p now (am_held e) m \<and>
    (let ev = fst (evaluate (qc_harnesses (ac_queue cfg)) True 0 True (tg_ready (as_target (am_held e)))
       (am_clock e) (qw_tracker (aw_queue w)))
     in ev_state ev = Verdict_Safe \<or> may_interject cfg p m ev)"
proof -
  obtain q where h: "head_ready cfg e p now (aw_queue w) = (Some m, q)"
    using assms by (auto simp: consider_head_def Let_def split: prod.splits option.splits if_splits)
  then show ?thesis by (auto simp: head_ready_def case_prod_beta Let_def split: option.splits if_splits)
qed

lemma slot_facts: "take_slot e p w = (True, w') \<Longrightarrow>
    fst (consume_auto_send (ap_session p) (ap_max_sends p) (am_now e) (auto_store w))"
  by (auto simp: take_slot_def case_prod_beta Let_def split: if_splits)

text \<open>
  C8. Behind every step of an automatic send there is one pass: it began with delivery switched on and not
  paused, outside quiet hours by the local time of that moment, and read the row of the session; the row
  is on, below its cap, not backing off, not lapsed unless an answer is owed, and its session is live on
  the run of the grant; the head of that session was then, in the queue of that stretch, the armed,
  authorised and due message, bound to no other run, with a verdict on that tracker that is safe, or safe
  to interject where both sides allow it; the same message at the same revision had been found so at every
  look over at least the configured time; and a send was taken from the budget. The request is the
  controller's own: it cannot override a verdict.
\<close>

theorem automatic_send_rests_on_evidence:
  assumes "auto_trail cfg hs (Auto_Sending p m clock k rest quiet) w"
  shows "\<exists>as e0 w0 bs e1 w1 e2 w2 e3 w3 cs rows w0' s ev.
    hs = as @ [(e0, Auto_Rest, w0)] @ bs @ [(e1, Auto_Pass (p # rest) quiet, w1),
      (e2, Auto_Head p (am_now e1) clock rest quiet, w2), (e3, Auto_Take p m clock rest quiet, w3)] @ cs
    \<and> (\<forall>x \<in> set bs. fst (snd x) \<noteq> Auto_Rest)
    \<and> (\<forall>x \<in> set cs. \<exists>k. fst (snd x) = Auto_Sending p m clock k rest quiet)
    \<and> begin_tick cfg e0 w0 = (Auto_Pass rows quiet, w0') \<and> p \<in> set rows
    \<and> ac_enabled cfg \<and> \<not> auto_paused w0'
    \<and> \<not> in_quiet_window (ac_quiet_start cfg) (ac_quiet_end cfg) (am_local e0)
    \<and> clock = am_clock e1 \<and> ap_enabled p \<and> \<not> (ap_max_sends p \<noteq> 0 \<and> ap_max_sends p \<le> ap_sends_used p)
    \<and> (\<forall>t. map_of (aw_backoff w1) (ap_session p) = Some t \<longrightarrow> t \<le> clock)
    \<and> map_of (am_sessions e1) (ap_session p) = Some s \<and> \<not> has_ended (as_target s)
    \<and> \<not> run_replaced (ap_run p) (session_run s)
    \<and> (am_now e1 < idle_deadline cfg s (ap_enabled_at p) \<or>
       map_of (reply_windows cfg (am_source e1) [ap_session p] (am_now e1) (auto_store w1)) (ap_session p) \<noteq> None)
    \<and> pending_head (ap_session p) (auto_store w2) = Some m \<and> pq_state m = Armed
    \<and> (pq_sender_kind m \<in> set human_sender_kinds \<or> pq_sender_kind m = '''' \<or> text_given (pq_solicited_by m) \<or>
       pq_sender_kind m = ''agent'' \<and> ap_accept_messages p)
    \<and> item_schedule_status (pq_constraints m) (am_now e1) = ''due''
    \<and> \<not> run_replaced (pq_target_run m) (session_run (am_held e2))
    \<and> ev = fst (evaluate (qc_harnesses (ac_queue cfg)) True 0 True (tg_ready (as_target (am_held e2)))
        (am_clock e2) (qw_tracker (aw_queue w2)))
    \<and> (ev_state ev = Verdict_Safe \<or> ac_interject cfg \<and> ap_accept_interjections p \<and>
       delivery_mode (qc_repr (ac_queue cfg)) m = delivery_now \<and> ev_interject ev = Verdict_Safe)
    \<and> window_held cfg (all_looks cfg hs) (ap_session p) m clock
    \<and> fst (consume_auto_send (ap_session p) (ap_max_sends p) (am_now e3) (auto_store w3))
    \<and> sq_message (sk_request k) = pq_id m \<and> sq_revision (sk_request k) = pq_revision m
    \<and> \<not> sq_confirm (sk_request k) \<and> sq_initiator (sk_request k) = ''auto''"
proof -
  from auto_run_ok [OF trail_runs [OF assms]] have window: "window_held cfg (all_looks cfg hs) (ap_session p) m clock"
    by (simp add: phase_ok_def)
  from trail_invariant [OF assms] have slot: "slot_taken cfg hs p m clock rest quiet" and k: "sk_request k = auto_request m"
    by (simp_all add: trail_ok_def)
  from slot obtain gs e3 w3 cs w3' where hs: "hs = gs @ (e3, Auto_Take p m clock rest quiet, w3) # cs"
    and h: "head_seen cfg gs p m clock rest quiet" and take: "take_slot e3 p w3 = (True, w3')"
    and cs: "\<forall>x \<in> set cs. \<exists>k. fst (snd x) = Auto_Sending p m clock k rest quiet"
    unfolding slot_taken_def by blast
  from h obtain ds e2 w2 w2' now where gs: "gs = ds @ [(e2, Auto_Head p now clock rest quiet, w2)]"
    and g: "grant_seen cfg ds p now clock rest quiet" and head: "consider_head cfg e2 p now clock w2 = (Some m, w2')"
    unfolding head_seen_def by blast
  from g obtain fs e1 w1 w1' where ds: "ds = fs @ [(e1, Auto_Pass (p # rest) quiet, w1)]"
    and began: "pass_began cfg fs (p # rest) quiet" and now: "now = am_now e1" "clock = am_clock e1" "ap_enabled p"
    and grant: "consider_grant cfg e1 quiet p w1 = (True, w1')"
    unfolding grant_seen_def by blast
  from began obtain as e0 w0 bs rows w0' where fs: "fs = as @ (e0, Auto_Rest, w0) # bs"
    and bs: "Auto_Rest \<notin> (fst \<circ> snd) ` set bs" and b: "begin_tick cfg e0 w0 = (Auto_Pass rows quiet, w0')"
    and rows: "set (p # rest) \<subseteq> set rows"
    unfolding pass_began_def by blast
  from bs have bs': "\<forall>x \<in> set bs. fst (snd x) \<noteq> Auto_Rest" by force
  from grant_facts [OF grant] obtain s where s: "map_of (am_sessions e1) (ap_session p) = Some s"
    "\<not> has_ended (as_target s)" "\<not> run_replaced (ap_run p) (session_run s)"
    "am_now e1 < idle_deadline cfg s (ap_enabled_at p) \<or>
        map_of (reply_windows cfg (am_source e1) [ap_session p] (am_now e1) (auto_store w1)) (ap_session p) \<noteq> None"
    by blast
  show ?thesis
    apply (rule exI [of _ as], rule exI [of _ e0], rule exI [of _ w0], rule exI [of _ bs], rule exI [of _ e1],
      rule exI [of _ w1], rule exI [of _ e2], rule exI [of _ w2], rule exI [of _ e3], rule exI [of _ w3],
      rule exI [of _ cs], rule exI [of _ rows], rule exI [of _ w0'], rule exI [of _ s],
      rule exI [of _ "fst (evaluate (qc_harnesses (ac_queue cfg)) True 0 True (tg_ready (as_target (am_held e2)))
        (am_clock e2) (qw_tracker (aw_queue w2)))"])
    apply (intro conjI, simp add: hs gs ds fs now, rule bs', rule cs, rule b)
    using rows began_facts [OF b] grant_facts [OF grant] s head_facts [OF head] slot_facts [OF take] now window k
    by (simp_all add: auto_request_def head_waits_def authorised_def may_interject_def Let_def)
qed

subsection \<open>A run\<close>

fun run_auto ::
  "auto_config \<Rightarrow> auto_moment list \<Rightarrow> head_look list \<Rightarrow> auto_phase \<Rightarrow> auto_world
    \<Rightarrow> head_look list \<times> auto_phase \<times> auto_world" where
  "run_auto cfg [] xs ph w = (xs, ph, w)"
| "run_auto cfg (e # es) xs ph w =
     (let (ph', w') = auto_step cfg e ph w in run_auto cfg es (xs @ looks_of cfg e ph w) ph' w')"

lemma run_auto_runs:
  "auto_run cfg xs ph w \<Longrightarrow> run_auto cfg es xs ph w = (xs', ph', w') \<Longrightarrow> auto_run cfg xs' ph' w'"
proof (induction es arbitrary: xs ph w)
  case Nil
  then show ?case by simp
next
  case (Cons e es)
  obtain ph1 w1 where s: "auto_step cfg e ph w = (ph1, w1)" by force
  with Cons.prems(2) have "run_auto cfg es (xs @ looks_of cfg e ph w) ph1 w1 = (xs', ph', w')" by simp
  with Cons.IH auto_on [OF Cons.prems(1) s] show ?case by blast
qed

definition demo_auto_config :: auto_config where
  "demo_auto_config = \<lparr>ac_queue = demo_config, ac_enabled = True, ac_ttl_minutes = 60, ac_max_consecutive = 3,
     ac_reply_minutes = 15, ac_quiet_start = ''22:00'', ac_quiet_end = ''07:00'', ac_stable = 3,
     ac_refusal_backoff = 30, ac_interject = False, ac_bounds = unlimited_bounds\<rparr>"

definition demo_auto_session :: auto_session where
  "demo_auto_session = \<lparr>as_target = demo_target ''idle'' 3, as_last_activity = 10\<rparr>"

definition demo_auto_moment :: "int \<Rightarrow> seconds \<Rightarrow> auto_moment" where
  "demo_auto_moment hour t = \<lparr>am_now = t, am_clock = t, am_local = (hour, 0),
     am_sessions = [(''s'', demo_auto_session)], am_resized = (\<lambda>_. False), am_held = demo_auto_session, am_source = None,
     am_send = demo_moment t (demo_target ''idle'' 3)\<rparr>"

definition demo_passes :: "auto_moment list" where
  "demo_passes = replicate 4 (demo_auto_moment 12 20) @ replicate 4 (demo_auto_moment 12 24)"

fun sending_to :: "auto_phase \<Rightarrow> (string \<times> string \<times> seconds) option" where
  "sending_to (Auto_Sending p m clock k rest quiet) = Some (ap_session p, pq_id m, clock)"
| "sending_to ph = None"

lemma sending_toE:
  assumes "sending_to ph = Some (sid, mid, t)"
  obtains p m k rest quiet where "ph = Auto_Sending p m t k rest quiet" "ap_session p = sid" "pq_id m = mid"
  using assms by (cases ph) auto

lemma demo_passes_run:
  "case run_auto demo_auto_config demo_passes [] Auto_Rest (fresh_controller demo_world) of (xs, ph, w) \<Rightarrow>
     xs = [(''s'', 20, Some (''a'', 1)), (''s'', 24, Some (''a'', 1))] \<and> sending_to ph = Some (''s'', ''a'', 24)"
  by code_simp

lemma run_auto_trails:
  assumes "auto_trail cfg hs ph w" "run_auto cfg es (all_looks cfg hs) ph w = (xs', ph', w')"
  shows "\<exists>hs'. auto_trail cfg hs' ph' w' \<and> all_looks cfg hs' = xs'"
  using assms
proof (induction es arbitrary: hs ph w)
  case Nil
  then show ?case by auto
next
  case (Cons e es)
  obtain ph1 w1 where s: "auto_step cfg e ph w = (ph1, w1)" by force
  with Cons.prems(2) Cons.IH [OF trail_on [OF Cons.prems(1) s]] show ?case by simp
qed

theorem automatic_send_rests_on_evidence_witness:
  "\<exists>hs p m k rest quiet w. auto_trail demo_auto_config hs (Auto_Sending p m 24 k rest quiet) w
     \<and> all_looks demo_auto_config hs = [(''s'', 20, Some (''a'', 1)), (''s'', 24, Some (''a'', 1))]
     \<and> pq_id m = ''a'' \<and> pq_state m = Armed \<and> ap_enabled p \<and> sq_initiator (sk_request k) = ''auto''"
proof -
  obtain xs ph w where r: "run_auto demo_auto_config demo_passes [] Auto_Rest (fresh_controller demo_world) = (xs, ph, w)"
    using prod_cases3 by blast
  with demo_passes_run have x: "xs = [(''s'', 20, Some (''a'', 1)), (''s'', 24, Some (''a'', 1))]"
    and "sending_to ph = Some (''s'', ''a'', 24)" by simp_all
  then obtain p m k rest quiet where ph: "ph = Auto_Sending p m 24 k rest quiet" "pq_id m = ''a''"
    using sending_toE by metis
  have "all_looks demo_auto_config [] = []" by (simp add: all_looks_def)
  with run_auto_trails [OF trail_fresh, of demo_auto_config demo_passes demo_world xs ph w] r obtain hs
    where t: "auto_trail demo_auto_config hs (Auto_Sending p m 24 k rest quiet) w" "all_looks demo_auto_config hs = xs"
    by (auto simp: ph)
  from automatic_send_rests_on_evidence [OF t(1)] have "pq_state m = Armed" "ap_enabled p"
    "sq_initiator (sk_request k) = ''auto''" by blast+
  with t x ph(2) show ?thesis by blast
qed

text \<open>What an automatic send writes carries the verdict it was judged by; it has no other way to write.\<close>

lemma automatic_pastes_are_conditional:
  assumes "send_trace cfg ews (start_send (auto_request m)) xs k" "Paste_Tried t mid d cond \<in> set xs"
  shows "mid = pq_id m \<and> (\<exists>(e, w) \<in> set ews. cond = Some (delivery_condition (verdict_in cfg e w)))"
proof -
  have "trace_ok cfg (auto_request m) [] (start_send (auto_request m))" by (simp add: trace_ok_def start_send_def)
  from trace_pastes [OF assms(1) this assms(2)] obtain as ep wp bs where "ews = as @ (ep, wp) # bs"
    and p: "paste_from cfg (auto_request m) as ep (Paste_Tried t mid d cond)" by auto
  then obtain e0 w0 e1 w1 hs ej wj m' where "ews = ((e0, w0) # (e1, w1) # hs @ [(ej, wj)]) @ (ep, wp) # bs"
    "allowed_by cfg (auto_request m) m' cond (sv_target ej) (verdict_in cfg ej wj)"
    by (auto simp: paste_from_def)
  moreover from p have "mid = pq_id m" by (simp add: paste_from_def auto_request_def)
  ultimately show ?thesis by (auto simp: allowed_by_def auto_request_def split: option.splits)
qed

subsection \<open>Looks that are not made\<close>

text \<open>
  A session that is seen ready before quiet hours, works during them and is ready again after them.
\<close>

definition demo_busy_session :: auto_session where
  "demo_busy_session = \<lparr>as_target = demo_target ''working'' 4, as_last_activity = 600\<rparr>"

definition evening :: "auto_moment list" where
  "evening =
     replicate 4 (demo_auto_moment 21 20) @
     replicate 3 ((demo_auto_moment 23 600)\<lparr>am_sessions := [(''s'', demo_busy_session)], am_held := demo_busy_session\<rparr>) @
     replicate 4 ((demo_auto_moment 7 3000)\<lparr>am_sessions := [(''s'', demo_auto_session\<lparr>as_last_activity := 700\<rparr>)]\<rparr>)"

text \<open>Quiet hours return before the window is dropped, so the window bridges them: the first look after
  them counts as held since before, although the verdict was not safe in between.\<close>

theorem quiet_hours_bridge_the_window:
  "(case run_auto demo_auto_config evening [] Auto_Rest (fresh_controller demo_world) of (xs, ph, w) \<Rightarrow>
      xs = [(''s'', 20, Some (''a'', 1)), (''s'', 3000, Some (''a'', 1))] \<and> sending_to ph = Some (''s'', ''a'', 3000))
   \<and> ev_state (fst (evaluate demo_harness True 0 True (tg_ready (as_target demo_busy_session)) 600 demo_readiness))
       \<noteq> Verdict_Safe"
proof
  show "case run_auto demo_auto_config evening [] Auto_Rest (fresh_controller demo_world) of (xs, ph, w) \<Rightarrow>
      xs = [(''s'', 20, Some (''a'', 1)), (''s'', 3000, Some (''a'', 1))] \<and> sending_to ph = Some (''s'', ''a'', 3000)"
    by code_simp
  show "ev_state (fst (evaluate demo_harness True 0 True (tg_ready (as_target demo_busy_session)) 600 demo_readiness))
       \<noteq> Verdict_Safe"
    by code_simp
qed

text \<open>The pause is read once per pass. A pass that began before it still looks at its sessions, takes a
  slot and writes.\<close>

theorem pause_misses_a_running_pass:
  "case run_auto demo_auto_config (replicate 4 (demo_auto_moment 12 20) @ [demo_auto_moment 12 24]) [] Auto_Rest
       (fresh_controller demo_world) of (xs, ph, w) \<Rightarrow>
     (case run_auto demo_auto_config (replicate 8 (demo_auto_moment 12 24)) xs ph (snd (set_paused True ''user'' 24 w)) of
        (xs', ph', w') \<Rightarrow> auto_paused w' \<and> filter is_paste (qw_effects (aw_queue w)) = [] \<and>
          length (filter is_paste (qw_effects (aw_queue w'))) = 1)"
  by code_simp

end
