(* ===== verification/Auto_Rows.thy ===== *)
theory Auto_Rows
  imports Auto_Looks
begin

text \<open>
  The grants of \<^verbatim>\<open>auto_delivery.py\<close>: what each operation does to the policy row of a session, what the
  conversation default grants and leaves alone, that a failed delivery switches its session off until a
  person acts, and that a pass working from rows it read earlier mistakes an opt-out for a spent budget.
\<close>

subsection \<open>Policy rows\<close>

text \<open>The primary key of the table.\<close>

definition policies_keyed :: "queue_store \<Rightarrow> bool" where
  "policies_keyed st \<longleftrightarrow> distinct (map ap_session (qs_policies st))"

lemma find_in_append: "find P (xs @ ys) = (case find P xs of None \<Rightarrow> find P ys | Some x \<Rightarrow> Some x)"
  by (induction xs) simp_all

lemma find_map_if:
  assumes "\<And>p. ap_session (f p) = ap_session p"
  shows "find (\<lambda>p. ap_session p = k) (map (\<lambda>p. if ap_session p = sid then f p else p) ps) =
    map_option (\<lambda>p. if k = sid then f p else p) (find (\<lambda>p. ap_session p = k) ps)"
  by (induction ps) (auto simp: assms)

lemma find_update_policy:
  assumes "\<And>p. ap_session (f p) = ap_session p"
  shows "find_policy k (update_policy sid f st) = map_option (\<lambda>p. if k = sid then f p else p) (find_policy k st)"
  by (simp add: find_policy_def update_policy_def find_map_if [OF assms])

lemma keyed_update_policy:
  assumes "\<And>p. ap_session (f p) = ap_session p"
  shows "map ap_session (qs_policies (update_policy sid f st)) = map ap_session (qs_policies st)"
  by (simp add: update_policy_def assms)

lemma column_keeps_session [simp]: "ap_session (set_policy_field c p) = ap_session p"
  by (cases c) simp_all

lemma columns_keep_session [simp]: "ap_session (fold set_policy_field cols p) = ap_session p"
  by (induction cols arbitrary: p) simp_all

lemma find_policy_session: "find_policy sid st = Some p \<Longrightarrow> ap_session p = sid"
  by (auto simp: find_policy_def find_Some_iff)

text \<open>A write of known columns sets them in the row of the session, which it makes if need be.\<close>

definition written_row :: "policy_field list \<Rightarrow> seconds \<Rightarrow> auto_policy \<Rightarrow> auto_policy" where
  "written_row cols now p = (fold set_policy_field cols p)\<lparr>ap_updated_at := now\<rparr>"

definition row_or_new :: "string \<Rightarrow> seconds \<Rightarrow> queue_store \<Rightarrow> auto_policy" where
  "row_or_new sid now st = (case find_policy sid st of None \<Rightarrow> new_policy sid now | Some p \<Rightarrow> p)"

lemma set_auto_policy_row:
  assumes "list_all known_field cols"
  obtains p st' where "set_auto_policy sid cols now st = Inr (p, st')"
    "find_policy k st' = (if k = sid then Some (written_row cols now (row_or_new sid now st)) else find_policy k st)"
    "qs_messages st' = qs_messages st"
    "policies_keyed st \<longrightarrow> policies_keyed st'"
proof -
  let ?st1 = "if find_policy sid st = None then st\<lparr>qs_policies := qs_policies st @ [new_policy sid now]\<rparr> else st"
  let ?f = "\<lambda>p. (fold set_policy_field cols p)\<lparr>ap_updated_at := now\<rparr>"
  have 1: "find_policy k ?st1 = (if k = sid then Some (row_or_new sid now st) else find_policy k st)"
    by (auto simp: find_policy_def row_or_new_def new_policy_def find_in_append split: option.splits)
  have "policies_keyed ?st1" if "policies_keyed st"
    using that by (auto simp: policies_keyed_def find_policy_def find_None_iff new_policy_def)
  moreover have "map ap_session (qs_policies (update_policy sid ?f ?st1)) = map ap_session (qs_policies ?st1)"
    by (rule keyed_update_policy) simp
  ultimately have k: "policies_keyed (update_policy sid ?f ?st1)" if "policies_keyed st"
    using that by (simp add: policies_keyed_def)
  have f: "find_policy k (update_policy sid ?f ?st1) =
      (if k = sid then Some (written_row cols now (row_or_new sid now st)) else find_policy k st)"
    using 1 by (simp add: find_update_policy written_row_def option.map_ident)
  show thesis
    by (rule that [of _ "update_policy sid ?f ?st1"])
      (use assms f k in \<open>simp_all add: set_auto_policy_def Let_def update_policy_def\<close>)
qed

lemma put_policy_row:
  assumes "list_all known_field cols"
  shows "find_policy k (auto_store (snd (put_policy sid cols now w))) =
      (if k = sid then Some (written_row cols now (row_or_new sid now (auto_store w))) else find_policy k (auto_store w))"
    and "qs_messages (auto_store (snd (put_policy sid cols now w))) = qs_messages (auto_store w)"
    and "policies_keyed (auto_store w) \<Longrightarrow> policies_keyed (auto_store (snd (put_policy sid cols now w)))"
proof -
  obtain p st' where s: "set_auto_policy sid cols now (auto_store w) = Inr (p, st')"
    and f: "find_policy k st' = (if k = sid then Some (written_row cols now (row_or_new sid now (auto_store w)))
      else find_policy k (auto_store w))" "qs_messages st' = qs_messages (auto_store w)"
      "policies_keyed (auto_store w) \<longrightarrow> policies_keyed st'"
    by (rule set_auto_policy_row [OF assms, of sid now "auto_store w" k])
  have a: "auto_store (snd (put_policy sid cols now w)) = st'" by (simp add: put_policy_def s)
  show "find_policy k (auto_store (snd (put_policy sid cols now w))) =
      (if k = sid then Some (written_row cols now (row_or_new sid now (auto_store w))) else find_policy k (auto_store w))"
    "qs_messages (auto_store (snd (put_policy sid cols now w))) = qs_messages (auto_store w)"
    "policies_keyed (auto_store w) \<Longrightarrow> policies_keyed (auto_store (snd (put_policy sid cols now w)))"
    using f unfolding a by blast+
qed

lemma known_columns [simp]:
  "list_all known_field (grant_columns run ttl cap who now)" "list_all known_field (accept_columns a b)"
  "list_all known_field (disable_columns run reason who audit now)"
  by (auto simp: grant_columns_def accept_columns_def disable_columns_def split: option.splits)

lemma same_policies: "qs_policies st' = qs_policies st \<Longrightarrow> find_policy k st' = find_policy k st"
  by (simp add: find_policy_def)

lemma counters_keep_rows [simp]:
  "find_policy k (auto_store (count_auto name now w)) = find_policy k (auto_store w)"
  "find_policy k (auto_store (begin_proving now w)) = find_policy k (auto_store w)"
  "find_policy k (auto_store (tell_policy x w)) = find_policy k (auto_store w)"
  "auto_store (drop_windows sid w) = auto_store w" "auto_store (drop_stability sid w) = auto_store w"
  "auto_store (drop_backoff sid w) = auto_store w" "auto_store (tell_policy x w) = auto_store w"
  by (auto simp: count_auto_def begin_proving_def tell_policy_def drop_windows_def drop_stability_def
      drop_backoff_def bump_counter_def set_counter_def intro: same_policies)

lemma keyed_counters [simp]:
  "policies_keyed (auto_store (count_auto name now w)) = policies_keyed (auto_store w)"
  "policies_keyed (auto_store (begin_proving now w)) = policies_keyed (auto_store w)"
  by (auto simp: count_auto_def begin_proving_def policies_keyed_def bump_counter_def set_counter_def)

lemma disable_row:
  "find_policy k (auto_store (snd (disable_session sessions sid reason who audit now w))) =
     (if k = sid then Some (written_row (disable_columns (run_known sessions sid) reason who audit now) now
        (row_or_new sid now (auto_store w))) else find_policy k (auto_store w))"
  "policies_keyed (auto_store w) \<Longrightarrow> policies_keyed (auto_store (snd (disable_session sessions sid reason who audit now w)))"
  by (simp_all add: disable_session_def case_prod_beta put_policy_row)

lemma disabled_row [simp]:
  "ap_enabled (written_row (disable_columns run reason who audit now) t p) = False"
  "ap_disabled_reason (written_row (disable_columns run reason who audit now) t p) = Some reason"
  by (simp_all add: written_row_def disable_columns_def)

lemma lapse_row:
  "find_policy k (auto_store (snd (lapse_session cfg sessions sid s p now w))) = find_policy k (auto_store w)" if "k \<noteq> sid"
  using that by (simp add: lapse_session_def disable_row Let_def)

lemma keyed_lapse:
  "policies_keyed (auto_store w) \<Longrightarrow> policies_keyed (auto_store (snd (lapse_session cfg sessions sid s p now w)))"
  by (simp add: lapse_session_def disable_row Let_def)

lemma renew_row:
  "k \<noteq> sid \<Longrightarrow> find_policy k (auto_store (renew_grant sid d now p w)) = find_policy k (auto_store w)"
  "policies_keyed (auto_store w) \<Longrightarrow> policies_keyed (auto_store (renew_grant sid d now p w))"
  by (auto simp: renew_grant_def put_policy_row)


lemma consume_row:
  "find_policy k (snd (consume_auto_send sid n now st)) =
     map_option (\<lambda>p. if k = sid \<and> may_consume n p then p\<lparr>ap_sends_used := ap_sends_used p + 1, ap_updated_at := now\<rparr> else p)
       (find_policy k st)"
  by (simp add: consume_auto_send_def find_update_policy if_distrib [of ap_session] cong: if_cong)
    (auto intro!: option.map_cong)

lemma keyed_consume: "policies_keyed (snd (consume_auto_send sid n now st)) = policies_keyed st"
  by (simp add: consume_auto_send_def policies_keyed_def keyed_update_policy)

lemma keyed_find:
  assumes "policies_keyed st" "p \<in> set (qs_policies st)"
  shows "find_policy (ap_session p) st = Some p"
proof -
  obtain as bs where q: "qs_policies st = as @ p # bs" using assms(2) by (meson split_list)
  with assms(1) have "ap_session p \<notin> ap_session ` set as" by (simp add: policies_keyed_def)
  then have "find (\<lambda>r. ap_session r = ap_session p) as = None"
    unfolding find_None_iff by (metis imageI)
  then show ?thesis by (simp add: find_policy_def q find_in_append)
qed

lemma find_policy_mem: "find_policy sid st = Some p \<Longrightarrow> p \<in> set (qs_policies st)"
  by (auto simp: find_policy_def find_Some_iff)

lemma consume_taken:
  assumes "policies_keyed st"
  shows "fst (consume_auto_send sid n now st) \<longleftrightarrow> (\<exists>p. find_policy sid st = Some p \<and> may_consume n p)"
  using keyed_find [OF assms] find_policy_mem find_policy_session by (fastforce simp: consume_auto_send_def)

lemma release_row:
  "k \<noteq> sid \<Longrightarrow> find_policy k (release_auto_send sid now st) = find_policy k st"
  "find_policy sid st = Some p \<Longrightarrow> find_policy sid (release_auto_send sid now st) =
     Some (p\<lparr>ap_sends_used := max 0 (ap_sends_used p - 1), ap_updated_at := now\<rparr>)"
  "policies_keyed (release_auto_send sid now st) = policies_keyed st"
  by (simp_all add: release_auto_send_def find_update_policy option.map_ident policies_keyed_def keyed_update_policy)

text \<open>Only the credit after a person's send touches the grants of a queue.\<close>

lemma queue_ops_keep_policies [simp]:
  "qs_policies (snd (finalize_delivery did mid x now st)) = qs_policies st"
  "qs_policies (bind_run mid run st) = qs_policies st"
  by (simp_all add: finalize_delivery_def Let_def bind_run_def update_attempt_def)

lemma claim_keeps_policies:
  "claim_for_delivery mid n key ini did now st = Inr (a, st') \<Longrightarrow> qs_policies st' = qs_policies st"
  by (auto simp: claim_for_delivery_def Let_def split: option.splits if_splits)

lemma finalize_step_policies [simp]:
  "qs_policies (qw_store (snd (finalize_step x answer e k w))) = qs_policies (qw_store w)"
  by (simp add: finalize_step_def case_prod_beta)

lemma send_step_policies:
  "qs_policies (qw_store (snd (send_step cfg e k w))) = qs_policies (qw_store w) \<or>
   (\<exists>t who now. qw_store (snd (send_step cfg e k w)) = snd (credit_auto_attention t who now (qw_store w)))"
proof (cases "sk_phase k")
  case Send_Claim
  then show ?thesis
    by (auto simp: send_step_def claim_step_def Let_def split: sum.splits claim_answer.splits dest: claim_keeps_policies)
next
  case (Send_Credit a)
  then show ?thesis by (auto simp: send_step_def credit_step_def case_prod_beta Let_def)
next
  case (Send_Announce s a)
  then show ?thesis by (auto simp: send_step_def announce_step_def Let_def split: send_answer.splits)
next
  case (Send_Refuse r)
  then show ?thesis by (simp add: send_step_def)
next
  case (Send_Fail err)
  then show ?thesis by (simp add: send_step_def)
next
  case (Send_Close submitted)
  then show ?thesis by (simp add: send_step_def)
qed (auto simp: step_defs split: if_splits option.splits nat.splits prod.splits sum.splits write_answer.splits send_phase.splits)

lemma credit_row:
  assumes "find_policy sid st = Some p"
  shows "find_policy sid (snd (credit_auto_attention sid who now st)) =
      Some (if \<not> ap_enabled p \<and> is_send_cap_reason (ap_disabled_reason p)
        then p\<lparr>ap_sends_used := 0, ap_enabled := True, ap_disabled_reason := None, ap_enabled_at := Some now,
            ap_updated_at := now, ap_updated_by := Some who\<rparr>
        else p\<lparr>ap_sends_used := 0, ap_updated_at := now\<rparr>)"
    and "fst (credit_auto_attention sid who now st) \<longleftrightarrow>
      \<not> ap_enabled p \<and> is_send_cap_reason (ap_disabled_reason p)"
  by (simp_all add: credit_auto_attention_def assms Let_def find_update_policy)

lemma credit_other:
  "k \<noteq> sid \<Longrightarrow> find_policy k (snd (credit_auto_attention sid who now st)) = find_policy k st"
  by (simp add: credit_auto_attention_def Let_def find_update_policy option.map_ident split: option.split)

lemma keyed_credit: "policies_keyed (snd (credit_auto_attention sid who now st)) = policies_keyed st"
  by (simp add: credit_auto_attention_def Let_def policies_keyed_def keyed_update_policy split: option.split)

lemma expire_keeps_policies: "qs_policies (snd (snd (expire_items now rs st))) = qs_policies st"
proof (induction rs arbitrary: st)
  case Nil
  then show ?case by simp
next
  case (Cons r rs)
  show ?case
  proof (cases "cancel_message (pq_id r) ''expired'' now st")
    case (Inl e)
    then show ?thesis by simp
  next
    case (Inr x)
    then obtain row st' where x: "cancel_message (pq_id r) ''expired'' now st = Inr (row, st')" by (cases x) auto
    then have "qs_policies st' = qs_policies st"
      by (auto simp: cancel_message_def on_message_def immutable_state_def Let_def split: option.splits if_splits)
    with x Cons [of st'] show ?thesis by (simp add: case_prod_beta)
  qed
qed

lemma sweep_policies [simp]: "qs_policies (auto_store (sweep_expired now w)) = qs_policies (auto_store w)"
  by (simp add: sweep_expired_def case_prod_beta expire_due_def expire_keeps_policies)

text \<open>The rows a pass reads are the rows of the live sessions.\<close>

lemma auto_policies_set:
  "ids \<noteq> [] \<Longrightarrow> set (auto_policies (Some ids) st) =
     {p \<in> set (qs_policies st). ap_session p \<noteq> auto_policy_global \<and> ap_session p \<in> set ids}"
  by (cases ids) (auto simp: auto_policies_def)

lemma auto_policies_find:
  assumes "policies_keyed st" "sid \<in> set ids" "sid \<noteq> auto_policy_global"
  shows "find (\<lambda>p. ap_session p = sid) (auto_policies (Some ids) st) = find_policy sid st"
proof -
  have ids: "ids \<noteq> []" using assms(2) by auto
  show ?thesis
  proof (cases "find_policy sid st")
    case None
    then have "\<forall>p \<in> set (auto_policies (Some ids) st). ap_session p \<noteq> sid"
      by (auto simp: auto_policies_set [OF ids] find_policy_def find_None_iff)
    then have "find (\<lambda>p. ap_session p = sid) (auto_policies (Some ids) st) = None" by (auto simp: find_None_iff)
    with None show ?thesis by simp
  next
    case (Some p)
    then have p: "p \<in> set (auto_policies (Some ids) st)" "ap_session p = sid"
      using assms(2,3) find_policy_mem [OF Some] find_policy_session [OF Some] by (simp_all add: auto_policies_set [OF ids])
    have "find (\<lambda>p. ap_session p = sid) (auto_policies (Some ids) st) \<noteq> None"
      using p by (auto simp: find_None_iff)
    then obtain r where r: "find (\<lambda>p. ap_session p = sid) (auto_policies (Some ids) st) = Some r" by blast
    then have "r \<in> set (qs_policies st)" "ap_session r = sid"
      by (auto simp: find_Some_iff) (metis (no_types, lifting) auto_policies_set [OF ids] mem_Collect_eq nth_mem)
    with keyed_find [OF assms(1)] Some r show ?thesis by fastforce
  qed
qed

end
