(* ===== verification/Auto_Grants.thy ===== *)
theory Auto_Grants
  imports Auto_Rows
begin

text \<open>
  The life of the grants of \<^verbatim>\<open>auto_delivery.py\<close>: what the conversation default grants and leaves alone,
  that a failed delivery switches its session off until a person acts, and that a pass working from rows
  it read earlier mistakes an opt-out for a spent budget.
\<close>

subsection \<open>The conversation default\<close>

definition default_row :: "auto_config \<Rightarrow> auto_session \<Rightarrow> bool \<Rightarrow> seconds \<Rightarrow> auto_policy \<Rightarrow> auto_policy" where
  "default_row cfg s same now p =
     written_row (grant_columns (text_or_none (session_run s)) (at_least_one None (ac_ttl_minutes cfg))
         (at_least_one None (ac_max_consecutive cfg)) default_policy_by now @
       accept_columns (fresh_run_default same) (fresh_run_default same)) now p"

lemma enable_row:
  assumes "enable_session cfg sessions sid None None default_policy_by (fresh_run_default same) (fresh_run_default same)
      now w = Inr (p, w')" "map_of sessions sid = Some s"
  shows "find_policy k (auto_store w') =
      (if k = sid then Some (default_row cfg s same now (row_or_new sid now (auto_store w))) else find_policy k (auto_store w))"
    and "policies_keyed (auto_store w) \<Longrightarrow> policies_keyed (auto_store w')"
  using assms by (auto simp: enable_session_def case_prod_beta put_policy_row default_row_def split: if_splits)

lemma default_action_deliverable:
  assumes "default_action cfg s now window row = Some same" "map_of sessions sid = Some s"
  shows "\<exists>p w'. enable_session cfg sessions sid ttl cap who a b now w = Inr (p, w')"
  using assms by (auto simp: default_action_def Let_def enable_session_def case_prod_beta split: if_splits)

definition default_write ::
  "auto_config \<Rightarrow> (string \<times> exchange_window) list \<Rightarrow> auto_policy list \<Rightarrow> seconds \<Rightarrow> auto_session \<Rightarrow> string
    \<Rightarrow> queue_store \<Rightarrow> auto_policy option" where
  "default_write cfg windows rows now s k st =
     (case default_action cfg s now (map_of windows k) (find (\<lambda>p. ap_session p = k) rows) of
        None \<Rightarrow> find_policy k st
      | Some same \<Rightarrow> Some (default_row cfg s same now (row_or_new k now st)))"

text \<open>
  Where the loop ends: behind the last entry, or behind the first one that is due and finds the table
  resized once it is written.
\<close>

definition loop_ends ::
  "(string \<Rightarrow> auto_session \<Rightarrow> bool) \<Rightarrow> (string \<Rightarrow> bool) \<Rightarrow> auto_sessions \<Rightarrow> auto_sessions \<Rightarrow> bool \<Rightarrow> bool" where
  "loop_ends due resized as bs stopped \<longleftrightarrow>
     (if stopped then as \<noteq> [] \<and> due (fst (last as)) (snd (last as)) \<and> resized (fst (last as)) else bs = []) \<and>
     (\<forall>(k, s) \<in> set (if stopped then butlast as else as). \<not> (due k s \<and> resized k))"

lemma loop_ends_Nil: "loop_ends due resized [] [] False"
  by (simp add: loop_ends_def)

lemma loop_ends_stop: "due k s \<Longrightarrow> resized k \<Longrightarrow> loop_ends due resized [(k, s)] bs True"
  by (simp add: loop_ends_def)

lemma loop_ends_Cons:
  "loop_ends due resized as bs stopped \<Longrightarrow> \<not> (due k s \<and> resized k) \<Longrightarrow> loop_ends due resized ((k, s) # as) bs stopped"
  by (cases as) (auto simp: loop_ends_def)

definition wants_default ::
  "auto_config \<Rightarrow> (string \<times> exchange_window) list \<Rightarrow> auto_policy list \<Rightarrow> seconds \<Rightarrow> string \<Rightarrow> auto_session \<Rightarrow> bool" where
  "wants_default cfg windows rows now k s \<longleftrightarrow>
     default_action cfg s now (map_of windows k) (find (\<lambda>p. ap_session p = k) rows) \<noteq> None"

text \<open>The loop gives every session it reaches its default and touches no other row.\<close>

definition loop_result ::
  "auto_config \<Rightarrow> (string \<times> exchange_window) list \<Rightarrow> auto_policy list \<Rightarrow> seconds \<Rightarrow> (string \<Rightarrow> bool)
    \<Rightarrow> auto_sessions \<Rightarrow> auto_sessions \<Rightarrow> bool \<Rightarrow> auto_world \<Rightarrow> grants_error + bool \<Rightarrow> auto_world \<Rightarrow> bool" where
  "loop_result cfg windows rows now resized as bs b w r w' \<longleftrightarrow>
     (policies_keyed (auto_store w) \<longrightarrow> policies_keyed (auto_store w')) \<and>
     (\<forall>k. find_policy k (auto_store w') = (case map_of as k of
        None \<Rightarrow> find_policy k (auto_store w)
      | Some s \<Rightarrow> default_write cfg windows rows now s k (auto_store w))) \<and>
     (\<exists>stopped. loop_ends (wants_default cfg windows rows now) resized as bs stopped \<and>
        (if stopped then r = Inl Sessions_Resized
         else \<exists>b'. r = Inr b' \<and> (b \<longrightarrow> b') \<and> (b' \<or> w' = w)))"

lemma loop_result_skip:
  assumes "loop_result cfg windows rows now resized as bs b w r w'" "\<not> wants_default cfg windows rows now sid s"
    and "map_of as sid = None"
  shows "loop_result cfg windows rows now resized ((sid, s) # as) bs b w r w'"
proof -
  have dw: "default_write cfg windows rows now s sid st = find_policy sid st" for st
    using assms(2) by (simp add: default_write_def wants_default_def)
  from assms(1) obtain stopped where "loop_ends (wants_default cfg windows rows now) resized as bs stopped"
    "if stopped then r = Inl Sessions_Resized else \<exists>b'. r = Inr b' \<and> (b \<longrightarrow> b') \<and> (b' \<or> w' = w)"
    unfolding loop_result_def by blast
  moreover from this(1) assms(2) have
    "loop_ends (wants_default cfg windows rows now) resized ((sid, s) # as) bs stopped" by (simp add: loop_ends_Cons)
  moreover have "find_policy k (auto_store w') = (case map_of ((sid, s) # as) k of
        None \<Rightarrow> find_policy k (auto_store w) | Some s \<Rightarrow> default_write cfg windows rows now s k (auto_store w))" for k
    using assms(1,3) dw by (cases "k = sid") (simp_all add: loop_result_def)
  ultimately show ?thesis using assms(1) unfolding loop_result_def by blast
qed

lemma loop_result_write:
  assumes r: "loop_result cfg windows rows now resized as bs True w1 r w'" and sid: "map_of as sid = None"
    and f: "\<And>k. find_policy k (auto_store w1) =
        (if k = sid then default_write cfg windows rows now s sid (auto_store w) else find_policy k (auto_store w))"
    and k: "policies_keyed (auto_store w) \<Longrightarrow> policies_keyed (auto_store w1)" and "\<not> resized sid"
  shows "loop_result cfg windows rows now resized ((sid, s) # as) bs b w r w'"
proof -
  have dw: "default_write cfg windows rows now t k (auto_store w1) = default_write cfg windows rows now t k (auto_store w)"
    if "k \<noteq> sid" for k t
    using that f [of k] by (simp add: default_write_def row_or_new_def split: option.split)
  from r obtain stopped where "loop_ends (wants_default cfg windows rows now) resized as bs stopped"
    "if stopped then r = Inl Sessions_Resized else \<exists>b'. r = Inr b' \<and> (True \<longrightarrow> b') \<and> (b' \<or> w' = w1)"
    unfolding loop_result_def by blast
  moreover from this(1) \<open>\<not> resized sid\<close> have
    "loop_ends (wants_default cfg windows rows now) resized ((sid, s) # as) bs stopped" by (simp add: loop_ends_Cons)
  moreover have "find_policy j (auto_store w') = (case map_of ((sid, s) # as) j of
        None \<Rightarrow> find_policy j (auto_store w) | Some s \<Rightarrow> default_write cfg windows rows now s j (auto_store w))" for j
  proof -
    have "find_policy j (auto_store w') = (case map_of as j of None \<Rightarrow> find_policy j (auto_store w1)
        | Some s \<Rightarrow> default_write cfg windows rows now s j (auto_store w1))" using r by (simp add: loop_result_def)
    then show ?thesis using f [of j] dw [of j] sid by (cases "j = sid") (simp_all split: option.split)
  qed
  moreover have "policies_keyed (auto_store w) \<longrightarrow> policies_keyed (auto_store w')"
    using r k by (simp add: loop_result_def)
  ultimately show ?thesis unfolding loop_result_def by (intro conjI allI exI [of _ stopped]) auto
qed

lemma grant_defaults_rows:
  assumes "distinct (map fst rest)" "\<forall>(k, s) \<in> set rest. map_of sessions k = Some s"
  shows "\<exists>r w' as bs. grant_defaults cfg sessions windows rows now resized rest b w = (r, w') \<and> rest = as @ bs \<and>
    loop_result cfg windows rows now resized as bs b w r w'"
  using assms
proof (induction rest arbitrary: b w)
  case Nil
  have "loop_result cfg windows rows now resized [] [] b w (Inr b) w"
    using loop_ends_Nil by (auto simp: loop_result_def intro!: exI [of _ False])
  then show ?case by simp
next
  case (Cons x rest)
  obtain sid s where x: "x = (sid, s)" by force
  have sid: "map_of sessions sid = Some s" using Cons.prems(2) x by simp
  have rest: "distinct (map fst rest)" "\<forall>(k, s) \<in> set rest. map_of sessions k = Some s" "sid \<notin> fst ` set rest"
    using Cons.prems x by auto
  have out: "map_of as sid = None" if "rest = as @ bs" for as bs
    using that rest(3) by (auto simp: map_of_eq_None_iff)
  show ?case
  proof (cases "default_action cfg s now (map_of windows sid) (find (\<lambda>p. ap_session p = sid) rows)")
    case None
    from Cons.IH [OF rest(1,2), of b w] obtain r w' as bs where
      g: "grant_defaults cfg sessions windows rows now resized rest b w = (r, w')" "rest = as @ bs"
        "loop_result cfg windows rows now resized as bs b w r w'" by blast
    from loop_result_skip [OF g(3) _ out [OF g(2)], of s] None
    have "loop_result cfg windows rows now resized ((sid, s) # as) bs b w r w'" by (simp add: wants_default_def)
    with g None x show ?thesis by (intro exI [of _ r] exI [of _ w'] exI [of _ "(sid, s) # as"] exI [of _ bs]) simp
  next
    case (Some same)
    obtain p w1 where e: "enable_session cfg sessions sid None None default_policy_by (fresh_run_default same)
        (fresh_run_default same) now w = Inr (p, w1)"
      using default_action_deliverable [OF Some sid] by blast
    have f: "find_policy k (auto_store w1) =
        (if k = sid then default_write cfg windows rows now s sid (auto_store w) else find_policy k (auto_store w))" for k
      using enable_row(1) [OF e sid] by (simp add: default_write_def Some)
    show ?thesis
    proof (cases "resized sid")
      case True
      have "loop_ends (wants_default cfg windows rows now) resized [(sid, s)] rest True"
        by (rule loop_ends_stop) (simp_all add: wants_default_def Some True)
      then have "loop_result cfg windows rows now resized [(sid, s)] rest b w (Inl Sessions_Resized) w1"
        using f enable_row(2) [OF e sid] by (auto simp: loop_result_def intro!: exI [of _ True])
      moreover have "grant_defaults cfg sessions windows rows now resized (x # rest) b w = (Inl Sessions_Resized, w1)"
        by (simp add: x Some e True)
      ultimately show ?thesis
        by (intro exI [of _ "Inl Sessions_Resized"] exI [of _ w1] exI [of _ "[(sid, s)]"] exI [of _ rest]) (simp add: x)
    next
      case False
      from Cons.IH [OF rest(1,2), of True w1] obtain r w' as bs where
        g: "grant_defaults cfg sessions windows rows now resized rest True w1 = (r, w')" "rest = as @ bs"
          "loop_result cfg windows rows now resized as bs True w1 r w'" by blast
      from loop_result_write [OF g(3) out [OF g(2)] f enable_row(2) [OF e sid] False]
      have "loop_result cfg windows rows now resized ((sid, s) # as) bs b w r w'" .
      with g Some e False x show ?thesis
        by (intro exI [of _ r] exI [of _ w'] exI [of _ "(sid, s) # as"] exI [of _ bs]) simp
    qed
  qed
qed

lemma distinct_map_of: "distinct (map fst xs) \<Longrightarrow> \<forall>(k, s) \<in> set xs. map_of xs k = Some s"
  by auto

definition grant_windows ::
  "auto_config \<Rightarrow> auto_sessions \<Rightarrow> solicited_source option \<Rightarrow> seconds \<Rightarrow> queue_store \<Rightarrow> (string \<times> exchange_window) list" where
  "grant_windows cfg sessions source now st =
     (let ids = lapsed_ids (auto_policies (Some (map fst sessions)) st)
      in if ids = [] then [] else reply_windows cfg source ids now st)"

lemma conversation_grants_rows:
  assumes "policies_keyed (auto_store w)" "distinct (map fst sessions)"
  obtains r w' as bs stopped where "conversation_grants cfg sessions resized source now w = (r, w')"
    "policies_keyed (auto_store w')" "sessions = as @ bs"
    "\<And>k. find_policy k (auto_store w') = (case map_of as k of
        None \<Rightarrow> find_policy k (auto_store w)
      | Some s \<Rightarrow> default_write cfg (grant_windows cfg sessions source now (auto_store w))
          (auto_policies (Some (map fst sessions)) (auto_store w)) now s k (auto_store w))"
    "loop_ends (wants_default cfg (grant_windows cfg sessions source now (auto_store w))
          (auto_policies (Some (map fst sessions)) (auto_store w)) now) resized as bs stopped"
    "r = (if stopped then Inl Sessions_Resized else Inr (auto_policies (Some (map fst sessions)) (auto_store w')))"
proof -
  let ?rows = "auto_policies (Some (map fst sessions)) (auto_store w)"
  let ?ws = "grant_windows cfg sessions source now (auto_store w)"
  from grant_defaults_rows [OF assms(2) distinct_map_of [OF assms(2)], of cfg ?ws ?rows now resized False w]
  obtain d w' as bs where g: "grant_defaults cfg sessions ?ws ?rows now resized sessions False w = (d, w')"
    "sessions = as @ bs" and l: "loop_result cfg ?ws ?rows now resized as bs False w d w'" by blast
  from l obtain stopped where e: "loop_ends (wants_default cfg ?ws ?rows now) resized as bs stopped"
    and d: "if stopped then d = Inl Sessions_Resized else \<exists>b'. d = Inr b' \<and> (False \<longrightarrow> b') \<and> (b' \<or> w' = w)"
    unfolding loop_result_def by blast
  have "conversation_grants cfg sessions resized source now w =
      (if stopped then Inl Sessions_Resized else Inr (auto_policies (Some (map fst sessions)) (auto_store w')), w')"
    using g(1) d by (auto simp: conversation_grants_def grant_windows_def Let_def split: if_splits)
  from that [OF this _ g(2) _ e refl] l assms(1) show thesis unfolding loop_result_def by blast
qed

text \<open>When the default is due, in the words of the policy.\<close>

definition default_due :: "auto_config \<Rightarrow> auto_session \<Rightarrow> seconds \<Rightarrow> bool \<Rightarrow> auto_policy option \<Rightarrow> bool" where
  "default_due cfg s now owed row \<longleftrightarrow>
     delivers_prompts_through_pty (qc_harnesses (ac_queue cfg)) (tg_backend (as_target s)) \<and>
     \<not> has_ended (as_target s) \<and> text_given (session_run s) \<and>
     (case row of None \<Rightarrow> True | Some p \<Rightarrow>
        (if ap_run p = session_run s
         then \<not> ap_enabled p \<and> is_lapse_reason (ap_disabled_reason p) \<and>
           (owed \<or> now < max (as_last_activity s) 0 + of_int (max 1 (ac_ttl_minutes cfg) * 60))
         else ap_disabled_reason p \<noteq> Some failed_delivery_reason \<and>
           (text_given (ap_run p) \<or> \<not> text_given (ap_disabled_reason p))))"

lemma run_text: "text_given r \<Longrightarrow> (ifnull p = ifnull r) = (p = r)"
  by (cases p; cases r) (auto simp: text_given_def ifnull_def)

lemma default_action_due:
  "(default_action cfg s now window row \<noteq> None) = default_due cfg s now (window \<noteq> None) row"
  "default_action cfg s now window row = Some same \<Longrightarrow>
     same = (\<exists>p. row = Some p \<and> ap_run p = session_run s)"
proof -
  have t: "(ifnull (session_run s) = '''') = (\<not> text_given (session_run s))"
    by (cases "session_run s") (auto simp: text_given_def ifnull_def)
  show "(default_action cfg s now window row \<noteq> None) = default_due cfg s now (window \<noteq> None) row"
  proof (cases "text_given (session_run s)")
    case True
    have rs: "restorable cfg s now window p \<longleftrightarrow> \<not> ap_enabled p \<and> is_lapse_reason (ap_disabled_reason p) \<and>
        (window \<noteq> None \<or> now < max (as_last_activity s) 0 + of_int (max 1 (ac_ttl_minutes cfg) * 60))" for p
      by (simp add: restorable_def idle_deadline_def moment_or_zero_def)
    have bools: "(\<exists>y. y) \<longleftrightarrow> True" "Ex Not \<longleftrightarrow> True" by auto
    show ?thesis
    proof (cases row)
      case None
      with True show ?thesis by (auto simp: default_action_def default_due_def t)
    next
      case (Some p)
      with True show ?thesis
        by (cases "ap_run p = session_run s") (simp_all add: default_action_def default_due_def Let_def t run_text rs bools)
    qed
  qed (simp add: default_action_def default_due_def t)
  show "same = (\<exists>p. row = Some p \<and> ap_run p = session_run s)" if "default_action cfg s now window row = Some same"
    using that by (cases "text_given (session_run s)")
      (auto simp: default_action_def Let_def t run_text split: option.splits if_splits)
qed

definition default_granted ::
  "auto_config \<Rightarrow> auto_session \<Rightarrow> seconds \<Rightarrow> auto_policy option \<Rightarrow> auto_policy \<Rightarrow> bool" where
  "default_granted cfg s now old p \<longleftrightarrow>
     ap_enabled p \<and> ap_run p = session_run s \<and> ap_sends_used p = 0 \<and> ap_disabled_reason p = None \<and>
     ap_max_sends p = max 1 (ac_max_consecutive cfg) \<and>
     ap_expires_at p = Some (now + of_int (max 1 (ac_ttl_minutes cfg) * 60)) \<and>
     (ap_accept_messages p, ap_accept_interjections p) =
       (case old of
          Some q \<Rightarrow> if ap_run q = session_run s then (ap_accept_messages q, ap_accept_interjections q) else (True, True)
        | None \<Rightarrow> (True, True))"

lemma default_row_granted:
  assumes "text_given (session_run s)" "same = (\<exists>p. old = Some p \<and> ap_run p = session_run s)"
    and "p0 = (case old of None \<Rightarrow> new_policy sid now | Some p \<Rightarrow> p)"
  shows "default_granted cfg s now old (default_row cfg s same now p0)"
  using assms
  by (auto simp: default_granted_def default_row_def written_row_def grant_columns_def accept_columns_def
      fresh_run_default_def text_or_none_def at_least_one_def split: option.split)

lemma wants_default_due:
  assumes "policies_keyed (auto_store w)" "k \<in> set (map fst sessions)" "k \<noteq> auto_policy_global"
  shows "wants_default cfg ws (auto_policies (Some (map fst sessions)) (auto_store w)) now k s =
    default_due cfg s now (map_of ws k \<noteq> None) (find_policy k (auto_store w))"
  unfolding wants_default_def auto_policies_find [OF assms] by (rule default_action_due(1))


definition demo_auto_world :: auto_world where
  "demo_auto_world = fresh_controller demo_world"


subsection \<open>A failed delivery\<close>

definition switched_off :: "string \<Rightarrow> queue_store \<Rightarrow> bool" where
  "switched_off sid st \<longleftrightarrow> (\<exists>p. find_policy sid st = Some p \<and> \<not> ap_enabled p \<and>
     ap_disabled_reason p = Some failed_delivery_reason)"

definition row_kept :: "string \<Rightarrow> auto_world \<Rightarrow> auto_world \<Rightarrow> bool" where
  "row_kept sid w w' \<longleftrightarrow> find_policy sid (auto_store w') = find_policy sid (auto_store w) \<and>
     (policies_keyed (auto_store w) \<longrightarrow> policies_keyed (auto_store w'))"

lemma row_kept_refl [simp]: "row_kept sid w w" by (simp add: row_kept_def)

lemma row_kept_trans: "row_kept sid w w' \<Longrightarrow> row_kept sid w' w'' \<Longrightarrow> row_kept sid w w''"
  by (simp add: row_kept_def)

lemma row_kept_policies:
  "qs_policies (auto_store w') = qs_policies (auto_store w) \<Longrightarrow> row_kept sid w w'"
  by (simp add: row_kept_def find_policy_def policies_keyed_def)

lemma row_kept_disable: "k \<noteq> sid \<Longrightarrow> row_kept sid w (snd (disable_session sessions k reason who audit now w))"
  by (simp add: row_kept_def disable_row)

lemma row_kept_consider:
  assumes "consider_grant cfg e quiet p w = (b, w')" "ap_session p \<noteq> sid"
  shows "row_kept sid w w'"
proof -
  have r: "row_kept sid w (renew_grant (ap_session p) d (am_now e) p w)" for d
    using assms(2) by (simp add: row_kept_def renew_row)
  have l: "row_kept sid w (snd (lapse_session cfg (am_sessions e) (ap_session p) s p (am_now e) w))" for s
    using assms(2) by (simp add: row_kept_def lapse_row keyed_lapse)
  have d: "row_kept sid v (snd (disable_session (am_sessions e) (ap_session p) reason ''controller'' None (am_now e) v))"
    for v reason by (rule row_kept_disable [OF assms(2)])
  have b: "row_kept sid v (snd (backoff_gate (ap_session p) (am_clock e) v))" for v
    by (auto simp: backoff_gate_def row_kept_def split: option.split)
  have "row_kept sid w (snd (consider_grant cfg e quiet p w))"
    by (auto simp: consider_grant_def Let_def d l r intro: row_kept_trans [OF r d] row_kept_trans [OF r b] split: option.split)
  with assms(1) show ?thesis by simp
qed

lemma row_kept_slot: "take_slot e p w = (b, w') \<Longrightarrow> ap_session p \<noteq> sid \<Longrightarrow> row_kept sid w w'"
proof (unfold take_slot_def Let_def case_prod_beta)
  let ?w1 = "with_store (snd (consume_auto_send (ap_session p) (ap_max_sends p) (am_now e) (auto_store w))) w"
  assume eq: "(if fst (consume_auto_send (ap_session p) (ap_max_sends p) (am_now e) (auto_store w))
      then (True, drop_stability (ap_session p) ?w1)
      else (False, snd (disable_session (am_sessions e) (ap_session p) send_cap_reason ''controller'' None (am_now e) ?w1)))
      = (b, w')" and ne: "ap_session p \<noteq> sid"
  have "row_kept sid w ?w1" using ne by (simp add: row_kept_def consume_row keyed_consume option.map_ident)
  with eq row_kept_trans [OF this row_kept_disable [OF ne]] show "row_kept sid w w'"
    by (auto simp: row_kept_def split: if_splits)
qed

lemma row_kept_refused: "k \<noteq> sid \<Longrightarrow> row_kept sid w (send_refused cfg e k clock c w)"
  by (simp add: send_refused_def Let_def row_kept_def disable_row release_row)

lemma row_kept_counted: "row_kept sid w (count_auto name now w)"
  by (simp add: row_kept_def)

lemma row_kept_settle: "ap_session p \<noteq> sid \<Longrightarrow> row_kept sid w (settle_auto_send cfg e p m clock a w)"
  using row_kept_refused row_kept_counted
  by (auto simp: settle_auto_send_def Let_def row_kept_def split: send_answer.split queue_error.split)

text \<open>Rows a pass still has to consider, and the row it is at, leave the session alone.\<close>

definition rows_avoid :: "string \<Rightarrow> auto_policy list \<Rightarrow> bool" where
  "rows_avoid sid rows \<longleftrightarrow> (\<forall>p \<in> set rows. ap_session p = sid \<longrightarrow> \<not> ap_enabled p)"

fun pass_avoids :: "string \<Rightarrow> auto_phase \<Rightarrow> bool" where
  "pass_avoids sid Auto_Rest = True"
| "pass_avoids sid (Auto_Pass rows quiet) = rows_avoid sid rows"
| "pass_avoids sid (Auto_Head p now clock rest quiet) = (ap_session p \<noteq> sid \<and> rows_avoid sid rest)"
| "pass_avoids sid (Auto_Take p m clock rest quiet) = (ap_session p \<noteq> sid \<and> rows_avoid sid rest)"
| "pass_avoids sid (Auto_Sending p m clock k rest quiet) = (ap_session p \<noteq> sid \<and> rows_avoid sid rest)"
| "pass_avoids sid (Auto_Settle p m clock a rest quiet) = (ap_session p \<noteq> sid \<and> rows_avoid sid rest)"

definition off :: "string \<Rightarrow> auto_phase \<Rightarrow> auto_world \<Rightarrow> bool" where
  "off sid ph w \<longleftrightarrow> switched_off sid (auto_store w) \<and> policies_keyed (auto_store w) \<and> pass_avoids sid ph"

lemma off_kept: "off sid ph w \<Longrightarrow> row_kept sid w w' \<Longrightarrow> pass_avoids sid ph' \<Longrightarrow> off sid ph' w'"
  by (simp add: off_def row_kept_def switched_off_def)

lemma switched_off_credit:
  assumes "switched_off sid st"
  shows "switched_off sid (snd (credit_auto_attention k who now st))"
proof (cases "k = sid")
  case True
  with assms show ?thesis
    by (auto simp: switched_off_def credit_row is_send_cap_reason_def ifnull_def legacy_cap_race_reason_def
        legacy_cap_pattern_def starts_with_def failed_delivery_reason_def send_cap_reason_def)
next
  case False
  with assms show ?thesis by (simp add: switched_off_def credit_other)
qed

lemma off_send:
  assumes "off sid ph w" "pass_avoids sid ph'"
  shows "off sid ph' (w\<lparr>aw_queue := snd (send_step cfg e k (aw_queue w))\<rparr>)"
  using send_step_policies [of cfg e k "aw_queue w"]
proof
  assume "qs_policies (qw_store (snd (send_step cfg e k (aw_queue w)))) = qs_policies (auto_store w)"
  then show ?thesis by (intro off_kept [OF assms(1) row_kept_policies assms(2)]) simp
next
  assume "\<exists>t who now. qw_store (snd (send_step cfg e k (aw_queue w))) =
      snd (credit_auto_attention t who now (auto_store w))"
  then show ?thesis using assms by (auto simp: off_def switched_off_credit keyed_credit)
qed

lemma not_due_when_off:
  "switched_off sid st \<Longrightarrow> default_action cfg s now window (find_policy sid st) = None"
proof -
  assume "switched_off sid st"
  then have "\<not> default_due cfg s now (window \<noteq> None) (find_policy sid st)"
    by (auto simp: switched_off_def default_due_def is_lapse_reason_def ifnull_def)
  then show ?thesis using default_action_due(1) by blast
qed

lemma grants_leave_off:
  assumes "switched_off sid (auto_store w)" "policies_keyed (auto_store w)" "sid \<noteq> auto_policy_global"
    and "distinct (map fst sessions)" "conversation_grants cfg sessions resized source now w = (r, w')"
  shows "switched_off sid (auto_store w') \<and> policies_keyed (auto_store w') \<and> (\<forall>rows. r = Inr rows \<longrightarrow> rows_avoid sid rows)"
proof -
  let ?live = "map fst sessions"
  obtain as bs stopped where c: "policies_keyed (auto_store w')" "sessions = as @ bs"
    and f: "\<And>k. find_policy k (auto_store w') = (case map_of as k of
        None \<Rightarrow> find_policy k (auto_store w)
      | Some s \<Rightarrow> default_write cfg (grant_windows cfg sessions source now (auto_store w))
          (auto_policies (Some ?live) (auto_store w)) now s k (auto_store w))"
    and r: "r = (if stopped then Inl Sessions_Resized else Inr (auto_policies (Some ?live) (auto_store w')))"
    using conversation_grants_rows [OF assms(2,4), of cfg resized source now] assms(5) by (metis prod.inject)
  have "find_policy sid (auto_store w') = find_policy sid (auto_store w)"
  proof (cases "map_of as sid")
    case None
    with f [of sid] show ?thesis by simp
  next
    case (Some s)
    then have "sid \<in> set ?live" using map_of_SomeD c(2) by force
    with f [of sid] Some show ?thesis
      by (simp add: default_write_def auto_policies_find [OF assms(2) _ assms(3)] not_due_when_off [OF assms(1)])
  qed
  then have off: "switched_off sid (auto_store w')" using assms(1) by (simp add: switched_off_def)
  have "rows_avoid sid (auto_policies (Some ?live) (auto_store w'))"
  proof (cases "?live = []")
    case True
    then show ?thesis by (simp add: auto_policies_def rows_avoid_def)
  next
    case False
    with off keyed_find [OF c(1)] show ?thesis
      by (auto simp: rows_avoid_def auto_policies_set [OF False] switched_off_def)
  qed
  with off c(1) r show ?thesis by simp
qed

lemma off_begin:
  assumes "off sid ph w" "sid \<noteq> auto_policy_global" "distinct (map fst (am_sessions e))"
    and "begin_tick cfg e w = (ph', w')"
  shows "off sid ph' w'"
proof -
  define w2 where "w2 = (let w1 = w\<lparr>aw_ticks := aw_ticks w + 1, aw_delivered := []\<rparr>
     in if aw_ticks w1 mod expiry_sweep_ticks = 1 then sweep_expired (am_now e) w1 else w1)"
  have "row_kept sid w w2" by (auto simp: w2_def Let_def intro!: row_kept_policies)
  with assms(1) have o: "switched_off sid (auto_store w2)" "policies_keyed (auto_store w2)"
    by (simp_all add: off_def row_kept_def switched_off_def)
  obtain r w3 where c: "conversation_grants cfg (am_sessions e) (am_resized e) (am_source e) (am_now e) w2 = (r, w3)"
    by force
  have "(ph', w') \<in> {(Auto_Rest, w3), (Auto_Rest, w3\<lparr>aw_stability := []\<rparr>)} \<or>
    (\<exists>rows. r = Inr rows \<and>
      (ph', w') = (Auto_Pass rows (in_quiet_window (ac_quiet_start cfg) (ac_quiet_end cfg) (am_local e)), w3))"
    using assms(4) c by (auto simp: begin_tick_def w2_def Let_def split: sum.splits if_splits)
  with grants_leave_off [OF o assms(2,3) c] show ?thesis by (auto simp: off_def)
qed

lemma off_step:
  assumes "off sid ph w" "sid \<noteq> auto_policy_global" "distinct (map fst (am_sessions e))"
    and s: "auto_step cfg e ph w = (ph', w')"
  shows "off sid ph' w'"
proof (cases ph)
  case Auto_Rest
  with assms off_begin show ?thesis by simp
next
  case (Auto_Pass rows quiet)
  show ?thesis
  proof (cases rows)
    case Nil
    with assms Auto_Pass show ?thesis by (auto simp: off_def)
  next
    case (Cons p rest)
    have a: "rows_avoid sid rest" using assms(1) Auto_Pass Cons by (simp add: off_def rows_avoid_def)
    show ?thesis
    proof (cases "ap_enabled p")
      case False
      with assms(1) s a Auto_Pass Cons show ?thesis by (auto simp: off_def)
    next
      case True
      then have ne: "ap_session p \<noteq> sid" using assms(1) Auto_Pass Cons by (auto simp: off_def rows_avoid_def)
      obtain b w1 where c: "consider_grant cfg e quiet p w = (b, w1)" by force
      then have "w' = w1" "pass_avoids sid ph'" using s a ne True Auto_Pass Cons by (auto split: bool.splits)
      with off_kept [OF assms(1) row_kept_consider [OF c ne]] show ?thesis by blast
    qed
  qed
next
  case (Auto_Head p now clock rest quiet)
  then have a: "ap_session p \<noteq> sid" "rows_avoid sid rest" using assms(1) by (simp_all add: off_def)
  obtain r w1 where c: "consider_head cfg e p now clock w = (r, w1)" by force
  then have "auto_store w1 = auto_store w"
    by (auto simp: consider_head_def head_ready_def Let_def split: prod.splits option.splits if_splits)
  then have "row_kept sid w w1" by (simp add: row_kept_policies)
  moreover have "w' = w1" "pass_avoids sid ph'" using s a Auto_Head c by (auto split: option.splits)
  ultimately show ?thesis using off_kept [OF assms(1)] by blast
next
  case (Auto_Take p m clock rest quiet)
  then have a: "ap_session p \<noteq> sid" "rows_avoid sid rest" using assms(1) by (simp_all add: off_def)
  obtain b w1 where c: "take_slot e p w = (b, w1)" by force
  then have "w' = w1" "pass_avoids sid ph'" using s a Auto_Take by (auto split: bool.splits)
  with off_kept [OF assms(1) row_kept_slot [OF c a(1)]] show ?thesis by blast
next
  case (Auto_Sending p m clock k rest quiet)
  then have "pass_avoids sid ph'" using assms(1) s
    by (auto simp: off_def sending_step_def split: prod.splits send_phase.splits)
  from off_send [OF assms(1) this, of "ac_queue cfg" "am_send e" k] Auto_Sending s show ?thesis
    by (auto simp: sending_step_def split: prod.splits)
next
  case (Auto_Settle p m clock a rest quiet)
  then have "ap_session p \<noteq> sid" "pass_avoids sid ph'" using assms(1) s by (auto simp: off_def)
  with off_kept [OF assms(1) row_kept_settle] Auto_Settle s show ?thesis by auto
qed


text \<open>
  What may happen while no person touches the session's grant: the controller's own stretches, steps of
  anyone's sends, the credit for a reply, every other change of the queue that leaves the grants alone,
  grants of other sessions and the pause, and the two acceptance switches of the session itself.
\<close>

inductive unattended ::
  "auto_config \<Rightarrow> string \<Rightarrow> auto_phase \<Rightarrow> auto_world \<Rightarrow> auto_phase \<Rightarrow> auto_world \<Rightarrow> bool" for cfg sid where
  un_here: "unattended cfg sid ph w ph w"
| un_pass: "unattended cfg sid ph w ph1 w1 \<Longrightarrow> distinct (map fst (am_sessions e)) \<Longrightarrow>
    auto_step cfg e ph1 w1 = (ph2, w2) \<Longrightarrow> unattended cfg sid ph w ph2 w2"
| un_send: "unattended cfg sid ph w ph1 w1 \<Longrightarrow>
    unattended cfg sid ph w ph1 (w1\<lparr>aw_queue := snd (send_step (ac_queue cfg) v k (aw_queue w1))\<rparr>)"
| un_credit: "unattended cfg sid ph w ph1 w1 \<Longrightarrow>
    unattended cfg sid ph w ph1 (with_store (snd (credit_auto_attention t who now (auto_store w1))) w1)"
| un_queue: "unattended cfg sid ph w ph1 w1 \<Longrightarrow> qs_policies (auto_store w2) = qs_policies (auto_store w1) \<Longrightarrow>
    unattended cfg sid ph w ph1 w2"
| un_other: "unattended cfg sid ph w ph1 w1 \<Longrightarrow> t \<noteq> sid \<Longrightarrow> list_all known_field cols \<Longrightarrow>
    unattended cfg sid ph w ph1 (snd (put_policy t cols now w1))"
| un_accept: "unattended cfg sid ph w ph1 w1 \<Longrightarrow>
    put_acceptance sessions t c who now w1 = Inr (p, w2) \<Longrightarrow>
    c \<in> range Set_Accept_Messages \<union> range Set_Accept_Interjections \<Longrightarrow> unattended cfg sid ph w ph1 w2"

lemma off_accept:
  assumes "off sid ph w" "put_acceptance sessions t c who now w = Inr (p, w')"
    and "c \<in> range Set_Accept_Messages \<union> range Set_Accept_Interjections"
  shows "off sid ph w'"
proof -
  have k: "list_all known_field [c, Set_Updated_By (Some who)]" using assms(3) by auto
  have w': "w' = snd (put_policy t [c, Set_Updated_By (Some who)] now w)"
    using assms(2) by (auto simp: put_acceptance_def split: option.splits)
  have f: "ap_enabled (written_row [c, Set_Updated_By (Some who)] now q) = ap_enabled q"
    "ap_disabled_reason (written_row [c, Set_Updated_By (Some who)] now q) = ap_disabled_reason q" for q
    using assms(3) by (auto simp: written_row_def)
  show ?thesis
    using assms(1) by (auto simp: off_def w' switched_off_def row_or_new_def put_policy_row [OF k] f)
qed

lemma off_unattended:
  "unattended cfg sid ph w ph' w' \<Longrightarrow> off sid ph w \<Longrightarrow> sid \<noteq> auto_policy_global \<Longrightarrow> off sid ph' w'"
proof (induction rule: unattended.induct)
  case (un_here ph w)
  then show ?case by simp
next
  case (un_pass ph w ph1 w1 e ph2 w2)
  then show ?case using off_step by blast
next
  case (un_send ph w ph1 w1 v k)
  then show ?case using off_send [of sid ph1 w1 ph1] by (simp add: off_def)
next
  case (un_credit ph w ph1 w1 t who now)
  then show ?case by (simp add: off_def switched_off_credit keyed_credit)
next
  case (un_queue ph w ph1 w1 w2)
  then have "off sid ph1 w1" "pass_avoids sid ph1" by (simp_all add: off_def)
  then show ?case using off_kept row_kept_policies un_queue.hyps(2) by blast
next
  case (un_other ph w ph1 w1 t cols now)
  then have "off sid ph1 w1" "pass_avoids sid ph1" by (simp_all add: off_def)
  moreover have "row_kept sid w1 (snd (put_policy t cols now w1))"
    using un_other.hyps(2,3) by (simp add: row_kept_def put_policy_row)
  ultimately show ?case using off_kept by blast
next
  case (un_accept ph w ph1 w1 sessions t c who now p w2)
  then show ?case using off_accept by blast
qed

lemma settle_failed_off:
  assumes "policies_keyed (auto_store w)" "answer = Was_Failed err"
  shows "switched_off (ap_session p) (auto_store (settle_auto_send cfg e p m clock answer w))
    \<and> policies_keyed (auto_store (settle_auto_send cfg e p m clock answer w))"
  using assms by (simp add: settle_auto_send_def send_refused_def Let_def switched_off_def disable_row release_row)

text \<open>C9. Once an automatic delivery has failed in the middle, its session's grant is off for that reason, and
  it stays so, and no message is sent to it automatically, through every later pass, send, credit and
  replacement of its run, until a person touches the grant.\<close>

theorem failed_delivery_stays_off:
  assumes "auto_step cfg e (Auto_Settle p m clock (Was_Failed err) rest quiet) w = (ph1, w1)"
    and "policies_keyed (auto_store w)" "\<forall>q \<in> set rest. ap_session q \<noteq> ap_session p"
    and "ap_session p \<noteq> auto_policy_global" "unattended cfg (ap_session p) ph1 w1 ph2 w2"
  shows "switched_off (ap_session p) (auto_store w2) \<and>
    (\<forall>q m2 clock2 k rest2 quiet2. ph2 = Auto_Sending q m2 clock2 k rest2 quiet2 \<longrightarrow> ap_session q \<noteq> ap_session p)"
proof -
  have "off (ap_session p) ph1 w1"
    using assms(1,3) settle_failed_off [OF assms(2) refl] by (auto simp: off_def rows_avoid_def)
  from off_unattended [OF assms(5) this assms(4)] show ?thesis by (auto simp: off_def)
qed

subsection \<open>Rows that are too old\<close>

text \<open>C26. A pass works from the rows it read when it began. A person who switches the session off meanwhile is
  not overridden, but the slot that is refused for it is recorded as a spent budget: the opt-out is gone
  from the row, and the next credit, a manual send or a reply, switches the grant on again.\<close>

theorem opt_out_is_taken_for_a_spent_budget:
  assumes "find_policy (ap_session p) (auto_store w) = Some r" "\<not> ap_enabled r" "policies_keyed (auto_store w)"
    and "auto_step cfg e (Auto_Take p m clock rest quiet) w = (ph, w')"
  shows "ph = Auto_Pass rest quiet
    \<and> (\<exists>r1. find_policy (ap_session p) (auto_store w') = Some r1 \<and> \<not> ap_enabled r1 \<and>
         ap_disabled_reason r1 = Some send_cap_reason)
    \<and> (\<exists>r2. find_policy (ap_session p) (snd (credit_auto_attention (ap_session p) who now (auto_store w'))) = Some r2
         \<and> ap_enabled r2)"
proof -
  let ?sid = "ap_session p"
  let ?w1 = "with_store (snd (consume_auto_send ?sid (ap_max_sends p) (am_now e) (auto_store w))) w"
  have "\<not> fst (consume_auto_send ?sid (ap_max_sends p) (am_now e) (auto_store w))"
    using assms(1,2) by (simp add: consume_taken [OF assms(3)] may_consume_def)
  then have t: "take_slot e p w = (False, snd (disable_session (am_sessions e) ?sid send_cap_reason ''controller'' None
      (am_now e) ?w1))" by (simp add: take_slot_def case_prod_beta Let_def)
  with assms(4) have ph: "ph = Auto_Pass rest quiet"
    and w': "w' = snd (disable_session (am_sessions e) ?sid send_cap_reason ''controller'' None (am_now e) ?w1)"
    by auto
  obtain r1 where r1: "find_policy ?sid (auto_store w') = Some r1" "\<not> ap_enabled r1" "ap_disabled_reason r1 = Some send_cap_reason"
    by (simp add: w' disable_row)
  have "is_send_cap_reason (Some send_cap_reason)"
    by (simp add: is_send_cap_reason_def ifnull_def send_cap_reason_def)
  with r1 ph show ?thesis by (simp add: credit_row(1) [OF r1(1)])
qed


subsection \<open>Witnesses\<close>

lemma run_auto_unattended:
  "run_auto cfg es xs ph w = (xs', ph', w') \<Longrightarrow> list_all (\<lambda>e. distinct (map fst (am_sessions e))) es \<Longrightarrow>
     unattended cfg sid ph0 w0 ph w \<Longrightarrow> unattended cfg sid ph0 w0 ph' w'"
proof (induction es arbitrary: xs ph w)
  case Nil
  then show ?case by simp
next
  case (Cons e es)
  obtain ph1 w1 where s: "auto_step cfg e ph w = (ph1, w1)" by force
  with Cons.prems(1) have r: "run_auto cfg es (xs @ looks_of cfg e ph w) ph1 w1 = (xs', ph', w')" by simp
  have "distinct (map fst (am_sessions e))" "list_all (\<lambda>e. distinct (map fst (am_sessions e))) es"
    using Cons.prems(2) by simp_all
  with Cons.IH [OF r] un_pass [OF Cons.prems(3) _ s] show ?case by blast
qed

definition demo_sending_world :: auto_world where
  "demo_sending_world = snd (snd (run_auto demo_auto_config demo_passes [] Auto_Rest (fresh_controller demo_world)))"

definition demo_settled_world :: auto_world where
  "demo_settled_world = settle_auto_send demo_auto_config (demo_auto_moment 12 25) (new_policy ''s'' 20) no_message 24
     (Was_Failed ''broken pipe'') demo_sending_world"

text \<open>After the failure the session comes back with another run.\<close>

definition demo_replaced :: "auto_moment list" where
  "demo_replaced = replicate 3 ((demo_auto_moment 12 40)\<lparr>am_sessions :=
     [(''s'', demo_auto_session\<lparr>as_target := (demo_target ''idle'' 3)
        \<lparr>tg_ready := demo_ready_session\<lparr>dr_run := Some ''r2''\<rparr>\<rparr>\<rparr>)]\<rparr>)"

theorem failed_delivery_stays_off_witness:
  "\<exists>ph w. run_auto demo_auto_config demo_replaced [] (Auto_Pass [] False) demo_settled_world = ([], ph, w)
     \<and> switched_off ''s'' (auto_store w)"
proof -
  let ?p = "new_policy ''s'' 20"
  have s: "auto_step demo_auto_config (demo_auto_moment 12 25)
      (Auto_Settle ?p no_message 24 (Was_Failed ''broken pipe'') [] False) demo_sending_world = (Auto_Pass [] False, demo_settled_world)"
    by (simp add: demo_settled_world_def)
  have k: "policies_keyed (auto_store demo_sending_world)" by code_simp
  have x: "fst (run_auto demo_auto_config demo_replaced [] (Auto_Pass [] False) demo_settled_world) = []" by code_simp
  have d: "list_all (\<lambda>e. distinct (map fst (am_sessions e))) demo_replaced" by code_simp
  obtain ph w where r: "run_auto demo_auto_config demo_replaced [] (Auto_Pass [] False) demo_settled_world = ([], ph, w)"
    using x by (metis prod.collapse)
  have p: "ap_session ?p = ''s''" by (simp add: new_policy_def)
  have "unattended demo_auto_config ''s'' (Auto_Pass [] False) demo_settled_world ph w"
    by (rule run_auto_unattended [OF r d un_here])
  with failed_delivery_stays_off [OF s k, unfolded p, of ph w] r show ?thesis by (simp add: auto_policy_global_def)
qed

definition opted_out_world :: auto_world where
  "opted_out_world = snd (disable_session [(''s'', demo_auto_session)] ''s'' ''disabled by user'' ''user'' None 24
     demo_sending_world)"

theorem opt_out_is_taken_for_a_spent_budget_witness:
  "map_option (\<lambda>r. (ap_enabled r, ap_disabled_reason r)) (find_policy ''s'' (auto_store opted_out_world))
     = Some (False, Some ''disabled by user'')
   \<and> map_option ap_enabled (find_policy ''s'' (snd (credit_auto_attention ''s'' ''manual-send'' 30
        (auto_store (snd (auto_step demo_auto_config (demo_auto_moment 12 25)
           (Auto_Take (new_policy ''s'' 20) no_message 24 [] False) opted_out_world)))))) = Some True"
proof -
  let ?p = "new_policy ''s'' 20"
  have p: "ap_session ?p = ''s''" by (simp add: new_policy_def)
  have r: "map_option (\<lambda>r. (ap_enabled r, ap_disabled_reason r)) (find_policy ''s'' (auto_store opted_out_world))
     = Some (False, Some ''disabled by user'')" by code_simp
  then obtain row where row: "find_policy ''s'' (auto_store opted_out_world) = Some row" "\<not> ap_enabled row" by auto
  have k: "policies_keyed (auto_store opted_out_world)" by code_simp
  obtain ph w' where s: "auto_step demo_auto_config (demo_auto_moment 12 25)
      (Auto_Take ?p no_message 24 [] False) opted_out_world = (ph, w')" by force
  have "find_policy (ap_session ?p) (auto_store opted_out_world) = Some row" by (simp only: p row(1))
  from opt_out_is_taken_for_a_spent_budget [OF this row(2) k s, of "''manual-send''" 30]
  have "\<exists>r2. find_policy ''s'' (snd (credit_auto_attention ''s'' ''manual-send'' 30 (auto_store w'))) = Some r2 \<and> ap_enabled r2"
    unfolding p by blast
  with r s show ?thesis by auto
qed

end
