(* ===== verification/Agent_Authority.thy ===== *)
theory Agent_Authority
  imports Auto_Delivery
begin

text \<open>
  Who may reach whom and with how much latitude: the authority levels of \<^verbatim>\<open>agent_authority.py\<close> and the
  Project scopes of \<^verbatim>\<open>project_scope.py\<close>. What a Project's own configuration file says is an argument, and
  so is \<^verbatim>\<open>str.casefold\<close>.
\<close>

subsection \<open>Authority levels\<close>

record authority_field =
  au_field :: string
  au_levels :: "string list"
  au_builtin :: string
  au_gated_by :: "string option"

definition envelope_full :: string where "envelope_full = ''full''"
definition envelope_compact :: string where "envelope_compact = ''compact''"
definition envelope_bare :: string where "envelope_bare = ''bare''"

definition authority_fields :: "authority_field list" where
  "authority_fields =
     [\<lparr>au_field = ''session_control_grant'', au_levels = [''draft'', ''granted''], au_builtin = ''granted'',
       au_gated_by = Some ''session_control''\<rparr>,
      \<lparr>au_field = ''spawn_grant'', au_levels = [''draft'', ''granted''], au_builtin = ''granted'',
       au_gated_by = Some ''session_control''\<rparr>,
      \<lparr>au_field = ''land_grant'', au_levels = [''draft'', ''granted''], au_builtin = ''draft'',
       au_gated_by = Some ''land_queue''\<rparr>,
      \<lparr>au_field = ''land_verify_grant'', au_levels = [''draft'', ''granted''], au_builtin = ''granted'',
       au_gated_by = Some ''land_queue''\<rparr>,
      \<lparr>au_field = ''interject_grant'', au_levels = [''off'', ''granted''], au_builtin = ''granted'',
       au_gated_by = None\<rparr>,
      \<lparr>au_field = ''message_envelope'', au_levels = [envelope_full, envelope_compact, envelope_bare],
       au_builtin = envelope_compact, au_gated_by = None\<rparr>]"

definition authority_of :: "string \<Rightarrow> authority_field option" where
  "authority_of name = find (\<lambda>f. au_field f = name) authority_fields"

definition au_narrowest :: "authority_field \<Rightarrow> string" where "au_narrowest f = hd (au_levels f)"
definition au_widest :: "authority_field \<Rightarrow> string" where "au_widest f = last (au_levels f)"

text \<open>\<^verbatim>\<open>levels.index(level)\<close>, or -1.\<close>

fun position :: "'a \<Rightarrow> 'a list \<Rightarrow> nat option" where
  "position x [] = None"
| "position x (y # ys) = (if x = y then Some 0 else map_option Suc (position x ys))"

definition au_rank :: "authority_field \<Rightarrow> string \<Rightarrow> int" where
  "au_rank f level = (case position level (au_levels f) of None \<Rightarrow> -1 | Some i \<Rightarrow> int i)"

definition au_narrower :: "authority_field \<Rightarrow> string \<Rightarrow> string \<Rightarrow> string" where
  "au_narrower f left right =
     (if au_rank f left < 0 then (if 0 \<le> au_rank f right then right else au_narrowest f)
      else if au_rank f right < 0 then left
      else if au_rank f left \<le> au_rank f right then left else right)"

definition authority_levels :: "string \<Rightarrow> string list" where
  "authority_levels name = (case authority_of name of None \<Rightarrow> [] | Some f \<Rightarrow> au_levels f)"

text \<open>The install's two tables; a value that is not text counts as absent.\<close>

record authority_config =
  av_default :: "string \<Rightarrow> string option"
  av_ceiling :: "string \<Rightarrow> string option"

definition held_level :: "authority_field \<Rightarrow> string option \<Rightarrow> string option" where
  "held_level f v = (case v of None \<Rightarrow> None | Some l \<Rightarrow> if 0 \<le> au_rank f l then Some l else None)"

definition install_default :: "authority_config option \<Rightarrow> string \<Rightarrow> string" where
  "install_default cfg name =
     (case authority_of name of
        None \<Rightarrow> ''''
      | Some f \<Rightarrow>
          (case held_level f (Option.bind cfg (\<lambda>c. av_default c name)) of Some l \<Rightarrow> l | None \<Rightarrow> au_builtin f))"

definition install_ceiling :: "authority_config option \<Rightarrow> string \<Rightarrow> string option" where
  "install_ceiling cfg name =
     (case authority_of name of
        None \<Rightarrow> None
      | Some f \<Rightarrow> held_level f (Option.bind cfg (\<lambda>c. av_ceiling c name)))"

definition apply_ceiling :: "authority_config option \<Rightarrow> string \<Rightarrow> string \<Rightarrow> string" where
  "apply_ceiling cfg name level =
     (case authority_of name of
        None \<Rightarrow> level
      | Some f \<Rightarrow>
          (case install_ceiling cfg name of None \<Rightarrow> level | Some c \<Rightarrow> au_narrower f level c))"

text \<open>What the Project's file says: an explicit value if there is one, and whether it could be read.\<close>

definition resolve_authority ::
  "authority_config option \<Rightarrow> string option \<times> bool \<Rightarrow> string \<Rightarrow> string" where
  "resolve_authority cfg project name =
     (case authority_of name of
        None \<Rightarrow> ''''
      | Some f \<Rightarrow>
          if \<not> snd project then au_narrowest f
          else
            apply_ceiling cfg name
              (case held_level f (fst project) of Some l \<Rightarrow> l | None \<Rightarrow> install_default cfg name))"

definition clamp_requested :: "string \<Rightarrow> string \<Rightarrow> string \<Rightarrow> string" where
  "clamp_requested name requested resolved =
     (case authority_of name of
        None \<Rightarrow> resolved
      | Some f \<Rightarrow> if au_rank f requested < 0 then resolved else au_narrower f requested resolved)"

subsection \<open>Scopes\<close>

record project_scope =
  psc_fleet :: bool
  psc_project :: string
  psc_scope :: string
  psc_label :: string
  psc_requested :: string

definition scope_fleet_name :: string where "scope_fleet_name = ''fleet''"
definition scope_own_name :: string where "scope_own_name = ''self''"

definition scope_widened :: "project_scope \<Rightarrow> bool" where
  "scope_widened s \<longleftrightarrow> psc_requested s \<noteq> scope_own_name"

definition scope_admits :: "project_scope \<Rightarrow> string \<times> string \<Rightarrow> bool" where
  "scope_admits s r =
     (if psc_fleet s then True
      else if psc_project s \<noteq> '''' then fst r = psc_project s
      else psc_scope s \<noteq> '''' \<and> snd r = psc_scope s)"

definition own_scope :: "string \<times> string \<Rightarrow> project_scope" where
  "own_scope r = \<lparr>psc_fleet = False, psc_project = fst r, psc_scope = snd r, psc_label = ''your Project'',
     psc_requested = scope_own_name\<rparr>"

definition fleet_scope :: project_scope where
  "fleet_scope = \<lparr>psc_fleet = True, psc_project = '''', psc_scope = '''', psc_label = ''every Project'',
     psc_requested = scope_fleet_name\<rparr>"

datatype scope_error = Unknown_Project | Ambiguous_Project

text \<open>The registered Projects: id and name, in the registry's order.\<close>

type_synonym project_table = "(string \<times> string) list"

definition find_project :: "(string \<Rightarrow> string) \<Rightarrow> string \<Rightarrow> project_table \<Rightarrow> scope_error + string \<times> string" where
  "find_project fold_case txt projects =
     (case find (\<lambda>p. fst p = txt) projects of
        Some p \<Rightarrow> Inr p
      | None \<Rightarrow>
          (case filter (\<lambda>p. fold_case (snd p) = fold_case txt) projects of
             [p] \<Rightarrow> Inr p
           | [] \<Rightarrow> Inl Unknown_Project
           | _ \<Rightarrow> Inl Ambiguous_Project))"

definition resolve_project_scope ::
  "(string \<Rightarrow> string) \<Rightarrow> string option \<Rightarrow> string \<times> string \<Rightarrow> project_table \<Rightarrow> scope_error + project_scope" where
  "resolve_project_scope fold_case raw caller projects =
     (let txt = strip (ifnull raw)
      in if txt = '''' \<or> fold_case txt = scope_own_name then Inr (own_scope caller)
         else if fold_case txt = scope_fleet_name then Inr fleet_scope
         else bind_err (find_project fold_case txt projects) (\<lambda>(pid, name).
           Inr \<lparr>psc_fleet = False, psc_project = pid, psc_scope = '''', psc_label = name, psc_requested = name\<rparr>))"

text \<open>\<^verbatim>\<open>rpartition\<close>: the halves around the last separator.\<close>

definition split_at_last :: "char \<Rightarrow> string \<Rightarrow> (string \<times> string) option" where
  "split_at_last c s =
     (if c \<notin> set s then None
      else let tail = rev (takeWhile (\<lambda>x. x \<noteq> c) (rev s))
           in Some (take (length s - length tail - 1) s, tail))"

definition split_qualified_target :: "string \<Rightarrow> string \<times> string" where
  "split_qualified_target txt =
     (let halves = List.map_filter (\<lambda>c. Option.bind (split_at_last c txt) (\<lambda>(p, n).
            if strip p \<noteq> '''' \<and> strip n \<noteq> '''' then Some (strip p, strip n) else None)) [CHR ''/'', CHR 0x5C]
      in case halves of h # _ \<Rightarrow> h | [] \<Rightarrow> ('''', strip txt))"

subsection \<open>Levels only narrow\<close>

lemma position_bounds: "position x xs = Some i \<Longrightarrow> i < length xs \<and> xs ! i = x"
  by (induction xs arbitrary: i) (auto split: if_splits)

lemma position_None: "position x xs = None \<longleftrightarrow> x \<notin> set xs"
  by (induction xs) auto

lemma rank_held: "0 \<le> au_rank f l \<longleftrightarrow> l \<in> set (au_levels f)"
  using position_None [of l "au_levels f"] by (cases "position l (au_levels f)") (simp_all add: au_rank_def)

lemma narrower_rank:
  assumes "0 \<le> au_rank f a" "0 \<le> au_rank f b"
  shows "au_rank f (au_narrower f a b) = min (au_rank f a) (au_rank f b)"
  using assms by (auto simp: au_narrower_def min_def)

lemma narrowest_rank: "au_levels f \<noteq> [] \<Longrightarrow> au_rank f (au_narrowest f) = 0"
  by (cases "au_levels f") (simp_all add: au_rank_def au_narrowest_def)

lemma fields_well_formed: "list_all (\<lambda>f. au_levels f \<noteq> [] \<and> au_builtin f \<in> set (au_levels f)) authority_fields"
  by (simp add: authority_fields_def envelope_compact_def)

lemma authority_known: "authority_of name = Some f \<Longrightarrow> au_levels f \<noteq> [] \<and> au_builtin f \<in> set (au_levels f)"
  using fields_well_formed by (auto simp: authority_of_def list_all_iff find_Some_iff)

lemma held_level_held: "held_level f v = Some l \<Longrightarrow> 0 \<le> au_rank f l"
  by (auto simp: held_level_def split: option.splits if_splits)

lemma install_default_held:
  assumes "authority_of name = Some f"
  shows "0 \<le> au_rank f (install_default cfg name)"
  using authority_known [OF assms] held_level_held
  by (auto simp: install_default_def assms rank_held split: option.split)

lemma apply_ceiling_caps:
  assumes "authority_of name = Some f" "0 \<le> au_rank f l"
  shows "0 \<le> au_rank f (apply_ceiling cfg name l) \<and> au_rank f (apply_ceiling cfg name l) \<le> au_rank f l \<and>
    (case install_ceiling cfg name of None \<Rightarrow> apply_ceiling cfg name l = l
     | Some c \<Rightarrow> au_rank f (apply_ceiling cfg name l) \<le> au_rank f c)"
proof (cases "install_ceiling cfg name")
  case None
  with assms show ?thesis by (simp add: apply_ceiling_def)
next
  case (Some c)
  then have "0 \<le> au_rank f c" using assms(1) held_level_held by (auto simp: install_ceiling_def)
  with assms Some show ?thesis by (simp add: apply_ceiling_def narrower_rank)
qed

lemma resolved_capped:
  assumes "authority_of name = Some f"
  shows "0 \<le> au_rank f (resolve_authority cfg project name)"
    "install_ceiling cfg name = Some c \<Longrightarrow> au_rank f (resolve_authority cfg project name) \<le> au_rank f c"
proof -
  let ?l = "case held_level f (fst project) of Some l \<Rightarrow> l | None \<Rightarrow> install_default cfg name"
  have "0 \<le> au_rank f ?l"
    using install_default_held [OF assms] held_level_held by (auto split: option.split)
  note cap = apply_ceiling_caps [OF assms this, of cfg]
  have n: "au_rank f (au_narrowest f) = 0" using authority_known [OF assms] narrowest_rank [of f] by simp
  show "0 \<le> au_rank f (resolve_authority cfg project name)"
    using cap n by (simp add: assms resolve_authority_def)
  show "au_rank f (resolve_authority cfg project name) \<le> au_rank f c" if "install_ceiling cfg name = Some c"
  proof -
    have "0 \<le> au_rank f c" using that held_level_held by (auto simp: install_ceiling_def assms)
    with cap n that show ?thesis by (simp add: assms resolve_authority_def)
  qed
qed

lemma clamped_rank:
  assumes "authority_of name = Some f" "0 \<le> au_rank f level"
  shows "au_rank f (clamp_requested name asked level) =
    (if 0 \<le> au_rank f asked then min (au_rank f asked) (au_rank f level) else au_rank f level)"
  using assms by (simp add: clamp_requested_def narrower_rank)

text \<open>
  C15. The level a Project gets is one its field has and never above the install's ceiling; a configuration
  nobody can read gives the narrowest one, whatever the install's defaults; and what a sender asks for
  can only narrow it further.
\<close>

theorem authority_only_narrows:
  assumes "authority_of name = Some f" "level = resolve_authority cfg project name"
  shows "level \<in> set (au_levels f)
    \<and> (\<forall>c. install_ceiling cfg name = Some c \<longrightarrow> au_rank f level \<le> au_rank f c)
    \<and> (\<not> snd project \<longrightarrow> level = hd (au_levels f))
    \<and> au_rank f (clamp_requested name asked level) \<le> au_rank f level
    \<and> (asked \<in> set (au_levels f) \<longrightarrow> au_rank f (clamp_requested name asked level) \<le> au_rank f asked)"
proof -
  note r = resolved_capped [OF assms(1), where cfg = cfg and project = project, folded assms(2)]
  have "\<not> snd project \<longrightarrow> level = hd (au_levels f)"
    by (simp add: assms resolve_authority_def au_narrowest_def)
  with r clamped_rank [OF assms(1) r(1), of asked] show ?thesis by (auto simp: rank_held)
qed

definition demo_authority :: authority_config where
  "demo_authority = \<lparr>av_default = (\<lambda>_. None), av_ceiling = (\<lambda>n. if n = ''message_envelope'' then Some ''compact'' else None)\<rparr>"

theorem authority_only_narrows_witness:
  "resolve_authority (Some demo_authority) (Some ''bare'', True) ''message_envelope'' = ''compact''
   \<and> resolve_authority (Some demo_authority) (Some ''bare'', False) ''message_envelope'' = ''full''
   \<and> clamp_requested ''message_envelope'' ''bare'' ''compact'' = ''compact''"
proof -
  obtain f where f: "authority_of ''message_envelope'' = Some f" "au_levels f = [''full'', ''compact'', ''bare'']"
    by (simp add: authority_of_def authority_fields_def envelope_full_def envelope_compact_def envelope_bare_def)
  have c: "install_ceiling (Some demo_authority) ''message_envelope'' = Some ''compact''" by code_simp
  have l: "resolve_authority (Some demo_authority) (Some ''bare'', False) ''message_envelope'' = ''full''"
    using authority_only_narrows [OF f(1) refl, of "Some demo_authority" "(Some ''bare'', False)"] f(2) by simp
  have "resolve_authority (Some demo_authority) (Some ''bare'', True) ''message_envelope'' = ''compact''"
    "clamp_requested ''message_envelope'' ''bare'' ''compact'' = ''compact''" by code_simp+
  with l show ?thesis by blast
qed

end
