(* ===== verification/Agent_Notices.thy ===== *)
theory Agent_Notices
  imports Agent_Messaging
begin

text \<open>
  One notification: what its dry run promises, the bounds it keeps when nothing comes between its checks
  and its staging, what a retry does, what a message says of its sender, and what withdrawing it means.
\<close>

subsection \<open>What a plan has checked\<close>

definition mc_repr :: "messaging_config \<Rightarrow> pyval \<Rightarrow> string" where
  "mc_repr cfg = qc_repr (ac_queue (mc_auto cfg))"

lemma resolved_accepted:
  assumes "resolve_target cfg peers caller txt project = Inr x"
  shows "\<exists>p. accept_target cfg (fst caller) p = Inr x"
  using assms by (auto simp: resolve_target_def Let_def bind_err_Inr split: if_splits option.splits)

lemma resolved_target:
  assumes "resolve_target cfg peers caller txt project = Inr (t, s)"
  shows "t \<noteq> fst caller" "is_agent_harness (mc_harnesses cfg) (tg_backend (ps_target s))" "\<not> has_ended (ps_target s)"
  using resolved_accepted [OF assms] by (auto simp: accept_target_def split: if_splits)

lemma planned_message:
  assumes "plan_message cfg peers caller q e w = Inr p"
  shows "check_text cfg q = Inr (np_text p)"
    "resolve_target cfg peers (nq_caller q, caller) (nq_target q) (nq_project q) = Inr (np_target p, np_session p)"
    "check_volume (mc_bounds cfg) (nq_caller q) (np_target p) (ne_now e) (auto_store w) = Inr ()"
    "plan_relay (mc_bounds cfg) (mc_repr cfg) (nq_caller q) (dr_run (tg_ready (ps_target caller))) (np_target p)
       (auto_store w) = Inr (np_relay p)"
    "np_request p = q" "np_thread p = (case rp_thread (np_relay p) of Some t \<Rightarrow> t | None \<Rightarrow> ne_thread e)"
    "np_correlation p = correlation_of q e" "np_known p = correlated_before q e (auto_store w)"
    "np_armed p = accepts_agent_messages (np_target p) w" "check_choices q = Inr (np_mode p)"
  using assms by (auto simp: plan_message_def Let_def bind_err_Inr mc_repr_def)

lemma planned_notify:
  assumes "plan_notify cfg peers caller q e w = (Inr p, w')"
  shows "plan_message cfg peers caller q e (mw_auto w) = Inr p" "mw_auto w' = mw_auto w" "mw_received w' = mw_received w"
  using assms by (auto simp: plan_notify_def Let_def bind_err_Inr split: sum.splits if_splits prod.splits)

lemma plan_keeps_store: "mw_auto (snd (plan_notify cfg peers caller q e w)) = mw_auto w"
  by (simp add: plan_notify_def Let_def split: sum.split prod.split)

lemma planned_relay:
  assumes "plan_relay b repr me run target st = Inr r"
    and "rc = inbound_relay_context repr me run (Some target) st"
  shows "target \<notin> set (butlast (rc_path rc))" "rp_path r = filter (\<lambda>x. x \<noteq> me) (rc_path rc) @ [me]"
    "rp_depth r = int (length (remdups (rp_path r)))" "target \<notin> set (rp_path r) \<Longrightarrow> rp_depth r \<le> mb_chain_depth b"
    "rp_thread r = rc_thread rc"
    "rp_turns r = (case rp_thread r of None \<Rightarrow> 0 | Some t \<Rightarrow> int (thread_message_count t st))"
    "rp_thread r \<noteq> None \<Longrightarrow> rp_turns r < mb_thread_turns b"
proof -
  let ?path = "filter (\<lambda>x. x \<noteq> me) (rc_path rc) @ [me]"
  define turns where "turns = (case rc_thread rc of None \<Rightarrow> 0 | Some t \<Rightarrow> int (thread_message_count t st))"
  from assms(1) have c: "target \<notin> set (butlast (rc_path rc))"
      "\<not> (target \<notin> set ?path \<and> mb_chain_depth b < int (length (remdups ?path)))"
      "\<not> (rc_thread rc \<noteq> None \<and> mb_thread_turns b \<le> turns)"
    and r: "\<exists>y. r = \<lparr>rp_path = ?path, rp_depth = int (length (remdups ?path)), rp_replying = y,
      rp_thread = rc_thread rc, rp_turns = turns\<rparr>"
    unfolding plan_relay_def Let_def assms(2) [symmetric] turns_def [symmetric] by (metis Inl_Inr_False Inr_inject)+
  from c r show "target \<notin> set (butlast (rc_path rc))" "rp_path r = ?path"
    "rp_depth r = int (length (remdups (rp_path r)))" "target \<notin> set (rp_path r) \<Longrightarrow> rp_depth r \<le> mb_chain_depth b"
    "rp_thread r = rc_thread rc"
    "rp_turns r = (case rp_thread r of None \<Rightarrow> 0 | Some t \<Rightarrow> int (thread_message_count t st))"
    "rp_thread r \<noteq> None \<Longrightarrow> rp_turns r < mb_thread_turns b"
    by (auto simp: turns_def not_less not_le simp del: set_append remdups.simps)
qed

subsection \<open>Staging\<close>

lemma credit_messages [simp]: "qs_messages (snd (credit_auto_attention t by now st)) = qs_messages st"
  by (simp add: credit_auto_attention_def Let_def update_policy_def split: option.split)

lemma staged_message:
  assumes "stage_notify cfg peers caller p e w = (Inr res, w')"
  obtains answer effects st1 c s where
    "enqueue (mc_harnesses cfg) (queue_sessions peers) (staged_request cfg caller p e)
       (message_constraints p (ne_now e)) (ne_now e) (messaging_store w) = Inr (answer, effects, st1)"
    "writable_target (mc_harnesses cfg) (queue_sessions peers) (np_target p) = Inr s"
    "create_message (bound_request (staged_request cfg caller p e) s c) (ne_now e) (messaging_store w) = Inr (answer, st1)"
    "qs_messages (messaging_store w') = qs_messages st1" "res = staged_result cfg caller p e answer"
    "mw_interjects w' = (if np_mode p = delivery_now \<and> \<not> was_known answer
       then spend_interject (nq_caller (np_request p)) (np_target p) (ne_now e) (mw_interjects w) else mw_interjects w)"
proof -
  let ?m = "staged_request cfg caller p e"
  from assms obtain answer effects st1 where en: "enqueue (mc_harnesses cfg) (queue_sessions peers) ?m
       (message_constraints p (ne_now e)) (ne_now e) (messaging_store w) = Inr (answer, effects, st1)"
    by (auto simp: stage_notify_def split: sum.splits prod.splits)
  then obtain c s where "writable_target (mc_harnesses cfg) (queue_sessions peers) (mr_target ?m) = Inr s"
    "create_message (bound_request ?m s c) (ne_now e) (messaging_store w) = Inr (answer, st1)"
    by (auto simp: enqueue_def bind_err_def split: if_splits sum.splits prod.splits)
  with en show thesis
    using assms by (intro that [OF en]) (auto simp: stage_notify_def staged_request_def Let_def)
qed

lemma bound_fields [simp]:
  "mr_id (bound_request m s c) = mr_id m" "mr_target (bound_request m s c) = mr_target m"
  "mr_body (bound_request m s c) = mr_body m" "mr_sender_kind (bound_request m s c) = mr_sender_kind m"
  "mr_sender_id (bound_request m s c) = mr_sender_id m" "mr_correlation (bound_request m s c) = mr_correlation m"
  "mr_thread (bound_request m s c) = mr_thread m" "mr_chain_depth (bound_request m s c) = mr_chain_depth m"
  "mr_origin (bound_request m s c) = mr_origin m" "mr_insert_after (bound_request m s c) = mr_insert_after m"
  by (simp_all add: bound_request_def)

lemma request_fields [simp]:
  "mr_id (staged_request cfg caller p e) = ne_message e" "mr_target (staged_request cfg caller p e) = np_target p"
  "mr_body (staged_request cfg caller p e) = visible_body cfg caller p"
  "mr_sender_kind (staged_request cfg caller p e) = agent_sender_kind"
  "mr_sender_id (staged_request cfg caller p e) = Some (nq_caller (np_request p))"
  "mr_correlation (staged_request cfg caller p e) = Some (np_correlation p)"
  "mr_thread (staged_request cfg caller p e) = Some (np_thread p)"
  "mr_chain_depth (staged_request cfg caller p e) = rp_depth (np_relay p)"
  "mr_origin (staged_request cfg caller p e) = Some (message_origin caller p (ne_now e))"
  "mr_insert_after (staged_request cfg caller p e) = None"
  by (simp_all add: staged_request_def Let_def)


lemma staged_constraints:
  assumes "np_mode p \<in> set delivery_modes"
  shows "\<exists>c. normalize_constraints (message_constraints p now) now = Inr (Some c) \<and> map_of c ''expires_at'' = Some (PFloat (now + 86400))"
proof -
  let ?m = "if np_mode p = delivery_when_idle then [] else [(''delivery'', PStr (np_mode p))]"
  have "normalize_constraints (message_constraints p now) now = Inr (Some ([(''expires_at'', PFloat (now + 86400))] @ ?m))"
    using assms
    by (simp add: normalize_constraints_def message_constraints_def py_get_def asked_not_before_def constraint_moment_def
        window_is_empty_def constraint_mode_def max_schedule_horizon_seconds_def default_message_ttl_hours_def image_iff)
  then show ?thesis by simp
qed

lemma created_at_end:
  assumes "create_message m now st = Inr (c, st')" "mr_insert_after m = None"
  shows "case c of
      Created r \<Rightarrow> (\<exists>pos. r = new_message m pos now) \<and> qs_messages st' = qs_messages st @ [r] \<and>
        pq_id r \<notin> pq_id ` set (qs_messages st) \<and>
        (text_given (mr_correlation m) \<longrightarrow> find_correlated (mr_sender_kind m) (mr_sender_id m) (ifnull (mr_correlation m)) st = None)
    | Deduplicated r \<Rightarrow> st' = st \<and> text_given (mr_correlation m) \<and>
        find_correlated (mr_sender_kind m) (mr_sender_id m) (ifnull (mr_correlation m)) st = Some r"
proof -
  have new: "\<not> insert_conflicts (new_message m p now) st \<Longrightarrow>
      refetch (mr_id m) (new_message m p now) (st\<lparr>qs_messages := qs_messages st @ [new_message m p now]\<rparr>) = new_message m p now
      \<and> mr_id m \<notin> pq_id ` set (qs_messages st)" for p
  proof -
    assume "\<not> insert_conflicts (new_message m p now) st"
    then have "mr_id m \<notin> pq_id ` set (qs_messages st)" by (auto simp: insert_conflicts_def new_message_def)
    then show ?thesis by (simp add: refetch_def find_message_def find_snoc new_message_def)
  qed
  have "pq_id (new_message m p now) = mr_id m" for p by (simp add: new_message_def)
  with assms new show ?thesis
    by (auto simp: create_message_def insert_message_def Let_def split: option.splits if_splits)
qed

lemma staging_creates:
  assumes w: "writable_target (mc_harnesses cfg) (queue_sessions peers) (np_target p) = Inr s"
    and b: "body_ok (visible_body cfg caller p)" and mode: "np_mode p \<in> set delivery_modes"
    and fresh: "find_correlated agent_sender_kind (Some (nq_caller (np_request p))) (np_correlation p) (messaging_store w) = None"
      "ne_message e \<notin> pq_id ` set (qs_messages (messaging_store w))"
  obtains r w' where "stage_notify cfg peers caller p e w = (Inr (staged_result cfg caller p e (Created r)), w')"
    "qs_messages (messaging_store w') = qs_messages (messaging_store w) @ [r]"
    "pq_state r = (if np_armed p then Armed else Drafted)" "pq_id r = ne_message e"
    "\<exists>c pos. r = new_message (bound_request (staged_request cfg caller p e) s c) pos (ne_now e)"
proof -
  let ?m = "staged_request cfg caller p e" and ?st = "messaging_store w"
  obtain c where c: "normalize_constraints (message_constraints p (ne_now e)) (ne_now e) = Inr (Some c)"
    using staged_constraints [OF mode] by blast
  define b where "b = bound_request ?m s (Some c)"
  define r where "r = new_message b (next_position (filter (\<lambda>r. pq_target r = np_target p \<and> is_visible r) (qs_messages ?st))) (ne_now e)"
  have bf: "mr_id b = ne_message e" "mr_target b = np_target p" "mr_insert_after b = None" "mr_sender_kind b = agent_sender_kind"
    "mr_sender_id b = Some (nq_caller (np_request p))" "mr_correlation b = Some (np_correlation p)" by (simp_all add: b_def)
  have free: "\<not> insert_conflicts r ?st"
    using fresh unfolding insert_conflicts_def find_correlated_def r_def
    by (auto simp: new_message_def bf ifnull_def find_None_iff image_iff)
  have id: "pq_id r = ne_message e" by (simp add: r_def new_message_def bf)
  have "create_message b (ne_now e) ?st = Inr (Created r, ?st\<lparr>qs_messages := qs_messages ?st @ [r]\<rparr>)"
    using fresh free id
    by (simp add: create_message_def insert_message_def bf r_def [symmetric] Let_def ifnull_def text_given_def refetch_def
        find_message_def find_snoc split: option.split)
  then have en: "enqueue (mc_harnesses cfg) (queue_sessions peers) ?m (message_constraints p (ne_now e)) (ne_now e) ?st
      = Inr (Created r, [emit_updated (pq_id r) (np_target p) (pq_state r) (?st\<lparr>qs_messages := qs_messages ?st @ [r]\<rparr>)],
          ?st\<lparr>qs_messages := qs_messages ?st @ [r]\<rparr>)"
    using w b c by (simp add: enqueue_def b_def sender_kinds_def agent_sender_kind_def)
  have state: "pq_state r = (if np_armed p then Armed else Drafted)"
    by (simp add: r_def new_message_def b_def bound_request_def may_arm_def agent_sender_kind_def
        self_arming_sender_kinds_def staged_request_def Let_def)
  have "fst (stage_notify cfg peers caller p e w) = Inr (staged_result cfg caller p e (Created r))"
    by (simp add: stage_notify_def en Let_def)
  moreover have "qs_messages (messaging_store (snd (stage_notify cfg peers caller p e w))) = qs_messages ?st @ [r]"
    by (cases "rp_thread (np_relay p) = None") (simp_all add: stage_notify_def en Let_def)
  ultimately show thesis
    using that [of r "snd (stage_notify cfg peers caller p e w)"] state id by (auto simp: prod_eq_iff r_def b_def)
qed

lemma staging_repeats:
  assumes w: "writable_target (mc_harnesses cfg) (queue_sessions peers) (np_target p) = Inr s"
    and b: "body_ok (visible_body cfg caller p)" and mode: "np_mode p \<in> set delivery_modes"
    and known: "find_correlated agent_sender_kind (Some (nq_caller (np_request p))) (np_correlation p) (messaging_store w) = Some r"
    and "np_correlation p \<noteq> ''''"
  shows "fst (stage_notify cfg peers caller p e w) = Inr (staged_result cfg caller p e (Deduplicated r))"
    "qs_messages (messaging_store (snd (stage_notify cfg peers caller p e w))) = qs_messages (messaging_store w)"
    "mw_interjects (snd (stage_notify cfg peers caller p e w)) = mw_interjects w"
proof -
  let ?m = "staged_request cfg caller p e"
  obtain c where c: "normalize_constraints (message_constraints p (ne_now e)) (ne_now e) = Inr (Some c)"
    using staged_constraints [OF mode] by blast
  have "create_message (bound_request ?m s (Some c)) (ne_now e) (messaging_store w) = Inr (Deduplicated r, messaging_store w)"
    using known assms(5) by (simp add: create_message_def ifnull_def text_given_def)
  then have en: "enqueue (mc_harnesses cfg) (queue_sessions peers) ?m (message_constraints p (ne_now e)) (ne_now e)
      (messaging_store w) = Inr (Deduplicated r, [], messaging_store w)"
    using w b c by (simp add: enqueue_def sender_kinds_def agent_sender_kind_def)
  show "fst (stage_notify cfg peers caller p e w) = Inr (staged_result cfg caller p e (Deduplicated r))"
    "mw_interjects (snd (stage_notify cfg peers caller p e w)) = mw_interjects w"
    by (simp_all add: stage_notify_def en Let_def was_known_def)
  show "qs_messages (messaging_store (snd (stage_notify cfg peers caller p e w))) = qs_messages (messaging_store w)"
    by (cases "rp_thread (np_relay p) = None") (simp_all add: stage_notify_def en Let_def)
qed

subsection \<open>Bodies\<close>

lemma body_announces:
  assumes "envelope \<noteq> envelope_bare"
  shows "starts_with (notification_body a envelope f body) ''[mux''"
proof (cases "envelope = envelope_compact")
  case True
  have "envelope_compact \<noteq> envelope_bare" by (simp add: envelope_compact_def envelope_bare_def)
  with True show ?thesis
    by (simp add: notification_body_def compact_notification_def starts_with_def)
next
  case False
  obtain rest where "full_notification a f = ''[mux notification]'' # rest" "rest \<noteq> []"
    by (simp add: full_notification_def)
  then obtain x xs where "full_notification a f = ''[mux notification]'' # x # xs" by (cases rest) auto
  with False assms show ?thesis by (simp add: notification_body_def starts_with_def)
qed

lemma visible_body_nonempty: "np_text p \<noteq> '''' \<Longrightarrow> visible_body cfg caller p \<noteq> ''''"
  using body_announces [of "plan_envelope cfg p" "mc_full_authority cfg" "facts_of cfg caller p" "np_text p"]
  by (cases "plan_envelope cfg p = envelope_bare") (auto simp: visible_body_def notification_body_def starts_with_def)


subsection \<open>A dry run\<close>

lemma found_in_scope: "find_in_scope peers txt scope = Inr (Some (t, s)) \<Longrightarrow> (t, s) \<in> set peers"
proof (cases "map_of peers txt")
  case None
  assume f: "find_in_scope peers txt scope = Inr (Some (t, s))"
  let ?hits = "filter (\<lambda>(k, s). tg_name (ps_target s) = Some txt \<and> scope_admits scope (record_scope s)) peers"
  from f None have "?hits = [(t, s)]" by (simp add: find_in_scope_def split: list.splits)
  then have "(t, s) \<in> set ?hits" by simp
  then show ?thesis by simp
next
  case (Some a)
  assume "find_in_scope peers txt scope = Inr (Some (t, s))"
  with Some show ?thesis by (auto simp: find_in_scope_def dest: map_of_SomeD split: if_splits)
qed

lemma target_is_live:
  assumes "resolve_target cfg peers caller txt project = Inr (t, s)" "distinct (map fst peers)"
  shows "map_of peers t = Some s"
proof -
  have "find_in_scope peers x sc = Inr (Some (t, s)) \<Longrightarrow> map_of peers t = Some s" for x sc
    using found_in_scope assms(2) by (metis map_of_is_SomeI)
  with assms(1) show ?thesis
    by (auto simp: resolve_target_def bind_err_Inr accept_target_def Let_def find_qualified_def split: if_splits option.splits
        prod.splits sum.splits queue_error.splits)
qed

lemma planned_is_writable:
  assumes "plan_message cfg peers caller q e w = Inr p" "distinct (map fst peers)"
    and "delivers_prompts_through_pty (mc_harnesses cfg) (tg_backend (ps_target (np_session p)))"
  shows "writable_target (mc_harnesses cfg) (queue_sessions peers) (np_target p) = Inr (ps_target (np_session p))"
  using target_is_live [OF planned_message(2) [OF assms(1)] assms(2)] resolved_target [OF planned_message(2) [OF assms(1)]] assms(3)
  by (simp add: writable_target_def live_target_def queue_sessions_def)


subsection \<open>Bounds\<close>

lemma count_appended:
  "qs_messages st' = qs_messages st @ [r] \<Longrightarrow> count_messages P st' \<le> Suc (count_messages P st)"
  by (simp add: count_messages_def)

lemma staged_once:
  assumes "stage_notify cfg peers caller p e w = (Inr res, w')" "\<not> nv_deduplicates (nr_verdict res)"
  obtains r where "qs_messages (messaging_store w') = qs_messages (messaging_store w) @ [r]" "pq_id r = nr_message res"
    "res = staged_result cfg caller p e (Created r)" "pq_thread r = Some (np_thread p)"
    "mw_interjects w' = (if np_mode p = delivery_now
       then spend_interject (nq_caller (np_request p)) (np_target p) (ne_now e) (mw_interjects w) else mw_interjects w)"
    "np_correlation p \<noteq> '''' \<Longrightarrow>
       find_correlated agent_sender_kind (Some (nq_caller (np_request p))) (np_correlation p) (messaging_store w) = None"
proof -
  from staged_message [OF assms(1)] obtain answer effects st1 c s where
    new: "create_message (bound_request (staged_request cfg caller p e) s c) (ne_now e) (messaging_store w) = Inr (answer, st1)"
    and ms: "qs_messages (messaging_store w') = qs_messages st1" "res = staged_result cfg caller p e answer"
    and j: "mw_interjects w' = (if np_mode p = delivery_now \<and> \<not> was_known answer
       then spend_interject (nq_caller (np_request p)) (np_target p) (ne_now e) (mw_interjects w) else mw_interjects w)"
    by metis
  from ms(2) assms(2) obtain r where r: "answer = Created r"
    by (cases answer) (simp_all add: staged_result_def was_known_def Let_def)
  from created_at_end [OF new] r obtain pos where
    "r = new_message (bound_request (staged_request cfg caller p e) s c) pos (ne_now e)"
    "qs_messages st1 = qs_messages (messaging_store w) @ [r]"
    "np_correlation p \<noteq> '''' \<Longrightarrow>
       find_correlated agent_sender_kind (Some (nq_caller (np_request p))) (np_correlation p) (messaging_store w) = None"
    by (auto simp: text_given_def ifnull_def)
  with ms j r show thesis
    by (intro that [of r]) (simp_all add: staged_result_def was_known_def Let_def new_message_def)
qed

lemma authorized_interject:
  assumes "authorize_interject cfg me dest False now aw j = (Inr u, j')"
  shows "int (length (recent_interjects me now j)) < mb_interject_hourly (mc_bounds cfg)"
    "\<forall>t. map_of (ij_last j) (fst dest) \<noteq> Some t \<or> mb_interject_interval (mc_bounds cfg) \<le> now - t"
    "recent_interjects me now j' = recent_interjects me now j" "ij_last j' = ij_last j"
  using assms
  by (auto simp: authorize_interject_def Let_def recent_interjects_def update_conv' split: if_splits option.splits)

lemma spent_interject:
  "recent_interjects me now (spend_interject me target now j) = recent_interjects me now j @ [now]"
  by (simp add: recent_interjects_def spend_interject_def update_conv')

text \<open>
  C11. A message staged in one go with its checks stays within every bound: with it, its sender has staged
  no more in the last hour, its target holds no more undelivered agent messages and its thread no more
  messages than configured; it is no longer than allowed and goes to another session; and mid-turn, its
  sender's hour and its target's pause are respected.
\<close>

theorem notify_within_bounds:
  assumes sent: "notify cfg peers caller q e w = (Inr res, w')" and new: "\<not> nv_deduplicates (nr_verdict res)"
    and "\<forall>r \<in> set (qs_messages (messaging_store w)). pq_thread r \<noteq> Some (ne_thread e)"
    and key: "ne_correlation e \<noteq> ''''" and b: "b = mc_bounds cfg" and t: "target = nv_target (nr_verdict res)" and me: "me = nq_caller q"
  shows "int (sender_message_count agent_sender_kind me (ne_now e - 3600) (messaging_store w')) \<le> mb_hourly b
    \<and> int (pending_from_sender_kind target agent_sender_kind (messaging_store w')) \<le> mb_pending b
    \<and> int (thread_message_count (ifnull (nv_thread (nr_verdict res))) (messaging_store w')) \<le> max 1 (mb_thread_turns b)
    \<and> int (length (strip (nq_body q))) \<le> mc_max_chars cfg \<and> target \<noteq> me
    \<and> (nq_delivery q = delivery_now \<longrightarrow>
         int (length (recent_interjects me (ne_now e) (mw_interjects w'))) \<le> mb_interject_hourly b \<and>
         (\<forall>t. map_of (ij_last (mw_interjects w)) target = Some t \<longrightarrow> mb_interject_interval b \<le> ne_now e - t))"
proof -
  from sent obtain p w1 where plan: "plan_notify cfg peers caller q e w = (Inr p, w1)"
    and stage: "stage_notify cfg peers caller p e w1 = (Inr res, w')"
    by (auto simp: notify_def split: prod.splits sum.splits)
  note pn = planned_notify [OF plan]
  note pm = planned_message [OF pn(1)]
  obtain r where r: "qs_messages (messaging_store w') = qs_messages (messaging_store w) @ [r]"
      "res = staged_result cfg caller p e (Created r)"
    and j: "mw_interjects w' = (if np_mode p = delivery_now
       then spend_interject me (np_target p) (ne_now e) (mw_interjects w1) else mw_interjects w1)"
    and none: "np_correlation p \<noteq> '''' \<Longrightarrow>
       find_correlated agent_sender_kind (Some me) (np_correlation p) (messaging_store w) = None"
    using staged_once [OF stage new] pn(2) pm(5) me by metis
  have tp: "target = np_target p" and th: "nv_thread (nr_verdict res) = Some (np_thread p)"
    using r(2) by (simp_all add: t staged_result_def dry_run_verdict_def Let_def)
  have cnt: "int (count_messages P (messaging_store w')) \<le> int (count_messages P (messaging_store w)) + 1" for P
    using count_appended [OF r(1), of P] by linarith
  have more: "int (thread_message_count x (messaging_store w')) \<le> int (thread_message_count x (messaging_store w)) + 1"
      "int (sender_message_count k s n (messaging_store w')) \<le> int (sender_message_count k s n (messaging_store w)) + 1"
      "int (pending_from_sender_kind x k (messaging_store w')) \<le> int (pending_from_sender_kind x k (messaging_store w)) + 1"
    for x k s n
    unfolding thread_message_count_def sender_message_count_def pending_from_sender_kind_def by (rule cnt)+
  have "int (sender_message_count agent_sender_kind me (ne_now e - 3600) (messaging_store w)) < mb_hourly b"
    and "int (pending_from_sender_kind target agent_sender_kind (messaging_store w)) < mb_pending b"
    using pm(3) by (auto simp: check_volume_def b me tp split: if_splits)
  then have hourly: "int (sender_message_count agent_sender_kind me (ne_now e - 3600) (messaging_store w')) \<le> mb_hourly b"
    and pend: "int (pending_from_sender_kind target agent_sender_kind (messaging_store w')) \<le> mb_pending b"
    using more(2) [of agent_sender_kind me "ne_now e - 3600"] more(3) [of target agent_sender_kind] by linarith+
  have turns: "int (thread_message_count (np_thread p) (messaging_store w')) \<le> max 1 (mb_thread_turns b)"
  proof (cases "rp_thread (np_relay p)")
    case None
    then have "thread_message_count (np_thread p) (messaging_store w) = 0"
      using assms(3) by (auto simp: pm(6) thread_message_count_def count_messages_def filter_empty_conv)
    then show ?thesis using more(1) [of "np_thread p"] by linarith
  next
    case (Some x)
    note pr = planned_relay [OF pm(4) refl]
    have "int (thread_message_count (np_thread p) (messaging_store w)) < mb_thread_turns b"
    proof -
      have "rp_turns (np_relay p) = int (thread_message_count x (messaging_store w))" using pr(6) Some by simp
      moreover have "rp_turns (np_relay p) < mb_thread_turns (mc_bounds cfg)" using pr(7) Some by blast
      ultimately show ?thesis by (simp add: pm(6) b Some)
    qed
    then show ?thesis using more(1) [of "np_thread p"] by linarith
  qed
  have len: "int (length (strip (nq_body q))) \<le> mc_max_chars cfg"
    using pm(1) by (auto simp: check_text_def Let_def split: if_splits)
  have ne: "target \<noteq> me" using resolved_target(1) [OF pm(2)] by (simp add: tp me)
  have mid: "int (length (recent_interjects me (ne_now e) (mw_interjects w'))) \<le> mb_interject_hourly b"
    "\<forall>t. map_of (ij_last (mw_interjects w)) target = Some t \<longrightarrow> mb_interject_interval b \<le> ne_now e - t"
    if "nq_delivery q = delivery_now"
  proof -
    have m: "np_mode p = delivery_now"
      using pm(10) that by (auto simp: check_choices_def Let_def delivery_now_def split: if_splits)
    have k: "\<not> np_known p"
      using none key by (auto simp: pm(7,8) correlated_before_def message_by_correlation_def me correlation_of_def Let_def)
    obtain u j1 where a: "authorize_interject cfg me (np_target p, np_session p) False (ne_now e) (mw_auto w) (mw_interjects w) = (Inr u, j1)"
      "mw_interjects w1 = j1"
      using plan pn(1) m k by (auto simp: plan_notify_def me Let_def bind_err_Inr split: prod.splits)
    note ai = authorized_interject [OF a(1)]
    show "int (length (recent_interjects me (ne_now e) (mw_interjects w'))) \<le> mb_interject_hourly b"
      using ai(1,3) a(2) by (simp add: j m spent_interject b)
    show "\<forall>t. map_of (ij_last (mw_interjects w)) target = Some t \<longrightarrow> mb_interject_interval b \<le> ne_now e - t"
      using ai(2) by (auto simp: tp b)
  qed
  show ?thesis using hourly pend turns len ne mid th by (simp add: ifnull_def)
qed

subsection \<open>A small fleet at work\<close>

definition demo_planned :: "string \<Rightarrow> string \<Rightarrow> string \<Rightarrow> notify_plan option" where
  "demo_planned target key n =
     (case plan_notify demo_messaging demo_peers (demo_peer ''a'') (demo_note target (Some key)) (demo_ids n 100) demo_start of
        (Inr p, w) \<Rightarrow> Some p | (Inl e, w) \<Rightarrow> None)"

definition demo_plan_good :: "string \<Rightarrow> string \<Rightarrow> notify_plan \<Rightarrow> bool" where
  "demo_plan_good target key p \<longleftrightarrow>
     np_target p = target \<and> visible_body demo_messaging (demo_peer ''a'') p = ''done'' \<and> np_correlation p = key \<and>
     \<not> np_known p \<and> \<not> np_armed p \<and> np_mode p = ''when_idle'' \<and> rp_path (np_relay p) = [''a''] \<and> rp_depth (np_relay p) = 1 \<and>
     nq_caller (np_request p) = ''a'' \<and>
     delivers_prompts_through_pty (mc_harnesses demo_messaging) (tg_backend (ps_target (np_session p)))"

lemma demo_plans:
  "case demo_planned ''b'' ''key'' ''1'' of Some p \<Rightarrow> demo_plan_good ''b'' ''key'' p | None \<Rightarrow> False"
  "case demo_planned ''c'' ''other'' ''2'' of Some p \<Rightarrow> demo_plan_good ''c'' ''other'' p | None \<Rightarrow> False"
  by code_simp+

lemma demo_planned_notify:
  "demo_planned target key n = Some p \<Longrightarrow>
     \<exists>w1. plan_notify demo_messaging demo_peers (demo_peer ''a'') (demo_note target (Some key)) (demo_ids n 100) demo_start = (Inr p, w1)"
  by (auto simp: demo_planned_def split: prod.splits sum.splits)

lemma demo_fleet [simp]:
  "distinct (map fst demo_peers)" "qs_messages (messaging_store demo_start) = []"
  "ne_correlation (demo_ids n t) = n @ ''k''" "ne_message (demo_ids n t) = n @ ''m''"
  "ne_thread (demo_ids n t) = n @ ''t''" "ne_now (demo_ids n t) = t"
  by (simp_all add: demo_peers_def demo_start_def fresh_controller_def empty_queue_def demo_ids_def)

text \<open>A plan of the fleet stages its draft behind whatever the queue holds by then.\<close>

lemma demo_stages:
  assumes "plan_notify demo_messaging demo_peers (demo_peer ''a'') (demo_note target (Some key)) (demo_ids n 100) demo_start = (Inr p, w1)"
    and good: "demo_plan_good target key p"
    and "find_correlated agent_sender_kind (Some ''a'') key (messaging_store w) = None"
      "n @ ''m'' \<notin> pq_id ` set (qs_messages (messaging_store w))"
  obtains res w' r where
    "stage_notify demo_messaging demo_peers (demo_peer ''a'') p (demo_ids n 100) w = (Inr res, w')"
    "qs_messages (messaging_store w') = qs_messages (messaging_store w) @ [r]" "\<not> nv_deduplicates (nr_verdict res)"
    "pq_sender_kind r = agent_sender_kind" "pq_sender_id r = Some ''a''" "pq_target r = target" "pq_chain_depth r = 1"
    "pq_origin r \<noteq> None" "\<forall>f. relay_path f r = [''a'']" "pq_state r = Drafted" "pq_id r = n @ ''m''"
    "pq_correlation r = Some key" "pq_created_at r = 100"
proof -
  note p = good [unfolded demo_plan_good_def]
  have wt: "writable_target (mc_harnesses demo_messaging) (queue_sessions demo_peers) (np_target p) = Inr (ps_target (np_session p))"
    using planned_is_writable [OF planned_notify(1) [OF assms(1)] demo_fleet(1)] p by blast
  have b: "body_ok (visible_body demo_messaging (demo_peer ''a'') p)" and m: "np_mode p \<in> set delivery_modes"
    by (simp_all add: p body_ok_def max_body_chars_def delivery_modes_def delivery_when_idle_def)
  have f: "find_correlated agent_sender_kind (Some (nq_caller (np_request p))) (np_correlation p) (messaging_store w) = None"
    "ne_message (demo_ids n 100) \<notin> pq_id ` set (qs_messages (messaging_store w))"
    using assms(3,4) p by simp_all
  obtain r w' where r:
    "stage_notify demo_messaging demo_peers (demo_peer ''a'') p (demo_ids n 100) w =
      (Inr (staged_result demo_messaging (demo_peer ''a'') p (demo_ids n 100) (Created r)), w')"
    "qs_messages (messaging_store w') = qs_messages (messaging_store w) @ [r]"
    "pq_state r = (if np_armed p then Armed else Drafted)" "pq_id r = ne_message (demo_ids n 100)"
    "\<exists>c pos. r = new_message (bound_request (staged_request demo_messaging (demo_peer ''a'') p (demo_ids n 100))
       (ps_target (np_session p)) c) pos (ne_now (demo_ids n 100))"
    using staging_creates [OF wt b m f] by metis
  then obtain c pos where n: "r = new_message (bound_request (staged_request demo_messaging (demo_peer ''a'') p (demo_ids n 100))
       (ps_target (np_session p)) c) pos 100" by auto
  have "relay_path g r = [''a'']" for g
    by (simp add: n relay_path_def new_message_def message_origin_def py_get_def Let_def p)
  moreover have "pq_sender_kind r = agent_sender_kind" "pq_sender_id r = Some ''a''" "pq_target r = target"
    "pq_chain_depth r = 1" "pq_origin r \<noteq> None" "pq_correlation r = Some key" "pq_created_at r = 100"
    by (simp_all add: n new_message_def p)
  ultimately show thesis
    using r p by (intro that [OF r(1,2)]) (simp_all add: staged_result_def was_known_def Let_def)
qed

lemma demo_sent:
  obtains p w1 res w' r where
    "plan_notify demo_messaging demo_peers (demo_peer ''a'') (demo_note ''b'' (Some ''key'')) (demo_ids ''1'' 100) demo_start = (Inr p, w1)"
    "demo_plan_good ''b'' ''key'' p"
    "stage_notify demo_messaging demo_peers (demo_peer ''a'') p (demo_ids ''1'' 100) w1 = (Inr res, w')"
    "qs_messages (messaging_store w') = [r]" "\<not> nv_deduplicates (nr_verdict res)"
    "pq_sender_kind r = agent_sender_kind" "pq_sender_id r = Some ''a''" "pq_target r = ''b''" "pq_chain_depth r = 1"
    "pq_origin r \<noteq> None" "\<forall>f. relay_path f r = [''a'']" "pq_state r = Drafted" "pq_id r = ''1m''"
    "pq_correlation r = Some ''key''" "pq_created_at r = 100"
proof -
  from demo_plans(1) obtain p where p: "demo_planned ''b'' ''key'' ''1'' = Some p" "demo_plan_good ''b'' ''key'' p"
    by (auto split: option.splits)
  from demo_planned_notify [OF p(1)] obtain w1 where w1:
    "plan_notify demo_messaging demo_peers (demo_peer ''a'') (demo_note ''b'' (Some ''key'')) (demo_ids ''1'' 100) demo_start = (Inr p, w1)"
    by blast
  then have e: "messaging_store w1 = messaging_store demo_start" using planned_notify(2) by metis
  show thesis
    by (rule demo_stages [OF w1 p(2), of w1]) (simp_all add: e find_correlated_def that [OF w1 p(2)])
qed


theorem notify_within_bounds_witness:
  "\<exists>res w'. notify demo_messaging demo_peers (demo_peer ''a'') (demo_note ''b'' (Some ''key'')) (demo_ids ''1'' 100) demo_start
       = (Inr res, w')
     \<and> sender_message_count agent_sender_kind ''a'' (100 - 3600) (messaging_store w') \<le> 1"
proof -
  obtain res w' where n: "notify demo_messaging demo_peers (demo_peer ''a'') (demo_note ''b'' (Some ''key'')) (demo_ids ''1'' 100)
      demo_start = (Inr res, w')" "\<not> nv_deduplicates (nr_verdict res)"
    by (rule demo_sent) (simp add: notify_def)
  have "mb_hourly (mc_bounds demo_messaging) = 1" "nq_caller (demo_note ''b'' (Some ''key'')) = ''a''" by code_simp+
  with notify_within_bounds [OF n _ _ refl refl refl] n(1) show ?thesis by auto
qed

end
