(* ===== verification/Agent_Relays.thy ===== *)
theory Agent_Relays
  imports Agent_Notices Queue_Daemon
begin

text \<open>
  How far a message can be relayed. The rest of the queue is a rely condition: an agent's message keeps
  its sender, target, thread and depth, and its lineage until it is erased. Under it the paths that the
  messages carry stay free of rings and within the configured depth, however plans and stagings of
  different sessions interleave.
\<close>

subsection \<open>What the rest of the queue may do\<close>

definition descends :: "prompt_row \<Rightarrow> prompt_row \<Rightarrow> bool" where
  "descends r r' \<longleftrightarrow>
     pq_id r' = pq_id r \<and> pq_target r' = pq_target r \<and> pq_sender_kind r' = pq_sender_kind r \<and>
     pq_sender_id r' = pq_sender_id r \<and> pq_thread r' = pq_thread r \<and> pq_chain_depth r' = pq_chain_depth r \<and>
     (pq_origin r' = pq_origin r \<or> pq_origin r' = None)"

definition from_before :: "queue_store \<Rightarrow> queue_store \<Rightarrow> bool" where
  "from_before st st' \<longleftrightarrow>
     (\<forall>r' \<in> set (qs_messages st'). pq_sender_kind r' = agent_sender_kind \<longrightarrow>
        (\<exists>r \<in> set (qs_messages st). descends r r'))"

lemma descends_refl [simp]: "descends r r"
  by (simp add: descends_def)

lemma descends_trans: "descends a b \<Longrightarrow> descends b c \<Longrightarrow> descends a c"
  by (auto simp: descends_def)

lemma before_same: "qs_messages st' = qs_messages st \<Longrightarrow> from_before st st'"
  by (auto simp: from_before_def intro: descends_refl)

lemma before_trans: "from_before a b \<Longrightarrow> from_before b c \<Longrightarrow> from_before a c"
  unfolding from_before_def descends_def by metis

lemma before_map:
  assumes "qs_messages st' = map f (qs_messages st)" "\<And>r. descends r (f r)"
  shows "from_before st st'"
  using assms by (auto simp: from_before_def)

lemma before_update: "(\<And>r. descends r (f r)) \<Longrightarrow> from_before st (update_message m f st)"
  by (rule before_map [where f = "\<lambda>r. if pq_id r = m then f r else r"]) (simp_all add: update_message_def)

lemma descends_place: "descends r (place i ids r)"
proof -
  obtain q where "place i ids r = r\<lparr>pq_position := q\<rparr>" using place_position by blast
  then show ?thesis by (simp add: descends_def)
qed

lemma before_renumber: "from_before st (renumber_ids i ids st)"
  by (rule before_map [where f = "place i ids"]) (simp_all add: renumber_ids_place descends_place)

lemma before_on_message:
  assumes "on_message x p act st = Inr (a, st')" "\<And>r. act r = Inr (a, st') \<Longrightarrow> from_before st st'"
  shows "from_before st st'"
  using assms by (auto simp: on_message_def immutable_state_def split: option.splits if_splits)

lemma before_edit: "edit_body x n body now st = Inr (r, st') \<Longrightarrow> from_before st st'"
  unfolding edit_body_def
  by (erule before_on_message) (auto simp: Let_def descends_def simp del: store_fields split: if_splits intro!: before_update)

lemma before_arm: "set_armed x b now st = Inr (r, st') \<Longrightarrow> from_before st st'"
  unfolding set_armed_def
  by (erule before_on_message) (auto simp: Let_def descends_def simp del: store_fields intro!: before_update)

lemma before_constrain: "set_constraints x c now st = Inr (r, st') \<Longrightarrow> from_before st st'"
  unfolding set_constraints_def
  by (erule before_on_message) (auto simp: Let_def descends_def simp del: store_fields intro!: before_update)

lemma before_cancel: "cancel_message x kind now st = Inr (r, st') \<Longrightarrow> from_before st st'"
  unfolding cancel_message_def
  by (erule before_on_message) (auto simp: Let_def descends_def simp del: store_fields intro!: before_update)

lemma before_move:
  assumes "move_message x after now st = Inr (r, st')"
  shows "from_before st st'"
proof -
  have m: "from_before st (update_message x (\<lambda>r. r\<lparr>pq_updated_at := now\<rparr>) (renumber_ids i ids st))" for i ids
    by (rule before_trans [OF before_renumber before_update]) (simp add: descends_def)
  show ?thesis
    by (rule before_on_message [OF assms [unfolded move_message_def]])
      (auto simp: Let_def renumber_queue_def simp del: store_fields renumber_ids.simps split: if_splits option.splits sum.splits intro: m)
qed

lemma before_delete:
  assumes "delete_message x now st = Inr (r, st')"
  shows "from_before st st'"
proof -
  have "from_before st (renumber_ids i ids (update_message x (erase_row now) st))" for i ids
    by (rule before_trans [OF before_update before_renumber]) (simp add: descends_def erase_row_def)
  with assms before_same [of st st] show ?thesis
    by (auto simp: delete_message_def Let_def renumber_queue_def simp del: store_fields split: option.splits if_splits)
qed

lemma before_bind: "from_before st (bind_run x run st)"
  unfolding bind_run_def by (rule before_update) (simp add: descends_def)

lemma before_claim:
  assumes "claim_for_delivery x n key ini did now st = Inr (answer, st')"
  shows "from_before st st'"
proof (cases answer)
  case (Duplicate_Claim a)
  with assms claim_duplicate_same show ?thesis by (metis before_same)
next
  case (Claim_Opened d row)
  with assms have "qs_messages st' = map (\<lambda>r. if pq_id r = x then r\<lparr>pq_state := Delivering, pq_updated_at := now\<rparr> else r) (qs_messages st)"
    by (auto simp: claim_for_delivery_def Let_def split: option.splits if_splits)
  then show ?thesis by (rule before_map) (simp add: descends_def)
qed

lemma before_finalize: "from_before st (snd (finalize_delivery did x res now st))"
  by (rule before_map [OF finalize_messages]) (simp add: descends_def settle_message_def)

lemma before_fail: "from_before st (snd (fail_interrupted x err now st))"
proof -
  have "from_before st (close_open_deliveries x err now (update_message x (fail_message err now) st))"
    by (rule before_trans [OF before_update [where f = "fail_message err now" and m = x] before_same])
      (simp_all add: descends_def fail_message_def close_open_deliveries_def)
  with before_same [of st st] show ?thesis by (simp add: fail_interrupted_def Let_def split: option.split)
qed

lemma before_strand: "from_before st (snd (strand_pending t reason now st))"
proof -
  have row: "from_before st (strand_row reason now row st)" for row st
    by (rule before_map [where f = "\<lambda>r. if pq_id r = pq_id row then
        (if pq_state row = Delivering then fail_message (''delivery interrupted: '' @ reason) now r
         else r\<lparr>pq_state := Stranded, pq_stranded_reason := Some reason, pq_updated_at := now\<rparr>) else r"])
      (simp_all add: strand_row_def Let_def close_open_deliveries_def update_message_def fail_message_def descends_def)
  have "from_before st (fold (strand_row reason now) rows st)" for rows
    by (induction rows arbitrary: st) (auto intro: before_same before_trans [OF row])
  then show ?thesis by (simp add: strand_pending_def Let_def)
qed

lemma before_prune: "from_before st (prune_queue days now st)"
  by (auto simp: from_before_def prune_queue_def Let_def intro: descends_refl)

lemma before_create:
  assumes "create_message m now st = Inr (c, st')" "mr_sender_kind m \<noteq> agent_sender_kind"
  shows "from_before st st'"
proof -
  have app: "from_before st (st\<lparr>qs_messages := qs_messages st @ [new_message m p now]\<rparr>)" for p
    using assms(2) by (auto simp: from_before_def new_message_def intro: descends_refl)
  from assms(1) show ?thesis
    by (auto simp: create_message_def insert_message_def renumber_queue_def Let_def
        split: option.splits if_splits intro: app before_same before_trans [OF app before_renumber])
qed

text \<open>Everything but another agent message and a move of a stranded message to another session.\<close>

fun lineage_op :: "queue_op \<Rightarrow> bool" where
  "lineage_op (Op_Create m now) = (mr_sender_kind m \<noteq> agent_sender_kind)"
| "lineage_op (Op_Retarget mid t now) = False"
| "lineage_op _ = True"

lemma before_after:
  "(\<And>a st'. res = Inr (a, st') \<Longrightarrow> from_before st st') \<Longrightarrow> from_before st (after_op res st)"
  by (auto simp: after_op_def before_same split: sum.split)

lemma before_op: "lineage_op op \<Longrightarrow> from_before st (run_op op st)"
  by (cases op)
    (auto intro: before_after before_create before_edit before_arm before_move before_cancel before_delete
      before_bind before_constrain before_claim before_finalize before_fail before_strand before_prune)

lemma before_reconcile: "from_before st (snd (reconcile_startup sessions now st))"
proof -
  have items: "from_before st (snd (reconcile_items t current now rows st))" for t current rows st
    by (induction rows arbitrary: st)
      (auto simp: Let_def strand_target_def case_prod_beta intro: before_same before_strand before_trans [OF before_fail])
  have "from_before st (snd (reconcile_target sessions now rows t st))" for rows t st
    by (simp add: reconcile_target_def strand_target_def items before_strand case_prod_beta split: option.split)
  then have "from_before st (snd (reconcile_targets sessions now rows ts st))" for rows ts st
  proof (induction ts arbitrary: st)
    case (Cons t ts)
    then show ?case using before_trans by (simp add: Let_def case_prod_beta) blast
  qed (simp add: before_same)
  then show ?thesis by (simp add: reconcile_startup_def Let_def)
qed

subsection \<open>Paths\<close>

text \<open>
  A path that a message of \<open>sender\<close> to \<open>target\<close> may carry: the sessions that have spoken, each once, the
  sender last. Either it carries the thread to a session that has not spoken, within the depth, or it
  answers the session that spoke before.
\<close>

definition path_ok :: "int \<Rightarrow> string \<Rightarrow> string \<Rightarrow> string list \<Rightarrow> bool" where
  "path_ok bound sender target path \<longleftrightarrow>
     distinct path \<and> path \<noteq> [] \<and> last path = sender \<and> sender \<noteq> target \<and>
     (target \<notin> set path \<and> int (length path) \<le> bound \<or>
      (\<exists>earlier. path = earlier @ [target, sender]) \<and> int (length path) \<le> bound + 1)"

definition lineage_ok :: "(pyval \<Rightarrow> string) \<Rightarrow> int \<Rightarrow> prompt_row \<Rightarrow> bool" where
  "lineage_ok repr bound r \<longleftrightarrow>
     pq_sender_kind r = agent_sender_kind \<longrightarrow>
       pq_origin r = None \<or>
       path_ok bound (ifnull (pq_sender_id r)) (pq_target r) (relay_path repr r) \<and>
       pq_chain_depth r = int (length (relay_path repr r))"

lemma lineage_descends:
  assumes "descends r r'" "lineage_ok repr b r"
  shows "lineage_ok repr b r'"
proof -
  show ?thesis
  proof (cases "pq_origin r' = None")
    case False
    with assms(1) have o': "pq_origin r' = pq_origin r" by (auto simp: descends_def)
    then have "relay_path repr r' = relay_path repr r" by (simp add: relay_path_def)
    with assms o' show ?thesis by (simp add: lineage_ok_def descends_def)
  qed (simp add: lineage_ok_def)
qed

definition lineages_ok :: "(pyval \<Rightarrow> string) \<Rightarrow> int \<Rightarrow> queue_store \<Rightarrow> bool" where
  "lineages_ok repr b st \<longleftrightarrow> (\<forall>r \<in> set (qs_messages st). lineage_ok repr b r)"

lemma lineages_before:
  assumes "from_before st st'" "lineages_ok repr b st"
  shows "lineages_ok repr b st'"
  unfolding lineages_ok_def
proof
  fix r' assume r': "r' \<in> set (qs_messages st')"
  show "lineage_ok repr b r'"
  proof (cases "pq_sender_kind r' = agent_sender_kind")
    case True
    with assms(1) r' obtain r where "r \<in> set (qs_messages st)" "descends r r'" by (auto simp: from_before_def)
    with assms(2) show ?thesis using lineage_descends by (auto simp: lineages_ok_def)
  qed (simp add: lineage_ok_def)
qed

lemma first_max_mem: "first_max f b xs \<in> set (b # xs)"
  by (induction xs arbitrary: b) auto

text \<open>What a session inherits: nothing, or the lineage of an agent message that reached it.\<close>

lemma inherited_lineage:
  assumes "inbound_relay_context repr me run peer st = rc"
  shows "rc_path rc = [] \<or>
    (\<exists>r \<in> set (qs_messages st). pq_target r = me \<and> pq_sender_kind r = agent_sender_kind \<and> rc_path rc = relay_path repr r)"
proof -
  let ?p = "\<lambda>r. pq_target r = me \<and> pq_sender_kind r = ''agent'' \<and> pq_state r = Sent \<and>
    (\<not> text_given run \<or> pq_target_run r = None \<or> pq_target_run r = run)"
  define items where "items = take 100 (sort_key (\<lambda>r. - sent_time r) (filter ?p (qs_messages st)))"
  have mem: "r \<in> set items \<Longrightarrow> r \<in> set (qs_messages st) \<and> pq_target r = me \<and> pq_sender_kind r = agent_sender_kind" for r
    unfolding items_def agent_sender_kind_def by (auto dest!: in_set_takeD)
  define named where
    "named = (if text_given peer then find (\<lambda>r. ifnull (pq_sender_id r) = ifnull peer) items else None)"
  have nm: "named = Some r \<Longrightarrow> r \<in> set items" for r
    by (auto simp: named_def find_Some_iff split: if_splits)
  define chosen where "chosen = (case named of Some r \<Rightarrow> Some r
    | None \<Rightarrow> (case items of [] \<Rightarrow> None | b # rest \<Rightarrow> Some (first_max pq_chain_depth b rest)))"
  have ch: "chosen = Some r \<Longrightarrow> r \<in> set items" for r
    using nm first_max_mem [of pq_chain_depth] by (auto simp: chosen_def split: option.splits list.splits)
  have rc: "rc = (case chosen of None \<Rightarrow> no_relay
      | Some r \<Rightarrow> \<lparr>rc_depth = pq_chain_depth r, rc_path = relay_path repr r,
          rc_thread = text_or_none (pq_thread r), rc_from = text_or_none (pq_sender_id r)\<rparr>)"
    using assms unfolding inbound_relay_context_def Let_def chosen_def named_def items_def by simp
  show ?thesis
  proof (cases chosen)
    case None
    with rc show ?thesis by (simp add: no_relay_def)
  next
    case (Some r)
    with rc ch mem show ?thesis by auto
  qed
qed

lemma extended_path:
  assumes before: "before = [] \<or> (\<exists>s. path_ok b s me before)" and "target \<noteq> me"
    and ring: "target \<notin> set (butlast before)"
    and path: "path = filter (\<lambda>x. x \<noteq> me) before @ [me]"
    and depth: "target \<in> set path \<or> int (length (remdups path)) \<le> b"
  shows "path_ok b me target path" "int (length (remdups path)) = int (length path)"
proof -
  have d: "distinct before" using before by (auto simp: path_ok_def)
  then have dp: "distinct path" by (auto simp: path)
  then show l: "int (length (remdups path)) = int (length path)" by (simp add: distinct_remdups_id)
  have base: "distinct path" "path \<noteq> []" "last path = me" using dp by (simp_all add: path)
  show "path_ok b me target path"
  proof (cases "target \<in> set path")
    case False
    with base depth l assms(2) show ?thesis by (simp add: path_ok_def)
  next
    case True
    then have tb: "target \<in> set before" using assms(2) by (auto simp: path)
    then have nb: "before \<noteq> []" by auto
    obtain bs z where bs: "before = bs @ [z]" using nb by (cases before rule: rev_cases) auto
    with ring tb have z: "z = target" by auto
    have e: "path = filter (\<lambda>x. x \<noteq> me) bs @ [target, me]" using assms(2) by (simp add: path bs z)
    from before nb obtain s where ok: "path_ok b s me before" by auto
    have "int (length path) \<le> b + 1"
    proof (cases "me \<in> set before")
      case True
      have "length (filter (\<lambda>x. x \<noteq> me) before) < length before" using True by (simp add: length_filter_less)
      then have "int (length path) \<le> int (length before)" by (simp add: path)
      with ok show ?thesis by (auto simp: path_ok_def)
    next
      case False
      then have f: "filter (\<lambda>x. x \<noteq> me) before = before" by (auto simp: filter_id_conv)
      have "before \<noteq> earlier @ [me, s]" for earlier using False by auto
      with ok have "int (length before) \<le> b" by (simp add: path_ok_def)
      then show ?thesis by (simp add: path f)
    qed
    with base e assms(2) show ?thesis by (auto simp: path_ok_def)
  qed
qed

subsection \<open>Plans and stagings\<close>

definition plan_ok :: "int \<Rightarrow> notify_plan \<Rightarrow> bool" where
  "plan_ok bound p \<longleftrightarrow>
     path_ok bound (nq_caller (np_request p)) (np_target p) (rp_path (np_relay p)) \<and>
     rp_depth (np_relay p) = int (length (rp_path (np_relay p)))"

lemma planned_path:
  assumes plan: "plan_message cfg peers caller q e w = Inr p"
    and ok: "lineages_ok (mc_repr cfg) (mb_chain_depth (mc_bounds cfg)) (auto_store w)"
  shows "plan_ok (mb_chain_depth (mc_bounds cfg)) p"
proof -
  let ?b = "mb_chain_depth (mc_bounds cfg)"
  note pm = planned_message [OF plan]
  have ne: "np_target p \<noteq> nq_caller q" using resolved_target(1) [OF pm(2)] by simp
  define rc where "rc = inbound_relay_context (mc_repr cfg) (nq_caller q)
    (dr_run (tg_ready (ps_target caller))) (Some (np_target p)) (auto_store w)"
  define path where "path = filter (\<lambda>x. x \<noteq> nq_caller q) (rc_path rc) @ [nq_caller q]"
  have before: "rc_path rc = [] \<or> (\<exists>s. path_ok ?b s (nq_caller q) (rc_path rc))"
  proof -
    from inherited_lineage [OF rc_def [symmetric]] consider "rc_path rc = []"
      | r where "r \<in> set (qs_messages (auto_store w))" "pq_target r = nq_caller q"
          "pq_sender_kind r = agent_sender_kind" "rc_path rc = relay_path (mc_repr cfg) r" by blast
    then show ?thesis
    proof cases
      case 2
      with ok have l: "lineage_ok (mc_repr cfg) ?b r" by (simp add: lineages_ok_def)
      show ?thesis
      proof (cases "pq_origin r")
        case None
        then have "rc_path rc = []" using 2(4) by (simp add: relay_path_def)
        then show ?thesis ..
      next
        case (Some o')
        with l 2 show ?thesis by (auto simp: lineage_ok_def)
      qed
    qed simp
  qed
  note r = planned_relay [OF pm(4) rc_def]
  have rp: "rp_path (np_relay p) = path" using r(2) by (simp add: path_def)
  have "np_target p \<in> set path \<or> int (length (remdups path)) \<le> ?b" using r(3,4) rp by metis
  from extended_path [OF before ne r(1) path_def this] r(3) rp pm(5) show ?thesis
    by (simp only: plan_ok_def simp_thms)
qed


lemma created_rows:
  assumes "create_message m now st = Inr (c, st')" "r' \<in> set (qs_messages st')"
  shows "(\<exists>r \<in> set (qs_messages st). descends r r') \<or> (\<exists>p. r' = new_message m p now)"
proof -
  let ?new = "\<lambda>p. st\<lparr>qs_messages := qs_messages st @ [new_message m p now]\<rparr>"
  have placed: "\<exists>q. place 0 ids (new_message m p now) = new_message m q now" for ids p
  proof -
    obtain q where "place 0 ids (new_message m p now) = (new_message m p now)\<lparr>pq_position := q\<rparr>"
      using place_position by blast
    then show ?thesis by (auto simp: new_message_def)
  qed
  have old: ?thesis if "r' \<in> set (qs_messages st)" using that descends_refl by blast
  have app: ?thesis if "r' \<in> set (qs_messages (?new p))" for p using that old by auto
  have ren: ?thesis if "r' \<in> set (qs_messages (renumber_ids 0 ids (?new p)))" for ids p
    using that placed [of ids p] descends_place by (auto simp: renumber_ids_place)
  from assms consider "st' = st" | p where "st' = ?new p" | ids p where "st' = renumber_ids 0 ids (?new p)"
    by (auto simp: create_message_def insert_message_def renumber_queue_def Let_def split: option.splits if_splits)
  then show ?thesis
    by cases (use assms(2) app ren old in \<open>blast+\<close>)
qed

lemma new_row_lineage:
  assumes "plan_ok b p"
  shows "lineage_ok repr b (new_message (bound_request (staged_request cfg caller p e) s c) pos now)"
proof -
  have "relay_path repr (new_message (bound_request (staged_request cfg caller p e) s c) pos now) = rp_path (np_relay p)"
    by (simp add: relay_path_def new_message_def message_origin_def Let_def py_get_def comp_def)
  with assms show ?thesis by (simp add: lineage_ok_def plan_ok_def new_message_def ifnull_def)
qed

lemma staging_keeps_lineages:
  assumes st: "stage_notify cfg peers caller p e w = (res, w')" and "plan_ok b p"
    and ok: "lineages_ok repr b (messaging_store w)"
  shows "lineages_ok repr b (messaging_store w')"
proof (cases res)
  case (Inl err)
  with st have "w' = w" by (auto simp: stage_notify_def Let_def split: sum.splits prod.splits)
  with ok show ?thesis by simp
next
  case (Inr a)
  with st obtain answer effects st1 c s where
    new: "create_message (bound_request (staged_request cfg caller p e) s c) (ne_now e) (messaging_store w) = Inr (answer, st1)"
    and ms: "qs_messages (messaging_store w') = qs_messages st1"
    using staged_message by metis
  show ?thesis
    unfolding lineages_ok_def ms
  proof
    fix r' assume "r' \<in> set (qs_messages st1)"
    from created_rows [OF new this] show "lineage_ok repr b r'"
      using ok lineage_descends new_row_lineage [OF assms(2)] by (auto simp: lineages_ok_def)
  qed
qed

subsection \<open>Every interleaving\<close>

text \<open>
  The daemon as relaying sees it: the world and the notifications that have been checked and not yet
  staged. Sessions come and go between any two steps.
\<close>

record relay_daemon =
  rd_world :: messaging_world
  rd_plans :: "notify_plan list"

definition fresh_relays :: "messaging_world \<Rightarrow> relay_daemon" where
  "fresh_relays w = \<lparr>rd_world = w, rd_plans = []\<rparr>"

inductive relay_step :: "messaging_config \<Rightarrow> relay_daemon \<Rightarrow> relay_daemon \<Rightarrow> bool" for cfg where
  notify_checked: "plan_notify cfg peers caller q e (rd_world d) = (Inr p, w') \<Longrightarrow>
    relay_step cfg d (d\<lparr>rd_world := w', rd_plans := rd_plans d @ [p]\<rparr>)"
| notify_refused: "plan_notify cfg peers caller q e (rd_world d) = (Inl err, w') \<Longrightarrow>
    relay_step cfg d (d\<lparr>rd_world := w'\<rparr>)"
| notify_staged: "rd_plans d = as @ p # bs \<Longrightarrow> stage_notify cfg peers caller p e (rd_world d) = (res, w') \<Longrightarrow>
    relay_step cfg d (d\<lparr>rd_world := w', rd_plans := as @ bs\<rparr>)"
| notify_dropped: "rd_plans d = as @ p # bs \<Longrightarrow> relay_step cfg d (d\<lparr>rd_plans := as @ bs\<rparr>)"
| queue_moves: "lineage_op op \<Longrightarrow>
    relay_step cfg d (d\<lparr>rd_world := (rd_world d)\<lparr>mw_auto := with_store (run_op op (messaging_store (rd_world d))) (mw_auto (rd_world d))\<rparr>\<rparr>)"
| policies_move: "qs_messages (messaging_store w') = qs_messages (messaging_store (rd_world d)) \<Longrightarrow>
    relay_step cfg d (d\<lparr>rd_world := w'\<rparr>)"
| relays_restart: "relay_step cfg d (fresh_relays ((rd_world d)\<lparr>mw_interjects := no_interjects,
    mw_auto := with_store (snd (reconcile_startup sessions now (messaging_store (rd_world d)))) (mw_auto (rd_world d))\<rparr>))"

inductive relay_reachable :: "messaging_config \<Rightarrow> relay_daemon \<Rightarrow> bool" for cfg where
  relays_begin: "qs_messages (messaging_store w) = [] \<Longrightarrow> relay_reachable cfg (fresh_relays w)"
| relays_go_on: "relay_reachable cfg d \<Longrightarrow> relay_step cfg d d' \<Longrightarrow> relay_reachable cfg d'"

definition relays_inv :: "messaging_config \<Rightarrow> relay_daemon \<Rightarrow> bool" where
  "relays_inv cfg d \<longleftrightarrow>
     lineages_ok (mc_repr cfg) (mb_chain_depth (mc_bounds cfg)) (messaging_store (rd_world d)) \<and>
     (\<forall>p \<in> set (rd_plans d). plan_ok (mb_chain_depth (mc_bounds cfg)) p)"

lemma same_lineages: "qs_messages st' = qs_messages st \<Longrightarrow> lineages_ok repr b st' = lineages_ok repr b st"
  by (simp add: lineages_ok_def)

lemma relay_step_inv: "relay_step cfg d d' \<Longrightarrow> relays_inv cfg d \<Longrightarrow> relays_inv cfg d'"
proof (induction rule: relay_step.induct)
  case (notify_checked peers caller q e d p w')
  from planned_path [OF planned_notify(1) [OF notify_checked(1)]] planned_notify(2) [OF notify_checked(1)] notify_checked(2)
  show ?case by (auto simp: relays_inv_def)
next
  case (notify_refused peers caller q e d err w')
  then have "mw_auto w' = mw_auto (rd_world d)" using plan_keeps_store [of cfg peers caller q e "rd_world d"] by simp
  with notify_refused show ?case by (simp add: relays_inv_def)
next
  case (notify_staged d as p bs peers caller e res w')
  then show ?case using staging_keeps_lineages [OF notify_staged(2)] by (auto simp: relays_inv_def)
next
  case (queue_moves op d)
  with lineages_before [OF before_op] show ?case by (auto simp: relays_inv_def)
next
  case (policies_move w' d)
  then show ?case using same_lineages [OF policies_move(1)] by (simp add: relays_inv_def)
next
  case (relays_restart d sessions now)
  with lineages_before [OF before_reconcile] show ?case by (auto simp: relays_inv_def fresh_relays_def)
qed (auto simp: relays_inv_def)

lemma relay_inv: "relay_reachable cfg d \<Longrightarrow> relays_inv cfg d"
proof (induction rule: relay_reachable.induct)
  case (relays_begin w)
  then show ?case by (simp add: relays_inv_def fresh_relays_def lineages_ok_def)
qed (rule relay_step_inv)

inductive_cases relay_stepE: "relay_step cfg d d'"



end
