(* ===== verification/Agent_Outcomes.thy ===== *)
theory Agent_Outcomes
  imports Agent_Notices
begin

text \<open>
  What a message says of its sender, what becomes of a retry, and what its sender can still do with it:
  withdraw it before delivery and read its outcome.
\<close>

subsection \<open>Who is speaking\<close>

lemma envelope_levels: "authority_levels ''message_envelope'' = [envelope_full, envelope_compact, envelope_bare]"
  by (simp add: authority_levels_def authority_of_def authority_fields_def)

lemma envelopes_differ [simp]:
  "envelope_full \<noteq> envelope_bare" "envelope_compact \<noteq> envelope_bare" "envelope_full \<noteq> envelope_compact"
  "envelope_bare \<noteq> envelope_full" "envelope_bare \<noteq> envelope_compact" "envelope_compact \<noteq> envelope_full"
  by (simp_all add: envelope_full_def envelope_compact_def envelope_bare_def)

lemma envelope_field:
  obtains f where "authority_of ''message_envelope'' = Some f" "au_levels f = [envelope_full, envelope_compact, envelope_bare]"
  by (simp add: authority_of_def authority_fields_def)

lemma clamped_to_bare:
  assumes "clamp_requested ''message_envelope'' a l = envelope_bare" "l \<in> set (authority_levels ''message_envelope'')"
  shows "l = envelope_bare \<and> a \<noteq> envelope_full \<and> a \<noteq> envelope_compact"
proof (rule envelope_field)
  fix f assume f: "authority_of ''message_envelope'' = Some f" "au_levels f = [envelope_full, envelope_compact, envelope_bare]"
  from assms f show ?thesis
    by (auto simp: clamp_requested_def au_narrower_def au_rank_def envelope_levels split: if_splits)
qed

lemma capped_below_bare:
  assumes "resolve_authority ac project ''message_envelope'' = envelope_bare" "install_ceiling ac ''message_envelope'' = Some c"
  shows "c = envelope_bare"
proof (rule envelope_field)
  fix f assume f: "authority_of ''message_envelope'' = Some f" "au_levels f = [envelope_full, envelope_compact, envelope_bare]"
  have "0 \<le> au_rank f c" using assms(2) held_level_held f(1) by (auto simp: install_ceiling_def)
  then have c: "c \<in> {envelope_full, envelope_compact, envelope_bare}" using f(2) by (auto simp: rank_held)
  from assms f have "au_rank f envelope_bare \<le> au_rank f c"
    using resolved_capped(2) [OF f(1) assms(2)] by metis
  with c f(2) show ?thesis by (auto simp: au_rank_def)
qed
text \<open>
  C14. With the levels the daemon resolves, a message arrives without saying that a peer sent it only when
  the target's Project resolves to that level and the sender did not ask to disclose more: under a
  ceiling that is not \<^verbatim>\<open>bare\<close>, or for a Project whose configuration cannot be read, or when the sender
  asks for a header, the text begins with the mark of the multiplexer. The level is never wider than the
  Project's.
\<close>

theorem peers_announce_themselves:
  assumes "mc_envelope cfg = Some (\<lambda>dir. resolve_authority ac (file dir) ''message_envelope'')"
    and dir: "dir = ps_root (np_session p)" and asked: "asked = nq_envelope (np_request p)"
    and ends: "authority_of ''message_envelope'' = Some f"
  shows "au_rank f (plan_envelope cfg p) \<le> au_rank f (project_envelope cfg (np_session p))
    \<and> (dir = '''' \<or> \<not> snd (file dir) \<or> asked \<in> {Some envelope_full, Some envelope_compact}
        \<or> install_ceiling ac ''message_envelope'' \<in> {Some envelope_full, Some envelope_compact}
       \<longrightarrow> starts_with (visible_body cfg caller p) ''[mux'')"
proof -
  let ?level = "resolve_authority ac (file dir) ''message_envelope''"
  have l: "project_envelope cfg (np_session p) \<in> set (authority_levels ''message_envelope'')"
    by (simp add: project_envelope_def envelope_levels split: option.split)
  have lv: "0 \<le> au_rank f (project_envelope cfg (np_session p))"
    using l ends by (simp add: rank_held authority_levels_def)
  have rank: "au_rank f (plan_envelope cfg p) \<le> au_rank f (project_envelope cfg (np_session p))"
    using clamped_rank [OF ends lv] by (auto simp: plan_envelope_def resolve_envelope_def split: option.split)
  have bare: "dir \<noteq> '''' \<and> ?level = envelope_bare \<and> asked \<notin> {Some envelope_full, Some envelope_compact}"
    if "plan_envelope cfg p = envelope_bare"
  proof -
    from that have "project_envelope cfg (np_session p) = envelope_bare \<and> asked \<notin> {Some envelope_full, Some envelope_compact}"
      using clamped_to_bare [OF _ l] by (auto simp: plan_envelope_def resolve_envelope_def asked split: option.splits)
    then show ?thesis using assms(1) by (auto simp: project_envelope_def dir split: if_splits)
  qed
  have "\<not> snd (file dir) \<Longrightarrow> ?level = au_narrowest f" by (simp add: resolve_authority_def ends)
  moreover have "au_narrowest f = envelope_full" by (rule envelope_field) (use ends in \<open>simp add: au_narrowest_def\<close>)
  ultimately have "plan_envelope cfg p \<noteq> envelope_bare"
    if "dir = '''' \<or> \<not> snd (file dir) \<or> asked \<in> {Some envelope_full, Some envelope_compact}
        \<or> install_ceiling ac ''message_envelope'' \<in> {Some envelope_full, Some envelope_compact}"
    using that bare capped_below_bare [of ac "file dir"] envelopes_differ by (metis empty_iff insert_iff)
  with rank body_announces show ?thesis unfolding visible_body_def by blast
qed

subsection \<open>Withdrawing\<close>

text \<open>
  C12. Withdrawing reaches only a message the caller sent that was waiting, and succeeds only while it still
  waits or has been stranded, whatever happened since it was read: a delivery under way is never
  cancelled. It changes nothing but that message, which no later delivery can claim. A message of
  someone else is answered as one that does not exist.
\<close>

theorem revoked_is_never_delivered:
  assumes plan: "plan_revoke me mid st = Inr r" and done': "revoke_planned r now st' = Inr (row, effects, st2)"
  shows "pq_sender_kind r = agent_sender_kind \<and> ifnull (pq_sender_id r) = me \<and> is_pending r \<and> pq_id r = mid
    \<and> (\<exists>m. find_message mid st' = Some m \<and> (is_pending m \<or> pq_state m = Stranded))
    \<and> qs_messages st2 = map (\<lambda>x. if pq_id x = mid
         then x\<lparr>pq_state := Cancelled, pq_cancel_kind := Some ''revoked'', pq_updated_at := now\<rparr> else x) (qs_messages st')
    \<and> qs_attempts st2 = qs_attempts st' \<and> qs_policies st2 = qs_policies st'
    \<and> claim_for_delivery mid n None initiator did t st2 = queue_conflict ''invalid_state'' [(''state'', PStr ''cancelled'')]
    \<and> own_message other mid st = (if other = me then Inr r else own_message other mid (st\<lparr>qs_messages := []\<rparr>))"
proof -
  from plan have r: "find_message mid st = Some r" "pq_sender_kind r = agent_sender_kind" "ifnull (pq_sender_id r) = me" "is_pending r"
    by (auto simp: plan_revoke_def own_message_def bind_err_Inr split: option.splits if_splits)
  then have id: "pq_id r = mid" by (auto simp: find_message_def find_Some_iff)
  let ?f = "\<lambda>x. x\<lparr>pq_state := Cancelled, pq_cancel_kind := Some ''revoked'', pq_updated_at := now\<rparr>"
  from done' obtain m where m: "find_message mid st' = Some m" "is_pending m \<or> pq_state m = Stranded"
    and st2: "st2 = update_message mid ?f st'"
    by (auto simp: revoke_planned_def cancel_item_def announced_def bind_err_Inr cancel_message_def on_message_def
      immutable_state_def id Let_def simp del: store_fields split: if_splits option.splits)
  have f: "find_message mid st2 = Some (?f m)"
    using m(1) unfolding st2 by (subst find_update_same) simp_all
  have "claim_for_delivery mid n None initiator did t st2 = queue_conflict ''invalid_state'' [(''state'', PStr ''cancelled'')]"
    using f by (simp add: claim_for_delivery_def text_given_def is_pending_def pending_states_def)
  moreover have "own_message other mid st = (if other = me then Inr r else own_message other mid (st\<lparr>qs_messages := []\<rparr>))"
    using r by (auto simp: own_message_def find_message_def)
  ultimately show ?thesis using r id m st2 by (simp add: update_message_def)
qed

subsection \<open>Outcomes\<close>

text \<open>A waiting message is never reported delivered, and a delivered one always is.\<close>

lemma outcome_delivered:
  assumes "message_outcome now r = ''delivered''"
  shows "pq_state r = Sent"
  using assms by (cases "pq_state r") (auto simp: message_outcome_def split: if_splits)

lemma outcome_of_sent:
  assumes "pq_state r = Sent" "pq_cancel_kind r = None"
  shows "message_outcome now r = ''delivered''"
  using assms by (simp add: message_outcome_def expired_message_def is_pending_def pending_states_def)

subsection \<open>Retries and simultaneous calls\<close>

lemma spent_budget_refuses:
  assumes "check_text cfg q = Inr txt" "resolve_target cfg peers (nq_caller q, caller) (nq_target q) (nq_project q) = Inr (t, s)"
    and "mb_hourly (mc_bounds cfg) \<le>
      int (sender_message_count agent_sender_kind (nq_caller q) (ne_now e - 3600) (messaging_store w))"
  shows "notify cfg peers caller q e w = (refused ''origin_budget_exhausted'' 429, w)"
  using assms by (simp add: notify_def plan_notify_def plan_message_def Let_def check_volume_def)

lemma demo_bounds: "mb_hourly (mc_bounds demo_messaging) = 1"
  by code_simp

text \<open>
  A key promises that a retry returns the first message. The bounds are checked before the key: a sender
  whose one message filled its hour is refused when it retries that very message.
\<close>

lemma retry_is_refused_at_the_limit:
  "\<exists>res w' r. notify demo_messaging demo_peers (demo_peer ''a'') (demo_note ''b'' (Some ''key'')) (demo_ids ''1'' 100) demo_start
       = (Inr res, w')
     \<and> message_by_correlation agent_sender_kind (Some ''a'') ''key'' (messaging_store w') = Some r
     \<and> notify demo_messaging demo_peers (demo_peer ''a'') (demo_note ''b'' (Some ''key'')) (demo_ids ''2'' 110) w'
       = (refused ''origin_budget_exhausted'' 429, w')"
proof -
  obtain p w1 res w' r where s:
    "plan_notify demo_messaging demo_peers (demo_peer ''a'') (demo_note ''b'' (Some ''key'')) (demo_ids ''1'' 100) demo_start = (Inr p, w1)"
    "stage_notify demo_messaging demo_peers (demo_peer ''a'') p (demo_ids ''1'' 100) w1 = (Inr res, w')"
    "qs_messages (messaging_store w') = [r]" "pq_sender_kind r = agent_sender_kind" "pq_sender_id r = Some ''a''"
    "pq_correlation r = Some ''key''" "pq_created_at r = 100"
    by (rule demo_sent)
  note pm = planned_message [OF planned_notify(1) [OF s(1)]]
  have q: "nq_caller (demo_note ''b'' (Some ''key'')) = ''a''" by (simp add: demo_note_def)
  have "sender_message_count agent_sender_kind ''a'' (110 - 3600) (messaging_store w') = 1"
    using s(3-5,7) by (simp add: sender_message_count_def count_messages_def)
  with spent_budget_refuses [OF pm(1,2), of "demo_ids ''2'' 110" w'] q demo_bounds
  have "notify demo_messaging demo_peers (demo_peer ''a'') (demo_note ''b'' (Some ''key'')) (demo_ids ''2'' 110) w'
       = (refused ''origin_budget_exhausted'' 429, w')" by simp
  moreover have "message_by_correlation agent_sender_kind (Some ''a'') ''key'' (messaging_store w') = Some r"
    using s(3-6) by (simp add: message_by_correlation_def find_correlated_def)
  moreover have "notify demo_messaging demo_peers (demo_peer ''a'') (demo_note ''b'' (Some ''key'')) (demo_ids ''1'' 100) demo_start
       = (Inr res, w')" using s(1,2) by (simp add: notify_def)
  ultimately show ?thesis by blast
qed

text \<open>
  The bounds are read before the message is staged: two calls whose checks overlap both pass, and one
  message an hour becomes two.
\<close>

lemma overlapping_calls_overrun_the_hour:
  "\<exists>p1 p2 w1 w2 w3 w4 r1 r2.
     plan_notify demo_messaging demo_peers (demo_peer ''a'') (demo_note ''b'' (Some ''key'')) (demo_ids ''1'' 100) demo_start = (Inr p1, w1)
     \<and> plan_notify demo_messaging demo_peers (demo_peer ''a'') (demo_note ''c'' (Some ''other'')) (demo_ids ''2'' 100) demo_start = (Inr p2, w2)
     \<and> stage_notify demo_messaging demo_peers (demo_peer ''a'') p1 (demo_ids ''1'' 100) w1 = (Inr r1, w3)
     \<and> stage_notify demo_messaging demo_peers (demo_peer ''a'') p2 (demo_ids ''2'' 100) w3 = (Inr r2, w4)
     \<and> mb_hourly (mc_bounds demo_messaging) = 1
     \<and> sender_message_count agent_sender_kind ''a'' (100 - 3600) (messaging_store w4) = 2"
proof -
  obtain p1 w1 r1 w3 x where s:
    "plan_notify demo_messaging demo_peers (demo_peer ''a'') (demo_note ''b'' (Some ''key'')) (demo_ids ''1'' 100) demo_start = (Inr p1, w1)"
    "stage_notify demo_messaging demo_peers (demo_peer ''a'') p1 (demo_ids ''1'' 100) w1 = (Inr r1, w3)"
    "qs_messages (messaging_store w3) = [x]" "pq_sender_kind x = agent_sender_kind" "pq_sender_id x = Some ''a''"
    "pq_id x = ''1m''" "pq_correlation x = Some ''key''" "pq_created_at x = 100"
    by (rule demo_sent)
  from demo_plans(2) obtain p2 where p2: "demo_planned ''c'' ''other'' ''2'' = Some p2" "demo_plan_good ''c'' ''other'' p2"
    by (auto split: option.splits)
  from demo_planned_notify [OF p2(1)] obtain w2 where w2:
    "plan_notify demo_messaging demo_peers (demo_peer ''a'') (demo_note ''c'' (Some ''other'')) (demo_ids ''2'' 100) demo_start = (Inr p2, w2)"
    by blast
  have f: "find_correlated agent_sender_kind (Some ''a'') ''other'' (messaging_store w3) = None"
    "''2'' @ ''m'' \<notin> pq_id ` set (qs_messages (messaging_store w3))"
    using s(3,6,7) by (simp_all add: find_correlated_def)
  obtain r2 w4 y where t: "stage_notify demo_messaging demo_peers (demo_peer ''a'') p2 (demo_ids ''2'' 100) w3 = (Inr r2, w4)"
    "qs_messages (messaging_store w4) = qs_messages (messaging_store w3) @ [y]"
    "pq_sender_kind y = agent_sender_kind" "pq_sender_id y = Some ''a''" "pq_created_at y = 100"
    by (rule demo_stages [OF w2 p2(2) f])
  have "sender_message_count agent_sender_kind ''a'' (100 - 3600) (messaging_store w4) = 2"
    using s(3-5,8) t(2-5) by (simp add: sender_message_count_def count_messages_def)
  with s(1,2) w2 t(1) demo_bounds show ?thesis by blast
qed

subsection \<open>Instances\<close>

theorem peers_announce_themselves_witness:
  "\<exists>cfg p caller. mc_envelope cfg = Some (\<lambda>dir. resolve_authority (Some demo_authority) (Some ''bare'', True) ''message_envelope'')
     \<and> starts_with (visible_body cfg caller p) ''[mux''"
proof (rule envelope_field)
  fix f assume f: "authority_of ''message_envelope'' = Some f"
  let ?cfg = "demo_messaging\<lparr>mc_envelope :=
    Some (\<lambda>dir. resolve_authority (Some demo_authority) (Some ''bare'', True) ''message_envelope'')\<rparr>"
  have c: "install_ceiling (Some demo_authority) ''message_envelope'' = Some envelope_compact"
    by code_simp
  obtain p where "demo_planned ''b'' ''key'' ''1'' = Some p" using demo_plans(1) by (auto split: option.splits)
  have "starts_with (visible_body ?cfg (demo_peer ''a'') p) ''[mux''"
    using peers_announce_themselves [of ?cfg "Some demo_authority" "\<lambda>_. (Some ''bare'', True)", OF _ refl refl f] c by auto
  then show ?thesis by (intro exI [of _ ?cfg] exI [of _ p] exI [of _ "demo_peer ''a''"]) simp
qed

theorem revoked_is_never_delivered_witness:
  "\<exists>st r row effects st2. plan_revoke ''a'' ''1m'' st = Inr r \<and> revoke_planned r 120 st = Inr (row, effects, st2)
     \<and> claim_for_delivery ''1m'' 1 None ''user'' ''d'' 130 st2 = queue_conflict ''invalid_state'' [(''state'', PStr ''cancelled'')]"
proof -
  obtain p w1 res w' r where s:
    "qs_messages (messaging_store w') = [r]" "pq_sender_kind r = agent_sender_kind" "pq_sender_id r = Some ''a''"
    "pq_state r = Drafted" "pq_id r = ''1m''"
    by (rule demo_sent)
  let ?st = "messaging_store w'"
  have f: "find_message ''1m'' ?st = Some r" by (simp add: find_message_def s)
  have p: "plan_revoke ''a'' ''1m'' ?st = Inr r"
    by (simp add: plan_revoke_def own_message_def f s ifnull_def is_pending_def pending_states_def)
  obtain row effects st2 where d: "revoke_planned r 120 ?st = Inr (row, effects, st2)"
    by (simp add: revoke_planned_def cancel_item_def cancel_kinds_def announced_def cancel_message_def on_message_def f s
      is_pending_def pending_states_def Let_def)
  from revoked_is_never_delivered [OF p d] p d show ?thesis by blast
qed

end
