(* ===== verification/Spec2Isabelle.thy ===== *)
theory Spec2Isabelle
  imports Replay_Modes Stream_Readers Device_Presence Terminal_Connection Schedule_Daemon Queue_Daemon
    Delivery_Writing Auto_Grants Agent_Relays Agent_Outcomes
begin

text \<open>
  A verification library for swe-mux, a multiplexer of terminal sessions for coding agents: a daemon
  owns pseudo terminals, keeps their output, serves it to several browser clients, arbitrates who
  types, and starts further sessions by itself. All paths below are under \<^verbatim>\<open>src/src/swe_mux/\<close>.

  \<^bold>\<open>The parts and how they interact.\<close>
  The output of a session's pseudo terminal enters \<^verbatim>\<open>terminal_core/stream.py\<close>: it is kept in the byte
  ring of \<^verbatim>\<open>scrollback.py\<close>, read by the mode parsers of \<^verbatim>\<open>screen_mode.py\<close>, and fanned out to the
  subscribers' bounded queues. Each browser connection (\<^verbatim>\<open>terminal_core/connection.py\<close>) owns one
  subscriber: it attaches with a replay or a delta, sends the queue under the credit of
  \<^verbatim>\<open>terminal_core/flow.py\<close>, and hands what the browser types to \<^verbatim>\<open>terminal_core/core.py\<close>. The core holds
  the input owner and the viewports (decided by the pure functions of \<^verbatim>\<open>terminal_arbitration.py\<close>), the
  estimate of unsubmitted text (\<^verbatim>\<open>composer_input.py\<close>), the repaint pulses, and the one gate through which
  mux itself writes into a composer. \<^verbatim>\<open>device_presence.py\<close> says which device class the human is at.
  Beside the terminals, \<^verbatim>\<open>scheduler.py\<close> fires schedules: definitions and times come from
  \<^verbatim>\<open>schedules.py\<close>, rows and the claim on an occurrence from \<^verbatim>\<open>schedule_store.py\<close>. Prompts for the agents
  wait in the queue of \<^verbatim>\<open>prompt_queue.py\<close>, one line per session, filled by people, agents, rules and
  schedules. A send asks \<^verbatim>\<open>delivery_readiness.py\<close> for a verdict on the session, writes through the core's
  gate with that verdict as its condition, and presses submit until a turn opens.
  \<^verbatim>\<open>auto_delivery.py\<close> presses send by itself for sessions that hold a grant. \<^verbatim>\<open>agent_messaging.py\<close> lets one
  agent put messages into another's queue, within the scopes of \<^verbatim>\<open>project_scope.py\<close> and at the levels of
  \<^verbatim>\<open>agent_authority.py\<close>; the receiver's policy row decides whether they arrive armed.

  \<^bold>\<open>Which theory models what.\<close>
  \<^item> \<open>Mux_Prelude\<close>: the types that stand for Python values (\<^verbatim>\<open>bytes\<close> and \<^verbatim>\<open>str\<close> as character lists, floats
    of seconds as rationals, dictionaries as association lists in insertion order, fallible calls as a
    sum), Python's slicing and searching, and the collections of rewrite rules.
  \<^item> \<open>Py_Regex\<close>, \<open>Py_Text\<close>: the part of \<^verbatim>\<open>re\<close> and of \<^verbatim>\<open>str\<close> the modules use.
  \<^item> \<open>Scrollback\<close> (\<^verbatim>\<open>ScrollbackBuffer\<close>), \<open>Screen_Mode\<close> (the three parsers), \<open>Terminal_Stream\<close>
    (\<^verbatim>\<open>TerminalStream\<close>, \<^verbatim>\<open>PtySubscriber\<close>).
  \<^item> \<open>Stream_Readers\<close>: a subscriber together with its sender loop, as a step relation over every
    interleaving; \<open>Replay_Modes\<close>: what a fresh terminal makes of a replay.
  \<^item> \<open>Terminal_Arbitration\<close>, \<open>Composer_Input\<close>, \<open>Pointer_Input\<close>, \<open>Output_Flow\<close>, \<open>Device_Presence\<close>: one module
    each, with its own records.
  \<^item> \<open>Terminal_Core\<close> (\<^verbatim>\<open>TerminalCore\<close>: one record, one function per method, a suspending coroutine as one
    function before and one after its \<^verbatim>\<open>await\<close>), \<open>Core_Safety\<close> (runs of a core).
  \<^item> \<open>Terminal_Connection\<close>: the handshake, the handlers of the client's messages, claims, batching and
    detaching, over a world of one core and its connections.
  \<^item> \<open>Cron\<close>, \<open>Schedules\<close>: the two halves of \<^verbatim>\<open>schedules.py\<close>; \<open>Schedule_Store\<close>: its two tables as row lists
    and its statements; \<open>Scheduler\<close>: one fire, the sweep, run-now and restore; \<open>Schedule_Daemon\<close>: fires
    interleaved at their \<^verbatim>\<open>await\<close>s, with crashes.
  \<^item> \<open>Queue_Store\<close>: the tables of \<^verbatim>\<open>prompt_queue.py\<close> as row lists and every statement of
    \<^verbatim>\<open>PromptQueueStore\<close>; \<open>Queue_Order\<close>: a session's queue as the abstract list it promises.
  \<^item> \<open>Harness_Rules\<close> (the delivery rules of \<^verbatim>\<open>harness.py\<close> over its registry), \<open>Delivery_Readiness\<close>
    (the tracker, its events and its verdict).
  \<^item> \<open>Prompt_Queue\<close>: \<^verbatim>\<open>PromptQueueService\<close>, with \<^verbatim>\<open>send_next\<close> as a machine whose steps are the code between
    two \<^verbatim>\<open>await\<close>s; \<open>Queue_Sending\<close>: one send against an arbitrary daemon; \<open>Queue_Endings\<close>: sessions and daemons
    that end; \<open>Queue_Daemon\<close>: many sends and requests at once, with restarts; \<open>Delivery_Writing\<close>: a send
    composed with \<open>Terminal_Core\<close>, and \<^verbatim>\<open>_note_prompt_authorship\<close> of \<^verbatim>\<open>observation.py\<close>.
  \<^item> \<open>Auto_Delivery\<close>: \<^verbatim>\<open>AutoDeliveryController\<close>, its pass as a machine over the send machine; \<open>Auto_Looks\<close>: its
    runs and what a send rests on; \<open>Auto_Rows\<close>, \<open>Auto_Grants\<close>: policy rows and the life of a grant.
  \<^item> \<open>Agent_Authority\<close> (levels and scopes), \<open>Agent_Messaging\<close> (\<^verbatim>\<open>AgentMessagingService\<close>: \<^verbatim>\<open>notify\<close> as the
    function that checks and the function that stages, \<^verbatim>\<open>revoke\<close>, \<^verbatim>\<open>message_status\<close>); \<open>Agent_Notices\<close>: one
    notification; \<open>Agent_Relays\<close>: many of them interleaved with the rest of the queue; \<open>Agent_Outcomes\<close>: what
    the text says of its sender, withdrawal and retries.

  \<^bold>\<open>What is shown.\<close>
  Output: the ring is an ideal ring (\<open>Scrollback\<close>); a delta attach is lossless; the parsers do not depend
  on how output is cut into chunks, provided sequences fit the carry; a replay leaves a client in the
  modes of the whole history; what a reader was sent since its last anchor is contiguous and every lost
  byte is counted (\<open>Stream_Readers\<close>).
  Input: only the owner's bytes are written; typed text is never dropped silently; a claim displaces in
  exactly the listed situations and an epoch names one owner; a detached connection leaves nothing
  behind; a conditional delivery that succeeds was not overtaken; the last resize of the pseudo terminal
  is the arbitrated one whenever no pulse is under way.
  Schedules: the search for the next fire returns the first instant the expression names up to its
  horizon, and none exactly when there is none; accepted definitions are legal and come back from the
  store unchanged; one occurrence yields at most one session however fires, edits and crashes interleave;
  a sweep leaves nothing due.
  Queue: every operation refines a list operation on the visible queue, and a delivery is claimed exactly
  at the head of its line (\<open>Queue_Order\<close>); a text is pasted at most once however sends, edits, endings and
  restarts interleave (\<open>Queue_Daemon\<close>); a paste carries the verdict it was judged by, and lands in the
  composer that verdict saw, undisturbed (\<open>Queue_Sending\<close>, \<open>Delivery_Writing\<close>); a send ends; a safe verdict is
  characterised (\<open>Delivery_Readiness\<close>).
  Automatic delivery: what a send rests on; a failed delivery switches its session off until a person
  acts; the conversation default grants exactly what it documents.
  Messages between agents: relay paths are free of rings and within their depth under every interleaving
  (\<open>Agent_Relays\<close>); one call keeps every bound and does what its dry run said (\<open>Agent_Notices\<close>); a revoked
  message is never delivered; a peer's text announces itself unless the Project chose otherwise; levels
  only narrow (\<open>Agent_Authority\<close>).
  Some properties state what the code does where that differs from what it documents (a reseed strands a
  reader that still owes itself a resync; a mode switch evicted by the ring is not restored; a resize
  within a pulse is not repainted; a skipped fire erases the overlap guard; a move to the front overtakes
  a delivery under way; a late settlement revives a deleted message; an opt-out during a pass is taken for
  a spent budget; a retry at the limit is refused; overlapping calls overrun a budget). The manifest lists them as findings.

  \<^bold>\<open>Interfaces.\<close> \<open>byte_ring\<close> (what the stream needs of the ring, interpreted in \<open>Scrollback\<close>),
  \<open>marker_scanner\<close> (when a bounded carry makes an incremental scan exact, interpreted for the three
  expressions of \<open>Screen_Mode\<close>), \<open>claim_register\<close> (a table that grants a key at most once, interpreted in
  \<open>Schedule_Daemon\<close> by the claim statement on the run table).

  \<^bold>\<open>Bounds and fuel.\<close> The cron walk visits at most the source's own 1500 days, which is its recursion
  argument, so nothing is cut short by the model. A send runs for as many steps as it is given moments;
  \<open>every_send_ends\<close> shows that 15 and the cost of its submit ladder are enough (117 with the source's
  delays). All other loops recurse on their data. Queue limits, carries, byte budgets, attempts and
  intervals are the source's constants.

  \<^bold>\<open>Parameters.\<close> Time zones and the host clock (a pair of functions between instants and wall moments),
  the agent harness table, the outcome of the screen classifier, the printing of Python floats and
  containers, the recogniser of secrets, \<^verbatim>\<open>uuid4\<close>, the session registry, spawning and resuming, the answer
  of a terminal write, and the other services' open requests are arguments of the definitions that use
  them. A clock read inside an operation is an argument as well; the reads of one stretch share one.

  \<^bold>\<open>Not modelled.\<close> Sockets, processes, files, threads and the database file itself, its schema migrations
  and read caches (I/O); the prose of error messages and log lines; rounding of floats, \<^verbatim>\<open>nan\<close> and
  infinities. The modules that only call out or render (HTTP routes, harness adapters, the command line,
  installers, voice, telemetry, git and browser glue) have no entry beyond the component list of the
  manifest. Of \<^verbatim>\<open>agent_messaging.py\<close> the drafted spawn requests and the mailbox view are left out: they
  append to and read the observation files of the Projects. The land queue, transcript observation and
  session recovery keep rules of their own and stand there as not modelled.
\<close>

end
